(* ===== verification/Prelude.thy ===== *)
theory Prelude
  imports Main "HOL-Library.Word" "HOL-Library.Code_Target_Numeral"
begin

text \<open>
  Shared vocabulary of the development: Go's fixed-width integers, byte strings with the
  little-endian codecs of \<^verbatim>\<open>encoding/binary\<close>, and the error-and-state monad in which the
  stateful components are written.

  A Go \<^verbatim>\<open>int64\<close> is an \<^typ>\<open>int\<close> in the range \<open>is_i64\<close>; every machine operation on it is
  followed by the wrap-around \<open>i64\<close>.  An unsigned integer is a \<^typ>\<open>nat\<close> with the modulus
  written out.  A Go function that mutates its receiver and returns an error is a computation
  \<open>('s, 'e, 'a) comp\<close>: it returns the error or the value, and the state in both cases, since
  Go callers can observe the state that a failed call leaves behind.
\<close>

named_theorems range_simps \<open>range facts about fixed-width integers\<close>
named_theorems comp_simps \<open>unfolding of the error-and-state monad\<close>

section \<open>Fixed-width integers\<close>

type_synonym byte = "8 word"
type_synonym bytes = "byte list"

abbreviation MaxInt64 :: int where "MaxInt64 \<equiv> 9223372036854775807"
abbreviation MinInt64 :: int where "MinInt64 \<equiv> - 9223372036854775808"
abbreviation MaxInt32 :: int where "MaxInt32 \<equiv> 2147483647"
abbreviation MinInt32 :: int where "MinInt32 \<equiv> - 2147483648"
abbreviation MaxUint64 :: nat where "MaxUint64 \<equiv> 18446744073709551615"
abbreviation MaxUint32 :: nat where "MaxUint32 \<equiv> 4294967295"

definition i64 :: "int \<Rightarrow> int" where
  "i64 x = (x + 9223372036854775808) mod 18446744073709551616 - 9223372036854775808"

definition i32 :: "int \<Rightarrow> int" where
  "i32 x = (x + 2147483648) mod 4294967296 - 2147483648"

definition u64 :: "nat \<Rightarrow> nat" where
  "u64 x = x mod 18446744073709551616"

definition u32 :: "nat \<Rightarrow> nat" where
  "u32 x = x mod 4294967296"

definition is_i64 :: "int \<Rightarrow> bool" where
  "is_i64 x \<longleftrightarrow> MinInt64 \<le> x \<and> x \<le> MaxInt64"

definition is_i32 :: "int \<Rightarrow> bool" where
  "is_i32 x \<longleftrightarrow> MinInt32 \<le> x \<and> x \<le> MaxInt32"

definition is_u64 :: "nat \<Rightarrow> bool" where
  "is_u64 x \<longleftrightarrow> x \<le> MaxUint64"

definition is_u32 :: "nat \<Rightarrow> bool" where
  "is_u32 x \<longleftrightarrow> x \<le> MaxUint32"

text \<open>The conversions \<^verbatim>\<open>uint64(n)\<close> and \<^verbatim>\<open>int64(u)\<close>.\<close>

definition u64_of_i64 :: "int \<Rightarrow> nat" where
  "u64_of_i64 n = nat (n mod 18446744073709551616)"

definition i64_of_u64 :: "nat \<Rightarrow> int" where
  "i64_of_u64 u = i64 (int u)"

text \<open>\<^verbatim>\<open>uint32\<close> subtraction wraps around.\<close>

definition sub_u32 :: "nat \<Rightarrow> nat \<Rightarrow> nat" where
  "sub_u32 a b = u32 (a + (4294967296 - b mod 4294967296))"

definition sub_u64 :: "nat \<Rightarrow> nat \<Rightarrow> nat" where
  "sub_u64 a b = u64 (a + (18446744073709551616 - b mod 18446744073709551616))"

text \<open>Go's \<^verbatim>\<open>/\<close> and \<^verbatim>\<open>%\<close> truncate towards zero.\<close>

definition go_quot :: "int \<Rightarrow> int \<Rightarrow> int" where
  "go_quot a b = sgn a * sgn b * (\<bar>a\<bar> div \<bar>b\<bar>)"

definition go_rem :: "int \<Rightarrow> int \<Rightarrow> int" where
  "go_rem a b = a - b * go_quot a b"

lemma i64_id [range_simps]: "is_i64 x \<Longrightarrow> i64 x = x"
  by (simp add: i64_def is_i64_def)

lemma i64_idI: "MinInt64 \<le> x \<Longrightarrow> x \<le> MaxInt64 \<Longrightarrow> i64 x = x"
  by (simp add: i64_def)

lemma i64_range [simp]: "is_i64 (i64 x)"
proof -
  have "0 \<le> (x + 9223372036854775808) mod 18446744073709551616"
    "(x + 9223372036854775808) mod 18446744073709551616 < 18446744073709551616"
    by simp_all
  then show ?thesis by (simp add: i64_def is_i64_def)
qed

lemma i64_bounds: "MinInt64 \<le> i64 x" "i64 x \<le> MaxInt64"
  using i64_range [of x] by (simp_all add: is_i64_def)

lemma i64_0 [simp]: "i64 0 = 0"
  by (simp add: i64_def)

lemma i32_id [range_simps]: "is_i32 x \<Longrightarrow> i32 x = x"
  by (simp add: i32_def is_i32_def)

lemma i32_range [simp]: "is_i32 (i32 x)"
proof -
  have "0 \<le> (x + 2147483648) mod 4294967296" "(x + 2147483648) mod 4294967296 < 4294967296"
    by simp_all
  then show ?thesis by (simp add: i32_def is_i32_def)
qed

lemma u64_id [range_simps]: "is_u64 x \<Longrightarrow> u64 x = x"
  by (simp add: u64_def is_u64_def)

lemma u32_id [range_simps]: "is_u32 x \<Longrightarrow> u32 x = x"
  by (simp add: u32_def is_u32_def)

lemma u32_less [simp]: "u32 x < 4294967296"
  by (simp add: u32_def)

lemma u32_le: "u32 x \<le> x"
  by (simp add: u32_def)

lemma u64_less [simp]: "u64 x < 18446744073709551616"
  by (simp add: u64_def)

lemma is_u64_u64 [simp]: "is_u64 (u64 x)"
  using u64_less [of x] unfolding is_u64_def by linarith

lemma i64_of_u64_of_i64: "is_i64 n \<Longrightarrow> i64_of_u64 (u64_of_i64 n) = n"
proof -
  assume n: "is_i64 n"
  have "(n mod 18446744073709551616 + 9223372036854775808) mod 18446744073709551616
      = (n + 9223372036854775808) mod 18446744073709551616"
    by (simp add: mod_add_left_eq)
  then have "i64 (n mod 18446744073709551616) = i64 n"
    by (simp add: i64_def)
  with n show ?thesis
    by (simp add: i64_of_u64_def u64_of_i64_def i64_id)
qed

lemma go_quot_nonneg: "0 \<le> a \<Longrightarrow> 0 < b \<Longrightarrow> go_quot a b = a div b"
  by (cases "a = 0") (simp_all add: go_quot_def)

lemma go_rem_abs: "b \<noteq> 0 \<Longrightarrow> \<bar>go_rem a b\<bar> < \<bar>b\<bar>"
proof -
  assume b: "b \<noteq> 0"
  have "a = sgn a * \<bar>a\<bar>" "b = sgn b * \<bar>b\<bar>"
    by (simp_all add: sgn_mult_abs)
  then have "go_rem a b = sgn a * \<bar>a\<bar> - sgn b * \<bar>b\<bar> * (sgn a * sgn b * (\<bar>a\<bar> div \<bar>b\<bar>))"
    by (metis go_quot_def go_rem_def)
  also have "\<dots> = sgn a * (\<bar>a\<bar> - \<bar>b\<bar> * (\<bar>a\<bar> div \<bar>b\<bar>))"
    using b by (cases "b > 0") (simp_all add: algebra_simps)
  also have "\<dots> = sgn a * (\<bar>a\<bar> mod \<bar>b\<bar>)"
    by (simp add: minus_mult_div_eq_mod)
  finally have "\<bar>go_rem a b\<bar> = \<bar>sgn a\<bar> * (\<bar>a\<bar> mod \<bar>b\<bar>)"
    using b by (simp add: abs_mult)
  also have "\<dots> \<le> \<bar>a\<bar> mod \<bar>b\<bar>"
    using b by (cases "a = 0") simp_all
  also have "\<dots> < \<bar>b\<bar>"
    using b by simp
  finally show ?thesis .
qed

section \<open>Little-endian codecs\<close>

text \<open>\<^verbatim>\<open>binary.LittleEndian.PutUint16/32/64\<close> and \<^verbatim>\<open>Uint16/32/64\<close>.\<close>

primrec le_bytes :: "nat \<Rightarrow> nat \<Rightarrow> bytes" where
  "le_bytes 0 v = []"
| "le_bytes (Suc k) v = of_nat (v mod 256) # le_bytes k (v div 256)"

primrec le_nat :: "bytes \<Rightarrow> nat" where
  "le_nat [] = 0"
| "le_nat (b # bs) = unat b + 256 * le_nat bs"

lemma length_le_bytes [simp]: "length (le_bytes k v) = k"
  by (induction k arbitrary: v) simp_all

lemma unat_byte_of_nat [simp]: "unat (of_nat (v mod 256) :: byte) = v mod 256"
  by (simp add: unat_of_nat)

lemma unat_byte_less [simp]: "unat (b :: byte) < 256"
  using unsigned_less [of b, where ?'a = nat] by simp

lemma le_nat_le_bytes: "le_nat (le_bytes k v) = v mod 256 ^ k"
proof (induction k arbitrary: v)
  case 0
  then show ?case by simp
next
  case (Suc k)
  have "v mod 256 + 256 * (v div 256 mod 256 ^ k) = v mod (256 * 256 ^ k)"
    by (simp add: mod_mult2_eq)
  with Suc show ?case by (simp del: unat_of_nat)
qed

lemma le_nat_bound: "le_nat bs < 256 ^ length bs"
proof (induction bs)
  case Nil
  then show ?case by simp
next
  case (Cons b bs)
  have "unat b + 256 * le_nat bs < 256 + 256 * le_nat bs"
    by simp
  also have "\<dots> = 256 * Suc (le_nat bs)"
    by simp
  also have "\<dots> \<le> 256 * 256 ^ length bs"
    using Cons by (intro mult_le_mono2) simp
  finally show ?case by simp
qed

lemma le_bytes_le_nat: "le_bytes (length bs) (le_nat bs) = bs"
proof (induction bs)
  case Nil
  then show ?case by simp
next
  case (Cons b bs)
  have "(unat b + 256 * le_nat bs) mod 256 = unat b"
    by (simp add: mod_less)
  moreover have "(unat b + 256 * le_nat bs) div 256 = le_nat bs"
    by (simp add: div_less)
  ultimately show ?case using Cons by simp
qed

lemma le_nat_append: "le_nat (xs @ ys) = le_nat xs + 256 ^ length xs * le_nat ys"
  by (induction xs) (simp_all add: algebra_simps)

lemma le_nat_replicate_0 [simp]: "le_nat (replicate n 0) = 0"
  by (induction n) simp_all

section \<open>Computations that may fail and keep their state\<close>

type_synonym ('s, 'e, 'a) comp = "'s \<Rightarrow> ('e + 'a) \<times> 's"

definition returnE :: "'a \<Rightarrow> ('s, 'e, 'a) comp" where
  [comp_simps]: "returnE x = (\<lambda>s. (Inr x, s))"

definition throwE :: "'e \<Rightarrow> ('s, 'e, 'a) comp" where
  [comp_simps]: "throwE e = (\<lambda>s. (Inl e, s))"

definition bindE :: "('s, 'e, 'a) comp \<Rightarrow> ('a \<Rightarrow> ('s, 'e, 'b) comp) \<Rightarrow> ('s, 'e, 'b) comp" where
  "bindE m f = (\<lambda>s. case m s of (Inl e, s') \<Rightarrow> (Inl e, s') | (Inr x, s') \<Rightarrow> f x s')"

definition thenE :: "('s, 'e, unit) comp \<Rightarrow> ('s, 'e, 'b) comp \<Rightarrow> ('s, 'e, 'b) comp" where
  "thenE m k = bindE m (\<lambda>_. k)"

definition getsE :: "('s \<Rightarrow> 'a) \<Rightarrow> ('s, 'e, 'a) comp" where
  [comp_simps]: "getsE f = (\<lambda>s. (Inr (f s), s))"

definition modifyE :: "('s \<Rightarrow> 's) \<Rightarrow> ('s, 'e, unit) comp" where
  [comp_simps]: "modifyE f = (\<lambda>s. (Inr (), f s))"

text \<open>\<^verbatim>\<open>if !cond { return err }\<close>\<close>

definition assertE :: "bool \<Rightarrow> 'e \<Rightarrow> ('s, 'e, unit) comp" where
  [comp_simps]: "assertE b e = (if b then returnE () else throwE e)"

text \<open>\<^verbatim>\<open>for _, x := range xs { if err := f(x); err != nil { return err } }\<close>\<close>

primrec forE :: "('a \<Rightarrow> ('s, 'e, unit) comp) \<Rightarrow> 'a list \<Rightarrow> ('s, 'e, unit) comp" where
  "forE f [] = returnE ()"
| "forE f (x # xs) = thenE (f x) (forE f xs)"

text \<open>A loop of \<open>n\<close> rounds that collects the values its body returns.\<close>

primrec collectE :: "nat \<Rightarrow> ('s, 'e, 'a) comp \<Rightarrow> ('s, 'e, 'a list) comp" where
  "collectE 0 m = returnE []"
| "collectE (Suc n) m = bindE m (\<lambda>x. bindE (collectE n m) (\<lambda>xs. returnE (x # xs)))"

lemma bindE_apply [comp_simps]:
  "bindE m f s = (case m s of (Inl e, s') \<Rightarrow> (Inl e, s') | (Inr x, s') \<Rightarrow> f x s')"
  by (simp add: bindE_def)

lemma thenE_apply [comp_simps]:
  "thenE m k s = (case m s of (Inl e, s') \<Rightarrow> (Inl e, s') | (Inr _, s') \<Rightarrow> k s')"
  by (simp add: thenE_def bindE_def)

lemma bindE_Inr_iff:
  "bindE m f s = (Inr y, s'') \<longleftrightarrow> (\<exists>x s'. m s = (Inr x, s') \<and> f x s' = (Inr y, s''))"
  by (auto simp: bindE_def split: prod.splits sum.splits)

lemma thenE_Inr_iff:
  "thenE m k s = (Inr y, s'') \<longleftrightarrow> (\<exists>s'. m s = (Inr (), s') \<and> k s' = (Inr y, s''))"
  by (simp add: thenE_def bindE_Inr_iff)

lemma runs_ok: "fst r = Inr x \<Longrightarrow> r = (Inr x, snd r)"
  by (metis prod.collapse)

lemma forE_map: "forE f (map g xs) = forE (\<lambda>x. f (g x)) xs"
  by (induction xs) simp_all

lemma forE_cong: "(\<And>x. x \<in> set xs \<Longrightarrow> f x = g x) \<Longrightarrow> forE f xs = forE g xs"
  by (induction xs) simp_all

lemma forE_append: "forE f (xs @ ys) s = thenE (forE f xs) (forE f ys) s"
  by (induction xs arbitrary: s) (simp_all add: thenE_apply returnE_def split: sum.splits prod.splits)

lemma forE_Inr_step:
  "forE f xs s = (Inr (), s') \<Longrightarrow> x \<in> set xs \<Longrightarrow> \<exists>s1 s2. f x s1 = (Inr (), s2)"
  by (induction xs arbitrary: s) (auto simp: thenE_Inr_iff)

lemma bindE_assoc: "bindE (bindE m f) g = bindE m (\<lambda>x. bindE (f x) g)"
  by (rule ext) (auto simp: bindE_def split: prod.splits sum.splits)

lemma bindE_thenE: "bindE (thenE m k) f = thenE m (bindE k f)"
  by (simp add: thenE_def bindE_assoc)

lemma bindE_returnE: "bindE (returnE x) f = f x"
  by (simp add: bindE_def returnE_def)

lemmas bindE_laws = bindE_assoc bindE_thenE bindE_returnE

subsection \<open>A Hoare logic for computations\<close>

text \<open>
  \<open>hoare P m Q E\<close>: from a state in \<open>P\<close>, a normal return of \<open>m\<close> satisfies \<open>Q\<close> and a failure
  satisfies \<open>E\<close>.  The rules below are applied backwards, one per command of a computation.
\<close>

definition hoare ::
  "('s \<Rightarrow> bool) \<Rightarrow> ('s, 'e, 'a) comp \<Rightarrow> ('a \<Rightarrow> 's \<Rightarrow> bool) \<Rightarrow> ('e \<Rightarrow> 's \<Rightarrow> bool) \<Rightarrow> bool" where
  "hoare P m Q E \<longleftrightarrow>
     (\<forall>s. P s \<longrightarrow> (case m s of (Inl e, s') \<Rightarrow> E e s' | (Inr x, s') \<Rightarrow> Q x s'))"

lemma hoareI:
  assumes "\<And>s x s'. P s \<Longrightarrow> m s = (Inr x, s') \<Longrightarrow> Q x s'"
    and "\<And>s e s'. P s \<Longrightarrow> m s = (Inl e, s') \<Longrightarrow> E e s'"
  shows "hoare P m Q E"
  using assms by (auto simp: hoare_def split: prod.splits sum.splits)

lemma hoareD_Inr: "hoare P m Q E \<Longrightarrow> P s \<Longrightarrow> m s = (Inr x, s') \<Longrightarrow> Q x s'"
  by (auto simp: hoare_def split: prod.splits sum.splits)

lemma hoareD_Inl: "hoare P m Q E \<Longrightarrow> P s \<Longrightarrow> m s = (Inl e, s') \<Longrightarrow> E e s'"
  by (auto simp: hoare_def split: prod.splits sum.splits)

lemma hoare_weaken:
  "hoare P m Q E \<Longrightarrow> (\<And>s. P' s \<Longrightarrow> P s) \<Longrightarrow> (\<And>x s. Q x s \<Longrightarrow> Q' x s) \<Longrightarrow>
   (\<And>e s. E e s \<Longrightarrow> E' e s) \<Longrightarrow> hoare P' m Q' E'"
  by (fastforce simp: hoare_def split: prod.splits sum.splits)

lemma hoare_pre: "hoare P m Q E \<Longrightarrow> (\<And>s. P' s \<Longrightarrow> P s) \<Longrightarrow> hoare P' m Q E"
  by (auto simp: hoare_def)

lemma hoare_returnE: "hoare (Q x) (returnE x) Q E"
  by (simp add: hoare_def returnE_def)

lemma hoare_throwE: "hoare (E e) (throwE e) Q E"
  by (simp add: hoare_def throwE_def)

lemma hoare_getsE: "hoare (\<lambda>s. Q (f s) s) (getsE f) Q E"
  by (simp add: hoare_def getsE_def)

lemma hoare_modifyE: "hoare (\<lambda>s. Q () (f s)) (modifyE f) Q E"
  by (simp add: hoare_def modifyE_def)

lemma hoare_assertE: "hoare (\<lambda>s. (b \<longrightarrow> Q () s) \<and> (\<not> b \<longrightarrow> E e s)) (assertE b e) Q E"
  by (simp add: hoare_def assertE_def returnE_def throwE_def)

lemma hoare_bindE:
  assumes "hoare P m R E" and "\<And>x. hoare (R x) (f x) Q E"
  shows "hoare P (bindE m f) Q E"
  using assms unfolding hoare_def bindE_def
  by (fastforce split: prod.splits sum.splits)

lemma hoare_thenE:
  assumes "hoare P m R E" and "hoare (R ()) k Q E"
  shows "hoare P (thenE m k) Q E"
  unfolding thenE_def by (rule hoare_bindE) (use assms in auto)

lemma hoare_if:
  "(b \<Longrightarrow> hoare P m Q E) \<Longrightarrow> (\<not> b \<Longrightarrow> hoare P k Q E) \<Longrightarrow> hoare P (if b then m else k) Q E"
  by simp

lemma hoare_forE:
  assumes "\<And>x. x \<in> set xs \<Longrightarrow> hoare P (f x) (\<lambda>_. P) E"
  shows "hoare P (forE f xs) (\<lambda>_. P) E"
  using assms
proof (induction xs)
  case Nil
  then show ?case by (simp add: hoare_def returnE_def)
next
  case (Cons x xs)
  then show ?case by (auto intro: hoare_thenE)
qed

lemma hoare_collectE:
  assumes "hoare P m (\<lambda>_. P) E"
  shows "hoare P (collectE n m) (\<lambda>_. P) E"
proof (induction n)
  case 0
  then show ?case by (simp add: hoare_def returnE_def)
next
  case (Suc n)
  have "hoare P (bindE (collectE n m) (\<lambda>xs. returnE (x # xs))) (\<lambda>_. P) E" for x
    by (rule hoare_bindE [OF Suc]) (rule hoare_returnE)
  then show ?case by (auto intro: hoare_bindE [OF assms])
qed

section \<open>Loops with fuel\<close>

text \<open>
  A loop of the source that may run for long is modelled with fuel: \<open>loop n\<close> makes at most \<open>n\<close>
  rounds of \<open>body\<close> and fails with \<open>out\<close> when they do not suffice.  When an invariant holds and a
  measure decreases with every round, more fuel than the measure is enough.
\<close>

locale fuelled_loop =
  fixes finished :: "'s \<Rightarrow> bool" and body :: "nat \<Rightarrow> ('s, 'e, unit) comp"
    and loop :: "nat \<Rightarrow> ('s, 'e, unit) comp" and out :: 'e
    and inv :: "'s \<Rightarrow> bool" and mu :: "'s \<Rightarrow> nat" and E :: "'e \<Rightarrow> 's \<Rightarrow> bool"
  assumes loop_0: "loop 0 s = (if finished s then (Inr (), s) else (Inl out, s))"
    and loop_Suc: "loop (Suc n) s = (if finished s then (Inr (), s) else thenE (body n) (loop n) s)"
    and body_ok: "inv s \<Longrightarrow> \<not> finished s \<Longrightarrow> body n s = (Inr x, s') \<Longrightarrow> inv s' \<and> mu s' < mu s"
    and body_err: "inv s \<Longrightarrow> \<not> finished s \<Longrightarrow> body n s = (Inl e, s') \<Longrightarrow> E e s' \<and> e \<noteq> out"
begin

lemma loop_ends:
  assumes "inv s" "mu s < n" "loop n s = (r, s')"
  shows "case r of Inl e \<Rightarrow> E e s' \<and> e \<noteq> out | Inr _ \<Rightarrow> inv s' \<and> finished s'"
  using assms
proof (induction n arbitrary: s)
  case (Suc n)
  show ?case
  proof (cases "finished s")
    case True
    with Suc.prems show ?thesis by (auto simp: loop_Suc)
  next
    case False
    obtain r1 s1 where b: "body n s = (r1, s1)" by fastforce
    show ?thesis
    proof (cases r1)
      case (Inl e)
      with False b Suc.prems body_err [of s n e s1] show ?thesis by (auto simp: loop_Suc thenE_apply)
    next
      case (Inr x)
      with False b Suc.prems body_ok [of s n x s1] Suc.IH [of s1] show ?thesis
        by (auto simp: loop_Suc thenE_apply)
    qed
  qed
qed simp

end

end
