(* ===== verification/Checked.thy ===== *)
theory Checked
  imports Prelude
begin

text \<open>
  Model of \<^verbatim>\<open>math/checked/checked.go\<close>: arithmetic with overflow checks on \<^verbatim>\<open>int64\<close>,
  \<^verbatim>\<open>int32\<close>, \<^verbatim>\<open>uint64\<close> and \<^verbatim>\<open>uint32\<close>.  Each function returns the result and a flag,
  as the Go code does.  The guards are transcribed literally, including the wrap-around of the
  machine operations inside them; the lemmas show that every function computes the exact
  mathematical result whenever that result fits, and reports failure exactly when it does not.
\<close>

section \<open>Operations\<close>

definition AddInt64 :: "int \<Rightarrow> int \<Rightarrow> int \<times> bool" where
  "AddInt64 a b =
     (if (b > 0 \<and> a > i64 (MaxInt64 - b)) \<or> (b < 0 \<and> a < i64 (MinInt64 - b))
      then (0, False) else (i64 (a + b), True))"

definition SubInt64 :: "int \<Rightarrow> int \<Rightarrow> int \<times> bool" where
  "SubInt64 a b =
     (if (b > 0 \<and> a < i64 (MinInt64 + b)) \<or> (b < 0 \<and> a > i64 (MaxInt64 + b))
      then (0, False) else (i64 (a - b), True))"

definition MulInt64 :: "int \<Rightarrow> int \<Rightarrow> int \<times> bool" where
  "MulInt64 a b =
     (if (a > 0 \<and> b > 0 \<and> a > i64 (go_quot MaxInt64 b)) \<or>
         (a > 0 \<and> b \<le> 0 \<and> b < i64 (go_quot MinInt64 a)) \<or>
         (a \<le> 0 \<and> b > 0 \<and> a < i64 (go_quot MinInt64 b)) \<or>
         (a < 0 \<and> b \<le> 0 \<and> b < i64 (go_quot MaxInt64 a))
      then (0, False) else (i64 (a * b), True))"

definition DivInt64 :: "int \<Rightarrow> int \<Rightarrow> int \<times> bool" where
  "DivInt64 a b =
     (if b = 0 \<or> (a = MinInt64 \<and> b = - 1) then (0, False) else (i64 (go_quot a b), True))"

definition ModInt64 :: "int \<Rightarrow> int \<Rightarrow> int \<times> bool" where
  "ModInt64 a b =
     (if b = 0 \<or> (a = MinInt64 \<and> b = - 1) then (0, False) else (i64 (go_rem a b), True))"

definition NegateInt64 :: "int \<Rightarrow> int \<times> bool" where
  "NegateInt64 a = (if a = MinInt64 then (0, False) else (i64 (- a), True))"

definition LshiftInt64 :: "int \<Rightarrow> int \<Rightarrow> int \<times> bool" where
  "LshiftInt64 a b =
     (if b < 0 \<or> b \<ge> 64 then (0, False)
      else if (a \<ge> 0 \<and> a > MaxInt64 div 2 ^ nat b) \<or> (a < 0 \<and> a < MinInt64 div 2 ^ nat b)
      then (0, False) else (i64 (a * 2 ^ nat b), True))"

definition AddInt32 :: "int \<Rightarrow> int \<Rightarrow> int \<times> bool" where
  "AddInt32 a b =
     (if (b > 0 \<and> a > i32 (MaxInt32 - b)) \<or> (b < 0 \<and> a < i32 (MinInt32 - b))
      then (0, False) else (i32 (a + b), True))"

definition SubInt32 :: "int \<Rightarrow> int \<Rightarrow> int \<times> bool" where
  "SubInt32 a b =
     (if (b > 0 \<and> a < i32 (MinInt32 + b)) \<or> (b < 0 \<and> a > i32 (MaxInt32 + b))
      then (0, False) else (i32 (a - b), True))"

definition MulInt32 :: "int \<Rightarrow> int \<Rightarrow> int \<times> bool" where
  "MulInt32 a b =
     (if (a > 0 \<and> b > 0 \<and> a > i32 (go_quot MaxInt32 b)) \<or>
         (a > 0 \<and> b \<le> 0 \<and> b < i32 (go_quot MinInt32 a)) \<or>
         (a \<le> 0 \<and> b > 0 \<and> a < i32 (go_quot MinInt32 b)) \<or>
         (a < 0 \<and> b \<le> 0 \<and> b < i32 (go_quot MaxInt32 a))
      then (0, False) else (i32 (a * b), True))"

definition DivInt32 :: "int \<Rightarrow> int \<Rightarrow> int \<times> bool" where
  "DivInt32 a b =
     (if b = 0 \<or> (a = MinInt32 \<and> b = - 1) then (0, False) else (i32 (go_quot a b), True))"

definition ModInt32 :: "int \<Rightarrow> int \<Rightarrow> int \<times> bool" where
  "ModInt32 a b =
     (if b = 0 \<or> (a = MinInt32 \<and> b = - 1) then (0, False) else (i32 (go_rem a b), True))"

definition NegateInt32 :: "int \<Rightarrow> int \<times> bool" where
  "NegateInt32 a = (if a = MinInt32 then (0, False) else (i32 (- a), True))"

definition LshiftInt32 :: "int \<Rightarrow> int \<Rightarrow> int \<times> bool" where
  "LshiftInt32 a b =
     (if b < 0 \<or> b \<ge> 32 then (0, False)
      else if (a \<ge> 0 \<and> a > MaxInt32 div 2 ^ nat b) \<or> (a < 0 \<and> a < MinInt32 div 2 ^ nat b)
      then (0, False) else (i32 (a * 2 ^ nat b), True))"

definition AddUint64 :: "nat \<Rightarrow> nat \<Rightarrow> nat \<times> bool" where
  "AddUint64 a b = (if sub_u64 MaxUint64 a < b then (0, False) else (u64 (a + b), True))"

definition SubUint64 :: "nat \<Rightarrow> nat \<Rightarrow> nat \<times> bool" where
  "SubUint64 a b = (if a < b then (0, False) else (sub_u64 a b, True))"

definition MulUint64 :: "nat \<Rightarrow> nat \<Rightarrow> nat \<times> bool" where
  "MulUint64 a b = (if b > 0 \<and> a > MaxUint64 div b then (0, False) else (u64 (a * b), True))"

definition DivUint64 :: "nat \<Rightarrow> nat \<Rightarrow> nat \<times> bool" where
  "DivUint64 a b = (if b = 0 then (0, False) else (a div b, True))"

definition ModUint64 :: "nat \<Rightarrow> nat \<Rightarrow> nat \<times> bool" where
  "ModUint64 a b = (if b = 0 then (0, False) else (a mod b, True))"

definition LshiftUint64 :: "nat \<Rightarrow> nat \<Rightarrow> nat \<times> bool" where
  "LshiftUint64 a b =
     (if b \<ge> 64 then (0, False)
      else if a > MaxUint64 div 2 ^ b then (0, False) else (u64 (a * 2 ^ b), True))"

definition AddUint32 :: "nat \<Rightarrow> nat \<Rightarrow> nat \<times> bool" where
  "AddUint32 a b = (if sub_u32 MaxUint32 a < b then (0, False) else (u32 (a + b), True))"

definition SubUint32 :: "nat \<Rightarrow> nat \<Rightarrow> nat \<times> bool" where
  "SubUint32 a b = (if a < b then (0, False) else (sub_u32 a b, True))"

definition MulUint32 :: "nat \<Rightarrow> nat \<Rightarrow> nat \<times> bool" where
  "MulUint32 a b = (if b > 0 \<and> a > MaxUint32 div b then (0, False) else (u32 (a * b), True))"

definition DivUint32 :: "nat \<Rightarrow> nat \<Rightarrow> nat \<times> bool" where
  "DivUint32 a b = (if b = 0 then (0, False) else (a div b, True))"

definition ModUint32 :: "nat \<Rightarrow> nat \<Rightarrow> nat \<times> bool" where
  "ModUint32 a b = (if b = 0 then (0, False) else (a mod b, True))"

definition LshiftUint32 :: "nat \<Rightarrow> nat \<Rightarrow> nat \<times> bool" where
  "LshiftUint32 a b =
     (if b \<ge> 32 then (0, False)
      else if a > MaxUint32 div 2 ^ b then (0, False) else (u32 (a * 2 ^ b), True))"

section \<open>The contract\<close>

text \<open>
  \<open>checked fits r\<close> is what a checked operation with exact result \<open>r\<close> promises: the result and
  \<open>True\<close> when it fits the type, \<open>(0, False)\<close> when it does not.
\<close>

definition checked :: "('a \<Rightarrow> bool) \<Rightarrow> 'a \<Rightarrow> 'a::zero \<times> bool" where
  "checked fits r = (if fits r then (r, True) else (0, False))"

section \<open>Signed widths\<close>

text \<open>
  What the guards of the signed operations rely on: a two's complement range and a wrap-around
  that is the identity on it.  The guard lemmas are proved once for any width.
\<close>

locale signed_width =
  fixes hi :: int and wrap :: "int \<Rightarrow> int" and fits :: "int \<Rightarrow> bool"
  assumes hi_pos: "0 < hi"
    and fits_iff: "fits x \<longleftrightarrow> - hi - 1 \<le> x \<and> x \<le> hi"
    and wrap_id: "fits x \<Longrightarrow> wrap x = x"
begin

lemma add_guard:
  assumes "fits a" "fits b"
  shows "(b > 0 \<and> a > wrap (hi - b)) \<or> (b < 0 \<and> a < wrap (- hi - 1 - b)) \<longleftrightarrow> \<not> fits (a + b)"
proof -
  have "b > 0 \<Longrightarrow> wrap (hi - b) = hi - b" "b < 0 \<Longrightarrow> wrap (- hi - 1 - b) = - hi - 1 - b"
    using assms hi_pos by (auto simp: fits_iff intro!: wrap_id)
  with assms show ?thesis by (auto simp: fits_iff)
qed

lemma sub_guard:
  assumes "fits a" "fits b"
  shows "(b > 0 \<and> a < wrap (- hi - 1 + b)) \<or> (b < 0 \<and> a > wrap (hi + b)) \<longleftrightarrow> \<not> fits (a - b)"
proof -
  have "b > 0 \<Longrightarrow> wrap (- hi - 1 + b) = - hi - 1 + b" "b < 0 \<Longrightarrow> wrap (hi + b) = hi + b"
    using assms hi_pos by (auto simp: fits_iff intro!: wrap_id)
  with assms show ?thesis by (auto simp: fits_iff)
qed

lemma quot_less_iff: "0 < c \<Longrightarrow> m div c < x \<longleftrightarrow> m < x * (c::int)"
  by (smt (verit, ccfv_threshold) div_mult_mod_eq mult_less_cancel_right pos_mod_bound
      pos_mod_sign zmult_zless_mono2 mult.commute zdiv_mono1 nonzero_mult_div_cancel_right)

lemma div_bounds: "0 \<le> m \<Longrightarrow> 0 < d \<Longrightarrow> 0 \<le> m div d \<and> m div d \<le> (m::int)"
  using zdiv_mono2 [of m 1 d] by (simp add: pos_imp_zdiv_nonneg_iff)

lemma wrap_quot:
  assumes "fits c"
  shows "0 < c \<Longrightarrow> wrap (go_quot hi c) = hi div c"
    and "0 < c \<Longrightarrow> wrap (go_quot (- hi - 1) c) = - ((hi + 1) div c)"
    and "c < 0 \<Longrightarrow> wrap (go_quot hi c) = - (hi div - c)"
proof -
  note b = div_bounds
  have q: "0 < c \<Longrightarrow> go_quot hi c = hi div c"
      "0 < c \<Longrightarrow> go_quot (- hi - 1) c = - ((hi + 1) div c)"
      "c < 0 \<Longrightarrow> go_quot hi c = - (hi div - c)"
    using hi_pos by (simp_all add: go_quot_def sgn_if add.commute)
  show "0 < c \<Longrightarrow> wrap (go_quot hi c) = hi div c"
    using q(1) b [of hi c] hi_pos by (simp add: wrap_id fits_iff)
  show "0 < c \<Longrightarrow> wrap (go_quot (- hi - 1) c) = - ((hi + 1) div c)"
    using q(2) b [of "hi + 1" c] hi_pos by (simp add: wrap_id fits_iff)
  show "c < 0 \<Longrightarrow> wrap (go_quot hi c) = - (hi div - c)"
    using q(3) b [of hi "- c"] hi_pos by (simp add: wrap_id fits_iff)
qed

lemma mul_guard:
  assumes "fits a" "fits b"
  shows "(a > 0 \<and> b > 0 \<and> a > wrap (go_quot hi b)) \<or>
         (a > 0 \<and> b \<le> 0 \<and> b < wrap (go_quot (- hi - 1) a)) \<or>
         (a \<le> 0 \<and> b > 0 \<and> a < wrap (go_quot (- hi - 1) b)) \<or>
         (a < 0 \<and> b \<le> 0 \<and> b < wrap (go_quot hi a)) \<longleftrightarrow> \<not> fits (a * b)"
proof -
  consider "a > 0" "b > 0" | "a > 0" "b \<le> 0" | "a \<le> 0" "b > 0" | "a < 0" "b \<le> 0" | "a = 0"
    by linarith
  then show ?thesis
  proof cases
    case 1
    then have "0 < a * b" by simp
    then have "- hi - 1 \<le> a * b" using hi_pos by linarith
    with 1 show ?thesis
      by (auto simp: wrap_quot [OF assms(2)] quot_less_iff fits_iff)
  next
    case 2
    then have "a * b \<le> 0" by (simp add: mult_nonneg_nonpos)
    with 2 hi_pos quot_less_iff [of a "hi + 1" "- b"] show ?thesis
      by (auto simp: wrap_quot [OF assms(1)] fits_iff algebra_simps)
  next
    case 3
    then have "a * b \<le> 0" by (simp add: mult_nonpos_nonneg)
    with 3 hi_pos quot_less_iff [of b "hi + 1" "- a"] show ?thesis
      by (auto simp: wrap_quot [OF assms(2)] fits_iff algebra_simps)
  next
    case 4
    then have "0 \<le> a * b" by (simp add: mult_nonpos_nonpos)
    with 4 hi_pos quot_less_iff [of "- a" hi "- b"] show ?thesis
      by (auto simp: wrap_quot [OF assms(1)] fits_iff algebra_simps)
  next
    case 5
    with hi_pos show ?thesis
      using wrap_quot(2) [OF assms(2)] pos_imp_zdiv_nonneg_iff [of b "hi + 1"]
      by (auto simp: fits_iff)
  qed
qed

lemma div_fits:
  assumes "fits a" "fits b" "b \<noteq> 0" "\<not> (a = - hi - 1 \<and> b = - 1)"
  shows "fits (go_quot a b)"
proof -
  have d: "\<bar>a\<bar> div \<bar>b\<bar> \<le> \<bar>a\<bar>" "0 \<le> \<bar>a\<bar> div \<bar>b\<bar>"
    using assms(3) div_bounds [of "\<bar>a\<bar>" "\<bar>b\<bar>"] by simp_all
  have s: "sgn a * sgn b \<in> {- 1, 0, 1}"
    by (simp add: sgn_if)
  show ?thesis
  proof (cases "\<bar>a\<bar> div \<bar>b\<bar> \<le> hi")
    case True
    with d s show ?thesis by (auto simp: go_quot_def fits_iff)
  next
    case False
    with d assms(1) have a: "a = - hi - 1" and q: "\<bar>a\<bar> div \<bar>b\<bar> = hi + 1"
      by (auto simp: fits_iff)
    have "\<bar>b\<bar> = 1"
    proof (rule ccontr)
      assume "\<bar>b\<bar> \<noteq> 1"
      with assms(3) have "2 \<le> \<bar>b\<bar>" by linarith
      then have "\<bar>a\<bar> div \<bar>b\<bar> \<le> \<bar>a\<bar> div 2" by (simp add: zdiv_mono2)
      with a q hi_pos show False by simp
    qed
    with assms(4) a have "b = 1" by linarith
    with assms(1) a q show ?thesis by (simp add: go_quot_def fits_iff sgn_if)
  qed
qed

lemma rem_fits: "fits b \<Longrightarrow> b \<noteq> 0 \<Longrightarrow> fits (go_rem a b)"
  using go_rem_abs [of b a] by (auto simp: fits_iff)

lemma shift_guard:
  assumes "fits a" "p dvd (hi + 1)" "0 < p"
  shows "(a \<ge> 0 \<and> a > hi div p) \<or> (a < 0 \<and> a < (- hi - 1) div p) \<longleftrightarrow> \<not> fits (a * p)"
proof -
  from assms(2) obtain k where k: "hi + 1 = p * k" by (elim dvdE)
  have q: "(- hi - 1) div p = - k"
    using k assms(3) by (metis add.inverse_inverse diff_conv_add_uminus minus_add_distrib
        mult_minus_right nonzero_mult_div_cancel_left order_less_irrefl add.commute)
  have "a < - k \<longleftrightarrow> a * p < - hi - 1"
    using assms(3) k by (metis mult.commute mult_less_cancel_left_pos mult_minus_right
        add.inverse_inverse diff_conv_add_uminus minus_add_distrib add.commute)
  moreover have "0 \<le> a \<Longrightarrow> 0 \<le> a * p" "a < 0 \<Longrightarrow> a * p < 0"
    using assms(3) by (simp_all add: mult_neg_pos)
  ultimately show ?thesis
    using q hi_pos quot_less_iff [OF assms(3), of hi a]
    by (cases "0 \<le> a") (auto simp: fits_iff)
qed

end

interpretation w64: signed_width MaxInt64 i64 is_i64
  by unfold_locales (simp_all add: is_i64_def i64_id)

interpretation w32: signed_width MaxInt32 i32 is_i32
  by unfold_locales (simp_all add: is_i32_def i32_id)

section \<open>Every operation meets the contract\<close>

lemma AddInt64_checked:
  "is_i64 a \<Longrightarrow> is_i64 b \<Longrightarrow> AddInt64 a b = checked is_i64 (a + b)"
  using w64.add_guard [of a b] by (simp add: AddInt64_def checked_def i64_id)

lemma SubInt64_checked:
  "is_i64 a \<Longrightarrow> is_i64 b \<Longrightarrow> SubInt64 a b = checked is_i64 (a - b)"
  using w64.sub_guard [of a b] by (simp add: SubInt64_def checked_def i64_id)

lemma MulInt64_checked:
  "is_i64 a \<Longrightarrow> is_i64 b \<Longrightarrow> MulInt64 a b = checked is_i64 (a * b)"
  using w64.mul_guard [of a b] by (simp add: MulInt64_def checked_def i64_id)

lemma DivInt64_checked:
  "is_i64 a \<Longrightarrow> is_i64 b \<Longrightarrow> b \<noteq> 0 \<Longrightarrow> DivInt64 a b = checked is_i64 (go_quot a b)"
  using w64.div_fits [of a b]
  by (auto simp: DivInt64_def checked_def i64_id) (simp_all add: go_quot_def is_i64_def)

lemma NegateInt64_checked: "is_i64 a \<Longrightarrow> NegateInt64 a = checked is_i64 (- a)"
  by (auto simp: NegateInt64_def checked_def i64_id is_i64_def)

lemma LshiftInt64_checked:
  assumes "is_i64 a" "0 \<le> b" "b < 64"
  shows "LshiftInt64 a b = checked is_i64 (a * 2 ^ nat b)"
proof -
  have "(2::int) ^ nat b dvd 2 ^ 63"
    using assms(3) by (intro le_imp_power_dvd) linarith
  then have "(2::int) ^ nat b dvd MaxInt64 + 1" by simp
  from w64.shift_guard [OF assms(1) this] assms show ?thesis
    by (simp add: LshiftInt64_def checked_def i64_id)
qed

lemma ModInt64_exact:
  "is_i64 a \<Longrightarrow> is_i64 b \<Longrightarrow> b \<noteq> 0 \<Longrightarrow>
   ModInt64 a b = (if a = MinInt64 \<and> b = - 1 then (0, False) else (go_rem a b, True))"
  using w64.rem_fits [of b a] by (simp add: ModInt64_def i64_id)

lemma AddInt32_checked:
  "is_i32 a \<Longrightarrow> is_i32 b \<Longrightarrow> AddInt32 a b = checked is_i32 (a + b)"
  using w32.add_guard [of a b] by (simp add: AddInt32_def checked_def i32_id)

lemma SubInt32_checked:
  "is_i32 a \<Longrightarrow> is_i32 b \<Longrightarrow> SubInt32 a b = checked is_i32 (a - b)"
  using w32.sub_guard [of a b] by (simp add: SubInt32_def checked_def i32_id)

lemma MulInt32_checked:
  "is_i32 a \<Longrightarrow> is_i32 b \<Longrightarrow> MulInt32 a b = checked is_i32 (a * b)"
  using w32.mul_guard [of a b] by (simp add: MulInt32_def checked_def i32_id)

lemma DivInt32_checked:
  "is_i32 a \<Longrightarrow> is_i32 b \<Longrightarrow> b \<noteq> 0 \<Longrightarrow> DivInt32 a b = checked is_i32 (go_quot a b)"
  using w32.div_fits [of a b]
  by (auto simp: DivInt32_def checked_def i32_id) (simp_all add: go_quot_def is_i32_def)

lemma ModInt32_exact:
  "is_i32 a \<Longrightarrow> is_i32 b \<Longrightarrow> b \<noteq> 0 \<Longrightarrow>
   ModInt32 a b = (if a = MinInt32 \<and> b = - 1 then (0, False) else (go_rem a b, True))"
  using w32.rem_fits [of b a] by (simp add: ModInt32_def i32_id)

lemma NegateInt32_checked: "is_i32 a \<Longrightarrow> NegateInt32 a = checked is_i32 (- a)"
  by (auto simp: NegateInt32_def checked_def i32_id is_i32_def)

lemma LshiftInt32_checked:
  assumes "is_i32 a" "0 \<le> b" "b < 32"
  shows "LshiftInt32 a b = checked is_i32 (a * 2 ^ nat b)"
proof -
  have "(2::int) ^ nat b dvd 2 ^ 31"
    using assms(3) by (intro le_imp_power_dvd) linarith
  then have "(2::int) ^ nat b dvd MaxInt32 + 1" by simp
  from w32.shift_guard [OF assms(1) this] assms show ?thesis
    by (simp add: LshiftInt32_def checked_def i32_id)
qed

section \<open>Unsigned widths\<close>

locale unsigned_width =
  fixes hi :: nat and wrap :: "nat \<Rightarrow> nat" and minus_w :: "nat \<Rightarrow> nat \<Rightarrow> nat"
    and fits :: "nat \<Rightarrow> bool"
  assumes fits_iff: "fits x \<longleftrightarrow> x \<le> hi"
    and wrap_id: "fits x \<Longrightarrow> wrap x = x"
    and minus_id: "fits a \<Longrightarrow> b \<le> a \<Longrightarrow> minus_w a b = a - b"
begin

lemma add_guard: "fits a \<Longrightarrow> minus_w hi a < b \<longleftrightarrow> \<not> fits (a + b)"
  using minus_id [of hi a] by (auto simp: fits_iff)

lemma mul_guard: "0 < b \<and> hi div b < a \<longleftrightarrow> \<not> fits (a * b)"
  by (cases "b = 0") (simp_all add: fits_iff div_less_iff_less_mult not_le)

lemma shift_guard: "hi div 2 ^ b < a \<longleftrightarrow> \<not> fits (a * 2 ^ b)"
  using mul_guard [of "2 ^ b" a] by simp

end

lemma sub_u64_id: "is_u64 a \<Longrightarrow> b \<le> a \<Longrightarrow> sub_u64 a b = a - b"
proof -
  assume a: "is_u64 a" and b: "b \<le> a"
  then have "b mod 18446744073709551616 = b" by (simp add: is_u64_def)
  moreover have "a + (18446744073709551616 - b) = (a - b) + 18446744073709551616"
    using a b by (simp add: is_u64_def)
  ultimately have "sub_u64 a b = (a - b + 18446744073709551616) mod 18446744073709551616"
    by (simp only: sub_u64_def u64_def)
  also have "\<dots> = (a - b) mod 18446744073709551616" by (rule mod_add_self2)
  finally show ?thesis using a b by (simp add: is_u64_def)
qed

lemma sub_u32_id: "is_u32 a \<Longrightarrow> b \<le> a \<Longrightarrow> sub_u32 a b = a - b"
proof -
  assume a: "is_u32 a" and b: "b \<le> a"
  then have "b mod 4294967296 = b" by (simp add: is_u32_def)
  moreover have "a + (4294967296 - b) = (a - b) + 4294967296"
    using a b by (simp add: is_u32_def)
  ultimately have "sub_u32 a b = (a - b + 4294967296) mod 4294967296"
    by (simp only: sub_u32_def u32_def)
  also have "\<dots> = (a - b) mod 4294967296" by (rule mod_add_self2)
  finally show ?thesis using a b by (simp add: is_u32_def)
qed

interpretation uw64: unsigned_width MaxUint64 u64 sub_u64 is_u64
  by unfold_locales (simp_all add: is_u64_def u64_id sub_u64_id)

interpretation uw32: unsigned_width MaxUint32 u32 sub_u32 is_u32
  by unfold_locales (simp_all add: is_u32_def u32_id sub_u32_id)

lemma AddUint64_checked: "is_u64 a \<Longrightarrow> AddUint64 a b = checked is_u64 (a + b)"
  using uw64.add_guard [of a b] by (simp add: AddUint64_def checked_def u64_id)

lemma MulUint64_checked: "MulUint64 a b = checked is_u64 (a * b)"
  using uw64.mul_guard [of b a] by (auto simp: MulUint64_def checked_def u64_id)

lemma SubUint64_exact:
  "is_u64 a \<Longrightarrow> SubUint64 a b = (if b \<le> a then (a - b, True) else (0, False))"
  by (auto simp: SubUint64_def sub_u64_id)

lemma LshiftUint64_checked: "b < 64 \<Longrightarrow> LshiftUint64 a b = checked is_u64 (a * 2 ^ b)"
  using uw64.shift_guard [of b a] by (simp add: LshiftUint64_def checked_def u64_id)

lemma AddUint32_checked: "is_u32 a \<Longrightarrow> AddUint32 a b = checked is_u32 (a + b)"
  using uw32.add_guard [of a b] by (simp add: AddUint32_def checked_def u32_id)

lemma MulUint32_checked: "MulUint32 a b = checked is_u32 (a * b)"
  using uw32.mul_guard [of b a] by (auto simp: MulUint32_def checked_def u32_id)

lemma SubUint32_exact:
  "is_u32 a \<Longrightarrow> SubUint32 a b = (if b \<le> a then (a - b, True) else (0, False))"
  by (auto simp: SubUint32_def sub_u32_id)

lemma LshiftUint32_checked: "b < 32 \<Longrightarrow> LshiftUint32 a b = checked is_u32 (a * 2 ^ b)"
  using uw32.shift_guard [of b a] by (simp add: LshiftUint32_def checked_def u32_id)

lemmas checked_simps =
  AddInt64_checked SubInt64_checked MulInt64_checked DivInt64_checked NegateInt64_checked
  LshiftInt64_checked ModInt64_exact AddUint64_checked MulUint64_checked SubUint64_exact
  AddUint32_checked MulUint32_checked SubUint32_exact

section \<open>Properties\<close>

text \<open>
  Property C35: on \<^verbatim>\<open>int64\<close> operands the checked operations return the exact mathematical
  result when it is representable and the failure flag when it is not.  They also fail in some cases in which
  a result would be representable: modulus on \<^verbatim>\<open>MinInt64 % -1\<close>, and the left shift by a negative amount or by
  64 and more, even of zero.  Division and modulus fail on a zero divisor.
\<close>

theorem checked_int64_exact:
  assumes "is_i64 a" and "is_i64 b"
  shows "AddInt64 a b = checked is_i64 (a + b) \<and>
    SubInt64 a b = checked is_i64 (a - b) \<and>
    MulInt64 a b = checked is_i64 (a * b) \<and>
    DivInt64 a b = (if b = 0 then (0, False) else checked is_i64 (go_quot a b)) \<and>
    ModInt64 a b = (if b = 0 \<or> a = MinInt64 \<and> b = - 1 then (0, False) else (go_rem a b, True)) \<and>
    NegateInt64 a = checked is_i64 (- a) \<and>
    LshiftInt64 a b = (if 0 \<le> b \<and> b < 64 then checked is_i64 (a * 2 ^ nat b) else (0, False))"
proof -
  have "LshiftInt64 a b = (if 0 \<le> b \<and> b < 64 then checked is_i64 (a * 2 ^ nat b) else (0, False))"
    using LshiftInt64_checked [OF assms(1), of b] by (auto simp: LshiftInt64_def)
  moreover have "DivInt64 a b = (if b = 0 then (0, False) else checked is_i64 (go_quot a b))"
    using DivInt64_checked [OF assms] by (auto simp: DivInt64_def)
  moreover have
    "ModInt64 a b = (if b = 0 \<or> a = MinInt64 \<and> b = - 1 then (0, False) else (go_rem a b, True))"
    using ModInt64_exact [OF assms] by (auto simp: ModInt64_def)
  ultimately show ?thesis
    using assms by (simp add: AddInt64_checked SubInt64_checked MulInt64_checked NegateInt64_checked)
qed

theorem checked_int64_exact_witness:
  "is_i64 MaxInt64 \<and> is_i64 2 \<and> AddInt64 MaxInt64 2 = (0, False) \<and>
   SubInt64 MaxInt64 2 = (9223372036854775805, True) \<and> MulInt64 MaxInt64 2 = (0, False)"
  using checked_int64_exact [of MaxInt64 2] by (simp add: is_i64_def checked_def)

text \<open>
  The same for the unsigned operations on \<^verbatim>\<open>uint64\<close> and \<^verbatim>\<open>uint32\<close>
  operands: exact result or failure, never a wrapped value.
\<close>

theorem checked_unsigned_exact:
  assumes "is_u64 a" and "is_u64 b" and "is_u32 c" and "is_u32 d"
  shows "AddUint64 a b = checked is_u64 (a + b) \<and> MulUint64 a b = checked is_u64 (a * b) \<and>
    SubUint64 a b = (if b \<le> a then (a - b, True) else (0, False)) \<and>
    LshiftUint64 a b = (if b < 64 then checked is_u64 (a * 2 ^ b) else (0, False)) \<and>
    AddUint32 c d = checked is_u32 (c + d) \<and> MulUint32 c d = checked is_u32 (c * d) \<and>
    SubUint32 c d = (if d \<le> c then (c - d, True) else (0, False)) \<and>
    LshiftUint32 c d = (if d < 32 then checked is_u32 (c * 2 ^ d) else (0, False))"
  using assms LshiftUint64_checked [of b a] LshiftUint32_checked [of d c]
  by (auto simp: checked_simps LshiftUint64_def LshiftUint32_def)

theorem checked_unsigned_exact_witness:
  "is_u64 MaxUint64 \<and> is_u64 1 \<and> is_u32 5 \<and> is_u32 7 \<and>
   AddUint64 MaxUint64 1 = (0, False) \<and> SubUint32 5 7 = (0, False) \<and> MulUint32 5 7 = (35, True)"
  using checked_unsigned_exact [of MaxUint64 1 5 7]
  by (simp add: is_u64_def is_u32_def checked_def)

end
