(* ===== verification/Slices.thy ===== *)
theory Slices
  imports Prelude
begin

text \<open>
  Go byte slices over shared backing arrays.  A slice is a window (offset, length, capacity)
  into an array of the heap; slicing shares the array, and \<^verbatim>\<open>append\<close> writes into it whenever
  the capacity suffices.  The virtual machine pushes, duplicates and re-slices the same arrays,
  so what \<^verbatim>\<open>append\<close> overwrites is visible through other stack items: the model keeps the heap
  explicit.

  How much spare capacity \<^verbatim>\<open>append\<close> gives a new array is left open by the language; it is the
  parameter \<open>spare\<close> of \<open>append_slice\<close>.
\<close>

section \<open>Slices and the heap\<close>

type_synonym heap = "bytes list"

record slice =
  s_arr :: nat
  s_off :: nat
  s_len :: nat
  s_cap :: nat

definition nil_slice :: slice where
  "nil_slice = \<lparr>s_arr = 0, s_off = 0, s_len = 0, s_cap = 0\<rparr>"

definition slice_ok :: "heap \<Rightarrow> slice \<Rightarrow> bool" where
  "slice_ok h s \<longleftrightarrow> s_len s \<le> s_cap s \<and>
     (s_cap s = 0 \<or> s_arr s < length h \<and> s_off s + s_cap s \<le> length (h ! s_arr s))"

text \<open>The bytes a slice denotes.\<close>

definition rd :: "heap \<Rightarrow> slice \<Rightarrow> bytes" where
  "rd h s = take (s_len s) (drop (s_off s) (h ! s_arr s))"

text \<open>\<^verbatim>\<open>make\<close> followed by initialisation: a fresh array with no spare capacity.\<close>

definition alloc :: "bytes \<Rightarrow> heap \<Rightarrow> slice \<times> heap" where
  "alloc bs h =
     (\<lparr>s_arr = length h, s_off = 0, s_len = length bs, s_cap = length bs\<rparr>, h @ [bs])"

text \<open>\<^verbatim>\<open>s[i:j]\<close>\<close>

definition reslice :: "slice \<Rightarrow> nat \<Rightarrow> nat \<Rightarrow> slice" where
  "reslice s i j = s\<lparr>s_off := s_off s + i, s_len := j - i, s_cap := s_cap s - i\<rparr>"

definition overwrite :: "nat \<Rightarrow> bytes \<Rightarrow> bytes \<Rightarrow> bytes" where
  "overwrite i bs a = take i a @ bs @ drop (i + length bs) a"

text \<open>\<^verbatim>\<open>append(s, bs...)\<close>\<close>

definition append_slice :: "(nat \<Rightarrow> nat \<Rightarrow> nat) \<Rightarrow> slice \<Rightarrow> bytes \<Rightarrow> heap \<Rightarrow> slice \<times> heap" where
  "append_slice spare s bs h =
     (let n = s_len s + length bs in
      if n \<le> s_cap s
      then (s\<lparr>s_len := n\<rparr>,
            h[s_arr s := overwrite (s_off s + s_len s) bs (h ! s_arr s)])
      else let e = spare (s_cap s) n in
           (\<lparr>s_arr = length h, s_off = 0, s_len = n, s_cap = n + e\<rparr>,
            h @ [rd h s @ bs @ replicate e 0]))"

section \<open>Heap evolution\<close>

text \<open>
  \<open>heap_shape h h'\<close>: arrays are only added, and none changes its length, so slices stay valid.
  \<open>heap_frame h h'\<close>: moreover no existing array changes its contents.
\<close>

definition heap_shape :: "heap \<Rightarrow> heap \<Rightarrow> bool" where
  "heap_shape h h' \<longleftrightarrow> length h \<le> length h' \<and> (\<forall>a < length h. length (h' ! a) = length (h ! a))"

definition heap_frame :: "heap \<Rightarrow> heap \<Rightarrow> bool" where
  "heap_frame h h' \<longleftrightarrow> length h \<le> length h' \<and> (\<forall>a < length h. h' ! a = h ! a)"

lemma heap_shape_refl [simp]: "heap_shape h h"
  by (simp add: heap_shape_def)

lemma heap_shape_trans [trans]: "heap_shape h1 h2 \<Longrightarrow> heap_shape h2 h3 \<Longrightarrow> heap_shape h1 h3"
  by (simp add: heap_shape_def)

lemma heap_frame_refl [simp]: "heap_frame h h"
  by (simp add: heap_frame_def)

lemma heap_frame_trans [trans]: "heap_frame h1 h2 \<Longrightarrow> heap_frame h2 h3 \<Longrightarrow> heap_frame h1 h3"
  by (simp add: heap_frame_def)

lemma heap_frame_shape: "heap_frame h h' \<Longrightarrow> heap_shape h h'"
  by (simp add: heap_frame_def heap_shape_def)

lemma heap_frame_append [simp]: "heap_frame h (h @ xs)"
  by (simp add: heap_frame_def nth_append)

lemma slice_ok_shape: "heap_shape h h' \<Longrightarrow> slice_ok h s \<Longrightarrow> slice_ok h' s"
  by (auto simp: heap_shape_def slice_ok_def)

lemma rd_frame: "heap_frame h h' \<Longrightarrow> slice_ok h s \<Longrightarrow> rd h' s = rd h s"
  by (cases "s_cap s = 0") (auto simp: heap_frame_def slice_ok_def rd_def)

lemma slice_ok_nil [simp]: "slice_ok h nil_slice"
  by (simp add: slice_ok_def nil_slice_def)

lemma rd_nil [simp]: "rd h nil_slice = []"
  by (simp add: rd_def nil_slice_def)

lemma length_rd: "slice_ok h s \<Longrightarrow> length (rd h s) = s_len s"
  by (cases "s_cap s = 0") (auto simp: slice_ok_def rd_def)

lemma s_len_nil [simp]: "s_len nil_slice = 0"
  by (simp add: nil_slice_def)

lemma alloc_spec:
  assumes "alloc bs h = (s, h')"
  shows "rd h' s = bs" "slice_ok h' s" "heap_frame h h'" "s_len s = length bs"
  using assms by (auto simp: alloc_def rd_def slice_ok_def)

lemma reslice_ok:
  "slice_ok h s \<Longrightarrow> i \<le> j \<Longrightarrow> j \<le> s_len s \<Longrightarrow> slice_ok h (reslice s i j)"
  by (auto simp: slice_ok_def reslice_def)

lemma rd_reslice:
  "slice_ok h s \<Longrightarrow> i \<le> j \<Longrightarrow> j \<le> s_len s \<Longrightarrow>
   rd h (reslice s i j) = take (j - i) (drop i (rd h s))"
  by (simp add: rd_def reslice_def drop_take min_def add.commute)

lemma s_len_reslice [simp]: "s_len (reslice s i j) = j - i"
  by (simp add: reslice_def)

lemma length_overwrite:
  "i + length bs \<le> length a \<Longrightarrow> length (overwrite i bs a) = length a"
  by (simp add: overwrite_def)

text \<open>An append in place is seen through every slice that begins where the extended slice ended.\<close>

lemma append_seen:
  assumes "slice_ok h a" "append_slice spare a bs h = (c, h')" "s_len a + length bs \<le> s_cap a"
    "s_arr s = s_arr a" "s_off s = s_off a + s_len a" "s_len s \<le> length bs"
  shows "rd h' s = take (s_len s) bs"
proof (cases "s_cap a = 0")
  case True
  with assms(3,6) show ?thesis by (simp add: rd_def)
next
  case False
  then have "s_arr a < length h" "s_off a + s_len a + length bs \<le> length (h ! s_arr a)"
    using assms(1,3) by (auto simp: slice_ok_def)
  with assms(2-6) show ?thesis by (auto simp: append_slice_def Let_def rd_def overwrite_def)
qed

lemma append_slice_spec:
  assumes "append_slice spare s bs h = (s', h')" and "slice_ok h s"
  shows "rd h' s' = rd h s @ bs" "slice_ok h' s'" "heap_shape h h'"
    "s_len s' = s_len s + length bs"
proof -
  show "s_len s' = s_len s + length bs"
    using assms(1) by (auto simp: append_slice_def Let_def split: if_splits)
  show "heap_shape h h'"
  proof (cases "s_len s + length bs \<le> s_cap s")
    case True
    then have h': "h' = h[s_arr s := overwrite (s_off s + s_len s) bs (h ! s_arr s)]"
      using assms(1) by (simp add: append_slice_def Let_def)
    show ?thesis
    proof (cases "s_cap s = 0")
      case True
      with \<open>s_len s + length bs \<le> s_cap s\<close> have "bs = []" "s_len s = 0" by auto
      then show ?thesis
        by (simp add: h' heap_shape_def nth_list_update overwrite_def)
    next
      case False
      with True assms(2) have "s_off s + s_len s + length bs \<le> length (h ! s_arr s)"
        and "s_arr s < length h"
        by (auto simp: slice_ok_def)
      then show ?thesis
        by (auto simp: h' heap_shape_def nth_list_update length_overwrite)
    qed
  next
    case False
    then show ?thesis
      using assms(1) by (auto simp: append_slice_def Let_def intro: heap_frame_shape)
  qed
  show "slice_ok h' s'"
  proof (cases "s_len s + length bs \<le> s_cap s")
    case True
    then have s': "s' = s\<lparr>s_len := s_len s + length bs\<rparr>"
      using assms(1) by (simp add: append_slice_def Let_def)
    from \<open>heap_shape h h'\<close> assms(2) have "slice_ok h' s" by (rule slice_ok_shape)
    with True show ?thesis by (simp add: s' slice_ok_def)
  next
    case False
    then show ?thesis
      using assms length_rd [OF assms(2)]
      by (auto simp: append_slice_def Let_def slice_ok_def)
  qed
  show "rd h' s' = rd h s @ bs"
  proof (cases "s_len s + length bs \<le> s_cap s")
    case True
    then have h': "h' = h[s_arr s := overwrite (s_off s + s_len s) bs (h ! s_arr s)]"
      and s': "s' = s\<lparr>s_len := s_len s + length bs\<rparr>"
      using assms(1) by (simp_all add: append_slice_def Let_def)
    show ?thesis
    proof (cases "s_cap s = 0")
      case True
      with \<open>s_len s + length bs \<le> s_cap s\<close> have "bs = []" "s_len s = 0" by auto
      then show ?thesis by (simp add: s' rd_def)
    next
      case False
      with True assms(2) have "s_arr s < length h"
        and "s_off s + s_len s + length bs \<le> length (h ! s_arr s)"
        by (auto simp: slice_ok_def)
      then show ?thesis
        by (simp add: s' h' rd_def overwrite_def drop_take)
    qed
  next
    case False
    then show ?thesis
      using assms length_rd [OF assms(2)]
      by (auto simp: append_slice_def Let_def rd_def [of h'])
  qed
qed

text \<open>A slice of another array, or one that ends before the append position, is not affected.\<close>

lemma append_slice_other:
  assumes "append_slice spare s bs h = (s', h')" and "slice_ok h t"
    and "s_arr t \<noteq> s_arr s \<or> s_off t + s_len t \<le> s_off s + s_len s"
  shows "rd h' t = rd h t"
proof (cases "s_cap t = 0")
  case True
  with assms(2) show ?thesis by (simp add: rd_def slice_ok_def)
next
  case False
  with assms(2) have t: "s_arr t < length h" "s_off t + s_len t \<le> length (h ! s_arr t)"
    by (auto simp: slice_ok_def)
  show ?thesis
  proof (cases "s_len s + length bs \<le> s_cap s")
    case True
    then have h': "h' = h[s_arr s := overwrite (s_off s + s_len s) bs (h ! s_arr s)]"
      using assms(1) by (simp add: append_slice_def Let_def)
    show ?thesis
    proof (cases "s_arr t = s_arr s")
      case True
      with assms(3) have le: "s_off t + s_len t \<le> s_off s + s_len s" by simp
      have "take (s_len t) (drop (s_off t) (overwrite (s_off s + s_len s) bs (h ! s_arr t)))
          = take (s_len t) (drop (s_off t) (h ! s_arr t))"
        using le t(2) by (intro nth_equalityI) (auto simp: overwrite_def nth_append)
      with True t show ?thesis by (simp add: rd_def h')
    next
      case False
      then show ?thesis by (simp add: rd_def h')
    qed
  next
    case False
    with assms(1) t show ?thesis
      by (auto simp: append_slice_def Let_def rd_def nth_append)
  qed
qed

end
