(* ===== verification/VM_Types.thy ===== *)
theory VM_Types
  imports Checked Slices
begin

text \<open>
  Values, encodings, opcodes and the instruction parser of the virtual machine
  (\<^verbatim>\<open>protocol/vm\<close>): the errors of \<^verbatim>\<open>errors.go\<close>, the boolean and integer encodings of
  \<^verbatim>\<open>types.go\<close>, the push encodings of \<^verbatim>\<open>pushdata.go\<close>, the opcode table and the parser of
  \<^verbatim>\<open>ops.go\<close>.  Opcodes are bytes given as numbers; the entries of the table name the Go
  functions by the constructors of \<open>opfn\<close>.
\<close>

section \<open>Errors\<close>

datatype vm_error =
    ErrAltStackUnderflow
  | ErrBadValue
  | ErrContext
  | ErrDataStackUnderflow
  | ErrDisallowedOpcode
  | ErrDivZero
  | ErrFalseVMResult
  | ErrLongProgram
  | ErrRange
  | ErrReturn
  | ErrRunLimitExceeded
  | ErrShortProgram
  | ErrToken
  | ErrUnexpected
  | ErrUnsupportedVM
  | ErrVerifyFailed
  | ErrOverflow       \<comment> \<open>\<^verbatim>\<open>checked.ErrOverflow\<close>\<close>
  | ErrMissingEntry   \<comment> \<open>\<^verbatim>\<open>bc.ErrMissingEntry\<close>, returned by a \<^verbatim>\<open>CheckOutput\<close> callback\<close>

text \<open>
  How a computation of the machine can end abnormally: a Go error, a run-time panic, or, in the
  model only, exhausted fuel of the interpreter loop.
\<close>

datatype vm_exc = Err vm_error | GoPanic | OutOfFuel

section \<open>Boolean and integer encodings (types.go)\<close>

definition AsBool :: "bytes \<Rightarrow> bool" where
  "AsBool bs \<longleftrightarrow> list_ex (\<lambda>b. b \<noteq> 0) bs"

text \<open>\<^verbatim>\<open>for len(res) > 0 && res[len(res)-1] == 0 { res = res[:len(res)-1] }\<close>\<close>

definition strip_zeros :: "bytes \<Rightarrow> bytes" where
  "strip_zeros bs = rev (dropWhile (\<lambda>b. b = 0) (rev bs))"

definition Int64Bytes :: "int \<Rightarrow> bytes" where
  "Int64Bytes n = (if n = 0 then [] else strip_zeros (le_bytes 8 (u64_of_i64 n)))"

definition AsInt64 :: "bytes \<Rightarrow> vm_error + int" where
  "AsInt64 b =
     (if length b = 0 then Inr 0
      else if length b > 8 then Inl ErrBadValue
      else let padded = b @ replicate (8 - length b) 0 in Inr (i64_of_u64 (le_nat padded)))"

section \<open>Push encodings (pushdata.go)\<close>

definition PushdataBytes :: "bytes \<Rightarrow> bytes" where
  "PushdataBytes inp =
     (let l = length inp in
      if l = 0 then [0x00]
      else if l \<le> 75 then (0x01 + of_nat l - 1) # inp
      else if l < 2 ^ 8 then [0x4c, of_nat l] @ inp
      else if l < 2 ^ 16 then 0x4d # le_bytes 2 (l mod 2 ^ 16) @ inp
      else 0x4e # le_bytes 4 (u32 l) @ inp)"

definition PushdataInt64 :: "int \<Rightarrow> bytes" where
  "PushdataInt64 n =
     (if n = 0 then [0x00]
      else if n \<ge> 1 \<and> n \<le> 16 then [0x51 + of_int n - 1]
      else PushdataBytes (Int64Bytes n))"

section \<open>The opcode table (ops.go)\<close>

text \<open>The functions of the table, one type per Go file.\<close>

datatype pushdata_fn =
    OpFalse | OpPushdata | Op1Negate | OpNop

datatype control_fn =
    OpJump | OpJumpIf | OpVerify | OpFail | OpCheckPredicate

datatype stack_fn =
    OpToAltStack | OpFromAltStack | Op2Drop | Op2Dup | Op3Dup | Op2Over | Op2Rot | Op2Swap
  | OpIfDup | OpDepth | OpDrop | OpDup | OpNip | OpOver | OpPick | OpRoll | OpRot | OpSwap
  | OpTuck

datatype splice_fn =
    OpCat | OpSubstr | OpLeft | OpRight | OpSize | OpCatpushdata

datatype bitwise_fn =
    OpInvert | OpAnd | OpOr | OpXor | OpEqual | OpEqualVerify

datatype numeric_fn =
    Op1Add | Op1Sub | Op2Mul | Op2Div | OpNegate | OpAbs | OpNot | Op0NotEqual | OpAdd | OpSub
  | OpMul | OpDiv | OpMod | OpLshift | OpRshift | OpBoolAnd | OpBoolOr | OpNumEqual
  | OpNumEqualVerify | OpNumNotEqual | OpLessThan | OpGreaterThan | OpLessThanOrEqual
  | OpGreaterThanOrEqual | OpMin | OpMax | OpWithin | OpMulFraction

datatype crypto_fn =
    OpSha256 | OpSha3 | OpHash160 | OpCheckSig | OpCheckMultiSig | OpTxSigHash

datatype introspection_fn =
    OpCheckOutput | OpAsset | OpAmount | OpProgram | OpIndex | OpEntryID | OpOutputID
  | OpBlockHeight

datatype opfn =
    PushdataFn pushdata_fn
  | ControlFn control_fn
  | StackFn stack_fn
  | SpliceFn splice_fn
  | BitwiseFn bitwise_fn
  | NumericFn numeric_fn
  | CryptoFn crypto_fn
  | IntrospectionFn introspection_fn

text \<open>The literal of \<^verbatim>\<open>var ops\<close>.\<close>

definition ops_literal :: "(nat \<times> string \<times> opfn) list" where
  "ops_literal =
    [(0x00, ''FALSE'', PushdataFn OpFalse),
     (0x4c, ''PUSHDATA1'', PushdataFn OpPushdata), (0x4d, ''PUSHDATA2'', PushdataFn OpPushdata),
     (0x4e, ''PUSHDATA4'', PushdataFn OpPushdata), (0x4f, ''1NEGATE'', PushdataFn Op1Negate), (0x61, ''NOP'', PushdataFn OpNop),
     (0x63, ''JUMP'', ControlFn OpJump), (0x64, ''JUMPIF'', ControlFn OpJumpIf),
     (0x69, ''VERIFY'', ControlFn OpVerify), (0x6a, ''FAIL'', ControlFn OpFail),
     (0x6b, ''TOALTSTACK'', StackFn OpToAltStack), (0x6c, ''FROMALTSTACK'', StackFn OpFromAltStack),
     (0x6d, ''2DROP'', StackFn Op2Drop), (0x6e, ''2DUP'', StackFn Op2Dup), (0x6f, ''3DUP'', StackFn Op3Dup),
     (0x70, ''2OVER'', StackFn Op2Over), (0x71, ''2ROT'', StackFn Op2Rot), (0x72, ''2SWAP'', StackFn Op2Swap),
     (0x73, ''IFDUP'', StackFn OpIfDup), (0x74, ''DEPTH'', StackFn OpDepth), (0x75, ''DROP'', StackFn OpDrop),
     (0x76, ''DUP'', StackFn OpDup), (0x77, ''NIP'', StackFn OpNip), (0x78, ''OVER'', StackFn OpOver),
     (0x79, ''PICK'', StackFn OpPick), (0x7a, ''ROLL'', StackFn OpRoll), (0x7b, ''ROT'', StackFn OpRot),
     (0x7c, ''SWAP'', StackFn OpSwap), (0x7d, ''TUCK'', StackFn OpTuck),
     (0x7e, ''CAT'', SpliceFn OpCat), (0x7f, ''SUBSTR'', SpliceFn OpSubstr), (0x80, ''LEFT'', SpliceFn OpLeft),
     (0x81, ''RIGHT'', SpliceFn OpRight), (0x82, ''SIZE'', SpliceFn OpSize), (0x89, ''CATPUSHDATA'', SpliceFn OpCatpushdata),
     (0x83, ''INVERT'', BitwiseFn OpInvert), (0x84, ''AND'', BitwiseFn OpAnd), (0x85, ''OR'', BitwiseFn OpOr),
     (0x86, ''XOR'', BitwiseFn OpXor), (0x87, ''EQUAL'', BitwiseFn OpEqual), (0x88, ''EQUALVERIFY'', BitwiseFn OpEqualVerify),
     (0x8b, ''1ADD'', NumericFn Op1Add), (0x8c, ''1SUB'', NumericFn Op1Sub), (0x8d, ''2MUL'', NumericFn Op2Mul),
     (0x8e, ''2DIV'', NumericFn Op2Div), (0x8f, ''NEGATE'', NumericFn OpNegate), (0x90, ''ABS'', NumericFn OpAbs),
     (0x91, ''NOT'', NumericFn OpNot), (0x92, ''0NOTEQUAL'', NumericFn Op0NotEqual),
     (0x93, ''ADD'', NumericFn OpAdd), (0x94, ''SUB'', NumericFn OpSub), (0x95, ''MUL'', NumericFn OpMul),
     (0x96, ''DIV'', NumericFn OpDiv), (0x97, ''MOD'', NumericFn OpMod), (0x98, ''LSHIFT'', NumericFn OpLshift),
     (0x99, ''RSHIFT'', NumericFn OpRshift), (0x9a, ''BOOLAND'', NumericFn OpBoolAnd), (0x9b, ''BOOLOR'', NumericFn OpBoolOr),
     (0x9c, ''NUMEQUAL'', NumericFn OpNumEqual), (0x9d, ''NUMEQUALVERIFY'', NumericFn OpNumEqualVerify),
     (0x9e, ''NUMNOTEQUAL'', NumericFn OpNumNotEqual), (0x9f, ''LESSTHAN'', NumericFn OpLessThan),
     (0xa0, ''GREATERTHAN'', NumericFn OpGreaterThan), (0xa1, ''LESSTHANOREQUAL'', NumericFn OpLessThanOrEqual),
     (0xa2, ''GREATERTHANOREQUAL'', NumericFn OpGreaterThanOrEqual),
     (0xa3, ''MIN'', NumericFn OpMin), (0xa4, ''MAX'', NumericFn OpMax), (0xa5, ''WITHIN'', NumericFn OpWithin),
     (0xa6, ''MULFRACTION'', NumericFn OpMulFraction),
     (0xa8, ''SHA256'', CryptoFn OpSha256), (0xaa, ''SHA3'', CryptoFn OpSha3), (0xab, ''HASH160'', CryptoFn OpHash160),
     (0xac, ''CHECKSIG'', CryptoFn OpCheckSig), (0xad, ''CHECKMULTISIG'', CryptoFn OpCheckMultiSig),
     (0xae, ''TXSIGHASH'', CryptoFn OpTxSigHash),
     (0xc1, ''CHECKOUTPUT'', IntrospectionFn OpCheckOutput), (0xc2, ''ASSET'', IntrospectionFn OpAsset),
     (0xc3, ''AMOUNT'', IntrospectionFn OpAmount), (0xc4, ''PROGRAM'', IntrospectionFn OpProgram), (0xc9, ''INDEX'', IntrospectionFn OpIndex),
     (0xca, ''ENTRYID'', IntrospectionFn OpEntryID), (0xcb, ''OUTPUTID'', IntrospectionFn OpOutputID),
     (0xcd, ''BLOCKHEIGHT'', IntrospectionFn OpBlockHeight)]"

text \<open>\<^verbatim>\<open>fmt.Sprintf("%d", n)\<close>\<close>

fun decimal :: "nat \<Rightarrow> string" where
  "decimal n = (if n < 10 then [char_of (48 + n)] else decimal (n div 10) @ [char_of (48 + n mod 10)])"

declare decimal.simps [simp del]

text \<open>
  The table after the loops of \<^verbatim>\<open>init()\<close>, without the entries that \<^verbatim>\<open>init()\<close> fills with
  \<^verbatim>\<open>NOPx..\<close>: those are exactly the opcodes for which the list has no entry.
\<close>

definition ops :: "(nat \<times> string \<times> opfn) list" where
  "ops = map (\<lambda>i. (i, ''DATA_'' @ decimal i, PushdataFn OpPushdata)) [1..<76]
       @ map (\<lambda>i. (0x51 + i, decimal (i + 1), PushdataFn OpPushdata)) [0..<16]
       @ (0xc0, ''CHECKPREDICATE'', ControlFn OpCheckPredicate) # ops_literal"

definition isExpansion :: "byte \<Rightarrow> bool" where
  "isExpansion b \<longleftrightarrow> map_of ops (unat b) = None"

definition op_fn :: "byte \<Rightarrow> opfn" where
  "op_fn b = (case map_of ops (unat b) of Some (_, f) \<Rightarrow> f | None \<Rightarrow> PushdataFn OpNop)"

text \<open>Faster evaluation of the table: the ranges of pushes are tested first, without the names.\<close>

definition op_fns :: "(nat \<times> opfn) list" where
  "op_fns =
    [(0x00, PushdataFn OpFalse), (0x4c, PushdataFn OpPushdata), (0x4d, PushdataFn OpPushdata),
     (0x4e, PushdataFn OpPushdata), (0x4f, PushdataFn Op1Negate), (0x61, PushdataFn OpNop),
     (0x63, ControlFn OpJump), (0x64, ControlFn OpJumpIf), (0x69, ControlFn OpVerify),
     (0x6a, ControlFn OpFail), (0x6b, StackFn OpToAltStack), (0x6c, StackFn OpFromAltStack),
     (0x6d, StackFn Op2Drop), (0x6e, StackFn Op2Dup), (0x6f, StackFn Op3Dup),
     (0x70, StackFn Op2Over), (0x71, StackFn Op2Rot), (0x72, StackFn Op2Swap),
     (0x73, StackFn OpIfDup), (0x74, StackFn OpDepth), (0x75, StackFn OpDrop),
     (0x76, StackFn OpDup), (0x77, StackFn OpNip), (0x78, StackFn OpOver), (0x79, StackFn OpPick),
     (0x7a, StackFn OpRoll), (0x7b, StackFn OpRot), (0x7c, StackFn OpSwap),
     (0x7d, StackFn OpTuck), (0x7e, SpliceFn OpCat), (0x7f, SpliceFn OpSubstr),
     (0x80, SpliceFn OpLeft), (0x81, SpliceFn OpRight), (0x82, SpliceFn OpSize),
     (0x89, SpliceFn OpCatpushdata), (0x83, BitwiseFn OpInvert), (0x84, BitwiseFn OpAnd),
     (0x85, BitwiseFn OpOr), (0x86, BitwiseFn OpXor), (0x87, BitwiseFn OpEqual),
     (0x88, BitwiseFn OpEqualVerify), (0x8b, NumericFn Op1Add), (0x8c, NumericFn Op1Sub),
     (0x8d, NumericFn Op2Mul), (0x8e, NumericFn Op2Div), (0x8f, NumericFn OpNegate),
     (0x90, NumericFn OpAbs), (0x91, NumericFn OpNot), (0x92, NumericFn Op0NotEqual),
     (0x93, NumericFn OpAdd), (0x94, NumericFn OpSub), (0x95, NumericFn OpMul),
     (0x96, NumericFn OpDiv), (0x97, NumericFn OpMod), (0x98, NumericFn OpLshift),
     (0x99, NumericFn OpRshift), (0x9a, NumericFn OpBoolAnd), (0x9b, NumericFn OpBoolOr),
     (0x9c, NumericFn OpNumEqual), (0x9d, NumericFn OpNumEqualVerify),
     (0x9e, NumericFn OpNumNotEqual), (0x9f, NumericFn OpLessThan),
     (0xa0, NumericFn OpGreaterThan), (0xa1, NumericFn OpLessThanOrEqual),
     (0xa2, NumericFn OpGreaterThanOrEqual), (0xa3, NumericFn OpMin), (0xa4, NumericFn OpMax),
     (0xa5, NumericFn OpWithin), (0xa6, NumericFn OpMulFraction), (0xa8, CryptoFn OpSha256),
     (0xaa, CryptoFn OpSha3), (0xab, CryptoFn OpHash160), (0xac, CryptoFn OpCheckSig),
     (0xad, CryptoFn OpCheckMultiSig), (0xae, CryptoFn OpTxSigHash),
     (0xc1, IntrospectionFn OpCheckOutput), (0xc2, IntrospectionFn OpAsset),
     (0xc3, IntrospectionFn OpAmount), (0xc4, IntrospectionFn OpProgram),
     (0xc9, IntrospectionFn OpIndex), (0xca, IntrospectionFn OpEntryID),
     (0xcb, IntrospectionFn OpOutputID), (0xcd, IntrospectionFn OpBlockHeight)]"

lemma map_of_map_snd: "map_of (map (\<lambda>e. (fst e, snd (snd e))) xs) n = map_option snd (map_of xs n)"
  by (induction xs) auto

lemma op_fns_literal: "map_of op_fns n = map_option snd (map_of ops_literal n)"
proof -
  have eq: "op_fns = map (\<lambda>e. (fst e, snd (snd e))) ops_literal"
    by (simp add: op_fns_def ops_literal_def)
  show ?thesis unfolding eq by (rule map_of_map_snd)
qed

lemma map_of_ops:
  "map_of ops n =
     (if 1 \<le> n \<and> n \<le> 75 then Some (''DATA_'' @ decimal n, PushdataFn OpPushdata)
      else if 81 \<le> n \<and> n \<le> 96 then Some (decimal (n - 80), PushdataFn OpPushdata)
      else if n = 192 then Some (''CHECKPREDICATE'', ControlFn OpCheckPredicate)
      else map_of ops_literal n)"
proof -
  have small: "map (\<lambda>i. (0x51 + i, decimal (i + 1), PushdataFn OpPushdata)) [0..<16]
      = map (\<lambda>n. (n, decimal (n - 80), PushdataFn OpPushdata)) [81..<97]"
    by (rule nth_equalityI) (simp_all del: upt_rec_numeral)
  show ?thesis
    unfolding ops_def small
    by (auto simp: map_of_append map_add_def map_of_map_restrict restrict_map_def simp del: upt_rec_numeral)
qed

lemma op_fn_code [code]:
  "op_fn b =
     (let n = unat b in
      if 1 \<le> n \<and> n \<le> 75 \<or> 81 \<le> n \<and> n \<le> 96 then PushdataFn OpPushdata
      else if n = 192 then ControlFn OpCheckPredicate
      else case map_of op_fns n of Some f \<Rightarrow> f | None \<Rightarrow> PushdataFn OpNop)"
  by (auto simp: op_fn_def map_of_ops op_fns_literal Let_def split: option.splits)

lemma isExpansion_code [code]:
  "isExpansion b \<longleftrightarrow>
     (let n = unat b in
      \<not> (1 \<le> n \<and> n \<le> 75 \<or> 81 \<le> n \<and> n \<le> 96) \<and> n \<noteq> 192 \<and> map_of op_fns n = None)"
  by (auto simp: isExpansion_def map_of_ops op_fns_literal Let_def)

section \<open>Parsing instructions (ops.go)\<close>

record instruction =
  Op :: byte
  Len :: nat
  Data :: bytes

text \<open>\<^verbatim>\<open>prog[i:j]\<close> as a value\<close>

definition sub_bytes :: "bytes \<Rightarrow> nat \<Rightarrow> nat \<Rightarrow> bytes" where
  "sub_bytes bs i j = take (j - i) (drop i bs)"

text \<open>
  \<^verbatim>\<open>ParseOp\<close> has a named error result: the check for long programs sets it and goes on, so
  every later normal return still carries it.  In the \<^verbatim>\<open>PUSHDATA1\<close> branch the overflow check
  sets the error without returning; the slice expression that follows then has an upper bound
  below its lower bound and panics.
\<close>

definition ParseOp :: "bytes \<Rightarrow> nat \<Rightarrow> vm_exc + instruction" where
  "ParseOp prog pc =
     (let l = u32 (length prog);
          ret = (\<lambda>inst. if length prog > 2147483647 then Inl (Err ErrLongProgram) else Inr inst)
      in
      if pc \<ge> l then Inl (Err ErrShortProgram)
      else
        let opcode = unat (prog ! pc); op = prog ! pc in
        if opcode \<ge> 0x51 \<and> opcode \<le> 0x60
        then ret \<lparr>Op = op, Len = 1, Data = [op - 0x51 + 1]\<rparr>
        else if opcode \<ge> 0x01 \<and> opcode \<le> 0x4b
        then
          let n = u32 (1 + opcode); (e, ok) = AddUint32 pc n in
          if \<not> ok then Inl (Err ErrOverflow)
          else if e > l then Inl (Err ErrShortProgram)
          else ret \<lparr>Op = op, Len = n, Data = sub_bytes prog (pc + 1) e\<rparr>
        else if opcode = 0x4c
        then
          if pc = sub_u32 l 1 then Inl (Err ErrShortProgram)
          else
            let n = u32 (1 + (unat (prog ! (pc + 1)) + 1)); (e, ok) = AddUint32 pc n in
            if e > l then Inl (Err ErrShortProgram)
            else if \<not> ok then Inl GoPanic
            else ret \<lparr>Op = op, Len = n, Data = sub_bytes prog (pc + 2) e\<rparr>
        else if opcode = 0x4d
        then
          if length prog < 3 \<or> pc > sub_u32 l 3 then Inl (Err ErrShortProgram)
          else
            let n = u32 (1 + (le_nat (sub_bytes prog (pc + 1) (pc + 3)) + 2));
                (e, ok) = AddUint32 pc n in
            if \<not> ok then Inl (Err ErrOverflow)
            else if e > l then Inl (Err ErrShortProgram)
            else ret \<lparr>Op = op, Len = n, Data = sub_bytes prog (pc + 3) e\<rparr>
        else if opcode = 0x4e
        then
          if length prog < 5 \<or> pc > sub_u32 l 5 then Inl (Err ErrShortProgram)
          else
            let (n, ok) = AddUint32 5 (le_nat (sub_bytes prog (pc + 1) (pc + 5))) in
            if \<not> ok then Inl (Err ErrOverflow)
            else
              let (e, ok) = AddUint32 pc n in
              if \<not> ok then Inl (Err ErrOverflow)
              else if e > l then Inl (Err ErrShortProgram)
              else ret \<lparr>Op = op, Len = n, Data = sub_bytes prog (pc + 5) e\<rparr>
        else if opcode = 0x63 \<or> opcode = 0x64
        then
          let (e, ok) = AddUint32 pc 5 in
          if \<not> ok then Inl (Err ErrOverflow)
          else if e > l then Inl (Err ErrShortProgram)
          else ret \<lparr>Op = op, Len = 5, Data = sub_bytes prog (pc + 1) e\<rparr>
        else ret \<lparr>Op = op, Len = 1, Data = []\<rparr>)"

text \<open>
  \<^verbatim>\<open>ParseProgram\<close>: the loop advances by the length of each instruction.  \<open>n\<close> bounds the number of
  rounds; every instruction has at least one byte, so \<open>length prog\<close> rounds are enough
  (\<open>ParseProgram_total\<close> below).
\<close>

primrec parse_from :: "nat \<Rightarrow> bytes \<Rightarrow> nat \<Rightarrow> vm_exc + instruction list" where
  "parse_from 0 prog pc = (if pc < u32 (length prog) then Inl OutOfFuel else Inr [])"
| "parse_from (Suc n) prog pc =
     (if pc < u32 (length prog)
      then case ParseOp prog pc of
             Inl e \<Rightarrow> Inl e
           | Inr inst \<Rightarrow>
               (let (pc', ok) = AddUint32 pc (Len inst) in
                if \<not> ok then Inl (Err ErrOverflow)
                else case parse_from n prog pc' of
                       Inl e \<Rightarrow> Inl e
                     | Inr insts \<Rightarrow> Inr (inst # insts))
      else Inr [])"

definition ParseProgram :: "bytes \<Rightarrow> vm_exc + instruction list" where
  "ParseProgram prog = parse_from (length prog) prog 0"

text \<open>\<^verbatim>\<open>IsPushdata\<close> compares the function pointers with those of \<^verbatim>\<open>OP_1\<close> and \<^verbatim>\<open>OP_0\<close>.\<close>

definition IsPushdata :: "instruction \<Rightarrow> bool" where
  "IsPushdata inst \<longleftrightarrow> op_fn (Op inst) = op_fn 0x51 \<or> op_fn (Op inst) = op_fn 0x00"

end
