(* ===== verification/VM_Ops.thy ===== *)
theory VM_Ops
  imports VM_Types
begin

text \<open>
  State, primitives and operations of the virtual machine: \<^verbatim>\<open>vm.go\<close>, \<^verbatim>\<open>context.go\<close>,
  \<^verbatim>\<open>pushdata.go\<close>, \<^verbatim>\<open>stack.go\<close>, \<^verbatim>\<open>splice.go\<close>, \<^verbatim>\<open>bitwise.go\<close>, \<^verbatim>\<open>numeric.go\<close>,
  \<^verbatim>\<open>crypto.go\<close>, \<^verbatim>\<open>introspection.go\<close> and \<^verbatim>\<open>control.go\<close>, one definition per Go function.
  The stacks hold slices, with the top at the end as in the Go code; the arrays they point
  into are the field \<open>heap\<close>.  Array 0 is the backing array of the package variable
  \<^verbatim>\<open>trueBytes\<close>, which \<^verbatim>\<open>BoolBytes(true)\<close> returns without copying.

  Hash functions and signature verification are parameters (record \<open>runtime\<close>), as is the spare
  capacity that Go's \<^verbatim>\<open>append\<close> gives a new array.
\<close>

section \<open>State\<close>

record runtime =
  append_spare :: "nat \<Rightarrow> nat \<Rightarrow> nat"
  sha256_sum :: "bytes \<Rightarrow> bytes"
  sha3_sum :: "bytes \<Rightarrow> bytes"
  ripemd160_sum :: "bytes \<Rightarrow> bytes"
  ed25519_verify :: "bytes \<Rightarrow> bytes \<Rightarrow> bytes \<Rightarrow> bool"

record vm_context =
  VMVersion :: nat
  Code :: slice
  Arguments :: "slice list"
  EntryID :: slice
  TxVersion :: "nat option"
  BlockHeight :: "nat option"
  NumResults :: "nat option"
  AssetID :: "slice option"
  Amount :: "nat option"
  DestPos :: "nat option"
  SpentOutputID :: "slice option"
  TxSigHash :: "slice option"
  CheckOutput ::
    "(nat \<Rightarrow> nat \<Rightarrow> bytes \<Rightarrow> nat \<Rightarrow> bytes \<Rightarrow> bool \<Rightarrow> vm_error + bool) option"

record virtualMachine =
  ctxt :: vm_context
  program :: slice
  pc :: nat
  nextPC :: nat
  runLimit :: int
  deferredCost :: int
  expansionReserved :: bool
  data :: bytes
  depth :: nat
  dataStack :: "slice list"
  altStack :: "slice list"
  heap :: heap

type_synonym 'a vmop = "(virtualMachine, vm_exc, 'a) comp"

abbreviation failE :: "vm_error \<Rightarrow> 'a vmop" where
  "failE e \<equiv> throwE (Err e)"

section \<open>Cost and stack primitives (vm.go)\<close>

text \<open>\<^verbatim>\<open>int64(len(x))\<close>\<close>

definition len64 :: "nat \<Rightarrow> int" where
  "len64 n = i64 (int n)"

definition applyCost :: "int \<Rightarrow> unit vmop" where
  "applyCost n = (\<lambda>vm.
     if n > runLimit vm then (Inl (Err ErrRunLimitExceeded), vm\<lparr>runLimit := 0\<rparr>)
     else (Inr (), vm\<lparr>runLimit := i64 (runLimit vm - n)\<rparr>))"

definition deferCost :: "int \<Rightarrow> unit vmop" where
  "deferCost n = modifyE (\<lambda>vm. vm\<lparr>deferredCost := i64 (deferredCost vm + n)\<rparr>)"

definition push :: "slice \<Rightarrow> bool \<Rightarrow> unit vmop" where
  "push d deferred =
     (let cost = i64 (8 + len64 (s_len d)) in
      thenE (if deferred then deferCost cost else applyCost cost)
            (modifyE (\<lambda>vm. vm\<lparr>dataStack := dataStack vm @ [d]\<rparr>)))"

text \<open>Reading the bytes of a slice, and allocating a slice for fresh bytes.\<close>

definition load :: "slice \<Rightarrow> bytes vmop" where
  "load s = getsE (\<lambda>vm. rd (heap vm) s)"

definition new_bytes :: "bytes \<Rightarrow> slice vmop" where
  "new_bytes bs = (\<lambda>vm. let (s, h) = alloc bs (heap vm) in (Inr s, vm\<lparr>heap := h\<rparr>))"

definition appendE :: "runtime \<Rightarrow> slice \<Rightarrow> bytes \<Rightarrow> slice vmop" where
  "appendE R s bs =
     (\<lambda>vm. let (t, h) = append_slice (append_spare R) s bs (heap vm) in (Inr t, vm\<lparr>heap := h\<rparr>))"

definition trueBytes :: slice where
  "trueBytes = \<lparr>s_arr = 0, s_off = 0, s_len = 1, s_cap = 1\<rparr>"

definition BoolBytes :: "bool \<Rightarrow> slice" where
  "BoolBytes b = (if b then trueBytes else nil_slice)"

definition pushBool :: "bool \<Rightarrow> bool \<Rightarrow> unit vmop" where
  "pushBool b deferred = push (BoolBytes b) deferred"

text \<open>
  \<^verbatim>\<open>Int64Bytes\<close> allocates eight bytes and returns a prefix of them, so its result has
  capacity eight.
\<close>

definition newInt64Bytes :: "int \<Rightarrow> slice vmop" where
  "newInt64Bytes n =
     (if n = 0 then returnE nil_slice
      else bindE (new_bytes (le_bytes 8 (u64_of_i64 n)))
             (\<lambda>s. returnE (reslice s 0 (length (Int64Bytes n)))))"

definition pushInt64 :: "int \<Rightarrow> bool \<Rightarrow> unit vmop" where
  "pushInt64 n deferred = bindE (newInt64Bytes n) (\<lambda>s. push s deferred)"

definition pop :: "bool \<Rightarrow> slice vmop" where
  "pop deferred = (\<lambda>vm.
     if dataStack vm = [] then (Inl (Err ErrDataStackUnderflow), vm)
     else
       let res = last (dataStack vm);
           vm' = vm\<lparr>dataStack := butlast (dataStack vm)\<rparr>;
           cost = i64 (8 + len64 (s_len res))
       in (Inr res,
           if deferred then vm'\<lparr>deferredCost := i64 (deferredCost vm + i64 (- cost))\<rparr>
           else vm'\<lparr>runLimit := i64 (runLimit vm + cost)\<rparr>))"

definition liftErr :: "vm_error + 'a \<Rightarrow> 'a vmop" where
  "liftErr r = (case r of Inl e \<Rightarrow> failE e | Inr x \<Rightarrow> returnE x)"

definition popInt64 :: "bool \<Rightarrow> int vmop" where
  "popInt64 deferred =
     bindE (pop deferred) (\<lambda>s. bindE (load s) (\<lambda>bytes. liftErr (AsInt64 bytes)))"

definition vm_top :: "slice vmop" where
  "vm_top = (\<lambda>vm.
     if dataStack vm = [] then (Inl (Err ErrDataStackUnderflow), vm)
     else (Inr (last (dataStack vm)), vm))"

definition stackCost :: "slice list \<Rightarrow> int" where
  "stackCost stack =
     foldl (\<lambda>result item. i64 (result + len64 (s_len item))) (i64 (8 * int (length stack))) stack"

definition falseResult :: "virtualMachine \<Rightarrow> bool" where
  "falseResult vm \<longleftrightarrow>
     length (dataStack vm) = 0 \<or> \<not> AsBool (rd (heap vm) (last (dataStack vm)))"

text \<open>\<^verbatim>\<open>len(vm.dataStack) < n\<close> checks and stack rewriting without cost accounting.\<close>

definition needStack :: "int \<Rightarrow> unit vmop" where
  "needStack n =
     bindE (getsE (\<lambda>vm. length (dataStack vm))) (\<lambda>l. assertE (\<not> int l < n) (Err ErrDataStackUnderflow))"

definition setStack :: "(slice list \<Rightarrow> slice list) \<Rightarrow> unit vmop" where
  "setStack f = modifyE (\<lambda>vm. vm\<lparr>dataStack := f (dataStack vm)\<rparr>)"

section \<open>Data pushing (pushdata.go)\<close>

definition opFalse :: "unit vmop" where
  "opFalse = thenE (applyCost 1) (pushBool False False)"

definition opPushdata :: "unit vmop" where
  "opPushdata = thenE (applyCost 1)
     (bindE (getsE data) (\<lambda>d. bindE (new_bytes d) (\<lambda>s. push s False)))"

definition op1Negate :: "unit vmop" where
  "op1Negate = thenE (applyCost 1) (pushInt64 (- 1) False)"

definition opNop :: "unit vmop" where
  "opNop = applyCost 1"

section \<open>Stack operations (stack.go)\<close>

definition opToAltStack :: "unit vmop" where
  "opToAltStack = thenE (applyCost 2) (thenE (needStack 1)
     (modifyE (\<lambda>vm. vm\<lparr>altStack := altStack vm @ [last (dataStack vm)],
                       dataStack := butlast (dataStack vm)\<rparr>)))"

definition opFromAltStack :: "unit vmop" where
  "opFromAltStack = thenE (applyCost 2)
     (bindE (getsE altStack) (\<lambda>alt.
      thenE (assertE (length alt \<noteq> 0) (Err ErrAltStackUnderflow))
        (modifyE (\<lambda>vm. vm\<lparr>dataStack := dataStack vm @ [last alt], altStack := butlast alt\<rparr>))))"

definition op2Drop :: "unit vmop" where
  "op2Drop = thenE (applyCost 2)
     (bindE (pop False) (\<lambda>_. bindE (pop False) (\<lambda>_. returnE ())))"

text \<open>\<^verbatim>\<open>vm.push(vm.dataStack[len(vm.dataStack)-n], false)\<close>, \<open>k\<close> times\<close>

primrec dupLoop :: "nat \<Rightarrow> nat \<Rightarrow> unit vmop" where
  "dupLoop 0 n = returnE ()"
| "dupLoop (Suc k) n =
     bindE (getsE (\<lambda>vm. dataStack vm ! (length (dataStack vm) - n)))
       (\<lambda>x. thenE (push x False) (dupLoop k n))"

definition nDup :: "nat \<Rightarrow> unit vmop" where
  "nDup n = thenE (applyCost (int n)) (thenE (needStack (int n)) (dupLoop n n))"

definition op2Dup :: "unit vmop" where
  "op2Dup = nDup 2"

definition op3Dup :: "unit vmop" where
  "op3Dup = nDup 3"

definition op2Over :: "unit vmop" where
  "op2Over = thenE (applyCost 2) (thenE (needStack 4) (dupLoop 2 4))"

definition op2Rot :: "unit vmop" where
  "op2Rot = thenE (applyCost 2) (thenE (needStack 6)
     (setStack (\<lambda>s. let l = length s in
        take (l - 6) s @ drop (l - 4) s @ [s ! (l - 6)] @ [s ! (l - 5)])))"

definition op2Swap :: "unit vmop" where
  "op2Swap = thenE (applyCost 2) (thenE (needStack 4)
     (setStack (\<lambda>s. let l = length s in
        take (l - 4) s @ drop (l - 2) s @ [s ! (l - 4)] @ [s ! (l - 3)])))"

definition opIfDup :: "unit vmop" where
  "opIfDup = thenE (applyCost 1)
     (bindE vm_top (\<lambda>item. bindE (load item) (\<lambda>bs.
      if AsBool bs then push item False else returnE ())))"

definition opDepth :: "unit vmop" where
  "opDepth = thenE (applyCost 1)
     (bindE (getsE (\<lambda>vm. length (dataStack vm))) (\<lambda>l. pushInt64 (len64 l) False))"

definition opDrop :: "unit vmop" where
  "opDrop = thenE (applyCost 1) (bindE (pop False) (\<lambda>_. returnE ()))"

definition opDup :: "unit vmop" where
  "opDup = nDup 1"

definition opNip :: "unit vmop" where
  "opNip = thenE (applyCost 1)
     (bindE vm_top (\<lambda>t. thenE (setStack butlast)
       (bindE (pop False) (\<lambda>_. setStack (\<lambda>s. s @ [t])))))"

definition opOver :: "unit vmop" where
  "opOver = thenE (applyCost 1) (thenE (needStack 2)
     (bindE (getsE (\<lambda>vm. dataStack vm ! (length (dataStack vm) - 2))) (\<lambda>x. push x False)))"

definition opPick :: "unit vmop" where
  "opPick = thenE (applyCost 2)
     (bindE (popInt64 False) (\<lambda>n.
      thenE (assertE (\<not> n < 0) (Err ErrBadValue))
        (case AddInt64 n 1 of (off, ok) \<Rightarrow>
           thenE (assertE ok (Err ErrBadValue)) (thenE (needStack off)
             (bindE (getsE (\<lambda>vm. dataStack vm ! nat (len64 (length (dataStack vm)) - off)))
               (\<lambda>x. push x False))))))"

definition rot :: "int \<Rightarrow> unit vmop" where
  "rot n = thenE (assertE (\<not> n < 1) (Err ErrBadValue)) (thenE (needStack n)
     (setStack (\<lambda>s. let index = nat (len64 (length s) - n) in
        take index s @ drop (index + 1) s @ [s ! index])))"

definition opRoll :: "unit vmop" where
  "opRoll = thenE (applyCost 2)
     (bindE (popInt64 False) (\<lambda>n.
      thenE (assertE (\<not> n < 0) (Err ErrBadValue))
        (case AddInt64 n 1 of (off, ok) \<Rightarrow>
           thenE (assertE ok (Err ErrBadValue)) (rot off))))"

definition opRot :: "unit vmop" where
  "opRot = thenE (applyCost 2) (rot 3)"

definition opSwap :: "unit vmop" where
  "opSwap = thenE (applyCost 1) (thenE (needStack 2)
     (setStack (\<lambda>s. let l = length s in s[l - 1 := s ! (l - 2), l - 2 := s ! (l - 1)])))"

definition opTuck :: "unit vmop" where
  "opTuck = thenE (applyCost 1) (thenE (needStack 2)
     (bindE (getsE (\<lambda>vm. drop (length (dataStack vm) - 2) (dataStack vm))) (\<lambda>top2.
      thenE (setStack (\<lambda>s. take (length s - 2) s))
        (thenE (push (top2 ! 1) False) (setStack (\<lambda>s. s @ top2))))))"

section \<open>Splicing (splice.go)\<close>

definition opCat :: "runtime \<Rightarrow> unit vmop" where
  "opCat R = thenE (applyCost 4)
     (bindE (pop True) (\<lambda>b. bindE (pop True) (\<lambda>a.
      let lens = len64 (s_len a + s_len b) in
      thenE (applyCost lens) (thenE (deferCost (i64 (- lens)))
        (bindE (load b) (\<lambda>bs. bindE (appendE R a bs) (\<lambda>r. push r True)))))))"

definition opSubstr :: "unit vmop" where
  "opSubstr = thenE (applyCost 4)
     (bindE (popInt64 True) (\<lambda>size.
      thenE (assertE (\<not> size < 0) (Err ErrBadValue))
      (thenE (applyCost size) (thenE (deferCost (i64 (- size)))
      (bindE (popInt64 True) (\<lambda>offset.
       thenE (assertE (\<not> offset < 0) (Err ErrBadValue))
       (bindE (pop True) (\<lambda>str.
        case AddInt64 offset size of (e, ok) \<Rightarrow>
        thenE (assertE (\<not> (\<not> ok \<or> e > len64 (s_len str))) (Err ErrBadValue))
          (push (reslice str (nat offset) (nat e)) True)))))))))"

definition opLeft :: "unit vmop" where
  "opLeft = thenE (applyCost 4)
     (bindE (popInt64 True) (\<lambda>size.
      thenE (assertE (\<not> size < 0) (Err ErrBadValue))
      (thenE (applyCost size) (thenE (deferCost (i64 (- size)))
      (bindE (pop True) (\<lambda>str.
       thenE (assertE (\<not> size > len64 (s_len str)) (Err ErrBadValue))
         (push (reslice str 0 (nat size)) True)))))))"

definition opRight :: "unit vmop" where
  "opRight = thenE (applyCost 4)
     (bindE (popInt64 True) (\<lambda>size.
      thenE (assertE (\<not> size < 0) (Err ErrBadValue))
      (thenE (applyCost size) (thenE (deferCost (i64 (- size)))
      (bindE (pop True) (\<lambda>str.
       let lstr = len64 (s_len str) in
       thenE (assertE (\<not> size > lstr) (Err ErrBadValue))
         (push (reslice str (nat (lstr - size)) (s_len str)) True)))))))"

definition opSize :: "unit vmop" where
  "opSize = thenE (applyCost 1) (bindE vm_top (\<lambda>str. pushInt64 (len64 (s_len str)) True))"

definition opCatpushdata :: "runtime \<Rightarrow> unit vmop" where
  "opCatpushdata R = thenE (applyCost 4)
     (bindE (pop True) (\<lambda>b. bindE (pop True) (\<lambda>a.
      let lens = len64 (s_len a + s_len b) in
      thenE (applyCost lens) (thenE (deferCost (i64 (- lens)))
        (bindE (load b) (\<lambda>bs. bindE (appendE R a (PushdataBytes bs)) (\<lambda>r. push r True)))))))"

section \<open>Bitwise operations (bitwise.go)\<close>

unbundle bit_operations_syntax

definition opInvert :: "unit vmop" where
  "opInvert = thenE (applyCost 1)
     (bindE vm_top (\<lambda>t. thenE (applyCost (len64 (s_len t)))
     (bindE (load t) (\<lambda>bs. bindE (new_bytes (map NOT bs)) (\<lambda>newTop.
       setStack (\<lambda>s. s[length s - 1 := newTop]))))))"

definition opAnd :: "unit vmop" where
  "opAnd = thenE (applyCost 1)
     (bindE (pop True) (\<lambda>b. bindE (pop True) (\<lambda>a.
      thenE (applyCost (len64 (min (s_len a) (s_len b))))
      (bindE (load a) (\<lambda>as. bindE (load b) (\<lambda>bs.
       bindE (new_bytes (map2 (AND) as bs)) (\<lambda>res. push res True)))))))"

definition or_bytes :: "bool \<Rightarrow> bytes \<Rightarrow> bytes \<Rightarrow> bytes" where
  "or_bytes isXor a b =
     map (\<lambda>i. let aByte = (if i \<ge> length a then 0 else a ! i);
                   bByte = (if i \<ge> length b then 0 else b ! i)
               in if isXor then aByte XOR bByte else aByte OR bByte)
         [0..<max (length a) (length b)]"

definition doOr :: "bool \<Rightarrow> unit vmop" where
  "doOr isXor = thenE (applyCost 1)
     (bindE (pop True) (\<lambda>b. bindE (pop True) (\<lambda>a.
      thenE (applyCost (len64 (max (s_len a) (s_len b))))
      (bindE (load a) (\<lambda>as. bindE (load b) (\<lambda>bs.
       bindE (new_bytes (or_bytes isXor as bs)) (\<lambda>res. push res True)))))))"

definition opOr :: "unit vmop" where
  "opOr = doOr False"

definition opXor :: "unit vmop" where
  "opXor = doOr True"

definition doEqual :: "bool vmop" where
  "doEqual = thenE (applyCost 1)
     (bindE (pop True) (\<lambda>b. bindE (pop True) (\<lambda>a.
      thenE (applyCost (len64 (min (s_len a) (s_len b))))
      (bindE (load a) (\<lambda>as. bindE (load b) (\<lambda>bs. returnE (as = bs)))))))"

definition opEqual :: "unit vmop" where
  "opEqual = bindE doEqual (\<lambda>res. pushBool res True)"

definition opEqualVerify :: "unit vmop" where
  "opEqualVerify = bindE doEqual (\<lambda>res. if res then returnE () else failE ErrVerifyFailed)"

section \<open>Numeric operations (numeric.go)\<close>

text \<open>\<^verbatim>\<open>x >> n\<close> on a signed integer\<close>

definition sar :: "int \<Rightarrow> int \<Rightarrow> int" where
  "sar x n = (if n \<ge> 64 then (if x < 0 then - 1 else 0) else x div 2 ^ nat n)"

text \<open>The result of a checked operation, or \<^verbatim>\<open>ErrRange\<close>.\<close>

definition inRange :: "int \<times> bool \<Rightarrow> int vmop" where
  "inRange r = (case r of (res, ok) \<Rightarrow> if \<not> ok then failE ErrRange else returnE res)"

definition op1Add :: "unit vmop" where
  "op1Add = thenE (applyCost 2)
     (bindE (popInt64 True) (\<lambda>n. bindE (inRange (AddInt64 n 1)) (\<lambda>res. pushInt64 res True)))"

definition op1Sub :: "unit vmop" where
  "op1Sub = thenE (applyCost 2)
     (bindE (popInt64 True) (\<lambda>n. bindE (inRange (SubInt64 n 1)) (\<lambda>res. pushInt64 res True)))"

definition op2Mul :: "unit vmop" where
  "op2Mul = thenE (applyCost 2)
     (bindE (popInt64 True) (\<lambda>n. bindE (inRange (MulInt64 n 2)) (\<lambda>res. pushInt64 res True)))"

definition op2Div :: "unit vmop" where
  "op2Div = thenE (applyCost 2) (bindE (popInt64 True) (\<lambda>n. pushInt64 (sar n 1) True))"

definition opNegate :: "unit vmop" where
  "opNegate = thenE (applyCost 2)
     (bindE (popInt64 True) (\<lambda>n. bindE (inRange (NegateInt64 n)) (\<lambda>res. pushInt64 res True)))"

definition opAbs :: "unit vmop" where
  "opAbs = thenE (applyCost 2)
     (bindE (popInt64 True) (\<lambda>n.
      thenE (assertE (n \<noteq> MinInt64) (Err ErrRange))
        (pushInt64 (if n < 0 then i64 (- n) else n) True)))"

definition opNot :: "unit vmop" where
  "opNot = thenE (applyCost 2) (bindE (popInt64 True) (\<lambda>n. pushBool (n = 0) True))"

definition op0NotEqual :: "unit vmop" where
  "op0NotEqual = thenE (applyCost 2) (bindE (popInt64 True) (\<lambda>n. pushBool (n \<noteq> 0) True))"

definition opAdd :: "unit vmop" where
  "opAdd = thenE (applyCost 2)
     (bindE (popInt64 True) (\<lambda>y. bindE (popInt64 True) (\<lambda>x.
      bindE (inRange (AddInt64 x y)) (\<lambda>res. pushInt64 res True))))"

definition opSub :: "unit vmop" where
  "opSub = thenE (applyCost 2)
     (bindE (popInt64 True) (\<lambda>y. bindE (popInt64 True) (\<lambda>x.
      bindE (inRange (SubInt64 x y)) (\<lambda>res. pushInt64 res True))))"

definition opMul :: "unit vmop" where
  "opMul = thenE (applyCost 8)
     (bindE (popInt64 True) (\<lambda>y. bindE (popInt64 True) (\<lambda>x.
      bindE (inRange (MulInt64 x y)) (\<lambda>res. pushInt64 res True))))"

definition opDiv :: "unit vmop" where
  "opDiv = thenE (applyCost 8)
     (bindE (popInt64 True) (\<lambda>y. bindE (popInt64 True) (\<lambda>x.
      thenE (assertE (y \<noteq> 0) (Err ErrDivZero))
        (bindE (inRange (DivInt64 x y)) (\<lambda>res. pushInt64 res True)))))"

definition opMod :: "unit vmop" where
  "opMod = thenE (applyCost 8)
     (bindE (popInt64 True) (\<lambda>y. bindE (popInt64 True) (\<lambda>x.
      thenE (assertE (y \<noteq> 0) (Err ErrDivZero))
        (bindE (inRange (ModInt64 x y)) (\<lambda>res.
          pushInt64 (if res \<noteq> 0 \<and> (x \<ge> 0) \<noteq> (y \<ge> 0) then i64 (res + y) else res) True)))))"

definition opLshift :: "unit vmop" where
  "opLshift = thenE (applyCost 8)
     (bindE (popInt64 True) (\<lambda>y.
      thenE (assertE (\<not> y < 0) (Err ErrBadValue))
      (bindE (popInt64 True) (\<lambda>x.
       if x = 0 \<or> y = 0 then pushInt64 x True
       else bindE (inRange (LshiftInt64 x y)) (\<lambda>res. pushInt64 res True)))))"

definition opRshift :: "unit vmop" where
  "opRshift = thenE (applyCost 8)
     (bindE (popInt64 True) (\<lambda>y. bindE (popInt64 True) (\<lambda>x.
      thenE (assertE (\<not> y < 0) (Err ErrBadValue)) (pushInt64 (sar x y) True))))"

definition opBoolAnd :: "unit vmop" where
  "opBoolAnd = thenE (applyCost 2)
     (bindE (pop True) (\<lambda>b. bindE (pop True) (\<lambda>a.
      bindE (load a) (\<lambda>as. bindE (load b) (\<lambda>bs. pushBool (AsBool as \<and> AsBool bs) True)))))"

definition opBoolOr :: "unit vmop" where
  "opBoolOr = thenE (applyCost 2)
     (bindE (pop True) (\<lambda>b. bindE (pop True) (\<lambda>a.
      bindE (load a) (\<lambda>as. bindE (load b) (\<lambda>bs. pushBool (AsBool as \<or> AsBool bs) True)))))"

datatype num_cmp = cmpLess | cmpLessEqual | cmpGreater | cmpGreaterEqual | cmpEqual | cmpNotEqual

primrec num_compare :: "num_cmp \<Rightarrow> int \<Rightarrow> int \<Rightarrow> bool" where
  "num_compare cmpLess x y = (x < y)"
| "num_compare cmpLessEqual x y = (x \<le> y)"
| "num_compare cmpGreater x y = (x > y)"
| "num_compare cmpGreaterEqual x y = (x \<ge> y)"
| "num_compare cmpEqual x y = (x = y)"
| "num_compare cmpNotEqual x y = (x \<noteq> y)"

definition doNumCompare :: "num_cmp \<Rightarrow> unit vmop" where
  "doNumCompare c = thenE (applyCost 2)
     (bindE (popInt64 True) (\<lambda>y. bindE (popInt64 True) (\<lambda>x. pushBool (num_compare c x y) True)))"

definition opNumEqual :: "unit vmop" where
  "opNumEqual = doNumCompare cmpEqual"

definition opNumEqualVerify :: "unit vmop" where
  "opNumEqualVerify = thenE (applyCost 2)
     (bindE (popInt64 True) (\<lambda>y. bindE (popInt64 True) (\<lambda>x.
      if x = y then returnE () else failE ErrVerifyFailed)))"

definition opNumNotEqual :: "unit vmop" where
  "opNumNotEqual = doNumCompare cmpNotEqual"

definition opLessThan :: "unit vmop" where
  "opLessThan = doNumCompare cmpLess"

definition opGreaterThan :: "unit vmop" where
  "opGreaterThan = doNumCompare cmpGreater"

definition opLessThanOrEqual :: "unit vmop" where
  "opLessThanOrEqual = doNumCompare cmpLessEqual"

definition opGreaterThanOrEqual :: "unit vmop" where
  "opGreaterThanOrEqual = doNumCompare cmpGreaterEqual"

definition opMin :: "unit vmop" where
  "opMin = thenE (applyCost 2)
     (bindE (popInt64 True) (\<lambda>y. bindE (popInt64 True) (\<lambda>x.
      pushInt64 (if x > y then y else x) True)))"

definition opMax :: "unit vmop" where
  "opMax = thenE (applyCost 2)
     (bindE (popInt64 True) (\<lambda>y. bindE (popInt64 True) (\<lambda>x.
      pushInt64 (if x < y then y else x) True)))"

definition opWithin :: "unit vmop" where
  "opWithin = thenE (applyCost 4)
     (bindE (popInt64 True) (\<lambda>mx. bindE (popInt64 True) (\<lambda>mn. bindE (popInt64 True) (\<lambda>x.
      pushBool (x \<ge> mn \<and> x < mx) True))))"

text \<open>\<^verbatim>\<open>big.Int\<close> multiplication and truncated division are exact.\<close>

definition opMulFraction :: "unit vmop" where
  "opMulFraction = thenE (applyCost 8)
     (bindE (popInt64 True) (\<lambda>z.
      thenE (assertE (z \<noteq> 0) (Err ErrDivZero))
      (bindE (popInt64 True) (\<lambda>y. bindE (popInt64 True) (\<lambda>x.
       let res = go_quot (x * y) z in
       thenE (assertE (is_i64 res) (Err ErrRange)) (pushInt64 res True))))))"

section \<open>Hashes and signatures (crypto.go)\<close>

text \<open>\<^verbatim>\<open>h.Sum(nil)\<close> appends the digest to a nil slice.\<close>

definition doHash :: "runtime \<Rightarrow> (bytes \<Rightarrow> bytes) \<Rightarrow> unit vmop" where
  "doHash R hash =
     bindE (pop False) (\<lambda>x.
     let cost = len64 (s_len x) in
     thenE (applyCost (if cost < 64 then 64 else cost))
       (bindE (load x) (\<lambda>bs. bindE (appendE R nil_slice (hash bs)) (\<lambda>r. push r False))))"

definition opSha256 :: "runtime \<Rightarrow> unit vmop" where
  "opSha256 R = doHash R (sha256_sum R)"

definition opSha3 :: "runtime \<Rightarrow> unit vmop" where
  "opSha3 R = doHash R (sha3_sum R)"

definition opCheckSig :: "runtime \<Rightarrow> unit vmop" where
  "opCheckSig R = thenE (applyCost 1024)
     (bindE (pop True) (\<lambda>pubkey. bindE (pop True) (\<lambda>msg. bindE (pop True) (\<lambda>sig.
      thenE (assertE (\<not> s_len msg \<noteq> 32) (Err ErrBadValue))
      (if s_len pubkey \<noteq> 32 then pushBool False True
       else bindE (load pubkey) (\<lambda>p. bindE (load msg) (\<lambda>m. bindE (load sig) (\<lambda>s.
         pushBool (ed25519_verify R p m s) True))))))))"

text \<open>The loop over the remaining signatures and public keys: how many signatures are left.\<close>

fun match_sigs :: "runtime \<Rightarrow> bytes \<Rightarrow> bytes list \<Rightarrow> bytes list \<Rightarrow> bytes list" where
  "match_sigs R msg [] pubkeys = []"
| "match_sigs R msg sigs [] = sigs"
| "match_sigs R msg (s # sigs) (p # pubkeys) =
     (if ed25519_verify R p msg s then match_sigs R msg sigs pubkeys
      else match_sigs R msg (s # sigs) pubkeys)"

text \<open>
  Every key is paid for with 1024 units of gas before \<^verbatim>\<open>make([][]byte, 0, numPubkeys)\<close>.  The model takes the
  allocation to succeed; the runtime refuses it for more than about \<open>10\<^sup>1\<^sup>3\<close> keys, which takes \<open>10\<^sup>1\<^sup>6\<close> units.
\<close>

definition opCheckMultiSig :: "runtime \<Rightarrow> unit vmop" where
  "opCheckMultiSig R =
     bindE (popInt64 True) (\<lambda>numPubkeys.
     case MulInt64 numPubkeys 1024 of (pubCost, ok) \<Rightarrow>
     thenE (assertE (\<not> (numPubkeys < 0 \<or> \<not> ok)) (Err ErrBadValue))
     (thenE (applyCost pubCost)
     (bindE (popInt64 True) (\<lambda>numSigs.
      thenE (assertE (\<not> (numSigs < 0 \<or> numSigs > numPubkeys \<or> (numPubkeys > 0 \<and> numSigs = 0)))
              (Err ErrBadValue))
      (bindE (collectE (nat numPubkeys) (pop True)) (\<lambda>pubkeyByteses.
       bindE (pop True) (\<lambda>msg.
       thenE (assertE (\<not> s_len msg \<noteq> 32) (Err ErrBadValue))
       (bindE (collectE (nat numSigs) (pop True)) (\<lambda>sigs.
        if list_ex (\<lambda>p. s_len p \<noteq> 32) pubkeyByteses then pushBool False True
        else bindE (getsE heap) (\<lambda>h.
          pushBool (match_sigs R (rd h msg) (map (rd h) sigs) (map (rd h) pubkeyByteses) = []) True))))))))))"

definition opTxSigHash :: "unit vmop" where
  "opTxSigHash = thenE (applyCost 256)
     (bindE (getsE (\<lambda>vm. TxSigHash (ctxt vm))) (\<lambda>f.
      case f of None \<Rightarrow> failE ErrContext | Some h \<Rightarrow> push h False))"

definition opHash160 :: "runtime \<Rightarrow> unit vmop" where
  "opHash160 R =
     bindE (pop False) (\<lambda>d. thenE (applyCost (len64 (s_len d + 64)))
       (bindE (load d) (\<lambda>bs. bindE (appendE R nil_slice (ripemd160_sum R bs)) (\<lambda>r. push r False))))"

section \<open>Introspection (introspection.go)\<close>

text \<open>\<^verbatim>\<open>if vm.context.F == nil { return ErrContext }\<close>\<close>

definition fromContext :: "(vm_context \<Rightarrow> 'a option) \<Rightarrow> 'a vmop" where
  "fromContext f =
     bindE (getsE (\<lambda>vm. f (ctxt vm))) (\<lambda>v. case v of None \<Rightarrow> failE ErrContext | Some x \<Rightarrow> returnE x)"

definition opCheckOutput :: "unit vmop" where
  "opCheckOutput = thenE (applyCost 16)
     (bindE (pop True) (\<lambda>code. bindE (popInt64 True) (\<lambda>vmVersion.
      thenE (assertE (\<not> vmVersion < 0) (Err ErrBadValue))
      (bindE (pop True) (\<lambda>assetID. bindE (popInt64 True) (\<lambda>amount.
       thenE (assertE (\<not> amount < 0) (Err ErrBadValue))
       (bindE (popInt64 True) (\<lambda>index.
        thenE (assertE (\<not> index < 0) (Err ErrBadValue))
        (bindE (fromContext CheckOutput) (\<lambda>f. bindE (load assetID) (\<lambda>a. bindE (load code) (\<lambda>c.
         bindE (getsE expansionReserved) (\<lambda>expansion.
         bindE (liftErr (f (u64_of_i64 index) (u64_of_i64 amount) a (u64_of_i64 vmVersion) c expansion))
           (\<lambda>ok. pushBool ok True))))))))))))))"

definition opAsset :: "unit vmop" where
  "opAsset = thenE (applyCost 1) (bindE (fromContext AssetID) (\<lambda>a. push a True))"

definition opAmount :: "unit vmop" where
  "opAmount = thenE (applyCost 1)
     (bindE (fromContext Amount) (\<lambda>a. pushInt64 (i64_of_u64 a) True))"

definition opProgram :: "unit vmop" where
  "opProgram = thenE (applyCost 1) (bindE (getsE (\<lambda>vm. Code (ctxt vm))) (\<lambda>c. push c True))"

definition opIndex :: "unit vmop" where
  "opIndex = thenE (applyCost 1)
     (bindE (fromContext DestPos) (\<lambda>p. pushInt64 (i64_of_u64 p) True))"

definition opEntryID :: "unit vmop" where
  "opEntryID = thenE (applyCost 1) (bindE (getsE (\<lambda>vm. EntryID (ctxt vm))) (\<lambda>e. push e True))"

definition opOutputID :: "unit vmop" where
  "opOutputID = thenE (applyCost 1) (bindE (fromContext SpentOutputID) (\<lambda>s. push s True))"

definition opBlockHeight :: "unit vmop" where
  "opBlockHeight = thenE (applyCost 1)
     (bindE (fromContext BlockHeight) (\<lambda>h. pushInt64 (i64_of_u64 h) True))"

section \<open>Control flow (control.go)\<close>

definition opVerify :: "unit vmop" where
  "opVerify = thenE (applyCost 1)
     (bindE (pop True) (\<lambda>p. bindE (load p) (\<lambda>bs.
      if AsBool bs then returnE () else failE ErrVerifyFailed)))"

definition opFail :: "unit vmop" where
  "opFail = thenE (applyCost 1) (failE ErrReturn)"

definition opJump :: "unit vmop" where
  "opJump = thenE (applyCost 1) (modifyE (\<lambda>vm. vm\<lparr>nextPC := le_nat (data vm)\<rparr>))"

definition opJumpIf :: "unit vmop" where
  "opJumpIf = thenE (applyCost 1)
     (bindE (pop True) (\<lambda>p. bindE (load p) (\<lambda>bs.
      if AsBool bs then modifyE (\<lambda>vm. vm\<lparr>nextPC := le_nat (data vm)\<rparr>) else returnE ())))"

text \<open>
  \<^verbatim>\<open>CHECKPREDICATE\<close> runs a child machine on the top \<open>n\<close> items with \<open>limit\<close> gas.  \<open>run\<close> is the
  interpreter loop; the child shares the heap.  The parent is refunded the child's remaining
  run limit and the cost of the items left on the child's stacks, also when the child failed.
\<close>

definition child_vm :: "virtualMachine \<Rightarrow> slice \<Rightarrow> int \<Rightarrow> nat \<Rightarrow> virtualMachine" where
  "child_vm vm predicate limit keep =
     \<lparr>ctxt = ctxt vm, program = predicate, pc = 0, nextPC = 0, runLimit = limit,
      deferredCost = 0, expansionReserved = False, data = [], depth = depth vm + 1,
      dataStack = drop keep (dataStack vm), altStack = [], heap = heap vm\<rparr>"

definition runChild :: "unit vmop \<Rightarrow> slice \<Rightarrow> int \<Rightarrow> nat \<Rightarrow> (bool \<times> virtualMachine) vmop" where
  "runChild run predicate limit keep = (\<lambda>vm.
     case run (child_vm vm predicate limit keep) of (r, child) \<Rightarrow>
       let vm' = vm\<lparr>dataStack := take keep (dataStack vm), heap := heap child\<rparr> in
       (case r of
          Inl (Err _) \<Rightarrow> (Inr (False, child), vm')
        | Inl x \<Rightarrow> (Inl x, vm')
        | Inr _ \<Rightarrow> (Inr (\<not> falseResult child, child), vm')))"

definition opCheckPredicate :: "unit vmop \<Rightarrow> unit vmop" where
  "opCheckPredicate run = thenE (applyCost 256) (thenE (deferCost (- 256 + 64))
     (bindE (popInt64 True) (\<lambda>limit. bindE (pop True) (\<lambda>predicate. bindE (popInt64 True) (\<lambda>n.
      thenE (assertE (\<not> limit < 0) (Err ErrBadValue))
      (bindE (getsE (\<lambda>vm. (len64 (length (dataStack vm)), runLimit vm))) (\<lambda>(l, rl).
       let n' = (if n < 0 then l else n) in
       thenE (assertE (\<not> n' > l) (Err ErrDataStackUnderflow))
       (let limit' = (if limit = 0 then rl else limit) in
        thenE (applyCost limit')
        (bindE (runChild run predicate limit' (nat (l - n'))) (\<lambda>(ok, child).
         thenE (deferCost (i64 (- runLimit child)))
         (thenE (deferCost (i64 (- stackCost (dataStack child))))
         (thenE (deferCost (i64 (- stackCost (altStack child))))
           (pushBool ok True)))))))))))))"

end
