(* ===== verification/VM_Run.thy ===== *)
theory VM_Run
  imports VM_Ops
begin

text \<open>
  The interpreter of \<^verbatim>\<open>protocol/vm/vm.go\<close>: dispatch through the opcode table, \<^verbatim>\<open>step\<close>,
  \<^verbatim>\<open>run\<close> and \<^verbatim>\<open>Verify\<close>.  The loop takes fuel, one unit per executed instruction; running out
  is the outcome \<open>OutOfFuel\<close>, which no Go program has.  \<open>VM_Gas\<close> proves how much fuel is enough.
\<close>

section \<open>Dispatch (the function column of \<^verbatim>\<open>ops\<close>)\<close>

primrec exec_pushdata :: "pushdata_fn \<Rightarrow> unit vmop" where
  "exec_pushdata OpFalse = opFalse"
| "exec_pushdata OpPushdata = opPushdata"
| "exec_pushdata Op1Negate = op1Negate"
| "exec_pushdata OpNop = opNop"

primrec exec_control :: "unit vmop \<Rightarrow> control_fn \<Rightarrow> unit vmop" where
  "exec_control run OpJump = opJump"
| "exec_control run OpJumpIf = opJumpIf"
| "exec_control run OpVerify = opVerify"
| "exec_control run OpFail = opFail"
| "exec_control run OpCheckPredicate = opCheckPredicate run"

primrec exec_stack :: "stack_fn \<Rightarrow> unit vmop" where
  "exec_stack OpToAltStack = opToAltStack"
| "exec_stack OpFromAltStack = opFromAltStack"
| "exec_stack Op2Drop = op2Drop"
| "exec_stack Op2Dup = op2Dup"
| "exec_stack Op3Dup = op3Dup"
| "exec_stack Op2Over = op2Over"
| "exec_stack Op2Rot = op2Rot"
| "exec_stack Op2Swap = op2Swap"
| "exec_stack OpIfDup = opIfDup"
| "exec_stack OpDepth = opDepth"
| "exec_stack OpDrop = opDrop"
| "exec_stack OpDup = opDup"
| "exec_stack OpNip = opNip"
| "exec_stack OpOver = opOver"
| "exec_stack OpPick = opPick"
| "exec_stack OpRoll = opRoll"
| "exec_stack OpRot = opRot"
| "exec_stack OpSwap = opSwap"
| "exec_stack OpTuck = opTuck"

primrec exec_splice :: "runtime \<Rightarrow> splice_fn \<Rightarrow> unit vmop" where
  "exec_splice R OpCat = opCat R"
| "exec_splice R OpSubstr = opSubstr"
| "exec_splice R OpLeft = opLeft"
| "exec_splice R OpRight = opRight"
| "exec_splice R OpSize = opSize"
| "exec_splice R OpCatpushdata = opCatpushdata R"

primrec exec_bitwise :: "bitwise_fn \<Rightarrow> unit vmop" where
  "exec_bitwise OpInvert = opInvert"
| "exec_bitwise OpAnd = opAnd"
| "exec_bitwise OpOr = opOr"
| "exec_bitwise OpXor = opXor"
| "exec_bitwise OpEqual = opEqual"
| "exec_bitwise OpEqualVerify = opEqualVerify"

primrec exec_numeric :: "numeric_fn \<Rightarrow> unit vmop" where
  "exec_numeric Op1Add = op1Add"
| "exec_numeric Op1Sub = op1Sub"
| "exec_numeric Op2Mul = op2Mul"
| "exec_numeric Op2Div = op2Div"
| "exec_numeric OpNegate = opNegate"
| "exec_numeric OpAbs = opAbs"
| "exec_numeric OpNot = opNot"
| "exec_numeric Op0NotEqual = op0NotEqual"
| "exec_numeric OpAdd = opAdd"
| "exec_numeric OpSub = opSub"
| "exec_numeric OpMul = opMul"
| "exec_numeric OpDiv = opDiv"
| "exec_numeric OpMod = opMod"
| "exec_numeric OpLshift = opLshift"
| "exec_numeric OpRshift = opRshift"
| "exec_numeric OpBoolAnd = opBoolAnd"
| "exec_numeric OpBoolOr = opBoolOr"
| "exec_numeric OpNumEqual = opNumEqual"
| "exec_numeric OpNumEqualVerify = opNumEqualVerify"
| "exec_numeric OpNumNotEqual = opNumNotEqual"
| "exec_numeric OpLessThan = opLessThan"
| "exec_numeric OpGreaterThan = opGreaterThan"
| "exec_numeric OpLessThanOrEqual = opLessThanOrEqual"
| "exec_numeric OpGreaterThanOrEqual = opGreaterThanOrEqual"
| "exec_numeric OpMin = opMin"
| "exec_numeric OpMax = opMax"
| "exec_numeric OpWithin = opWithin"
| "exec_numeric OpMulFraction = opMulFraction"

primrec exec_crypto :: "runtime \<Rightarrow> crypto_fn \<Rightarrow> unit vmop" where
  "exec_crypto R OpSha256 = opSha256 R"
| "exec_crypto R OpSha3 = opSha3 R"
| "exec_crypto R OpHash160 = opHash160 R"
| "exec_crypto R OpCheckSig = opCheckSig R"
| "exec_crypto R OpCheckMultiSig = opCheckMultiSig R"
| "exec_crypto R OpTxSigHash = opTxSigHash"

primrec exec_introspection :: "introspection_fn \<Rightarrow> unit vmop" where
  "exec_introspection OpCheckOutput = opCheckOutput"
| "exec_introspection OpAsset = opAsset"
| "exec_introspection OpAmount = opAmount"
| "exec_introspection OpProgram = opProgram"
| "exec_introspection OpIndex = opIndex"
| "exec_introspection OpEntryID = opEntryID"
| "exec_introspection OpOutputID = opOutputID"
| "exec_introspection OpBlockHeight = opBlockHeight"

primrec exec_fn :: "runtime \<Rightarrow> unit vmop \<Rightarrow> opfn \<Rightarrow> unit vmop" where
  "exec_fn R run (PushdataFn f) = exec_pushdata f"
| "exec_fn R run (ControlFn f) = exec_control run f"
| "exec_fn R run (StackFn f) = exec_stack f"
| "exec_fn R run (SpliceFn f) = exec_splice R f"
| "exec_fn R run (BitwiseFn f) = exec_bitwise f"
| "exec_fn R run (NumericFn f) = exec_numeric f"
| "exec_fn R run (CryptoFn f) = exec_crypto R f"
| "exec_fn R run (IntrospectionFn f) = exec_introspection f"

section \<open>step, run, Verify (vm.go)\<close>

definition execute :: "runtime \<Rightarrow> unit vmop \<Rightarrow> instruction \<Rightarrow> unit vmop" where
  "execute R run inst =
     thenE (modifyE (\<lambda>vm. vm\<lparr>nextPC := u32 (pc vm + Len inst)\<rparr>))
     (if isExpansion (Op inst)
      then bindE (getsE expansionReserved) (\<lambda>reserved.
             if reserved then failE ErrDisallowedOpcode
             else thenE (modifyE (\<lambda>vm. vm\<lparr>pc := nextPC vm\<rparr>)) (applyCost 1))
      else thenE (modifyE (\<lambda>vm. vm\<lparr>deferredCost := 0, data := Data inst\<rparr>))
             (thenE (exec_fn R run (op_fn (Op inst)))
             (thenE (bindE (getsE deferredCost) applyCost)
               (modifyE (\<lambda>vm. vm\<lparr>pc := nextPC vm\<rparr>)))))"

definition step :: "runtime \<Rightarrow> unit vmop \<Rightarrow> unit vmop" where
  "step R run =
     bindE (getsE (\<lambda>vm. ParseOp (rd (heap vm) (program vm)) (pc vm))) (\<lambda>parsed.
     case parsed of Inl e \<Rightarrow> throwE e | Inr inst \<Rightarrow> execute R run inst)"

definition at_end :: "virtualMachine \<Rightarrow> bool" where
  "at_end vm \<longleftrightarrow> \<not> pc vm < u32 (s_len (program vm))"

primrec run_loop :: "runtime \<Rightarrow> nat \<Rightarrow> unit vmop" where
  "run_loop R 0 = (\<lambda>vm. if at_end vm then (Inr (), vm) else (Inl OutOfFuel, vm))"
| "run_loop R (Suc fuel) = (\<lambda>vm.
     if at_end vm then (Inr (), vm)
     else thenE (step R (\<lambda>child. run_loop R fuel (child\<lparr>pc := 0\<rparr>))) (run_loop R fuel) vm)"

definition run :: "runtime \<Rightarrow> nat \<Rightarrow> unit vmop" where
  "run R fuel = (\<lambda>vm. run_loop R fuel (vm\<lparr>pc := 0\<rparr>))"

text \<open>The machine that \<^verbatim>\<open>Verify\<close> sets up.\<close>

definition new_vm :: "vm_context \<Rightarrow> heap \<Rightarrow> int \<Rightarrow> virtualMachine" where
  "new_vm cx h gasLimit =
     \<lparr>ctxt = cx, program = Code cx, pc = 0, nextPC = 0, runLimit = gasLimit,
      deferredCost = 0, expansionReserved = (TxVersion cx = Some 1), data = [], depth = 0,
      dataStack = [], altStack = [], heap = h\<rparr>"

text \<open>
  \<^verbatim>\<open>Verify\<close> returns the gas left and the error; the model also returns the final machine.  A
  panic is recovered: the error becomes \<^verbatim>\<open>ErrUnexpected\<close> and the gas result is the zero value.
\<close>

definition Verify :: "runtime \<Rightarrow> nat \<Rightarrow> vm_context \<Rightarrow> heap \<Rightarrow> int \<Rightarrow>
    int \<times> vm_exc option \<times> virtualMachine" where
  "Verify R fuel cx h gasLimit =
     (if VMVersion cx \<noteq> 1 then (gasLimit, Some (Err ErrUnsupportedVM), new_vm cx h gasLimit)
      else
        case thenE (forE (\<lambda>arg. push arg False) (Arguments cx)) (run R fuel) (new_vm cx h gasLimit) of
          (Inl GoPanic, vm) \<Rightarrow> (0, Some (Err ErrUnexpected), vm)
        | (Inl e, vm) \<Rightarrow> (runLimit vm, Some e, vm)
        | (Inr _, vm) \<Rightarrow>
            (runLimit vm, if falseResult vm then Some (Err ErrFalseVMResult) else None, vm))"

end
