(* ===== verification/VM_Encoding.thy ===== *)
theory VM_Encoding
  imports VM_Types
begin

text \<open>
  Round trips of the encodings: integers to stack items and back (\<^verbatim>\<open>types.go\<close>), data to push
  instructions and back (\<^verbatim>\<open>pushdata.go\<close> against \<^verbatim>\<open>ParseOp\<close>), and whole programs.
\<close>

section \<open>Integers\<close>

lemma strip_zeros_append_zeros: "\<exists>k. bs = strip_zeros bs @ replicate k 0"
proof -
  have "rev bs = takeWhile (\<lambda>b. b = 0) (rev bs) @ dropWhile (\<lambda>b. b = 0) (rev bs)"
    by simp
  then have "bs = rev (dropWhile (\<lambda>b. b = 0) (rev bs)) @ rev (takeWhile (\<lambda>b. b = 0) (rev bs))"
    by (metis rev_append rev_rev_ident)
  moreover have "\<forall>x \<in> set (rev (takeWhile (\<lambda>b. b = 0) (rev bs))). x = 0"
    by (auto dest: set_takeWhileD)
  then have "rev (takeWhile (\<lambda>b. b = 0) (rev bs)) =
      replicate (length (rev (takeWhile (\<lambda>b. b = 0) (rev bs)))) 0"
    by (metis replicate_eqI)
  ultimately show ?thesis unfolding strip_zeros_def by metis
qed

lemma length_strip_zeros: "length (strip_zeros bs) \<le> length bs"
  by (simp add: strip_zeros_def length_dropWhile_le [of _ "rev bs", simplified])

lemma strip_zeros_pad:
  "strip_zeros bs @ replicate (length bs - length (strip_zeros bs)) 0 = bs"
proof -
  obtain k where k: "bs = strip_zeros bs @ replicate k 0"
    using strip_zeros_append_zeros by blast
  then have "length bs = length (strip_zeros bs) + k"
    by (metis length_append length_replicate)
  with k show ?thesis by simp
qed

lemma le_nat_strip_zeros: "le_nat (strip_zeros bs) = le_nat bs"
  by (metis le_nat_append le_nat_replicate_0 strip_zeros_pad add.right_neutral mult_zero_right)

lemma strip_zeros_eq_Nil: "strip_zeros bs = [] \<longleftrightarrow> (\<forall>b \<in> set bs. b = 0)"
  by (simp add: strip_zeros_def)

lemma dropWhile_zeros [simp]: "dropWhile (\<lambda>b. b = 0) (replicate k 0 @ xs) = dropWhile (\<lambda>b. b = 0) xs"
  by (induction k) auto

lemma strip_zeros_replicate [simp]: "strip_zeros (bs @ replicate k 0) = strip_zeros bs"
  by (simp add: strip_zeros_def)

lemma u64_of_i64_less: "u64_of_i64 n < 256 ^ 8"
proof -
  have "n mod 18446744073709551616 < 18446744073709551616" by simp
  then have "nat (n mod 18446744073709551616) < 18446744073709551616" by (simp add: nat_less_iff)
  then show ?thesis by (simp add: u64_of_i64_def)
qed

lemma length_Int64Bytes: "length (Int64Bytes n) \<le> 8"
  using length_strip_zeros [of "le_bytes 8 (u64_of_i64 n)"] by (simp add: Int64Bytes_def)

lemma AsInt64_range: "AsInt64 b = Inr n \<Longrightarrow> is_i64 n"
  by (auto simp: AsInt64_def i64_of_u64_def Let_def is_i64_def split: if_splits
      intro: i64_bounds)

text \<open>Reading an item as an integer ignores trailing zero bytes.\<close>

lemma AsInt64_le_nat: "length b \<le> 8 \<Longrightarrow> AsInt64 b = Inr (i64_of_u64 (le_nat b))"
  by (auto simp: AsInt64_def Let_def le_nat_append i64_of_u64_def)

lemma AsInt64_Int64Bytes: "is_i64 n \<Longrightarrow> AsInt64 (Int64Bytes n) = Inr n"
proof -
  assume n: "is_i64 n"
  have "le_nat (Int64Bytes n) = u64_of_i64 n"
    using u64_of_i64_less [of n]
    by (auto simp: Int64Bytes_def le_nat_strip_zeros le_nat_le_bytes u64_of_i64_def)
  with n show ?thesis
    by (simp add: AsInt64_le_nat length_Int64Bytes i64_of_u64_of_i64)
qed

lemma u64_of_i64_of_u64: "u < 18446744073709551616 \<Longrightarrow> u64_of_i64 (i64_of_u64 u) = u"
proof -
  assume u: "u < 18446744073709551616"
  have "i64 (int u) mod 18446744073709551616
      = (int u + 9223372036854775808 - 9223372036854775808) mod 18446744073709551616"
    unfolding i64_def by (rule mod_diff_left_eq)
  also have "\<dots> = int u" using u by simp
  finally show ?thesis by (simp add: u64_of_i64_def i64_of_u64_def)
qed

lemma Int64Bytes_AsInt64: "AsInt64 b = Inr n \<Longrightarrow> Int64Bytes n = strip_zeros b"
proof -
  assume a: "AsInt64 b = Inr n"
  then have len: "length b \<le> 8"
    by (auto simp: AsInt64_def split: if_splits)
  with a have n: "n = i64_of_u64 (le_nat b)"
    by (simp add: AsInt64_le_nat)
  have pad: "le_nat (b @ replicate (8 - length b) 0) = le_nat b"
    by (simp add: le_nat_append)
  have "le_nat b < 18446744073709551616"
    using le_nat_bound [of "b @ replicate (8 - length b) 0"] len pad by simp
  then have u: "u64_of_i64 n = le_nat b"
    by (simp add: n u64_of_i64_of_u64)
  have "le_bytes 8 (le_nat b) = b @ replicate (8 - length b) 0"
    using le_bytes_le_nat [of "b @ replicate (8 - length b) 0"] len pad by simp
  then have s: "strip_zeros (le_bytes 8 (u64_of_i64 n)) = strip_zeros b"
    by (simp add: u)
  show ?thesis
  proof (cases "n = 0")
    case True
    with u have "le_nat b = 0" by (simp add: u64_of_i64_def)
    then have "\<forall>x \<in> set b. x = 0"
      by (induction b) (auto simp: unat_eq_0)
    with True show ?thesis by (simp add: Int64Bytes_def strip_zeros_eq_Nil [THEN iffD2])
  next
    case False
    with s show ?thesis by (simp add: Int64Bytes_def)
  qed
qed

section \<open>Push instructions\<close>

lemma sub_bytes_middle:
  "i = length pre \<Longrightarrow> j = length pre + length bs \<Longrightarrow> sub_bytes (pre @ bs @ post) i j = bs"
  by (simp add: sub_bytes_def)

lemma AddUint32_small: "a + b \<le> MaxUint32 \<Longrightarrow> AddUint32 a b = (a + b, True)"
  by (simp add: AddUint32_checked checked_def is_u32_def)

lemma sub_u32_small: "b \<le> a \<Longrightarrow> a \<le> MaxUint32 \<Longrightarrow> sub_u32 a b = a - b"
  by (simp add: sub_u32_id is_u32_def)

lemma u32_small: "a \<le> MaxUint32 \<Longrightarrow> u32 a = a"
  by (simp add: u32_def)

lemmas parse_arith = AddUint32_small sub_u32_small u32_small

lemma unat_of_nat_byte: "n < 256 \<Longrightarrow> unat (of_nat n :: byte) = n"
  by (simp add: unat_of_nat)

lemma length_PushdataBytes:
  "length (PushdataBytes bs) = length bs +
     (if length bs \<le> 75 then 1 else if length bs < 256 then 2 else if length bs < 65536 then 3 else 5)"
  by (simp add: PushdataBytes_def Let_def)

lemma PushdataBytes_nonempty: "PushdataBytes bs \<noteq> []"
  by (simp add: PushdataBytes_def Let_def)

text \<open>One lemma per width of the length prefix, at any position of a program.\<close>

lemma ParseOp_data:
  assumes "0 < length bs" "length bs \<le> 75"
    and "length pre + length bs + 1 + length post \<le> 2147483647"
  shows "ParseOp (pre @ (of_nat (length bs) # bs) @ post) (length pre)
    = Inr \<lparr>Op = of_nat (length bs), Len = length bs + 1, Data = bs\<rparr>"
  using assms sub_bytes_middle [of "length pre + 1" "pre @ [of_nat (length bs)]" _ bs post]
  by (simp add: ParseOp_def Let_def parse_arith unat_of_nat_byte nth_append Suc_le_eq)

lemma ParseOp_pushdata1:
  assumes "length bs < 256" and "length pre + length bs + 2 + length post \<le> 2147483647"
  shows "ParseOp (pre @ ([0x4c, of_nat (length bs)] @ bs) @ post) (length pre)
    = Inr \<lparr>Op = 0x4c, Len = length bs + 2, Data = bs\<rparr>"
  using assms sub_bytes_middle [of "length pre + 2" "pre @ [0x4c, of_nat (length bs)]" _ bs post]
  by (simp add: ParseOp_def Let_def parse_arith unat_of_nat_byte nth_append)

lemma le_nat_prefix:
  "length pre < i \<Longrightarrow> i = length pre + 1 \<Longrightarrow> j = i + k \<Longrightarrow> v < 256 ^ k \<Longrightarrow>
   le_nat (sub_bytes (pre @ b # le_bytes k v @ post) i j) = v"
  by (simp add: sub_bytes_def le_nat_le_bytes)

lemma ParseOp_pushdata2:
  assumes "length bs < 65536" and "length pre + length bs + 3 + length post \<le> 2147483647"
  shows "ParseOp (pre @ (0x4d # le_bytes 2 (length bs) @ bs) @ post) (length pre)
    = Inr \<lparr>Op = 0x4d, Len = length bs + 3, Data = bs\<rparr>"
  using assms
    sub_bytes_middle [of "length pre + 3" "pre @ 0x4d # le_bytes 2 (length bs)" _ bs post]
    le_nat_prefix [of pre "length pre + 1" "length pre + 3" 2 "length bs" "0x4d" "bs @ post"]
  by (simp add: ParseOp_def Let_def parse_arith nth_append numeral_3_eq_3)

lemma ParseOp_pushdata4:
  assumes "length pre + length bs + 5 + length post \<le> 2147483647"
  shows "ParseOp (pre @ (0x4e # le_bytes 4 (length bs) @ bs) @ post) (length pre)
    = Inr \<lparr>Op = 0x4e, Len = length bs + 5, Data = bs\<rparr>"
  using assms
    sub_bytes_middle [of "length pre + 5" "pre @ 0x4e # le_bytes 4 (length bs)" _ bs post]
    le_nat_prefix [of pre "length pre + 1" "length pre + 5" 4 "length bs" "0x4e" "bs @ post"]
  by (simp add: ParseOp_def Let_def parse_arith nth_append add.assoc)

lemma ParseOp_PushdataBytes:
  assumes "length pre + length (PushdataBytes bs) + length post \<le> 2147483647"
  shows "ParseOp (pre @ PushdataBytes bs @ post) (length pre)
    = Inr \<lparr>Op = hd (PushdataBytes bs), Len = length (PushdataBytes bs), Data = bs\<rparr>"
proof -
  consider "bs = []" | "0 < length bs" "length bs \<le> 75" | "75 < length bs" "length bs < 256"
    | "256 \<le> length bs" "length bs < 65536" | "65536 \<le> length bs"
    by force
  then show ?thesis
  proof cases
    case 1
    with assms show ?thesis
      by (simp add: PushdataBytes_def ParseOp_def Let_def parse_arith nth_append)
  next
    case 2
    then have "PushdataBytes bs = of_nat (length bs) # bs"
      by (simp add: PushdataBytes_def Let_def)
    with 2 assms ParseOp_data [of bs pre post] show ?thesis by simp
  next
    case 3
    then have "PushdataBytes bs = [0x4c, of_nat (length bs)] @ bs"
      by (auto simp: PushdataBytes_def Let_def)
    with 3 assms ParseOp_pushdata1 [of bs pre post] show ?thesis by simp
  next
    case 4
    then have "PushdataBytes bs = 0x4d # le_bytes 2 (length bs) @ bs"
      by (auto simp: PushdataBytes_def Let_def)
    with 4 assms ParseOp_pushdata2 [of bs pre post] show ?thesis by simp
  next
    case 5
    with assms have "u32 (length bs) = length bs"
      by (simp add: length_PushdataBytes u32_small)
    with 5 have "PushdataBytes bs = 0x4e # le_bytes 4 (length bs) @ bs"
      by (auto simp: PushdataBytes_def Let_def)
    with 5 assms ParseOp_pushdata4 [of pre bs post] show ?thesis by simp
  qed
qed

section \<open>Programs\<close>

text \<open>What a successful \<^verbatim>\<open>ParseOp\<close> guarantees.\<close>

lemma AddUint32_True: "is_u32 a \<Longrightarrow> AddUint32 a b = (c, True) \<Longrightarrow> c = a + b \<and> a + b \<le> MaxUint32"
  by (auto simp: AddUint32_checked checked_def is_u32_def split: if_splits)

lemma le_nat_sub_bytes: "le_nat (sub_bytes bs i j) < 256 ^ (j - i)"
proof -
  have "length (sub_bytes bs i j) \<le> j - i" by (simp add: sub_bytes_def)
  then have "(256::nat) ^ length (sub_bytes bs i j) \<le> 256 ^ (j - i)"
    by (intro power_increasing) simp_all
  with le_nat_bound [of "sub_bytes bs i j"] show ?thesis by linarith
qed

lemma u32_len_prefix:
  "u32 (1 + unat (b::byte)) = 1 + unat b"
  "u32 (1 + (unat (b::byte) + 1)) = unat b + 2"
  "u32 (1 + (le_nat (sub_bytes bs (i + 1) (i + 3)) + 2)) = le_nat (sub_bytes bs (i + 1) (i + 3)) + 3"
proof -
  have b: "Suc (unat b) < 4294967296" "Suc (Suc (unat b)) < 4294967296"
    using unat_byte_less [of b] by linarith+
  have s: "le_nat (sub_bytes bs (i + 1) (i + 3)) < 256 ^ 2"
    using le_nat_sub_bytes [of bs "i + 1" "i + 3"] by simp
  show "u32 (1 + unat b) = 1 + unat b" "u32 (1 + (unat b + 1)) = unat b + 2"
    using b by (simp_all add: u32_def)
  show "u32 (1 + (le_nat (sub_bytes bs (i + 1) (i + 3)) + 2)) = le_nat (sub_bytes bs (i + 1) (i + 3)) + 3"
    using s by (simp add: u32_def)
qed

lemma ParseOp_Inr:
  assumes "ParseOp prog pc = Inr inst"
  shows "Op inst = prog ! pc" "1 \<le> Len inst" "pc + Len inst \<le> length prog"
    "length prog \<le> 2147483647"
    "unat (Op inst) = 0x63 \<or> unat (Op inst) = 0x64 \<Longrightarrow> length (Data inst) = 4"
proof -
  let ?l = "u32 (length prog)"
  have pc: "pc < ?l"
    using assms by (auto simp: ParseOp_def Let_def split: if_splits)
  then have u: "is_u32 pc"
    using u32_less [of "length prog"] unfolding is_u32_def by linarith
  show "length prog \<le> 2147483647"
    using assms by (auto simp: ParseOp_def Let_def split: if_splits prod.splits)
  then have l: "?l = length prog" by (simp add: u32_small)
  show "Op inst = prog ! pc"
    using assms by (auto simp: ParseOp_def Let_def split: if_splits prod.splits)
  note parsed = assms [unfolded ParseOp_def Let_def u32_len_prefix l]
  have five: "is_u32 5" by (simp add: is_u32_def)
  note add = AddUint32_True [OF u] AddUint32_True [OF five]
  have "1 \<le> Len inst \<and> pc + Len inst \<le> length prog"
    using parsed pc l by (auto split: if_splits prod.splits dest!: add)
  then show "1 \<le> Len inst" "pc + Len inst \<le> length prog" by simp_all
  show "unat (Op inst) = 0x63 \<or> unat (Op inst) = 0x64 \<Longrightarrow> length (Data inst) = 4"
    using parsed pc l by (auto simp: sub_bytes_def split: if_splits prod.splits dest!: add)
qed

lemma ParseOp_no_fuel: "ParseOp prog pc \<noteq> Inl OutOfFuel"
proof
  assume "ParseOp prog pc = Inl OutOfFuel"
  then show False by (auto simp: ParseOp_def Let_def split: if_splits prod.splits)
qed

text \<open>
  The overflow branch of \<^verbatim>\<open>OP_PUSHDATA1\<close> lacks its \<^verbatim>\<open>return\<close> and would slice out of range, as the
  check for long programs does not return either; no program of at most \<^verbatim>\<open>MaxInt32\<close> bytes gets
  there.
\<close>

lemma ParseOp_no_panic:
  assumes le: "length prog \<le> 2147483647"
  shows "ParseOp prog pc \<noteq> Inl GoPanic"
proof
  assume p: "ParseOp prog pc = Inl GoPanic"
  have l: "u32 (length prog) = length prog" using le by (simp add: u32_small)
  from p have "pc < length prog" and "\<not> snd (AddUint32 pc (unat (prog ! (pc + 1)) + 2))"
    unfolding ParseOp_def Let_def u32_len_prefix l by (auto split: if_splits prod.splits)
  moreover from this have "pc + (unat (prog ! (pc + 1)) + 2) < 4294967296"
    using le unat_byte_less [of "prog ! (pc + 1)"] by linarith
  ultimately show False using AddUint32_small by auto
qed

lemma parse_from_total:
  "length prog \<le> pc + n \<Longrightarrow> parse_from n prog pc \<noteq> Inl OutOfFuel"
proof (induction n arbitrary: pc)
  case 0
  then show ?case using u32_le [of "length prog"] by simp
next
  case (Suc n)
  show ?case
  proof (cases "ParseOp prog pc")
    case (Inl e)
    with ParseOp_no_fuel [of prog pc] show ?thesis by auto
  next
    case (Inr inst)
    have "1 \<le> Len inst" and le: "pc + Len inst \<le> length prog" and "length prog \<le> 2147483647"
      using ParseOp_Inr [OF Inr] by auto
    then have "AddUint32 pc (Len inst) = (pc + Len inst, True)"
      by (intro AddUint32_small) linarith
    moreover have "parse_from n prog (pc + Len inst) \<noteq> Inl OutOfFuel"
      using Suc.prems \<open>1 \<le> Len inst\<close> by (intro Suc.IH) linarith
    ultimately show ?thesis using Inr by (auto split: sum.splits)
  qed
qed

lemma parse_from_pushes:
  assumes "length pre + length (concat (map PushdataBytes ds)) \<le> 2147483647"
    and "length ds \<le> n"
  shows "parse_from n (pre @ concat (map PushdataBytes ds)) (length pre) =
    Inr (map (\<lambda>d. \<lparr>Op = hd (PushdataBytes d), Len = length (PushdataBytes d), Data = d\<rparr>) ds)"
  using assms
proof (induction ds arbitrary: pre n)
  case Nil
  then show ?case by (cases n) (simp_all add: u32_small)
next
  case (Cons d ds)
  then obtain m where n: "n = Suc m" by (cases n) auto
  let ?p = "PushdataBytes d" and ?rest = "concat (map PushdataBytes ds)"
  have len: "length pre + (length ?p + length ?rest) \<le> 2147483647"
    using Cons.prems(1) by simp
  have pos: "0 < length ?p" using PushdataBytes_nonempty by blast
  have "parse_from m ((pre @ ?p) @ ?rest) (length (pre @ ?p)) =
      Inr (map (\<lambda>d. \<lparr>Op = hd (PushdataBytes d), Len = length (PushdataBytes d), Data = d\<rparr>) ds)"
    using len Cons.prems(2) n by (intro Cons.IH) simp_all
  moreover have "ParseOp (pre @ ?p @ ?rest) (length pre)
      = Inr \<lparr>Op = hd ?p, Len = length ?p, Data = d\<rparr>"
    using len by (intro ParseOp_PushdataBytes) simp
  moreover have "AddUint32 (length pre) (length ?p) = (length pre + length ?p, True)"
    using len by (intro AddUint32_small) linarith
  moreover have "length pre < u32 (length (pre @ ?p @ ?rest))"
    using len pos by (simp add: u32_small)
  ultimately show ?case by (simp add: n)
qed

lemma length_push_program: "length ds \<le> length (concat (map PushdataBytes ds))"
proof (induction ds)
  case (Cons d ds)
  moreover have "0 < length (PushdataBytes d)" using PushdataBytes_nonempty by blast
  ultimately have "Suc (length ds) \<le> length (PushdataBytes d) + length (concat (map PushdataBytes ds))"
    by linarith
  then show ?case by simp
qed simp

text \<open>A parsed program is covered by its instructions, without gap or overlap.\<close>

lemma parse_from_Len:
  assumes "parse_from n prog pc = Inr insts" "pc \<le> length prog" "length prog \<le> 2147483647"
  shows "pc + sum_list (map Len insts) = length prog \<and>
    (\<forall>i < length insts. Op (insts ! i) = prog ! (pc + sum_list (map Len (take i insts))))"
  using assms
proof (induction n arbitrary: pc insts)
  case 0
  then show ?case by (auto simp: u32_small split: if_splits)
next
  case (Suc n)
  show ?case
  proof (cases "pc < u32 (length prog)")
    case True
    with Suc.prems(1) obtain inst where inst: "ParseOp prog pc = Inr inst"
      by (auto split: sum.splits)
    note p = ParseOp_Inr [OF inst]
    then have add: "AddUint32 pc (Len inst) = (pc + Len inst, True)"
      by (intro AddUint32_small) linarith
    with True Suc.prems(1) inst obtain rest where rest: "insts = inst # rest"
      "parse_from n prog (pc + Len inst) = Inr rest"
      by (auto split: sum.splits)
    with Suc.IH [OF rest(2)] p Suc.prems show ?thesis
      by (auto simp: nth_Cons' less_Suc_eq_0_disj add.assoc [symmetric])
  next
    case False
    with Suc.prems show ?thesis by (auto simp: u32_small)
  qed
qed

lemma parse_from_no_panic:
  assumes "length prog \<le> 2147483647"
  shows "parse_from n prog pc \<noteq> Inl GoPanic"
proof (induction n arbitrary: pc)
  case (Suc n)
  with ParseOp_no_panic [OF assms] show ?case by (auto split: sum.splits prod.splits)
qed simp

section \<open>Properties\<close>

text \<open>
  The integer encoding of the machine (\<^verbatim>\<open>Int64Bytes\<close>, \<^verbatim>\<open>AsInt64\<close>) round-trips.
  Every \<^verbatim>\<open>int64\<close> is written as at most eight bytes that read back as the same integer; and an
  item reads as an integer exactly when it has at most eight bytes, and the integer re-encodes to
  the item without its trailing zero bytes.
\<close>

theorem int64_codec_roundtrip:
  assumes "is_i64 n"
  shows "length (Int64Bytes n) \<le> 8 \<and> AsInt64 (Int64Bytes n) = Inr n \<and>
    (case AsInt64 b of
       Inl e \<Rightarrow> 8 < length b \<and> e = ErrBadValue
     | Inr m \<Rightarrow> length b \<le> 8 \<and> is_i64 m \<and> Int64Bytes m = strip_zeros b)"
proof (cases "AsInt64 b")
  case (Inl e)
  with assms show ?thesis
    by (auto simp: AsInt64_Int64Bytes length_Int64Bytes) (auto simp: AsInt64_def Let_def split: if_splits)
next
  case (Inr m)
  then have "length b \<le> 8" by (auto simp: AsInt64_def split: if_splits)
  with Inr assms show ?thesis
    by (auto simp: AsInt64_Int64Bytes length_Int64Bytes Int64Bytes_AsInt64 AsInt64_range)
qed

theorem int64_codec_roundtrip_witness:
  "is_i64 (- 2) \<and> AsInt64 (Int64Bytes (- 2)) = Inr (- 2) \<and>
   AsInt64 [5, 0] = Inr 5 \<and> Int64Bytes 5 = strip_zeros [5, 0]"
  using int64_codec_roundtrip [of "- 2" "[5, 0]"]
  by (auto simp: is_i64_def AsInt64_def i64_of_u64_def i64_def split: sum.splits)

text \<open>
  Property C31: a program made of push instructions parses to exactly the pushed items.  For any
  items, whatever the width of their length prefixes, \<^verbatim>\<open>ParseProgram\<close> on the concatenation of
  \<^verbatim>\<open>PushdataBytes\<close> returns one instruction per item, in order, carrying that item.
\<close>

theorem pushdata_roundtrip:
  assumes "length (concat (map PushdataBytes items)) \<le> 2147483647"
  shows "\<exists>insts. ParseProgram (concat (map PushdataBytes items)) = Inr insts \<and> map Data insts = items \<and>
    list_all (\<lambda>inst. Len inst = length (PushdataBytes (Data inst))) insts"
proof -
  let ?prog = "concat (map PushdataBytes items)"
  let ?inst = "\<lambda>d. \<lparr>Op = hd (PushdataBytes d), Len = length (PushdataBytes d), Data = d\<rparr>"
  have "ParseProgram ?prog = Inr (map ?inst items)"
    using parse_from_pushes [of "[]" items "length ?prog", unfolded append_Nil list.size add_0,
        OF assms length_push_program]
    unfolding ParseProgram_def .
  moreover have "map Data (map ?inst items) = items" by (simp add: comp_def)
  moreover have "list_all (\<lambda>inst. Len inst = length (PushdataBytes (Data inst))) (map ?inst items)"
    by (simp add: list_all_iff)
  ultimately show ?thesis by blast
qed

theorem pushdata_roundtrip_witness:
  "length (concat (map PushdataBytes [[], [1, 2], replicate 80 7])) \<le> 2147483647 \<and>
   (\<exists>insts. ParseProgram (concat (map PushdataBytes [[], [1, 2], replicate 80 7])) = Inr insts \<and>
      map Data insts = [[], [1, 2], replicate 80 7])"
proof -
  have *: "length (concat (map PushdataBytes [[], [1, 2], replicate 80 7])) \<le> 2147483647"
    by code_simp
  from pushdata_roundtrip [OF *] show ?thesis
    by (elim exE conjE) (intro conjI exI; (assumption | rule *))
qed

text \<open>
  \<^verbatim>\<open>ParseProgram\<close> is total on every program of at most \<^verbatim>\<open>MaxInt32\<close> bytes: its loop
  ends and never panics; when it succeeds, the instructions tile the program: their lengths sum
  to the length of the program and each opcode is the byte at the offset of its instruction.
\<close>

theorem ParseProgram_tiles:
  assumes "length prog \<le> 2147483647"
  shows "case ParseProgram prog of
      Inl e \<Rightarrow> (\<exists>err. e = Err err)
    | Inr insts \<Rightarrow> sum_list (map Len insts) = length prog \<and>
        (\<forall>i < length insts. Op (insts ! i) = prog ! sum_list (map Len (take i insts)))"
proof (cases "ParseProgram prog")
  case (Inl e)
  have "e \<noteq> GoPanic" "e \<noteq> OutOfFuel"
    using Inl assms parse_from_no_panic parse_from_total [of prog 0 "length prog"]
    by (auto simp: ParseProgram_def)
  with Inl show ?thesis by (cases e) auto
next
  case (Inr insts)
  then show ?thesis
    using parse_from_Len [of "length prog" prog 0 insts] assms by (simp add: ParseProgram_def)
qed

theorem ParseProgram_tiles_witness:
  "\<exists>insts. ParseProgram [0x02, 0x07, 0x08, 0x51, 0x87] = Inr insts \<and>
     sum_list (map Len insts) = length [0x02, 0x07, 0x08, 0x51, 0x87 :: byte]"
proof -
  have "ParseProgram [0x02, 0x07, 0x08, 0x51, 0x87] =
      Inr [\<lparr>Op = 0x02, Len = 3, Data = [7, 8]\<rparr>, \<lparr>Op = 0x51, Len = 1, Data = [1]\<rparr>,
           \<lparr>Op = 0x87, Len = 1, Data = []\<rparr>]"
    by code_simp
  then show ?thesis
    using ParseProgram_tiles [of "[0x02, 0x07, 0x08, 0x51, 0x87]"] by auto
qed

end
