(* ===== verification/VM_Wf.thy ===== *)
theory VM_Wf
  imports VM_Run VM_Encoding
begin

text \<open>
  Memory safety of the virtual machine.  A well-formed machine holds only slices that lie within
  their backing arrays; every operation keeps that, and none changes the context, the program
  slice or the number and size of the existing arrays.  All operations except \<^verbatim>\<open>CAT\<close>,
  \<^verbatim>\<open>CATPUSHDATA\<close> and \<^verbatim>\<open>CHECKPREDICATE\<close> moreover leave the contents of the existing arrays alone.

  Both facts come from one proof per operation, made in the locale \<open>heap_evolution\<close> over an
  arbitrary reflexive and transitive relation between the heaps before and after, and interpreted
  with \<open>heap_shape\<close> and with \<open>heap_frame\<close>.
\<close>

section \<open>Well-formed machines\<close>

definition context_ok :: "heap \<Rightarrow> vm_context \<Rightarrow> bool" where
  "context_ok h cx \<longleftrightarrow>
     slice_ok h (Code cx) \<and> list_all (slice_ok h) (Arguments cx) \<and> slice_ok h (EntryID cx) \<and>
     pred_option (slice_ok h) (AssetID cx) \<and> pred_option (slice_ok h) (SpentOutputID cx) \<and>
     pred_option (slice_ok h) (TxSigHash cx)"

definition wf_vm :: "virtualMachine \<Rightarrow> bool" where
  "wf_vm vm \<longleftrightarrow>
     list_all (slice_ok (heap vm)) (dataStack vm) \<and> list_all (slice_ok (heap vm)) (altStack vm) \<and>
     slice_ok (heap vm) (program vm) \<and> context_ok (heap vm) (ctxt vm) \<and>
     heap vm \<noteq> [] \<and> 1 \<le> length (heap vm ! 0)"

lemma context_ok_shape: "heap_shape h h' \<Longrightarrow> context_ok h cx \<Longrightarrow> context_ok h' cx"
  by (auto simp: context_ok_def list_all_iff slice_ok_shape option.pred_set)

lemma stack_ok_shape:
  "heap_shape h h' \<Longrightarrow> list_all (slice_ok h) ss \<Longrightarrow> list_all (slice_ok h') ss"
  by (auto simp: list_all_iff slice_ok_shape)

lemma wf_vm_heap:
  "wf_vm vm \<Longrightarrow> heap_shape (heap vm) h \<Longrightarrow> wf_vm (vm\<lparr>heap := h\<rparr>)"
  by (auto simp: wf_vm_def slice_ok_shape context_ok_shape stack_ok_shape)
    (auto simp: heap_shape_def)

text \<open>
  \<open>safe H X ss m Q\<close>: started in a well-formed machine in which the slices \<open>ss\<close> are valid, \<open>m\<close> keeps
  the machine well-formed, changes its heap only along \<open>H\<close>, keeps program and context, panics or
  runs out of fuel only if \<open>X\<close> allows it, and the slices \<open>Q x\<close> of the value \<open>x\<close> it returns are valid.
\<close>

primrec abrupt_exc :: "vm_exc \<Rightarrow> bool" where
  "abrupt_exc (Err _) = False"
| "abrupt_exc GoPanic = True"
| "abrupt_exc OutOfFuel = True"

primrec abrupt :: "vm_exc + 'a \<Rightarrow> bool" where
  "abrupt (Inl e) = abrupt_exc e"
| "abrupt (Inr _) = False"

definition same_frame :: "virtualMachine \<Rightarrow> virtualMachine \<Rightarrow> bool" where
  "same_frame vm vm' \<longleftrightarrow> ctxt vm' = ctxt vm \<and> program vm' = program vm \<and>
     expansionReserved vm' = expansionReserved vm \<and> depth vm' = depth vm"

definition safe ::
  "(heap \<Rightarrow> heap \<Rightarrow> bool) \<Rightarrow> bool \<Rightarrow> slice list \<Rightarrow> 'a vmop \<Rightarrow> ('a \<Rightarrow> slice list) \<Rightarrow> bool" where
  "safe H X ss m Q \<longleftrightarrow>
     (\<forall>vm. wf_vm vm \<and> list_all (slice_ok (heap vm)) ss \<longrightarrow>
        (case m vm of (r, vm') \<Rightarrow>
           wf_vm vm' \<and> H (heap vm) (heap vm') \<and> same_frame vm vm' \<and> (abrupt r \<longrightarrow> X) \<and>
           (case r of Inl _ \<Rightarrow> True | Inr x \<Rightarrow> list_all (slice_ok (heap vm')) (Q x))))"

lemma same_frame_refl [simp]: "same_frame vm vm"
  by (simp add: same_frame_def)

lemma same_frame_trans: "same_frame a b \<Longrightarrow> same_frame b c \<Longrightarrow> same_frame a c"
  by (simp add: same_frame_def)

lemma safeI:
  assumes "\<And>vm r vm'. wf_vm vm \<Longrightarrow> list_all (slice_ok (heap vm)) ss \<Longrightarrow> m vm = (r, vm') \<Longrightarrow>
     wf_vm vm' \<and> H (heap vm) (heap vm') \<and> same_frame vm vm' \<and> (abrupt r \<longrightarrow> X) \<and>
     (case r of Inl _ \<Rightarrow> True | Inr x \<Rightarrow> list_all (slice_ok (heap vm')) (Q x))"
  shows "safe H X ss m Q"
  using assms unfolding safe_def by (auto split: prod.splits)

lemma safeD:
  assumes "safe H X ss m Q" "wf_vm vm" "list_all (slice_ok (heap vm)) ss" "m vm = (r, vm')"
  shows "wf_vm vm'" "H (heap vm) (heap vm')" "same_frame vm vm'" "(abrupt r \<longrightarrow> X)"
    "r = Inr x \<Longrightarrow> list_all (slice_ok (heap vm')) (Q x)"
  using assms unfolding safe_def by (force split: prod.splits)+

lemma liftErr_Inr_iff: "liftErr r s = (Inr x, s') \<longleftrightarrow> r = Inr x \<and> s' = s"
  by (cases r) (auto simp: liftErr_def throwE_def returnE_def)

lemma popInt64_range: "popInt64 d vm = (Inr n, vm') \<Longrightarrow> is_i64 n"
  by (auto simp: popInt64_def bindE_Inr_iff liftErr_Inr_iff intro: AsInt64_range)

section \<open>Operations that do not write into existing arrays\<close>

locale heap_evolution =
  fixes H :: "heap \<Rightarrow> heap \<Rightarrow> bool" and X :: bool
  assumes H_refl: "H h h"
    and H_trans: "H h1 h2 \<Longrightarrow> H h2 h3 \<Longrightarrow> H h1 h3"
    and H_shape: "H h1 h2 \<Longrightarrow> heap_shape h1 h2"
    and H_alloc: "H h (h @ [bs])"
begin

lemma safe_bindE:
  assumes m: "safe H X ss m Q" and f: "\<And>x. safe H X (Q x @ ss) (f x) Q'"
  shows "safe H X ss (bindE m f) Q'"
proof (rule safeI)
  fix vm r vm''
  assume wf: "wf_vm vm" and ss: "list_all (slice_ok (heap vm)) ss"
    and b: "bindE m f vm = (r, vm'')"
  obtain r1 vm' where m1: "m vm = (r1, vm')" by fastforce
  note s1 = safeD [OF m wf ss m1]
  show "wf_vm vm'' \<and> H (heap vm) (heap vm'') \<and> same_frame vm vm'' \<and> (abrupt r \<longrightarrow> X) \<and>
     (case r of Inl _ \<Rightarrow> True | Inr x \<Rightarrow> list_all (slice_ok (heap vm'')) (Q' x))"
  proof (cases r1)
    case (Inl e)
    with b m1 s1 show ?thesis by (auto simp: bindE_apply)
  next
    case (Inr x)
    with b m1 have f1: "f x vm' = (r, vm'')" by (simp add: bindE_apply)
    have ss': "list_all (slice_ok (heap vm')) (Q x @ ss)"
      using s1 Inr stack_ok_shape [OF H_shape ss] by simp
    note s2 = safeD [OF f s1(1) ss' f1]
    with s1 show ?thesis
      by (auto intro: H_trans same_frame_trans split: sum.splits)
  qed
qed

lemma safe_thenE:
  "safe H X ss m (\<lambda>_. []) \<Longrightarrow> safe H X ss k Q' \<Longrightarrow> safe H X ss (thenE m k) Q'"
  unfolding thenE_def by (rule safe_bindE) auto

lemma safe_assertE:
  "(abrupt_exc e \<Longrightarrow> X) \<Longrightarrow> (b \<Longrightarrow> safe H X ss k Q) \<Longrightarrow> safe H X ss (thenE (assertE b e) k) Q"
  by (cases b) (auto simp: safe_def assertE_def thenE_apply returnE_def throwE_def H_refl)

lemma safe_returnE: "set (Q x) \<subseteq> set ss \<Longrightarrow> safe H X ss (returnE x) Q"
  by (auto simp: safe_def returnE_def H_refl list_all_iff)

lemma safe_failE: "safe H X ss (failE e) Q"
  by (simp add: safe_def throwE_def H_refl)

lemma safe_if:
  "(b \<Longrightarrow> safe H X ss m Q) \<Longrightarrow> (\<not> b \<Longrightarrow> safe H X ss k Q) \<Longrightarrow> safe H X ss (if b then m else k) Q"
  by simp

lemma safe_Let: "safe H X ss (f x) Q \<Longrightarrow> safe H X ss (Let x f) Q"
  by simp

lemma safe_case_prod:
  "(\<And>a b. r = (a, b) \<Longrightarrow> safe H X ss (f a b) Q) \<Longrightarrow> safe H X ss (case r of (a, b) \<Rightarrow> f a b) Q"
  by (cases r) simp

lemma safe_getsE: "(\<And>vm. Q (f vm) = []) \<Longrightarrow> safe H X ss (getsE f) Q"
  by (simp add: safe_def getsE_def H_refl)

lemma safe_pure: "safe H X ss (getsE f) (\<lambda>_. [])"
  by (rule safe_getsE) simp

lemma safe_getsE_slice:
  "(\<And>vm. wf_vm vm \<Longrightarrow> slice_ok (heap vm) (f vm)) \<Longrightarrow> safe H X ss (getsE f) (\<lambda>s. [s])"
  by (simp add: safe_def getsE_def H_refl)

lemma safe_applyCost: "safe H X ss (applyCost n) (\<lambda>_. [])"
  by (auto simp: safe_def applyCost_def H_refl wf_vm_def same_frame_def)

lemma safe_deferCost: "safe H X ss (deferCost n) (\<lambda>_. [])"
  by (auto simp: safe_def deferCost_def modifyE_def H_refl wf_vm_def same_frame_def)

lemma safe_setStack:
  "(\<And>s. set (f s) \<subseteq> set ss \<union> set s) \<Longrightarrow> safe H X ss (setStack f) (\<lambda>_. [])"
  by (fastforce simp: safe_def setStack_def modifyE_def H_refl wf_vm_def same_frame_def list_all_iff)

lemma safe_push: "s \<in> set ss \<Longrightarrow> safe H X ss (push s d) (\<lambda>_. [])"
  by (auto simp: safe_def push_def Let_def thenE_apply deferCost_def modifyE_def applyCost_def
      H_refl wf_vm_def same_frame_def list_all_iff)

lemma safe_pushBool: "safe H X ss (pushBool b d) (\<lambda>_. [])"
  by (auto simp: safe_def pushBool_def push_def Let_def thenE_apply deferCost_def modifyE_def
      applyCost_def H_refl wf_vm_def same_frame_def BoolBytes_def trueBytes_def slice_ok_def
      nil_slice_def)

lemma safe_new_bytes: "safe H X ss (new_bytes bs) (\<lambda>s. [s])"
proof (rule safeI)
  fix vm r vm'
  assume "wf_vm vm" and m: "new_bytes bs vm = (r, vm')"
  then have "wf_vm (vm\<lparr>heap := heap vm @ [bs]\<rparr>)"
    by (intro wf_vm_heap heap_frame_shape heap_frame_append)
  with m show "wf_vm vm' \<and> H (heap vm) (heap vm') \<and> same_frame vm vm' \<and> (abrupt r \<longrightarrow> X) \<and>
     (case r of Inl _ \<Rightarrow> True | Inr s \<Rightarrow> list_all (slice_ok (heap vm')) [s])"
    by (auto simp: new_bytes_def alloc_def same_frame_def slice_ok_def H_alloc)
qed

lemma safe_reslice:
  assumes "s \<in> set ss" "i \<le> j" "j \<le> s_len s" "safe H X (reslice s i j # ss) m Q"
  shows "safe H X ss m Q"
  using assms unfolding safe_def by (auto simp: list_all_iff reslice_ok)

lemma safe_load: "safe H X ss (load s) (\<lambda>_. [])"
  unfolding load_def by (rule safe_getsE) simp

lemma safe_newInt64Bytes: "safe H X ss (newInt64Bytes n) (\<lambda>s. [s])"
proof -
  have "safe H X ss (bindE (new_bytes (le_bytes 8 (u64_of_i64 n)))
      (\<lambda>s. returnE (reslice s 0 (length (Int64Bytes n))))) (\<lambda>s. [s])"
    (is "safe H X ss ?m _")
  proof (rule safeI)
    fix vm r vm'
    assume "wf_vm vm" and m: "?m vm = (r, vm')"
    then have "wf_vm (vm\<lparr>heap := heap vm @ [le_bytes 8 (u64_of_i64 n)]\<rparr>)"
      by (intro wf_vm_heap heap_frame_shape heap_frame_append)
    with m show "wf_vm vm' \<and> H (heap vm) (heap vm') \<and> same_frame vm vm' \<and> (abrupt r \<longrightarrow> X) \<and>
       (case r of Inl _ \<Rightarrow> True | Inr s \<Rightarrow> list_all (slice_ok (heap vm')) [s])"
      using length_Int64Bytes [of n]
      by (auto simp: bindE_apply returnE_def new_bytes_def alloc_def same_frame_def slice_ok_def
          reslice_def H_alloc)
  qed
  moreover have "safe H X ss (returnE nil_slice) (\<lambda>s. [s])"
    by (simp add: safe_def returnE_def H_refl)
  ultimately show ?thesis by (simp add: newInt64Bytes_def)
qed

lemma safe_pushInt64: "safe H X ss (pushInt64 n d) (\<lambda>_. [])"
  unfolding pushInt64_def by (rule safe_bindE [OF safe_newInt64Bytes], rule safe_push) simp

lemma safe_pop: "safe H X ss (pop d) (\<lambda>s. [s])"
  by (auto simp: safe_def pop_def Let_def H_refl wf_vm_def same_frame_def list_all_iff
      dest: in_set_butlastD)

lemma safe_vm_top: "safe H X ss vm_top (\<lambda>s. [s])"
  by (auto simp: safe_def vm_top_def H_refl wf_vm_def list_all_iff)

lemma safe_liftErr: "safe H X ss (liftErr r) (\<lambda>_. [])"
  by (auto simp: liftErr_def intro: safe_failE safe_returnE split: sum.splits)

lemma safe_popInt64: "safe H X ss (popInt64 d) (\<lambda>_. [])"
  unfolding popInt64_def by (rule safe_bindE safe_pop safe_load safe_liftErr)+

lemma safe_bind_popInt64:
  assumes "\<And>n. is_i64 n \<Longrightarrow> safe H X ss (f n) Q"
  shows "safe H X ss (bindE (popInt64 d) f) Q"
proof -
  let ?f = "\<lambda>n. if is_i64 n then f n else failE ErrBadValue"
  have "bindE (popInt64 d) f = bindE (popInt64 d) ?f"
    by (rule ext) (auto simp: bindE_def popInt64_range split: prod.splits sum.splits)
  moreover have "safe H X ss (bindE (popInt64 d) ?f) Q"
    by (rule safe_bindE [OF safe_popInt64]) (simp add: assms safe_failE)
  ultimately show ?thesis by simp
qed

lemma safe_inRange: "safe H X ss (inRange r) (\<lambda>_. [])"
  unfolding inRange_def by (cases r) (auto intro: safe_failE safe_returnE)

lemma safe_fromContext: "safe H X ss (fromContext f) (\<lambda>_. [])"
  unfolding fromContext_def
  by (rule safe_bindE [OF safe_pure]) (auto intro: safe_failE safe_returnE split: option.splits)

lemma safe_fromContext_slice:
  assumes "\<And>h cx. context_ok h cx \<Longrightarrow> pred_option (slice_ok h) (f cx)"
  shows "safe H X ss (fromContext f) (\<lambda>s. [s])"
  using assms
  by (fastforce simp: safe_def fromContext_def bindE_apply getsE_def H_refl throwE_def returnE_def
      wf_vm_def split: option.splits)

lemma safe_needStack: "safe H X ss (needStack n) (\<lambda>_. [])"
  by (auto simp: safe_def needStack_def bindE_apply getsE_def assertE_def returnE_def throwE_def H_refl)

lemma safe_collectE_pop: "safe H X ss (collectE n (pop d)) (\<lambda>xs. xs)"
proof (induction n arbitrary: ss)
  case 0
  then show ?case by (auto intro: safe_returnE)
next
  case (Suc n)
  then show ?case
    by (auto intro!: safe_bindE safe_pop safe_returnE)
qed

text \<open>One rule per command; \<open>(rule safe_intros | simp)+\<close> walks through an operation.\<close>

lemmas safe_intros = safe_assertE safe_thenE safe_bind_popInt64 safe_bindE safe_applyCost safe_deferCost safe_pushBool
  safe_pushInt64 safe_pop safe_popInt64 safe_vm_top safe_load safe_new_bytes safe_inRange
  safe_liftErr safe_collectE_pop safe_needStack safe_failE safe_returnE safe_if safe_Let
  safe_case_prod safe_push

lemma safe_exec_pushdata: "safe H X [] (exec_pushdata f) (\<lambda>_. [])"
proof (cases f)
  case OpPushdata
  show ?thesis unfolding OpPushdata exec_pushdata.simps opPushdata_def
    by (rule safe_thenE [OF safe_applyCost] safe_bindE [OF safe_pure] safe_intros | simp)+
qed (simp_all add: opFalse_def op1Negate_def opNop_def safe_thenE [OF safe_applyCost] safe_pushBool
    safe_pushInt64 safe_applyCost)

lemma safe_exec_numeric: "safe H X [] (exec_numeric f) (\<lambda>_. [])"
  by (cases f; simp only: exec_numeric.simps op1Add_def op1Sub_def op2Mul_def op2Div_def opNegate_def
      opAbs_def opNot_def op0NotEqual_def opAdd_def opSub_def opMul_def opDiv_def opMod_def
      opLshift_def opRshift_def opBoolAnd_def opBoolOr_def opNumEqual_def opNumEqualVerify_def
      opNumNotEqual_def opLessThan_def opGreaterThan_def opLessThanOrEqual_def
      opGreaterThanOrEqual_def opMin_def opMax_def opWithin_def opMulFraction_def doNumCompare_def;
      (rule safe_intros | simp)+)

lemma safe_setTop: "t \<in> set ss \<Longrightarrow> safe H X ss (setStack (\<lambda>s. s[length s - 1 := t])) (\<lambda>_. [])"
  by (rule safe_setStack) (use set_update_subset_insert in fastforce)

lemma safe_doEqual: "safe H X ss doEqual (\<lambda>_. [])"
  unfolding doEqual_def by (rule safe_intros | simp)+

lemma safe_exec_bitwise: "safe H X [] (exec_bitwise f) (\<lambda>_. [])"
  by (cases f; simp only: exec_bitwise.simps opInvert_def opAnd_def opOr_def opXor_def opEqual_def
      opEqualVerify_def doOr_def; (rule safe_doEqual safe_setTop safe_intros | simp)+)

lemma safe_exec_introspection: "safe H X [] (exec_introspection f) (\<lambda>_. [])"
proof (cases f)
  case OpCheckOutput
  show ?thesis unfolding OpCheckOutput exec_introspection.simps opCheckOutput_def
    by (rule safe_bindE [OF safe_fromContext] safe_bindE [OF safe_pure] safe_intros | simp)+
next
  case OpProgram
  show ?thesis unfolding OpProgram exec_introspection.simps opProgram_def
    by (rule safe_thenE [OF safe_applyCost] safe_bindE [OF safe_getsE_slice] safe_push
        | simp add: wf_vm_def context_ok_def)+
next
  case OpEntryID
  show ?thesis unfolding OpEntryID exec_introspection.simps opEntryID_def
    by (rule safe_thenE [OF safe_applyCost] safe_bindE [OF safe_getsE_slice] safe_push
        | simp add: wf_vm_def context_ok_def)+
next
  case OpAsset
  show ?thesis unfolding OpAsset exec_introspection.simps opAsset_def
    by (rule safe_thenE [OF safe_applyCost] safe_bindE [OF safe_fromContext_slice] safe_push
        | simp add: context_ok_def)+
next
  case OpOutputID
  show ?thesis unfolding OpOutputID exec_introspection.simps opOutputID_def
    by (rule safe_thenE [OF safe_applyCost] safe_bindE [OF safe_fromContext_slice] safe_push
        | simp add: context_ok_def)+
qed (simp only: exec_introspection.simps opAmount_def opIndex_def opBlockHeight_def;
    (rule safe_thenE [OF safe_applyCost] safe_bindE [OF safe_fromContext] safe_pushInt64)+)+

lemma safe_append_nil: "safe H X ss (appendE R nil_slice bs) (\<lambda>s. [s])"
proof (rule safeI)
  fix vm r vm'
  assume wf: "wf_vm vm" and m: "appendE R nil_slice bs vm = (r, vm')"
  obtain t h where a: "append_slice (append_spare R) nil_slice bs (heap vm) = (t, h)" by fastforce
  note spec = append_slice_spec [OF a slice_ok_nil]
  have "H (heap vm) h"
    using a by (auto simp: append_slice_def Let_def nil_slice_def overwrite_def H_refl H_alloc
        split: if_splits)
  with wf m a spec show "wf_vm vm' \<and> H (heap vm) (heap vm') \<and> same_frame vm vm' \<and> (abrupt r \<longrightarrow> X) \<and>
     (case r of Inl _ \<Rightarrow> True | Inr s \<Rightarrow> list_all (slice_ok (heap vm')) [s])"
    by (auto simp: appendE_def same_frame_def intro: wf_vm_heap)
qed

lemma safe_doHash: "safe H X ss (doHash R hash) (\<lambda>_. [])"
  unfolding doHash_def by (rule safe_append_nil safe_intros | simp)+

lemma safe_exec_crypto: "safe H X [] (exec_crypto R f) (\<lambda>_. [])"
proof (cases f)
  case OpTxSigHash
  have eq: "opTxSigHash = thenE (applyCost 256) (bindE (fromContext TxSigHash) (\<lambda>h. push h False))"
    by (rule ext)
      (auto simp: opTxSigHash_def fromContext_def thenE_def bindE_def getsE_def throwE_def
        returnE_def split: option.splits sum.splits prod.splits)
  show ?thesis unfolding OpTxSigHash exec_crypto.simps eq
    by (rule safe_thenE [OF safe_applyCost] safe_bindE [OF safe_fromContext_slice] safe_push
        | simp add: context_ok_def)+
next
  case OpCheckMultiSig
  show ?thesis unfolding OpCheckMultiSig exec_crypto.simps opCheckMultiSig_def
    by (rule safe_bindE [OF safe_pure] safe_intros | simp)+
qed (simp only: exec_crypto.simps opSha256_def opSha3_def opHash160_def opCheckSig_def;
    (rule safe_doHash safe_append_nil safe_intros | simp)+)+

text \<open>Splicing without \<^verbatim>\<open>append\<close>: the bounds checks make the slice expressions valid.\<close>

lemma len64_le: "len64 n \<le> int n"
proof -
  have "(int n + 9223372036854775808) mod 18446744073709551616 \<le> int n + 9223372036854775808"
    by (rule zmod_le_nonneg_dividend) simp
  then show ?thesis by (simp add: len64_def i64_def)
qed

lemma nat_le_len64: "n \<le> len64 l \<Longrightarrow> nat n \<le> l"
  using len64_le [of l] by linarith

lemma safe_push_reslice:
  assumes "s \<in> set ss" "i \<le> j" "j \<le> s_len s"
  shows "safe H X ss (push (reslice s i j) d) (\<lambda>_. [])"
  by (rule safe_reslice [OF assms]) (rule safe_push, simp)

lemma safe_opLeft: "safe H X [] opLeft (\<lambda>_. [])"
  unfolding opLeft_def
  by (rule safe_push_reslice safe_intros | simp add: nat_le_len64)+

lemma safe_opRight: "safe H X [] opRight (\<lambda>_. [])"
  unfolding opRight_def Let_def
  by (rule safe_push_reslice safe_intros | simp add: nat_le_len64)+

lemma safe_opSubstr: "safe H X [] opSubstr (\<lambda>_. [])"
  unfolding opSubstr_def
  by (rule safe_push_reslice safe_intros
      | simp add: nat_le_len64 AddInt64_checked checked_def split: if_splits)+

lemma safe_opSize: "safe H X [] opSize (\<lambda>_. [])"
  unfolding opSize_def by (rule safe_intros)+

text \<open>Stack operations: after a depth check, the rewriting uses only items of the stack.\<close>

lemma safe_needStack_set:
  assumes "\<And>s. n \<le> int (length s) \<Longrightarrow> set (f s) \<subseteq> set s"
  shows "safe H X ss (thenE (needStack n) (setStack f)) (\<lambda>_. [])"
proof -
  have "thenE (needStack n) (setStack f) vm =
      (if int (length (dataStack vm)) < n then (Inl (Err ErrDataStackUnderflow), vm)
       else (Inr (), vm\<lparr>dataStack := f (dataStack vm)\<rparr>))" for vm
    by (simp add: needStack_def setStack_def comp_simps)
  moreover have "wf_vm (vm\<lparr>dataStack := f (dataStack vm)\<rparr>)"
    if "wf_vm vm" "\<not> int (length (dataStack vm)) < n" for vm
    using that assms [of "dataStack vm"] by (auto simp: wf_vm_def list_all_iff)
  ultimately show ?thesis by (simp add: safe_def H_refl same_frame_def)
qed

lemma safe_needStack_bind:
  assumes f: "\<And>s. n \<le> int (length s) \<Longrightarrow> set (Q (f s)) \<subseteq> set s \<and> P (f s)"
    and k: "\<And>x. P x \<Longrightarrow> safe H X (Q x @ ss) (k x) Q'"
  shows "safe H X ss (thenE (needStack n) (bindE (getsE (\<lambda>vm. f (dataStack vm))) k)) Q'"
proof -
  let ?get = "\<lambda>vm. if int (length (dataStack vm)) < n then (Inl (Err ErrDataStackUnderflow), vm)
                 else (Inr (f (dataStack vm)), vm)"
  let ?k = "\<lambda>x. if P x then k x else failE ErrUnexpected"
  have "thenE (needStack n) (bindE (getsE (\<lambda>vm. f (dataStack vm))) k) = bindE ?get ?k"
    by (rule ext) (simp add: needStack_def comp_simps f)
  moreover have "safe H X ss ?get Q"
    unfolding safe_def
  proof (intro allI impI)
    fix vm
    assume "wf_vm vm \<and> list_all (slice_ok (heap vm)) ss"
    then show "case ?get vm of (r, vm') \<Rightarrow>
        wf_vm vm' \<and> H (heap vm) (heap vm') \<and> same_frame vm vm' \<and> (abrupt r \<longrightarrow> X) \<and>
        (case r of Inl _ \<Rightarrow> True | Inr x \<Rightarrow> list_all (slice_ok (heap vm')) (Q x))"
      using f [of "dataStack vm"] by (auto simp: H_refl wf_vm_def list_all_iff subset_eq)
  qed
  then have "safe H X ss (bindE ?get ?k) Q'"
    by (rule safe_bindE) (auto intro: k safe_failE)
  ultimately show ?thesis by simp
qed

lemma safe_needStack_get:
  assumes "\<And>s. n \<le> int (length s) \<Longrightarrow> f s \<in> set s"
  shows "safe H X ss (thenE (needStack n) (bindE (getsE (\<lambda>vm. f (dataStack vm))) (\<lambda>x. push x d))) (\<lambda>_. [])"
  by (rule safe_needStack_bind [where Q = "\<lambda>s. [s]" and P = "\<lambda>_. True"])
    (auto intro: assms safe_push)

lemma safe_dupLoop: "safe H X ss (thenE (needStack (int n)) (dupLoop k n)) (\<lambda>_. [])" if "1 \<le> n"
proof (induction k)
  case 0
  show ?case by simp (rule safe_thenE [OF safe_needStack], rule safe_returnE, simp)
next
  case (Suc k)
  let ?get = "bindE (getsE (\<lambda>vm. dataStack vm ! (length (dataStack vm) - n))) (\<lambda>x. push x False)"
  have "thenE (needStack (int n)) (dupLoop (Suc k) n) vm =
      thenE (thenE (needStack (int n)) ?get) (thenE (needStack (int n)) (dupLoop k n)) vm" for vm
    by (auto simp: needStack_def push_def applyCost_def comp_simps Let_def split: prod.splits sum.splits)
  then have "thenE (needStack (int n)) (dupLoop (Suc k) n) =
      thenE (thenE (needStack (int n)) ?get) (thenE (needStack (int n)) (dupLoop k n))" ..
  moreover have "safe H X ss (thenE (needStack (int n)) ?get) (\<lambda>_. [])"
    using that by (intro safe_needStack_get [of "int n" "\<lambda>s. s ! (length s - n)"]) simp
  ultimately show ?case using Suc by (simp only: safe_thenE)
qed

lemma safe_nDup: "1 \<le> n \<Longrightarrow> safe H X ss (nDup n) (\<lambda>_. [])"
  unfolding nDup_def by (rule safe_thenE safe_applyCost safe_dupLoop | assumption)+

lemma safe_rot: "safe H X ss (rot n) (\<lambda>_. [])"
  unfolding rot_def
proof (rule safe_assertE)
  assume n: "\<not> n < 1"
  show "safe H X ss (thenE (needStack n) (setStack (\<lambda>s. let index = nat (len64 (length s) - n) in
      take index s @ drop (index + 1) s @ [s ! index]))) (\<lambda>_. [])"
  proof (rule safe_needStack_set)
    fix s :: "slice list"
    assume "n \<le> int (length s)"
    with n len64_le [of "length s"] have "nat (len64 (length s) - n) < length s" by linarith
    then show "set (let index = nat (len64 (length s) - n) in
        take index s @ drop (index + 1) s @ [s ! index]) \<subseteq> set s"
      by (auto simp: Let_def dest: in_set_takeD in_set_dropD)
  qed
qed simp

lemma safe_opTuck: "safe H X [] opTuck (\<lambda>_. [])"
proof -
  have "safe H X (xs @ []) (thenE (setStack (\<lambda>s. take (length s - 2) s))
      (thenE (push (xs ! 1) False) (setStack (\<lambda>s. s @ xs)))) (\<lambda>_. [])" if "length xs = 2" for xs
    using that
    by (auto intro!: safe_thenE safe_setStack safe_push dest: in_set_takeD)
  then show ?thesis unfolding opTuck_def
    by (intro safe_thenE [OF safe_applyCost] safe_needStack_bind
        [where Q = "\<lambda>s. s" and P = "\<lambda>s. length s = 2" and f = "\<lambda>s. drop (length s - 2) s"])
      (auto dest: in_set_dropD)
qed

lemma safe_opPick: "safe H X [] opPick (\<lambda>_. [])"
proof -
  have "safe H X [] (thenE (needStack off)
      (bindE (getsE (\<lambda>vm. dataStack vm ! nat (len64 (length (dataStack vm)) - off)))
        (\<lambda>x. push x False))) (\<lambda>_. [])" if "1 \<le> off" for off
  proof (rule safe_needStack_get [where f = "\<lambda>s. s ! nat (len64 (length s) - off)"])
    fix s :: "slice list"
    assume "off \<le> int (length s)"
    with that len64_le [of "length s"] have "nat (len64 (length s) - off) < length s" by linarith
    then show "s ! nat (len64 (length s) - off) \<in> set s" by simp
  qed
  then show ?thesis unfolding opPick_def
    by - (rule safe_thenE [OF safe_applyCost] safe_bind_popInt64 safe_assertE safe_case_prod
      | simp add: AddInt64_checked checked_def is_i64_def split: if_splits)+
qed

lemma safe_opNip: "safe H X [] opNip (\<lambda>_. [])"
  unfolding opNip_def
  by (rule safe_thenE safe_bindE safe_applyCost safe_vm_top safe_setStack safe_pop
      | force dest: in_set_butlastD)+

lemma safe_opToAltStack: "safe H X [] opToAltStack (\<lambda>_. [])"
proof -
  have "safe H X [] (thenE (needStack 1) (modifyE (\<lambda>vm. vm\<lparr>altStack := altStack vm @ [last (dataStack vm)],
      dataStack := butlast (dataStack vm)\<rparr>))) (\<lambda>_. [])"
    by (auto simp: safe_def needStack_def comp_simps H_refl wf_vm_def same_frame_def list_all_iff
        dest: in_set_butlastD)
  then show ?thesis unfolding opToAltStack_def by (rule safe_thenE [OF safe_applyCost])
qed

lemma safe_opFromAltStack: "safe H X [] opFromAltStack (\<lambda>_. [])"
proof -
  have "safe H X [] (bindE (getsE altStack) (\<lambda>alt.
      thenE (assertE (length alt \<noteq> 0) (Err ErrAltStackUnderflow))
        (modifyE (\<lambda>vm. vm\<lparr>dataStack := dataStack vm @ [last alt], altStack := butlast alt\<rparr>)))) (\<lambda>_. [])"
    by (auto simp: safe_def comp_simps H_refl wf_vm_def same_frame_def list_all_iff
        dest: in_set_butlastD)
  then show ?thesis unfolding opFromAltStack_def by (rule safe_thenE [OF safe_applyCost])
qed

lemma safe_exec_stack: "safe H X [] (exec_stack f) (\<lambda>_. [])"
proof (cases f)
  case Op2Rot
  show ?thesis unfolding Op2Rot exec_stack.simps op2Rot_def
    by (intro safe_thenE [OF safe_applyCost] safe_needStack_set)
      (auto simp: Let_def dest: in_set_takeD in_set_dropD)
next
  case Op2Swap
  show ?thesis unfolding Op2Swap exec_stack.simps op2Swap_def
    by (intro safe_thenE [OF safe_applyCost] safe_needStack_set)
      (auto simp: Let_def dest: in_set_takeD in_set_dropD)
next
  case OpSwap
  show ?thesis unfolding OpSwap exec_stack.simps opSwap_def
    by (intro safe_thenE [OF safe_applyCost] safe_needStack_set)
      (auto simp: Let_def in_set_conv_nth nth_list_update split: if_splits)
next
  case OpOver
  show ?thesis unfolding OpOver exec_stack.simps opOver_def
    by (intro safe_thenE [OF safe_applyCost] safe_needStack_get [where f = "\<lambda>s. s ! (length s - 2)"]) simp
next
  case Op2Over
  show ?thesis unfolding Op2Over exec_stack.simps op2Over_def
    using safe_dupLoop [of 4 "[]" 2] by (intro safe_thenE [OF safe_applyCost]) simp
next
  case OpRoll
  show ?thesis unfolding OpRoll exec_stack.simps opRoll_def
    by (rule safe_rot safe_intros | simp)+
next
  case OpIfDup
  show ?thesis unfolding OpIfDup exec_stack.simps opIfDup_def
    by (rule safe_intros | simp)+
next
  case OpDepth
  show ?thesis unfolding OpDepth exec_stack.simps opDepth_def
    by (rule safe_thenE [OF safe_applyCost] safe_bindE [OF safe_pure] safe_pushInt64)+
qed (simp_all add: op2Drop_def op2Dup_def op3Dup_def opDup_def opDrop_def opRot_def safe_opTuck safe_opPick
    safe_opNip safe_opToAltStack safe_opFromAltStack safe_nDup safe_rot safe_thenE [OF safe_applyCost]
    safe_bindE [OF safe_pop] safe_returnE)

text \<open>Control flow without \<^verbatim>\<open>CHECKPREDICATE\<close>.\<close>

lemma safe_nextPC: "safe H X ss (modifyE (\<lambda>vm. vm\<lparr>nextPC := f vm\<rparr>)) (\<lambda>_. [])"
  by (auto simp: safe_def modifyE_def H_refl wf_vm_def same_frame_def)

lemma safe_setPC: "safe H X ss m Q \<Longrightarrow> safe H X ss (\<lambda>vm. m (vm\<lparr>pc := 0\<rparr>)) Q"
proof -
  assume m: "safe H X ss m Q"
  have "safe H X ss (modifyE (\<lambda>vm. vm\<lparr>pc := 0\<rparr>)) (\<lambda>_. [])"
    by (auto simp: safe_def modifyE_def H_refl wf_vm_def same_frame_def)
  then have "safe H X ss (thenE (modifyE (\<lambda>vm. vm\<lparr>pc := 0\<rparr>)) m) Q"
    using m by (rule safe_thenE)
  then show ?thesis by (simp add: thenE_def bindE_def modifyE_def)
qed

lemma safe_exec_control: "f \<noteq> OpCheckPredicate \<Longrightarrow> safe H X [] (exec_control child f) (\<lambda>_. [])"
  by (cases f; simp only: exec_control.simps opJump_def opJumpIf_def opVerify_def opFail_def;
      (rule safe_nextPC safe_intros | simp)+)

lemma safe_exec_splice:
  "f \<noteq> OpCat \<Longrightarrow> f \<noteq> OpCatpushdata \<Longrightarrow> safe H X [] (exec_splice R f) (\<lambda>_. [])"
  by (cases f) (simp_all add: safe_opLeft safe_opRight safe_opSubstr safe_opSize)

lemma safe_exec_fn:
  assumes "f \<noteq> ControlFn OpCheckPredicate" "f \<noteq> SpliceFn OpCat" "f \<noteq> SpliceFn OpCatpushdata"
  shows "safe H X [] (exec_fn R child f) (\<lambda>_. [])"
  using assms
  by (cases f) (auto simp: safe_exec_pushdata safe_exec_control safe_exec_stack safe_exec_splice
      safe_exec_bitwise safe_exec_numeric safe_exec_crypto safe_exec_introspection)

text \<open>An instruction whose operation is safe is executed safely.\<close>

lemma safe_execute:
  assumes "safe H X [] (exec_fn R child (op_fn (Op inst))) (\<lambda>_. [])"
  shows "safe H X [] (execute R child inst) (\<lambda>_. [])"
proof -
  have pc: "safe H X [] (modifyE (\<lambda>vm. vm\<lparr>pc := nextPC vm\<rparr>)) (\<lambda>_. [])"
    and d: "safe H X [] (modifyE (\<lambda>vm. vm\<lparr>deferredCost := 0, data := Data inst\<rparr>)) (\<lambda>_. [])"
    by (auto simp: safe_def modifyE_def H_refl wf_vm_def same_frame_def)
  show ?thesis unfolding execute_def
    by (rule safe_thenE [OF safe_nextPC] safe_thenE [OF pc] safe_thenE [OF d] safe_thenE [OF assms] pc
        safe_bindE [OF safe_pure] safe_applyCost safe_thenE safe_failE safe_if | simp)+
qed

end

interpretation shape: heap_evolution heap_shape X for X
  by unfold_locales (auto intro: heap_shape_trans heap_frame_shape)

interpretation frame: heap_evolution heap_frame X for X
  by unfold_locales (auto intro: heap_frame_trans heap_frame_shape)

section \<open>Operations that append in place, and \<^verbatim>\<open>CHECKPREDICATE\<close>\<close>

lemma safe_appendE: "s \<in> set ss \<Longrightarrow> safe heap_shape X ss (appendE R s bs) (\<lambda>t. [t])"
proof (rule safeI)
  fix vm r vm'
  assume s: "s \<in> set ss" and wf: "wf_vm vm" and ss: "list_all (slice_ok (heap vm)) ss"
    and m: "appendE R s bs vm = (r, vm')"
  obtain t h where a: "append_slice (append_spare R) s bs (heap vm) = (t, h)" by fastforce
  have "slice_ok (heap vm) s" using s ss by (simp add: list_all_iff)
  note spec = append_slice_spec [OF a this]
  with wf m a show "wf_vm vm' \<and> heap_shape (heap vm) (heap vm') \<and> same_frame vm vm' \<and>
      (abrupt r \<longrightarrow> X) \<and> (case r of Inl _ \<Rightarrow> True | Inr t \<Rightarrow> list_all (slice_ok (heap vm')) [t])"
    by (auto simp: appendE_def same_frame_def intro: wf_vm_heap)
qed

lemma safe_exec_cat: "safe heap_shape X [] (exec_splice R f) (\<lambda>_. [])"
proof (cases "f = OpCat \<or> f = OpCatpushdata")
  case True
  have "safe heap_shape X [] (opCat R) (\<lambda>_. [])" "safe heap_shape X [] (opCatpushdata R) (\<lambda>_. [])"
    unfolding opCat_def opCatpushdata_def
    by (rule safe_appendE shape.safe_intros | simp)+
  with True show ?thesis by auto
qed (simp add: shape.safe_exec_splice)

lemma safe_runChild:
  assumes run: "safe heap_shape X [] child (\<lambda>_. [])" and "predicate \<in> set ss"
  shows "safe heap_shape X ss (runChild child predicate limit keep) (\<lambda>_. [])"
proof (rule safeI)
  fix vm r vm'
  assume wf: "wf_vm vm" and ss: "list_all (slice_ok (heap vm)) ss"
    and m: "runChild child predicate limit keep vm = (r, vm')"
  have "wf_vm (child_vm vm predicate limit keep)"
    using wf ss assms(2) by (auto simp: wf_vm_def child_vm_def list_all_iff dest: in_set_dropD)
  moreover obtain rc cv where c: "child (child_vm vm predicate limit keep) = (rc, cv)" by fastforce
  ultimately have "heap_shape (heap vm) (heap cv)" and "abrupt rc \<longrightarrow> X"
    using safeD [OF run _ _ c] by (simp_all add: child_vm_def)
  moreover have "wf_vm (vm\<lparr>dataStack := take keep (dataStack vm)\<rparr>)"
    using wf by (auto simp: wf_vm_def list_all_iff dest: in_set_takeD)
  ultimately have "wf_vm (vm\<lparr>dataStack := take keep (dataStack vm), heap := heap cv\<rparr>)"
    using wf_vm_heap [of "vm\<lparr>dataStack := take keep (dataStack vm)\<rparr>" "heap cv"] by simp
  then show "wf_vm vm' \<and> heap_shape (heap vm) (heap vm') \<and> same_frame vm vm' \<and>
      (abrupt r \<longrightarrow> X) \<and> (case r of Inl _ \<Rightarrow> True | Inr _ \<Rightarrow> list_all (slice_ok (heap vm')) [])"
    using m c \<open>heap_shape (heap vm) (heap cv)\<close> \<open>abrupt rc \<longrightarrow> X\<close>
    by (auto simp: runChild_def Let_def same_frame_def split: sum.splits vm_exc.splits)
qed

lemma safe_opCheckPredicate:
  assumes "safe heap_shape X [] child (\<lambda>_. [])"
  shows "safe heap_shape X [] (opCheckPredicate child) (\<lambda>_. [])"
  unfolding opCheckPredicate_def
  by (rule shape.safe_bindE [OF shape.safe_pure] shape.safe_bindE [OF safe_runChild [OF assms]]
      shape.safe_intros | simp)+

lemma safe_exec_any:
  assumes "safe heap_shape X [] child (\<lambda>_. [])"
  shows "safe heap_shape X [] (exec_fn R child f) (\<lambda>_. [])"
proof (cases "f = ControlFn OpCheckPredicate \<or> f = SpliceFn OpCat \<or> f = SpliceFn OpCatpushdata")
  case True
  with assms safe_exec_cat [of X R OpCat] safe_exec_cat [of X R OpCatpushdata] show ?thesis
    by (auto simp: safe_opCheckPredicate)
qed (simp add: shape.safe_exec_fn)

section \<open>Steps and runs\<close>

lemma safe_throwE: "safe heap_shape True ss (throwE e) Q"
  by (simp add: safe_def throwE_def)

lemma safe_step:
  assumes "safe heap_shape True [] child (\<lambda>_. [])"
  shows "safe heap_shape True [] (step R child) (\<lambda>_. [])"
  unfolding step_def
  by (rule shape.safe_bindE [OF shape.safe_pure])
    (simp add: safe_throwE shape.safe_execute safe_exec_any [OF assms] split: sum.split)

lemma safe_run_loop: "safe heap_shape True [] (run_loop R fuel) (\<lambda>_. [])"
proof (induction fuel)
  case 0
  show ?case by (simp add: safe_def)
next
  case (Suc fuel)
  have "safe heap_shape True [] (\<lambda>child. run_loop R fuel (child\<lparr>pc := 0\<rparr>)) (\<lambda>_. [])"
    by (rule shape.safe_setPC [OF Suc])
  then have "safe heap_shape True []
      (thenE (step R (\<lambda>child. run_loop R fuel (child\<lparr>pc := 0\<rparr>))) (run_loop R fuel)) (\<lambda>_. [])"
    by (intro shape.safe_thenE safe_step Suc)
  then show ?case by (simp add: safe_def)
qed

section \<open>Programs without in-place appends\<close>

lemma op_fn_entry: "op_fn b = f \<Longrightarrow> f \<noteq> PushdataFn OpNop \<Longrightarrow> \<exists>name. (unat b, name, f) \<in> set ops"
  by (auto simp: op_fn_def split: option.splits dest: map_of_SomeD)

lemma op_fn_append:
  "op_fn b = SpliceFn OpCat \<Longrightarrow> unat b = 0x7e"
  "op_fn b = SpliceFn OpCatpushdata \<Longrightarrow> unat b = 0x89"
  "op_fn b = ControlFn OpCheckPredicate \<Longrightarrow> unat b = 0xc0"
  by (drule op_fn_entry; auto simp: ops_def ops_literal_def)+

text \<open>
  Code none of whose bytes is the opcode of \<^verbatim>\<open>CAT\<close>, \<^verbatim>\<open>CATPUSHDATA\<close> or \<^verbatim>\<open>CHECKPREDICATE\<close>.  A jump
  may land inside pushed data, so the condition is on all bytes.
\<close>

definition plain_code :: "bytes \<Rightarrow> bool" where
  "plain_code prog \<longleftrightarrow> length prog \<le> 2147483647 \<and>
     list_all (\<lambda>b. unat b \<noteq> 0x7e \<and> unat b \<noteq> 0x89 \<and> unat b \<noteq> 0xc0) prog"

lemma plain_code_fn:
  assumes "plain_code prog" "ParseOp prog i = Inr inst"
  shows "op_fn (Op inst) \<noteq> ControlFn OpCheckPredicate" "op_fn (Op inst) \<noteq> SpliceFn OpCat"
    "op_fn (Op inst) \<noteq> SpliceFn OpCatpushdata"
proof -
  have "Op inst \<in> set prog" using ParseOp_Inr [OF assms(2)] by simp
  then have "unat (Op inst) \<noteq> 0x7e" "unat (Op inst) \<noteq> 0x89" "unat (Op inst) \<noteq> 0xc0"
    using assms(1) by (simp_all add: plain_code_def list_all_iff)
  then show "op_fn (Op inst) \<noteq> ControlFn OpCheckPredicate" "op_fn (Op inst) \<noteq> SpliceFn OpCat"
    "op_fn (Op inst) \<noteq> SpliceFn OpCatpushdata"
    using op_fn_append by blast+
qed

lemma plain_step:
  assumes "wf_vm vm" "plain_code (rd (heap vm) (program vm))" "step R child vm = (r, vm')"
  shows "wf_vm vm'" "heap_frame (heap vm) (heap vm')" "same_frame vm vm'" "\<not> abrupt r"
    "rd (heap vm') (program vm') = rd (heap vm) (program vm)"
proof -
  let ?prog = "rd (heap vm) (program vm)"
  have *: "wf_vm vm' \<and> heap_frame (heap vm) (heap vm') \<and> same_frame vm vm' \<and> \<not> abrupt r"
  proof (cases "ParseOp ?prog (pc vm)")
    case (Inl e)
    moreover from this have "\<not> abrupt_exc e"
      using assms(2) ParseOp_no_panic [of ?prog] ParseOp_no_fuel [of ?prog]
      by (cases e) (auto simp: plain_code_def)
    ultimately show ?thesis
      using assms by (auto simp: step_def bindE_apply getsE_def throwE_def)
  next
    case (Inr inst)
    have "safe heap_frame False [] (execute R child inst) (\<lambda>_. [])"
      by (intro frame.safe_execute frame.safe_exec_fn plain_code_fn [OF assms(2) Inr])
    moreover have "execute R child inst vm = (r, vm')"
      using assms(3) Inr by (simp add: step_def bindE_apply getsE_def)
    ultimately show ?thesis
      using assms(1) safeD [of heap_frame False "[]" "execute R child inst" "\<lambda>_. []" vm r vm']
      by simp
  qed
  then show "wf_vm vm'" "heap_frame (heap vm) (heap vm')" "same_frame vm vm'" "\<not> abrupt r"
    by simp_all
  have "rd (heap vm') (program vm) = ?prog"
    using * assms(1) by (auto simp: wf_vm_def intro: rd_frame)
  with * show "rd (heap vm') (program vm') = ?prog" by (simp add: same_frame_def)
qed

lemma plain_run_loop:
  assumes "wf_vm vm" "plain_code (rd (heap vm) (program vm))" "run_loop R fuel vm = (r, vm')"
  shows "wf_vm vm' \<and> heap_frame (heap vm) (heap vm') \<and> same_frame vm vm' \<and> r \<noteq> Inl GoPanic"
  using assms
proof (induction fuel arbitrary: vm)
  case 0
  then show ?case by (auto split: if_splits)
next
  case (Suc fuel)
  show ?case
  proof (cases "at_end vm")
    case True
    with Suc.prems show ?thesis by auto
  next
    case False
    obtain r1 vm1 where s: "step R (\<lambda>child. run_loop R fuel (child\<lparr>pc := 0\<rparr>)) vm = (r1, vm1)"
      by fastforce
    note p = plain_step [OF Suc.prems(1,2) s]
    show ?thesis
    proof (cases r1)
      case (Inl e)
      with False s p Suc.prems(3) show ?thesis by (auto simp: thenE_apply)
    next
      case (Inr u)
      with False s Suc.prems(3) have "run_loop R fuel vm1 = (r, vm')" by (simp add: thenE_apply)
      with Suc.IH [of vm1] p Suc.prems(2) show ?thesis
        by (auto intro: heap_frame_trans same_frame_trans)
    qed
  qed
qed

section \<open>The set-up of \<^verbatim>\<open>Verify\<close>\<close>

definition heap_ok :: "heap \<Rightarrow> bool" where
  "heap_ok h \<longleftrightarrow> h \<noteq> [] \<and> h ! 0 \<noteq> []"

lemma wf_new_vm: "context_ok h cx \<Longrightarrow> heap_ok h \<Longrightarrow> wf_vm (new_vm cx h gasLimit)"
  by (auto simp: wf_vm_def new_vm_def context_ok_def heap_ok_def Suc_le_eq)

lemma safe_push_args:
  "set xs \<subseteq> set ss \<Longrightarrow> safe heap_frame False ss (forE (\<lambda>arg. push arg False) xs) (\<lambda>_. [])"
  by (induction xs) (auto intro: frame.safe_returnE frame.safe_thenE frame.safe_push)

lemma push_args:
  assumes "context_ok h cx" "heap_ok h"
    and "forE (\<lambda>arg. push arg False) (Arguments cx) (new_vm cx h gasLimit) = (r, vm)"
  shows "wf_vm vm" "heap_frame h (heap vm)" "same_frame (new_vm cx h gasLimit) vm" "\<not> abrupt r"
proof -
  have "list_all (slice_ok (heap (new_vm cx h gasLimit))) (Arguments cx)"
    using assms(1) by (simp add: new_vm_def context_ok_def)
  note d = safeD [OF safe_push_args [OF subset_refl] wf_new_vm [OF assms(1,2)] this assms(3)]
  from d(1-4) show "wf_vm vm" "heap_frame h (heap vm)" "same_frame (new_vm cx h gasLimit) vm"
    "\<not> abrupt r" by (simp_all add: new_vm_def)
qed

lemma Verify_cases:
  assumes "Verify R fuel cx h gasLimit = (gasLeft, err, vm)"
  obtains (version) "VMVersion cx \<noteq> 1" "gasLeft = gasLimit" "err = Some (Err ErrUnsupportedVM)"
      "vm = new_vm cx h gasLimit"
  | (args) e where "VMVersion cx = 1"
      "forE (\<lambda>arg. push arg False) (Arguments cx) (new_vm cx h gasLimit) = (Inl e, vm)"
      "if e = GoPanic then gasLeft = 0 \<and> err = Some (Err ErrUnexpected)
       else gasLeft = runLimit vm \<and> err = Some e"
  | (run) vm0 r where "VMVersion cx = 1"
      "forE (\<lambda>arg. push arg False) (Arguments cx) (new_vm cx h gasLimit) = (Inr (), vm0)"
      "run_loop R fuel (vm0\<lparr>pc := 0\<rparr>) = (r, vm)"
      "case r of
         Inl e \<Rightarrow> if e = GoPanic then gasLeft = 0 \<and> err = Some (Err ErrUnexpected)
                  else gasLeft = runLimit vm \<and> err = Some e
       | Inr _ \<Rightarrow> gasLeft = runLimit vm \<and>
                  err = (if falseResult vm then Some (Err ErrFalseVMResult) else None)"
proof (cases "VMVersion cx = 1")
  case False
  with assms version show thesis by (auto simp: Verify_def)
next
  case True
  obtain r0 vm0 where a: "forE (\<lambda>arg. push arg False) (Arguments cx) (new_vm cx h gasLimit) = (r0, vm0)"
    by fastforce
  show thesis
  proof (cases r0)
    case (Inl e)
    with assms True a show thesis
      by (intro args [of e]) (auto simp: Verify_def thenE_apply split: vm_exc.splits)
  next
    case (Inr u)
    obtain r1 vm1 where b: "run_loop R fuel (vm0\<lparr>pc := 0\<rparr>) = (r1, vm1)" by fastforce
    with assms True a Inr show thesis
      by (intro run [of vm0 r1])
        (auto simp: Verify_def thenE_apply run_def split: sum.splits vm_exc.splits)
  qed
qed

section \<open>Properties\<close>

text \<open>
  Property C9: memory safety of \<^verbatim>\<open>Verify\<close>.  For every program, with valid slices in the context,
  the machine ends in a state in which every slice on both stacks, the program and the context
  lies within its backing array; no array that existed before is resized; and the machine still
  has the context and program it started with.
\<close>

theorem Verify_memory_safe:
  assumes "context_ok h cx" "heap_ok h" "Verify R fuel cx h gasLimit = (gasLeft, err, vm)"
  shows "wf_vm vm \<and> heap_shape h (heap vm) \<and> ctxt vm = cx \<and> program vm = Code cx"
  using assms(3)
proof (cases rule: Verify_cases)
  case version
  then show ?thesis using wf_new_vm [OF assms(1,2)] by (simp add: new_vm_def)
next
  case (args e)
  note push_args [OF assms(1,2) args(2)]
  then show ?thesis by (auto simp: same_frame_def new_vm_def heap_frame_shape)
next
  case (run vm0 r)
  note a = push_args [OF assms(1,2) run(2)]
  have "wf_vm (vm0\<lparr>pc := 0\<rparr>)" using a by (simp add: wf_vm_def)
  note b = safeD [OF safe_run_loop this _ run(3)]
  then show ?thesis
    using a by (auto simp: same_frame_def new_vm_def intro: heap_shape_trans heap_frame_shape)
qed


section \<open>Witnesses\<close>

text \<open>A runtime whose hash functions and signature check are concrete, and a two-item context.\<close>

definition sample_runtime :: runtime where
  "sample_runtime =
     \<lparr>append_spare = (\<lambda>_ _. 0), sha256_sum = (\<lambda>bs. take 32 (bs @ replicate 32 0)),
      sha3_sum = (\<lambda>bs. take 32 (bs @ replicate 32 1)),
      ripemd160_sum = (\<lambda>bs. take 20 (bs @ replicate 20 2)),
      ed25519_verify = (\<lambda>p m s. s = p @ m)\<rparr>"

definition sample_context :: "bytes \<Rightarrow> vm_context" where
  "sample_context code =
     \<lparr>VMVersion = 1, Code = \<lparr>s_arr = 1, s_off = 0, s_len = length code, s_cap = length code\<rparr>,
      Arguments = [\<lparr>s_arr = 2, s_off = 0, s_len = 2, s_cap = 2\<rparr>], EntryID = nil_slice,
      TxVersion = Some 1, BlockHeight = Some 7, NumResults = None, AssetID = None, Amount = Some 5,
      DestPos = None, SpentOutputID = None, TxSigHash = None, CheckOutput = None\<rparr>"

definition sample_heap :: "bytes \<Rightarrow> heap" where
  "sample_heap code = [[1], code, [3, 4]]"

lemma sample_ok: "context_ok (sample_heap code) (sample_context code)" "heap_ok (sample_heap code)"
  by (simp_all add: context_ok_def heap_ok_def sample_context_def sample_heap_def slice_ok_def
      nil_slice_def)

theorem Verify_memory_safe_witness:
  "\<exists>gasLeft err vm.
     Verify sample_runtime 10 (sample_context [0x51, 0x51, 0x87]) (sample_heap [0x51, 0x51, 0x87]) 1000
       = (gasLeft, err, vm) \<and> wf_vm vm"
  using Verify_memory_safe [OF sample_ok, of sample_runtime 10 "[0x51, 0x51, 0x87]" 1000]
  by (metis prod_cases3)


end
