(* ===== verification/VM_Gas.thy ===== *)
theory VM_Gas
  imports VM_Wf "HOL-Library.Multiset"
begin

text \<open>
  Gas accounting of the virtual machine.  Every item on a stack is paid for with eight plus its
  length; popping refunds it.  The potential of a machine is its run limit plus the cost of the
  items on both stacks minus the deferred cost: pushes and pops do not change it, and an
  operation lowers it by what it applies.  The proofs bound the potential of every operation
  (\<^verbatim>\<open>CHECKPREDICATE\<close> excepted, which refunds more than was paid, see \<open>VM_Findings\<close>), show that no
  cost computation overflows an \<^verbatim>\<open>int64\<close>, and derive that the interpreter loop ends.

  Quantities are bounded by \<open>gas_cap\<close>, \<open>2 ^ 60\<close>; sums of a few of them fit an \<^verbatim>\<open>int64\<close>.
\<close>

section \<open>Potential\<close>

abbreviation gas_cap :: int where
  "gas_cap \<equiv> 1152921504606846976"

definition item_cost :: "slice \<Rightarrow> int" where
  "item_cost s = 8 + int (s_len s)"

definition sc :: "slice list \<Rightarrow> int" where
  "sc xs = sum_list (map item_cost xs)"

definition stacks_cost :: "virtualMachine \<Rightarrow> int" where
  "stacks_cost vm = sc (dataStack vm) + sc (altStack vm)"

definition small_slice :: "slice \<Rightarrow> bool" where
  "small_slice s \<longleftrightarrow> int (s_len s) \<le> gas_cap"

definition context_small :: "vm_context \<Rightarrow> bool" where
  "context_small cx \<longleftrightarrow> small_slice (Code cx) \<and> list_all small_slice (Arguments cx) \<and>
     small_slice (EntryID cx) \<and> pred_option small_slice (AssetID cx) \<and>
     pred_option small_slice (SpentOutputID cx) \<and> pred_option small_slice (TxSigHash cx)"

text \<open>The digest lengths of the hash functions.\<close>

definition runtime_ok :: "runtime \<Rightarrow> bool" where
  "runtime_ok R \<longleftrightarrow> (\<forall>bs. length (sha256_sum R bs) = 32 \<and> length (sha3_sum R bs) = 32 \<and>
     length (ripemd160_sum R bs) = 20)"

text \<open>
  \<open>gasP p vm\<close>: inside an operation, the potential is at most \<open>p\<close>, and only refunds have been
  deferred.  \<open>gasD p vm\<close>: at its end, when the cost of the result may have been deferred.
  \<open>gasS p vm\<close>: between instructions.
\<close>

definition gasP :: "int \<Rightarrow> virtualMachine \<Rightarrow> bool" where
  "gasP p vm \<longleftrightarrow> 0 \<le> runLimit vm \<and> deferredCost vm \<le> 0 \<and>
     runLimit vm + stacks_cost vm - deferredCost vm \<le> p \<and> context_small (ctxt vm) \<and>
     int (length (data vm)) \<le> gas_cap"

definition gasD :: "int \<Rightarrow> virtualMachine \<Rightarrow> bool" where
  "gasD p vm \<longleftrightarrow> 0 \<le> runLimit vm \<and> deferredCost vm \<le> 3 * gas_cap \<and>
     runLimit vm + stacks_cost vm - deferredCost vm \<le> p \<and> context_small (ctxt vm)"

definition gasS :: "int \<Rightarrow> virtualMachine \<Rightarrow> bool" where
  "gasS p vm \<longleftrightarrow> 0 \<le> runLimit vm \<and> runLimit vm + stacks_cost vm \<le> p \<and> context_small (ctxt vm)"

definition gas :: "int \<Rightarrow> int \<Rightarrow> 'a vmop \<Rightarrow> ('a \<Rightarrow> virtualMachine \<Rightarrow> bool) \<Rightarrow> bool" where
  "gas G p m Q \<longleftrightarrow> (\<forall>vm. p \<le> G \<and> G \<le> gas_cap \<and> gasP p vm \<longrightarrow>
     (case m vm of
        (Inl _, vm') \<Rightarrow> 0 \<le> runLimit vm' \<and> runLimit vm' \<le> G
      | (Inr x, vm') \<Rightarrow> Q x vm'))"

lemma item_cost_pos: "8 \<le> item_cost s"
  by (simp add: item_cost_def)

lemma sc_simps [simp]:
  "sc [] = 0" "sc (x # xs) = item_cost x + sc xs" "sc (xs @ ys) = sc xs + sc ys"
  by (simp_all add: sc_def)

lemma sc_length: "8 * int (length xs) \<le> sc xs"
  by (induction xs) (auto simp: item_cost_def)

lemma sc_nonneg: "0 \<le> sc xs"
  using sc_length [of xs] by linarith

lemma sc_mem: "x \<in> set xs \<Longrightarrow> item_cost x \<le> sc xs"
proof (induction xs)
  case (Cons y ys)
  then show ?case using sc_nonneg [of ys] item_cost_pos [of y] by auto
qed simp

lemma sc_mset: "mset xs = mset ys \<Longrightarrow> sc xs = sc ys"
proof -
  assume "mset xs = mset ys"
  then have "mset (map item_cost xs) = mset (map item_cost ys)" by simp
  then show ?thesis unfolding sc_def by (metis sum_mset_sum_list)
qed

lemma sc_butlast: "xs \<noteq> [] \<Longrightarrow> sc (butlast xs) = sc xs - item_cost (last xs)"
  by (induction xs) auto

lemma stacks_cost_nonneg: "0 \<le> stacks_cost vm"
  by (simp add: stacks_cost_def sc_nonneg)

lemma len64_small: "int n \<le> 4 * gas_cap \<Longrightarrow> len64 n = int n"
  by (simp add: len64_def i64_idI)

lemma push_cost: "int (s_len s) \<le> 2 * gas_cap + 8 \<Longrightarrow> i64 (8 + len64 (s_len s)) = item_cost s"
  by (simp add: len64_small item_cost_def i64_idI)

section \<open>Rules, one per command\<close>

lemma gas_weaken: "gas G p m Q \<Longrightarrow> (\<And>x vm. Q x vm \<Longrightarrow> Q' x vm) \<Longrightarrow> gas G p m Q'"
  by (fastforce simp: gas_def split: prod.splits sum.splits)

lemma gasP_bounds: "gasP p vm \<Longrightarrow> 0 \<le> runLimit vm \<and> runLimit vm \<le> p"
  using stacks_cost_nonneg [of vm] by (auto simp: gasP_def)

lemma gasI:
  assumes "\<And>vm x vm'. gasP p vm \<Longrightarrow> p \<le> gas_cap \<Longrightarrow> m vm = (Inr x, vm') \<Longrightarrow> Q x vm'"
    and "\<And>vm e vm'. gasP p vm \<Longrightarrow> p \<le> gas_cap \<Longrightarrow> m vm = (Inl e, vm') \<Longrightarrow>
      0 \<le> runLimit vm' \<and> runLimit vm' \<le> p"
  shows "gas G p m Q"
  using assms by (fastforce simp: gas_def split: prod.splits sum.splits)

lemma gas_bind_state:
  assumes "\<And>vm x vm'. gasP p vm \<Longrightarrow> p \<le> gas_cap \<Longrightarrow> m vm = (Inr x, vm') \<Longrightarrow> gasP p' vm' \<and> P x"
    and "\<And>vm e vm'. gasP p vm \<Longrightarrow> p \<le> gas_cap \<Longrightarrow> m vm = (Inl e, vm') \<Longrightarrow>
      0 \<le> runLimit vm' \<and> runLimit vm' \<le> p"
    and "p' \<le> p" and f: "\<And>x. P x \<Longrightarrow> gas G p' (f x) Q"
  shows "gas G p (bindE m f) Q"
  unfolding gas_def
proof (intro allI impI)
  fix vm
  assume a: "p \<le> G \<and> G \<le> gas_cap \<and> gasP p vm"
  then have rl: "p \<le> gas_cap" by auto
  obtain r vm' where m: "m vm = (r, vm')" by fastforce
  show "case bindE m f vm of
        (Inl _, vm') \<Rightarrow> 0 \<le> runLimit vm' \<and> runLimit vm' \<le> G
      | (Inr x, vm') \<Rightarrow> Q x vm'"
  proof (cases r)
    case (Inl e)
    with assms(2) [of vm e vm'] m rl a show ?thesis by (auto simp: bindE_apply)
  next
    case (Inr x)
    with assms(1) [of vm x vm'] m a rl have g: "gasP p' vm'" and P: "P x" by auto
    from f [OF P] g assms(3) a Inr m show ?thesis
      unfolding gas_def by (auto simp: bindE_apply)
  qed
qed

lemma gas_applyCost:
  assumes "0 \<le> n" "gas G (p - n) k Q"
  shows "gas G p (thenE (applyCost n) k) Q"
  unfolding thenE_def
proof (rule gas_bind_state [where p' = "p - n" and P = "\<lambda>_. True"])
  fix vm x vm'
  assume "gasP p vm" "p \<le> gas_cap" "applyCost n vm = (Inr x, vm')"
  moreover from this have "i64 (runLimit vm - n) = runLimit vm - n"
    using stacks_cost_nonneg [of vm] assms(1)
    by (intro i64_idI) (auto simp: gasP_def applyCost_def split: if_splits)
  ultimately show "gasP (p - n) vm' \<and> True"
    using assms(1) by (auto simp: applyCost_def gasP_def stacks_cost_def split: if_splits)
qed (use assms in \<open>auto simp: applyCost_def dest!: gasP_bounds split: if_splits\<close>)

lemma gas_applyDefer:
  assumes "0 \<le> n" "gas G p k Q"
  shows "gas G p (thenE (applyCost n) (thenE (deferCost (i64 (- n))) k)) Q"
proof -
  let ?m = "thenE (applyCost n) (deferCost (i64 (- n)))"
  have "thenE (applyCost n) (thenE (deferCost (i64 (- n))) k) = thenE ?m k"
    by (simp add: thenE_def bindE_assoc)
  moreover have "gas G p (thenE ?m k) Q"
    unfolding thenE_def [of ?m]
  proof (rule gas_bind_state [where p' = p and P = "\<lambda>_. True"])
    fix vm x vm'
    assume g: "gasP p vm" "p \<le> gas_cap" and m: "?m vm = (Inr x, vm')"
    then have n: "n \<le> runLimit vm"
      by (auto simp: thenE_apply applyCost_def split: if_splits)
    moreover have "i64 (runLimit vm - n) = runLimit vm - n" "i64 (- n) = - n"
      "i64 (deferredCost vm - n) = deferredCost vm - n"
      using g n stacks_cost_nonneg [of vm] assms(1) by (auto simp: gasP_def intro!: i64_idI)
    ultimately show "gasP p vm' \<and> True"
      using assms(1) g m
      by (auto simp: thenE_apply applyCost_def deferCost_def modifyE_def gasP_def stacks_cost_def)
  qed (use assms in \<open>auto simp: thenE_apply applyCost_def deferCost_def modifyE_def
      dest!: gasP_bounds split: if_splits\<close>)
  ultimately show ?thesis by simp
qed

lemma gas_assertE: "(b \<Longrightarrow> gas G p k Q) \<Longrightarrow> gas G p (thenE (assertE b e) k) Q"
  by (cases b) (auto simp: gas_def assertE_def thenE_apply returnE_def throwE_def dest: gasP_bounds)

lemma gas_throwE: "gas G p (throwE e) Q"
  by (auto simp: gas_def throwE_def dest: gasP_bounds)

lemma gas_if: "(b \<Longrightarrow> gas G p m Q) \<Longrightarrow> (\<not> b \<Longrightarrow> gas G p k Q) \<Longrightarrow> gas G p (if b then m else k) Q"
  by simp

lemma gas_Let: "gas G p (f x) Q \<Longrightarrow> gas G p (Let x f) Q"
  by simp

lemma gas_case_prod:
  "(\<And>a b. r = (a, b) \<Longrightarrow> gas G p (f a b) Q) \<Longrightarrow> gas G p (case r of (a, b) \<Rightarrow> f a b) Q"
  by (cases r) simp

lemma gas_getsE: "(\<And>x. gas G p (f x) Q) \<Longrightarrow> gas G p (bindE (getsE g) f) Q"
  by (simp add: gas_def bindE_apply getsE_def)

lemma gas_load:
  "(\<And>bs. length bs \<le> s_len s \<Longrightarrow> gas G p (f bs) Q) \<Longrightarrow> gas G p (bindE (load s) f) Q"
  by (simp add: gas_def bindE_apply load_def getsE_def rd_def)

lemma gas_new_bytes:
  "(\<And>s. s_len s = length bs \<Longrightarrow> gas G p (f s) Q) \<Longrightarrow> gas G p (bindE (new_bytes bs) f) Q"
  by (rule gas_bind_state [where p' = p and P = "\<lambda>s. s_len s = length bs"])
    (auto simp: new_bytes_def alloc_def gasP_def stacks_cost_def)

lemma gas_appendE:
  "(\<And>t. s_len t = s_len s + length bs \<Longrightarrow> gas G p (f t) Q) \<Longrightarrow> gas G p (bindE (appendE R s bs) f) Q"
  by (rule gas_bind_state [where p' = p and P = "\<lambda>t. s_len t = s_len s + length bs"])
    (auto simp: appendE_def append_slice_def Let_def gasP_def stacks_cost_def split: if_splits)

lemma gasP_item:
  "gasP p vm \<Longrightarrow> p \<le> gas_cap \<Longrightarrow> x \<in> set (dataStack vm) \<Longrightarrow> int (s_len x) \<le> gas_cap"
  using sc_mem [of x "dataStack vm"] sc_nonneg [of "altStack vm"]
  by (auto simp: gasP_def stacks_cost_def item_cost_def)

lemma gas_pop:
  assumes "\<And>s. int (s_len s) \<le> gas_cap \<Longrightarrow> gas G p (f s) Q"
  shows "gas G p (bindE (pop d) f) Q"
proof (rule gas_bind_state [where p' = p and P = "\<lambda>s. int (s_len s) \<le> gas_cap"])
  fix vm s vm'
  assume g: "gasP p vm" "p \<le> gas_cap" and m: "pop d vm = (Inr s, vm')"
  then have ne: "dataStack vm \<noteq> []" and s: "s = last (dataStack vm)"
    by (auto simp: pop_def Let_def split: if_splits)
  then have small: "int (s_len s) \<le> gas_cap" and le: "item_cost s \<le> sc (dataStack vm)"
    using gasP_item [OF g] sc_mem [of s] by auto
  have c: "i64 (8 + len64 (s_len s)) = item_cost s" using small by (simp add: push_cost)
  have "0 \<le> item_cost s" using item_cost_pos [of s] by simp
  with g le have "i64 (deferredCost vm - item_cost s) = deferredCost vm - item_cost s"
    "i64 (- item_cost s) = - item_cost s"
    "i64 (runLimit vm + item_cost s) = runLimit vm + item_cost s"
    using sc_nonneg [of "altStack vm"]
    by (auto simp: gasP_def stacks_cost_def intro!: i64_idI)
  then show "gasP p vm' \<and> int (s_len s) \<le> gas_cap"
    using m ne g small c \<open>0 \<le> item_cost s\<close>
    by (auto simp: pop_def Let_def gasP_def stacks_cost_def sc_butlast s split: if_splits)
qed (use assms in \<open>auto simp: pop_def Let_def dest: gasP_bounds split: if_splits\<close>)

lemma gas_popInt64:
  assumes "\<And>n. is_i64 n \<Longrightarrow> gas G p (f n) Q"
  shows "gas G p (bindE (popInt64 d) f) Q"
proof -
  have "gas G p (bindE (liftErr (AsInt64 bs)) f) Q" for bs
    by (cases "AsInt64 bs") (use assms AsInt64_range in
      \<open>auto simp: liftErr_def bindE_def returnE_def throwE_def gas_def dest: gasP_bounds\<close>)
  then have "gas G p (bindE (pop d) (\<lambda>s. bindE (load s) (\<lambda>bs. bindE (liftErr (AsInt64 bs)) f))) Q"
    by (intro gas_pop gas_load)
  then show ?thesis by (simp add: popInt64_def bindE_assoc)
qed

lemma gas_vm_top:
  assumes "\<And>s. int (s_len s) \<le> gas_cap \<Longrightarrow> gas G p (f s) Q"
  shows "gas G p (bindE vm_top f) Q"
  by (rule gas_bind_state [where p' = p and P = "\<lambda>s. int (s_len s) \<le> gas_cap"])
    (use assms gasP_item in \<open>auto simp: vm_top_def dest: gasP_bounds split: if_splits\<close>)

lemma gas_inRange: "(\<And>x. gas G p (f x) Q) \<Longrightarrow> gas G p (bindE (inRange r) f) Q"
  by (cases r) (auto simp: inRange_def bindE_def returnE_def throwE_def gas_def dest: gasP_bounds)

lemma gas_liftErr: "(\<And>x. gas G p (f x) Q) \<Longrightarrow> gas G p (bindE (liftErr r) f) Q"
  by (cases r) (auto simp: liftErr_def bindE_def returnE_def throwE_def gas_def dest: gasP_bounds)

lemma gas_fromContext:
  assumes "\<And>x. (\<exists>cx. context_small cx \<and> g cx = Some x) \<Longrightarrow> gas G p (f x) Q"
  shows "gas G p (bindE (fromContext g) f) Q"
proof (rule gas_bind_state [where p' = p and P = "\<lambda>x. \<exists>cx. context_small cx \<and> g cx = Some x"])
  fix vm x vm'
  assume "gasP p vm" "fromContext g vm = (Inr x, vm')"
  moreover from this have "vm' = vm" "g (ctxt vm) = Some x"
    by (auto simp: fromContext_def bindE_apply getsE_def returnE_def throwE_def split: option.splits)
  ultimately show "gasP p vm' \<and> (\<exists>cx. context_small cx \<and> g cx = Some x)"
    by (auto simp: gasP_def)
next
  fix vm e vm'
  assume "gasP p vm" "fromContext g vm = (Inl e, vm')"
  then show "0 \<le> runLimit vm' \<and> runLimit vm' \<le> p"
    by (auto simp: fromContext_def bindE_apply getsE_def returnE_def throwE_def
        dest: gasP_bounds split: option.splits)
qed (use assms in auto)

lemma gas_collectE:
  assumes "\<And>xs. gas G p (f xs) Q"
  shows "gas G p (bindE (collectE n (pop d)) f) Q"
  using assms
proof (induction n arbitrary: f)
  case 0
  then show ?case by (simp add: bindE_def returnE_def)
next
  case (Suc n)
  then have "gas G p (bindE (pop d) (\<lambda>x. bindE (collectE n (pop d)) (\<lambda>xs. f (x # xs)))) Q"
    by (intro gas_pop Suc.IH)
  then show ?case by (simp add: bindE_assoc) (simp add: bindE_def returnE_def)
qed

lemma gas_fail_any: "gas G p (failE e) Q"
  by (rule gas_throwE)

section \<open>Results\<close>

lemma gas_returnE: "p \<le> q \<Longrightarrow> gas G p (returnE x) (\<lambda>_. gasD q)"
  by (auto simp: gas_def returnE_def gasP_def gasD_def)

lemma gas_push:
  assumes "int (s_len s) \<le> 2 * gas_cap + 8" "p \<le> q"
  shows "gas G p (push s d) (\<lambda>_. gasD q)"
proof (rule gasI)
  fix vm x vm'
  assume g: "gasP p vm" "p \<le> gas_cap" and m: "push s d vm = (Inr x, vm')"
  note c = push_cost [OF assms(1)]
  have "0 \<le> item_cost s" "item_cost s \<le> 2 * gas_cap + 16"
    using item_cost_pos [of s] assms(1) by (auto simp: item_cost_def)
  moreover from this have "i64 (deferredCost vm + item_cost s) = deferredCost vm + item_cost s"
    using g stacks_cost_nonneg [of vm] by (intro i64_idI) (auto simp: gasP_def)
  moreover have "i64 (runLimit vm - item_cost s) = runLimit vm - item_cost s"
    using g stacks_cost_nonneg [of vm] \<open>0 \<le> item_cost s\<close> \<open>item_cost s \<le> 2 * gas_cap + 16\<close>
    by (intro i64_idI) (auto simp: gasP_def)
  ultimately show "gasD q vm'"
    using m g assms(2) c
    by (auto simp: push_def Let_def thenE_apply deferCost_def modifyE_def applyCost_def gasP_def gasD_def
        stacks_cost_def split: if_splits)
next
  fix vm e vm'
  assume "gasP p vm" "push s d vm = (Inl e, vm')"
  then show "0 \<le> runLimit vm' \<and> runLimit vm' \<le> p"
    using gasP_bounds [of p vm]
    by (auto simp: push_def Let_def thenE_apply deferCost_def modifyE_def applyCost_def split: if_splits)
qed

lemma gas_pushBool: "p \<le> q \<Longrightarrow> gas G p (pushBool b d) (\<lambda>_. gasD q)"
  unfolding pushBool_def by (rule gas_push) (auto simp: BoolBytes_def trueBytes_def)

lemma gas_pushInt64: "p \<le> q \<Longrightarrow> gas G p (pushInt64 n d) (\<lambda>_. gasD q)"
proof -
  assume q: "p \<le> q"
  have "gas G p (bindE (newInt64Bytes n) (\<lambda>s. push s d)) (\<lambda>_. gasD q)"
  proof (rule gas_bind_state [where p' = p and P = "\<lambda>s. s_len s \<le> 8"])
    fix vm s vm'
    assume "gasP p vm" "newInt64Bytes n vm = (Inr s, vm')"
    then show "gasP p vm' \<and> s_len s \<le> 8"
      using length_Int64Bytes [of n]
      by (auto simp: newInt64Bytes_def bindE_apply returnE_def new_bytes_def alloc_def gasP_def
          stacks_cost_def split: if_splits)
  next
    fix vm e vm'
    assume "newInt64Bytes n vm = (Inl e, vm')"
    then show "0 \<le> runLimit vm' \<and> runLimit vm' \<le> p"
      by (auto simp: newInt64Bytes_def bindE_apply returnE_def new_bytes_def alloc_def split: if_splits)
  qed (use q in \<open>auto intro: gas_push\<close>)
  then show ?thesis by (simp add: pushInt64_def)
qed

lemmas gas_intros = gas_assertE gas_applyDefer gas_applyCost gas_pop gas_popInt64 gas_vm_top gas_load
  gas_new_bytes gas_appendE gas_inRange gas_liftErr gas_collectE gas_fromContext gas_getsE gas_if
  gas_Let gas_case_prod gas_fail_any gas_returnE gas_pushBool gas_pushInt64 gas_push

section \<open>Operations\<close>

lemma gas_exec_numeric: "gas G p (exec_numeric f) (\<lambda>_. gasD (p - 1))"
  by (cases f; simp only: exec_numeric.simps op1Add_def op1Sub_def op2Mul_def op2Div_def opNegate_def
      opAbs_def opNot_def op0NotEqual_def opAdd_def opSub_def opMul_def opDiv_def opMod_def
      opLshift_def opRshift_def opBoolAnd_def opBoolOr_def opNumEqual_def opNumEqualVerify_def
      opNumNotEqual_def opLessThan_def opGreaterThan_def opLessThanOrEqual_def
      opGreaterThanOrEqual_def opMin_def opMax_def opWithin_def opMulFraction_def doNumCompare_def;
      (rule gas_intros | simp)+)

lemma length_PushdataBytes_le: "length (PushdataBytes bs) \<le> length bs + 5"
  by (simp add: length_PushdataBytes)

lemma gas_push_cat:
  assumes "s_len t = s_len a + length (PushdataBytes bs)" "length bs \<le> s_len b"
    "int (s_len a) \<le> gas_cap" "int (s_len b) \<le> gas_cap" "p \<le> q"
  shows "gas G p (push t d) (\<lambda>_. gasD q)"
  by (rule gas_push) (use assms length_PushdataBytes_le [of bs] in linarith)+

lemma gas_push_sub:
  "int j \<le> gas_cap \<Longrightarrow> p \<le> q \<Longrightarrow> gas G p (push (reslice s i j) d) (\<lambda>_. gasD q)"
  by (rule gas_push) auto

lemma gas_exec_splice: "gas G p (exec_splice R f) (\<lambda>_. gasD (p - 1))"
proof (cases f)
  case OpCatpushdata
  show ?thesis unfolding OpCatpushdata exec_splice.simps opCatpushdata_def
    by (rule gas_push_cat gas_intros | assumption | simp add: len64_small)+
qed (simp only: exec_splice.simps opCat_def opSubstr_def opLeft_def opRight_def opSize_def;
    (rule gas_push_sub gas_intros | simp add: len64_small)+)+

lemma length_or_bytes: "length (or_bytes isXor a b) = max (length a) (length b)"
  by (simp add: or_bytes_def)

lemma gas_doEqual:
  assumes "\<And>b p'. p' \<le> p - 1 \<Longrightarrow> gas G p' (f b) Q"
  shows "gas G p (bindE doEqual f) Q"
  unfolding doEqual_def bindE_laws
  by (rule gas_intros assms | simp add: len64_small)+

text \<open>Operations that replace or rearrange items.\<close>

lemma gas_modify:
  assumes "\<And>vm. gasP p vm \<Longrightarrow> p \<le> gas_cap \<Longrightarrow> gasD q (f vm)"
  shows "gas G p (modifyE f) (\<lambda>_. gasD q)"
  using assms by (auto simp: gas_def modifyE_def)

text \<open>A direct rule: \<open>m\<close> keeps the costs of the stacks, deferred cost and run limit.\<close>

lemma gas_keep:
  assumes "\<And>vm x vm'. gasP p vm \<Longrightarrow> m vm = (Inr x, vm') \<Longrightarrow>
      runLimit vm' = runLimit vm \<and> deferredCost vm' = deferredCost vm \<and>
      stacks_cost vm' \<le> stacks_cost vm \<and> ctxt vm' = ctxt vm"
    and "\<And>vm e vm'. gasP p vm \<Longrightarrow> m vm = (Inl e, vm') \<Longrightarrow> runLimit vm' = runLimit vm"
    and "p \<le> q"
  shows "gas G p m (\<lambda>_. gasD q)"
proof (rule gasI)
  fix vm x vm'
  assume "gasP p vm" "p \<le> gas_cap" "m vm = (Inr x, vm')"
  with assms(1) [of vm x vm'] assms(3) show "gasD q vm'" by (auto simp: gasP_def gasD_def)
next
  fix vm e vm'
  assume "gasP p vm" "m vm = (Inl e, vm')"
  with assms(2) [of vm e vm'] gasP_bounds [of p vm] show "0 \<le> runLimit vm' \<and> runLimit vm' \<le> p"
    by simp
qed

lemma sc_update_last:
  "s \<noteq> [] \<Longrightarrow> item_cost t \<le> item_cost (last s) \<Longrightarrow> sc (s[length s - 1 := t]) \<le> sc s"
  by (cases s rule: rev_cases) (auto simp: list_update_append)

lemma gas_opInvert: "gas G p opInvert (\<lambda>_. gasD (p - 1))"
proof -
  let ?upd = "\<lambda>t. bindE (load t) (\<lambda>bs. bindE (new_bytes (map NOT bs)) (\<lambda>newTop.
       setStack (\<lambda>s. s[length s - 1 := newTop])))"
  have "gas G p (thenE (applyCost 1) (bindE vm_top (\<lambda>t. thenE (applyCost (len64 (s_len t))) (?upd t))))
     (\<lambda>_. gasD (p - 1))"
  proof (rule gas_applyCost)
    show "gas G (p - 1) (bindE vm_top (\<lambda>t. thenE (applyCost (len64 (s_len t))) (?upd t))) (\<lambda>_. gasD (p - 1))"
    proof (rule gasI)
      fix vm x vm'
      assume g: "gasP (p - 1) vm" "p - 1 \<le> gas_cap"
        and m: "bindE vm_top (\<lambda>t. thenE (applyCost (len64 (s_len t))) (?upd t)) vm = (Inr x, vm')"
      let ?t = "last (dataStack vm)" and ?s = "dataStack vm"
      have ne: "?s \<noteq> []" using m by (auto simp: bindE_apply vm_top_def split: if_splits)
      then have l: "len64 (s_len ?t) = int (s_len ?t)"
        using gasP_item [OF g, of ?t] by (simp add: len64_small)
      have rl: "int (s_len ?t) \<le> runLimit vm"
        using m ne l by (auto simp: bindE_apply vm_top_def thenE_apply applyCost_def split: if_splits)
      have i: "i64 (runLimit vm - int (s_len ?t)) = runLimit vm - int (s_len ?t)"
        using g rl stacks_cost_nonneg [of vm] by (intro i64_idI) (auto simp: gasP_def)
      let ?new = "\<lparr>s_arr = length (heap vm), s_off = 0, s_len = length (rd (heap vm) ?t),
          s_cap = length (rd (heap vm) ?t)\<rparr>"
      have "length (rd (heap vm) ?t) \<le> s_len ?t" by (simp add: rd_def)
      then have "sc (?s[length ?s - 1 := ?new]) \<le> sc ?s"
        using ne by (intro sc_update_last) (simp_all add: item_cost_def)
      then show "gasD (p - 1) vm'"
        using m g ne l i rl
        by (auto simp: bindE_apply vm_top_def thenE_apply applyCost_def load_def getsE_def new_bytes_def
            alloc_def setStack_def modifyE_def gasP_def gasD_def stacks_cost_def)
    next
      fix vm e vm'
      assume g: "gasP (p - 1) vm"
        and m: "bindE vm_top (\<lambda>t. thenE (applyCost (len64 (s_len t))) (?upd t)) vm = (Inl e, vm')"
      then show "0 \<le> runLimit vm' \<and> runLimit vm' \<le> p - 1"
        using gasP_bounds [OF g]
        by (auto simp: bindE_apply vm_top_def thenE_apply applyCost_def load_def getsE_def new_bytes_def
            alloc_def setStack_def modifyE_def split: if_splits)
    qed
  qed simp
  then show ?thesis by (simp add: opInvert_def)
qed

lemma gas_exec_bitwise: "gas G p (exec_bitwise f) (\<lambda>_. gasD (p - 1))"
proof (cases f)
  case OpInvert
  then show ?thesis by (simp add: gas_opInvert)
qed (simp only: exec_bitwise.simps opAnd_def opOr_def opXor_def opEqual_def opEqualVerify_def doOr_def;
    (rule gas_doEqual gas_intros | simp add: len64_small length_or_bytes)+)+

lemma gas_getsE_context:
  assumes "\<And>x. (\<exists>cx. context_small cx \<and> g cx = x) \<Longrightarrow> gas G p (f x) Q"
  shows "gas G p (bindE (getsE (\<lambda>vm. g (ctxt vm))) f) Q"
  using assms by (fastforce simp: gas_def bindE_apply getsE_def gasP_def)

lemma gas_case_option:
  "(v = None \<Longrightarrow> gas G p m Q) \<Longrightarrow> (\<And>x. v = Some x \<Longrightarrow> gas G p (f x) Q) \<Longrightarrow>
   gas G p (case v of None \<Rightarrow> m | Some x \<Rightarrow> f x) Q"
  by (cases v) simp_all

lemma gas_exec_introspection: "gas G p (exec_introspection f) (\<lambda>_. gasD (p - 1))"
  by (cases f; simp only: exec_introspection.simps opCheckOutput_def opAsset_def opAmount_def
      opProgram_def opIndex_def opEntryID_def opOutputID_def opBlockHeight_def;
      (rule gas_getsE_context gas_intros | auto simp: context_small_def small_slice_def)+)

lemma gas_opTxSigHash: "gas G p opTxSigHash (\<lambda>_. gasD (p - 1))"
  unfolding opTxSigHash_def
  by (rule gas_getsE_context gas_case_option gas_intros | auto simp: context_small_def small_slice_def)+

lemma gas_doHash:
  assumes "\<And>bs. length (hash bs) \<le> 32"
  shows "gas G p (doHash R hash) (\<lambda>_. gasD (p - 1))"
proof -
  have "int (length (hash bs)) \<le> 2 * gas_cap + 8" for bs using assms [of bs] by linarith
  then show ?thesis unfolding doHash_def
    by - (rule gas_intros | simp add: len64_small)+
qed

lemma gas_exec_crypto:
  assumes "runtime_ok R" "f \<noteq> OpCheckMultiSig"
  shows "gas G p (exec_crypto R f) (\<lambda>_. gasD (p - 1))"
proof (cases f)
  case OpCheckMultiSig
  with assms(2) show ?thesis by simp
next
  case OpHash160
  show ?thesis unfolding OpHash160 exec_crypto.simps opHash160_def
    using assms(1) by - (rule gas_intros | simp add: runtime_ok_def len64_small)+
next
  case OpCheckSig
  show ?thesis unfolding OpCheckSig exec_crypto.simps opCheckSig_def
    by (rule gas_intros | simp)+
qed (use assms in \<open>simp_all add: gas_opTxSigHash opSha256_def opSha3_def gas_doHash runtime_ok_def\<close>)

lemma MulInt64_1024: "is_i64 n \<Longrightarrow> MulInt64 n 1024 = (c, True) \<Longrightarrow> c = n * 1024"
  using MulInt64_checked [of n 1024] by (auto simp: checked_def is_i64_def split: if_splits)

lemma gas_opCheckMultiSig: "gas G p (opCheckMultiSig R) (\<lambda>_. gasD p)"
  unfolding opCheckMultiSig_def
  by (rule gas_intros | simp | (drule (1) MulInt64_1024, simp))+

lemma gas_needStack_set:
  assumes "\<And>s. n \<le> int (length s) \<Longrightarrow> mset (f s) = mset s" "p \<le> q"
  shows "gas G p (thenE (needStack n) (setStack f)) (\<lambda>_. gasD q)"
proof (rule gas_keep)
  fix vm x vm'
  assume m: "thenE (needStack n) (setStack f) vm = (Inr x, vm')"
  then have "n \<le> int (length (dataStack vm))" "vm' = vm\<lparr>dataStack := f (dataStack vm)\<rparr>"
    by (auto simp: needStack_def setStack_def comp_simps split: if_splits)
  with sc_mset [OF assms(1) [of "dataStack vm"]]
  show "runLimit vm' = runLimit vm \<and> deferredCost vm' = deferredCost vm \<and>
      stacks_cost vm' \<le> stacks_cost vm \<and> ctxt vm' = ctxt vm"
    by (simp add: stacks_cost_def)
qed (use assms in \<open>auto simp: needStack_def setStack_def comp_simps split: if_splits\<close>)

lemma gas_needStack_get:
  assumes "\<And>s. n \<le> int (length s) \<Longrightarrow> f s \<in> set s"
    and "\<And>x. int (s_len x) \<le> gas_cap \<Longrightarrow> gas G p (k x) Q"
  shows "gas G p (thenE (needStack n) (bindE (getsE (\<lambda>vm. f (dataStack vm))) k)) Q"
proof -
  let ?get = "thenE (needStack n) (getsE (\<lambda>vm. f (dataStack vm)))"
  have "gas G p (bindE ?get k) Q"
  proof (rule gas_bind_state [where p' = p and P = "\<lambda>x. int (s_len x) \<le> gas_cap"])
    fix vm x vm'
    assume g: "gasP p vm" "p \<le> gas_cap" and m: "?get vm = (Inr x, vm')"
    then have "vm' = vm" "x \<in> set (dataStack vm)"
      using assms(1) by (auto simp: needStack_def comp_simps split: if_splits)
    with g gasP_item show "gasP p vm' \<and> int (s_len x) \<le> gas_cap" by auto
  next
    fix vm e vm'
    assume "gasP p vm" "?get vm = (Inl e, vm')"
    then show "0 \<le> runLimit vm' \<and> runLimit vm' \<le> p"
      using gasP_bounds [of p vm] by (auto simp: needStack_def comp_simps split: if_splits)
  qed (use assms in auto)
  then show ?thesis by (simp add: bindE_laws)
qed

lemma gas_rot: "p \<le> q \<Longrightarrow> gas G p (rot n) (\<lambda>_. gasD q)"
  unfolding rot_def
proof (rule gas_assertE)
  assume q: "p \<le> q" and n: "\<not> n < 1"
  show "gas G p (thenE (needStack n) (setStack (\<lambda>s. let index = nat (len64 (length s) - n) in
      take index s @ drop (index + 1) s @ [s ! index]))) (\<lambda>_. gasD q)"
  proof (rule gas_needStack_set [OF _ q])
    fix s :: "slice list"
    assume "n \<le> int (length s)"
    with n frame.len64_le [of "length s"] have i: "nat (len64 (length s) - n) < length s" by linarith
    then show "mset (let index = nat (len64 (length s) - n) in
        take index s @ drop (index + 1) s @ [s ! index]) = mset s"
      by (subst (4) id_take_nth_drop [OF i]) (simp add: Let_def)
  qed
qed

text \<open>Inside a loop the push is not the last command.\<close>

lemma gas_then_push:
  assumes "int (s_len s) \<le> gas_cap" "gas G p k Q"
  shows "gas G p (thenE (push s False) k) Q"
  unfolding thenE_def
proof (rule gas_bind_state [where p' = p and P = "\<lambda>_. True"])
  fix vm x vm'
  assume g: "gasP p vm" "p \<le> gas_cap" and m: "push s False vm = (Inr x, vm')"
  have c: "i64 (8 + len64 (s_len s)) = item_cost s" using assms(1) by (simp add: push_cost)
  have b: "0 \<le> item_cost s" "item_cost s \<le> 2 * gas_cap"
    using item_cost_pos [of s] assms(1) by (auto simp: item_cost_def)
  have "i64 (runLimit vm - item_cost s) = runLimit vm - item_cost s"
    using g stacks_cost_nonneg [of vm] b by (intro i64_idI) (auto simp: gasP_def)
  then show "gasP p vm' \<and> True"
    using m g c by (auto simp: push_def Let_def thenE_apply modifyE_def applyCost_def gasP_def
        stacks_cost_def split: if_splits)
next
  fix vm e vm'
  assume "gasP p vm" "push s False vm = (Inl e, vm')"
  then show "0 \<le> runLimit vm' \<and> runLimit vm' \<le> p"
    using gasP_bounds [of p vm]
    by (auto simp: push_def Let_def thenE_apply modifyE_def applyCost_def split: if_splits)
qed (use assms in auto)

lemma gas_dupLoop:
  assumes "1 \<le> n" "p \<le> q"
  shows "gas G p (thenE (needStack (int n)) (dupLoop k n)) (\<lambda>_. gasD q)"
proof (induction k)
  case 0
  then show ?case using assms(2)
    by (intro gas_keep) (auto simp: needStack_def comp_simps split: if_splits)
next
  case (Suc k)
  let ?rest = "thenE (needStack (int n)) (dupLoop k n)"
  have "thenE (needStack (int n)) (dupLoop (Suc k) n) vm =
      thenE (needStack (int n)) (bindE (getsE (\<lambda>vm. dataStack vm ! (length (dataStack vm) - n)))
        (\<lambda>x. thenE (push x False) ?rest)) vm" for vm
    by (auto simp: needStack_def push_def applyCost_def comp_simps Let_def split: prod.splits sum.splits)
  then have "thenE (needStack (int n)) (dupLoop (Suc k) n) =
      thenE (needStack (int n)) (bindE (getsE (\<lambda>vm. dataStack vm ! (length (dataStack vm) - n)))
        (\<lambda>x. thenE (push x False) ?rest))" ..
  moreover have "gas G p \<dots> (\<lambda>_. gasD q)"
    using assms(1) Suc
    by (intro gas_needStack_get [where f = "\<lambda>s. s ! (length s - n)"] gas_then_push) simp_all
  ultimately show ?case by simp
qed

lemma gas_nDup: "1 \<le> n \<Longrightarrow> gas G p (nDup n) (\<lambda>_. gasD (p - 1))"
  unfolding nDup_def by (intro gas_applyCost gas_dupLoop) simp_all

lemma mset_swap_top:
  "2 \<le> length s \<Longrightarrow>
   mset (s[length s - 1 := s ! (length s - 2), length s - 2 := s ! (length s - 1)]) = mset s"
  by (rule mset_swap) auto

lemma mset_rot2:
  assumes "k = i + 2" "j = i + 1" "k \<le> length s"
  shows "mset (take i s @ drop k s @ [s ! i] @ [s ! j]) = mset s"
proof -
  have "take i s @ s ! i # s ! j # drop k s = s"
    using assms by (metis Cons_nth_drop_Suc Suc_eq_plus1 add.commute add_2_eq_Suc' add_leD1
        append_take_drop_id less_le_trans lessI not_less_eq_eq)
  moreover have "mset (take i s @ drop k s @ [s ! i] @ [s ! j])
      = mset (take i s @ s ! i # s ! j # drop k s)" by simp
  ultimately show ?thesis by simp
qed

lemma gas_opToAltStack: "gas G p opToAltStack (\<lambda>_. gasD (p - 1))"
proof -
  have "gas G (p - 2) (thenE (needStack 1) (modifyE (\<lambda>vm. vm\<lparr>altStack := altStack vm @ [last (dataStack vm)],
      dataStack := butlast (dataStack vm)\<rparr>))) (\<lambda>_. gasD (p - 1))"
    by (rule gas_keep)
      (auto simp: needStack_def comp_simps stacks_cost_def sc_butlast split: if_splits)
  then show ?thesis unfolding opToAltStack_def by (intro gas_applyCost) simp_all
qed

lemma gas_opFromAltStack: "gas G p opFromAltStack (\<lambda>_. gasD (p - 1))"
proof -
  have "gas G (p - 2) (bindE (getsE altStack) (\<lambda>alt.
      thenE (assertE (length alt \<noteq> 0) (Err ErrAltStackUnderflow))
        (modifyE (\<lambda>vm. vm\<lparr>dataStack := dataStack vm @ [last alt], altStack := butlast alt\<rparr>))))
     (\<lambda>_. gasD (p - 1))"
    by (rule gas_keep) (auto simp: comp_simps stacks_cost_def sc_butlast split: if_splits)
  then show ?thesis unfolding opFromAltStack_def by (intro gas_applyCost) simp_all
qed

text \<open>
  \<^verbatim>\<open>NIP\<close> and \<^verbatim>\<open>TUCK\<close> take items off the stack and put them back around a charged operation; they
  are equal to one charged operation in the middle of the stack.
\<close>

lemma gas_opNip: "gas G p opNip (\<lambda>_. gasD (p - 1))"
proof -
  let ?m = "bindE vm_top (\<lambda>t. thenE (setStack butlast) (bindE (pop False) (\<lambda>_. setStack (\<lambda>s. s @ [t]))))"
  have "gas G (p - 1) ?m (\<lambda>_. gasD (p - 1))"
  proof (rule gasI)
    fix vm x vm'
    assume g: "gasP (p - 1) vm" "p - 1 \<le> gas_cap" and m: "?m vm = (Inr x, vm')"
    then obtain pre a t where s: "dataStack vm = pre @ [a, t]"
      by (cases "dataStack vm" rule: rev_cases; cases "butlast (dataStack vm)" rule: rev_cases)
        (auto simp: bindE_apply thenE_apply vm_top_def setStack_def modifyE_def pop_def)
    have "int (s_len a) \<le> gas_cap" using gasP_item [OF g, of a] s by simp
    then have c: "i64 (8 + len64 (s_len a)) = item_cost a" by (simp add: push_cost)
    have "i64 (runLimit vm + item_cost a) = runLimit vm + item_cost a"
      using g s item_cost_pos [of a] item_cost_pos [of t] sc_nonneg [of pre] sc_nonneg [of "altStack vm"]
      by (intro i64_idI) (auto simp: gasP_def stacks_cost_def)
    with m s c g item_cost_pos [of a] show "gasD (p - 1) vm'"
      by (auto simp: bindE_apply thenE_apply vm_top_def setStack_def modifyE_def pop_def Let_def butlast_append
          gasP_def gasD_def stacks_cost_def)
  next
    fix vm e vm'
    assume "gasP (p - 1) vm" "?m vm = (Inl e, vm')"
    then show "0 \<le> runLimit vm' \<and> runLimit vm' \<le> p - 1"
      using gasP_bounds [of "p - 1" vm]
      by (auto simp: bindE_apply thenE_apply vm_top_def setStack_def modifyE_def pop_def Let_def
          split: if_splits)
  qed
  then show ?thesis unfolding opNip_def by (intro gas_applyCost) simp_all
qed

lemma two_last: "2 \<le> length xs \<Longrightarrow> \<exists>pre a b. xs = pre @ [a, b]"
  by (cases xs rule: rev_cases; cases "butlast xs" rule: rev_cases) auto

lemma gas_opTuck: "gas G p opTuck (\<lambda>_. gasD (p - 1))"
proof -
  let ?m = "thenE (needStack 2)
     (bindE (getsE (\<lambda>vm. drop (length (dataStack vm) - 2) (dataStack vm))) (\<lambda>top2.
      thenE (setStack (\<lambda>s. take (length s - 2) s))
        (thenE (push (top2 ! 1) False) (setStack (\<lambda>s. s @ top2)))))"
  have "gas G (p - 1) ?m (\<lambda>_. gasD (p - 1))"
  proof (rule gasI)
    fix vm x vm'
    assume g: "gasP (p - 1) vm" "p - 1 \<le> gas_cap" and m: "?m vm = (Inr x, vm')"
    then have "2 \<le> length (dataStack vm)"
      by (auto simp: needStack_def comp_simps split: if_splits)
    then obtain pre a t where s: "dataStack vm = pre @ [a, t]"
      using two_last by blast
    have small: "int (s_len t) \<le> gas_cap" using gasP_item [OF g, of t] s by simp
    then have c: "i64 (8 + len64 (s_len t)) = item_cost t" by (simp add: push_cost)
    have "i64 (runLimit vm - item_cost t) = runLimit vm - item_cost t"
      using g small stacks_cost_nonneg [of vm]
      by (intro i64_idI) (auto simp: gasP_def item_cost_def)
    with m s c g item_cost_pos [of t] show "gasD (p - 1) vm'"
      by (auto simp: needStack_def setStack_def push_def applyCost_def comp_simps Let_def gasP_def gasD_def
          stacks_cost_def nth_append split: if_splits)
  next
    fix vm e vm'
    assume "gasP (p - 1) vm" "?m vm = (Inl e, vm')"
    then show "0 \<le> runLimit vm' \<and> runLimit vm' \<le> p - 1"
      using gasP_bounds [of "p - 1" vm]
      by (auto simp: needStack_def setStack_def push_def applyCost_def comp_simps Let_def split: if_splits)
  qed
  then show ?thesis unfolding opTuck_def by (intro gas_applyCost) simp_all
qed

lemma gas_opPick: "gas G p opPick (\<lambda>_. gasD (p - 1))"
proof -
  have "gas G (p - 2) (thenE (needStack off)
      (bindE (getsE (\<lambda>vm. dataStack vm ! nat (len64 (length (dataStack vm)) - off)))
        (\<lambda>x. push x False))) (\<lambda>_. gasD (p - 1))" if "1 \<le> off" for off
  proof (rule gas_needStack_get [where f = "\<lambda>s. s ! nat (len64 (length s) - off)"])
    fix s :: "slice list"
    assume "off \<le> int (length s)"
    with that frame.len64_le [of "length s"] have "nat (len64 (length s) - off) < length s" by linarith
    then show "s ! nat (len64 (length s) - off) \<in> set s" by simp
  qed (simp add: gas_push)
  then show ?thesis unfolding opPick_def
    by - (rule gas_applyCost gas_popInt64 gas_assertE gas_case_prod
      | simp add: AddInt64_checked checked_def is_i64_def split: if_splits)+
qed

lemma gas_exec_stack: "gas G p (exec_stack f) (\<lambda>_. gasD (p - 1))"
proof (cases f)
  case Op2Rot
  show ?thesis unfolding Op2Rot exec_stack.simps op2Rot_def Let_def
    by (intro gas_applyCost gas_needStack_set mset_rot2) simp_all
next
  case Op2Swap
  show ?thesis unfolding Op2Swap exec_stack.simps op2Swap_def Let_def
    by (intro gas_applyCost gas_needStack_set mset_rot2) simp_all
next
  case OpSwap
  show ?thesis unfolding OpSwap exec_stack.simps opSwap_def Let_def
    by (intro gas_applyCost gas_needStack_set mset_swap_top) simp_all
next
  case OpOver
  show ?thesis unfolding OpOver exec_stack.simps opOver_def
    by (intro gas_applyCost gas_needStack_get [where f = "\<lambda>s. s ! (length s - 2)"] gas_push) simp_all
next
  case Op2Over
  show ?thesis unfolding Op2Over exec_stack.simps op2Over_def
    using gas_dupLoop [of 4 "p - 2" "p - 1" G 2] by (intro gas_applyCost) simp_all
next
  case OpDepth
  show ?thesis unfolding OpDepth exec_stack.simps opDepth_def
    by (rule gas_intros | simp)+
next
  case OpIfDup
  show ?thesis unfolding OpIfDup exec_stack.simps opIfDup_def
    by (rule gas_intros | simp)+
next
  case OpRoll
  show ?thesis unfolding OpRoll exec_stack.simps opRoll_def
    by (rule gas_rot gas_intros | simp)+
next
  case OpRot
  show ?thesis unfolding OpRot exec_stack.simps opRot_def
    by (rule gas_rot gas_intros | simp)+
next
  case OpDrop
  show ?thesis unfolding OpDrop exec_stack.simps opDrop_def
    by (rule gas_intros | simp)+
next
  case Op2Drop
  show ?thesis unfolding Op2Drop exec_stack.simps op2Drop_def
    by (rule gas_intros | simp)+
qed (simp_all add: op2Dup_def op3Dup_def opDup_def gas_nDup gas_opTuck gas_opPick gas_opNip
    gas_opToAltStack gas_opFromAltStack)

lemma gas_getsE_data:
  assumes "\<And>d. int (length d) \<le> gas_cap \<Longrightarrow> gas G p (f d) Q"
  shows "gas G p (bindE (getsE data) f) Q"
  using assms by (fastforce simp: gas_def bindE_apply getsE_def gasP_def)

lemma gas_applyCost_last: "0 \<le> n \<Longrightarrow> p - n \<le> q \<Longrightarrow> gas G p (applyCost n) (\<lambda>_. gasD q)"
proof -
  assume "0 \<le> n" "p - n \<le> q"
  then have "gas G p (thenE (applyCost n) (returnE ())) (\<lambda>_. gasD q)"
    by (intro gas_applyCost gas_returnE)
  moreover have "thenE (applyCost n) (returnE ()) = applyCost n"
    by (rule ext) (simp add: thenE_apply applyCost_def returnE_def)
  ultimately show ?thesis by simp
qed

lemma gas_exec_pushdata: "gas G p (exec_pushdata f) (\<lambda>_. gasD (p - 1))"
  by (cases f; simp only: exec_pushdata.simps opFalse_def opPushdata_def op1Negate_def opNop_def;
      (rule gas_applyCost_last gas_getsE_data gas_intros | simp)+)

lemma gas_nextPC: "p \<le> q \<Longrightarrow> gas G p (modifyE (\<lambda>vm. vm\<lparr>nextPC := f vm\<rparr>)) (\<lambda>_. gasD q)"
  by (rule gas_modify) (auto simp: gasP_def gasD_def stacks_cost_def)

lemma gas_exec_control:
  "f \<noteq> OpCheckPredicate \<Longrightarrow> gas G p (exec_control child f) (\<lambda>_. gasD (p - 1))"
  by (cases f; simp only: exec_control.simps opJump_def opJumpIf_def opVerify_def opFail_def;
      (rule gas_nextPC gas_intros | simp)+)

text \<open>
  Every operation other than \<^verbatim>\<open>CHECKPREDICATE\<close> costs at least one; \<^verbatim>\<open>CHECKMULTISIG\<close> with no public
  keys costs nothing but shortens the stack.
\<close>

lemma gas_exec_fn:
  assumes "runtime_ok R" "f \<noteq> ControlFn OpCheckPredicate" "f \<noteq> CryptoFn OpCheckMultiSig"
  shows "gas G p (exec_fn R child f) (\<lambda>_. gasD (p - 1))"
  using assms
  by (cases f) (auto simp: gas_exec_pushdata gas_exec_control gas_exec_stack gas_exec_splice
      gas_exec_bitwise gas_exec_numeric gas_exec_crypto gas_exec_introspection)

section \<open>CHECKMULTISIG shortens the stack\<close>

lemma pop_length: "pop d vm = (Inr s, vm') \<Longrightarrow> length (dataStack vm) = Suc (length (dataStack vm'))"
  by (auto simp: pop_def Let_def split: if_splits)

lemma popInt64_length:
  "popInt64 d vm = (Inr s, vm') \<Longrightarrow> length (dataStack vm) = Suc (length (dataStack vm'))"
  by (auto simp: popInt64_def bindE_Inr_iff liftErr_Inr_iff load_def getsE_def dest: pop_length)

lemma applyCost_stack: "applyCost n vm = (Inr x, vm') \<Longrightarrow> dataStack vm' = dataStack vm"
  by (auto simp: applyCost_def split: if_splits)

lemma collectE_pop_length:
  "collectE n (pop d) vm = (Inr xs, vm') \<Longrightarrow> length (dataStack vm') \<le> length (dataStack vm)"
  by (induction n arbitrary: vm xs) (fastforce simp: bindE_Inr_iff returnE_def dest: pop_length)+

lemma pushBool_length:
  "pushBool b True vm = (Inr x, vm') \<Longrightarrow> length (dataStack vm') = Suc (length (dataStack vm))"
  by (auto simp: pushBool_def push_def Let_def thenE_apply deferCost_def modifyE_def)

lemma assertE_Inr_iff: "assertE b e s = (Inr x, s') \<longleftrightarrow> b \<and> s' = s"
  by (auto simp: assertE_def returnE_def throwE_def)

lemma getsE_Inr_iff: "getsE f s = (Inr x, s') \<longleftrightarrow> x = f s \<and> s' = s"
  by (auto simp: getsE_def)

lemma opCheckMultiSig_length:
  assumes "opCheckMultiSig R vm = (Inr x, vm')"
  shows "length (dataStack vm') < length (dataStack vm)"
  using assms unfolding opCheckMultiSig_def
  by (auto simp: bindE_Inr_iff thenE_Inr_iff assertE_Inr_iff getsE_Inr_iff case_prod_beta
      split: if_split_asm
      dest!: popInt64_length pop_length applyCost_stack collectE_pop_length pushBool_length)

section \<open>Steps\<close>

lemma gasS_bounds: "gasS p vm \<Longrightarrow> 0 \<le> runLimit vm \<and> runLimit vm \<le> p"
  using stacks_cost_nonneg [of vm] by (auto simp: gasS_def)

lemma gasS_length: "gasS p vm \<Longrightarrow> 8 * int (length (dataStack vm)) \<le> p"
  using sc_length [of "dataStack vm"] sc_nonneg [of "altStack vm"]
  by (auto simp: gasS_def stacks_cost_def)

lemma ParseOp_Data: "ParseOp prog i = Inr inst \<Longrightarrow> length (Data inst) \<le> length prog"
  by (auto simp: ParseOp_def Let_def sub_bytes_def u32_def split: if_splits prod.splits)

text \<open>Settling the deferred cost after an operation.\<close>

lemma settle_gas:
  assumes "gasD q vm" "q \<le> gas_cap" "applyCost (deferredCost vm) vm = (r, vm')"
  shows "case r of Inl _ \<Rightarrow> runLimit vm' = 0 | Inr _ \<Rightarrow> gasS q vm' \<and> dataStack vm' = dataStack vm"
proof -
  have "i64 (runLimit vm - deferredCost vm) = runLimit vm - deferredCost vm"
    if "deferredCost vm \<le> runLimit vm"
    using assms(1,2) that stacks_cost_nonneg [of vm] by (intro i64_idI) (auto simp: gasD_def)
  with assms show ?thesis
    by (auto simp: applyCost_def gasD_def gasS_def stacks_cost_def split: if_splits)
qed

lemma execute_gas:
  assumes R: "runtime_ok R" and f: "op_fn (Op inst) \<noteq> ControlFn OpCheckPredicate"
    and d: "int (length (Data inst)) \<le> gas_cap"
    and g: "gasS p vm" "p \<le> gas_cap" and m: "execute R child inst vm = (r, vm')"
  shows "case r of
      Inl _ \<Rightarrow> 0 \<le> runLimit vm' \<and> runLimit vm' \<le> p
    | Inr _ \<Rightarrow> gasS (p - 1) vm' \<or> gasS p vm' \<and> length (dataStack vm') < length (dataStack vm)"
proof (cases "isExpansion (Op inst)")
  case True
  have "i64 (runLimit vm - 1) = runLimit vm - 1"
    using gasS_bounds [OF g(1)] g(2) by (intro i64_idI) auto
  with True m g gasS_bounds [OF g(1)] show ?thesis
    by (auto simp: execute_def comp_simps applyCost_def gasS_def stacks_cost_def split: if_splits)
next
  case False
  let ?f = "op_fn (Op inst)"
  let ?vm1 = "vm\<lparr>nextPC := u32 (pc vm + Len inst), deferredCost := 0, data := Data inst\<rparr>"
  obtain r2 vm2 where e: "exec_fn R child ?f ?vm1 = (r2, vm2)" by fastforce
  have g1: "gasP p ?vm1" using g d by (simp add: gasS_def gasP_def stacks_cost_def)
  have q: "case r2 of Inl _ \<Rightarrow> 0 \<le> runLimit vm2 \<and> runLimit vm2 \<le> p
    | Inr _ \<Rightarrow> gasD (p - 1) vm2 \<or> gasD p vm2 \<and> length (dataStack vm2) < length (dataStack vm)"
  proof (cases "?f = CryptoFn OpCheckMultiSig")
    case True
    with gas_opCheckMultiSig [of p p R] opCheckMultiSig_length [of R ?vm1] e g1 g(2) show ?thesis
      unfolding gas_def by (fastforce split: sum.splits)
  next
    case False
    from gas_exec_fn [OF R f this, of p p child] e g1 g(2) show ?thesis
      unfolding gas_def by (fastforce split: sum.splits)
  qed
  show ?thesis
  proof (cases r2)
    case (Inl x)
    with False m e q show ?thesis by (auto simp: execute_def comp_simps)
  next
    case (Inr u)
    obtain r3 vm3 where a: "applyCost (deferredCost vm2) vm2 = (r3, vm3)" by fastforce
    have "case r3 of Inl _ \<Rightarrow> r = r3 \<and> vm' = vm3 | Inr _ \<Rightarrow> r = Inr () \<and> vm' = vm3\<lparr>pc := nextPC vm3\<rparr>"
      using False m e Inr a by (auto simp: execute_def comp_simps split: sum.splits)
    moreover have "gasD (p - 1) vm2 \<or> gasD p vm2 \<and> length (dataStack vm2) < length (dataStack vm)"
      using q Inr by simp
    ultimately show ?thesis
      using settle_gas [OF _ _ a, of "p - 1"] settle_gas [OF _ _ a, of p] g gasS_bounds [OF g(1)]
      by (auto simp: gasS_def stacks_cost_def split: sum.splits)
  qed
qed

lemma step_gas:
  assumes R: "runtime_ok R" and g: "gasS p vm" "p \<le> gas_cap"
    and plain: "plain_code (rd (heap vm) (program vm))" and m: "step R child vm = (r, vm')"
  shows "case r of
      Inl _ \<Rightarrow> 0 \<le> runLimit vm' \<and> runLimit vm' \<le> p
    | Inr _ \<Rightarrow> gasS (p - 1) vm' \<or> gasS p vm' \<and> length (dataStack vm') < length (dataStack vm)"
proof (cases "ParseOp (rd (heap vm) (program vm)) (pc vm)")
  case (Inl e)
  with m gasS_bounds [OF g(1)] show ?thesis by (auto simp: step_def comp_simps)
next
  case (Inr inst)
  then have "execute R child inst vm = (r, vm')" using m by (simp add: step_def comp_simps)
  moreover have "int (length (Data inst)) \<le> gas_cap"
    using ParseOp_Data [OF Inr] plain by (simp add: plain_code_def)
  ultimately show ?thesis
    by (intro execute_gas [OF R plain_code_fn(1) [OF plain Inr] _ g])
qed

section \<open>The interpreter loop ends\<close>

definition potential :: "virtualMachine \<Rightarrow> int" where
  "potential vm = runLimit vm + stacks_cost vm"

definition run_inv :: "runtime \<Rightarrow> int \<Rightarrow> virtualMachine \<Rightarrow> bool" where
  "run_inv R G vm \<longleftrightarrow> runtime_ok R \<and> G \<le> gas_cap \<and> gasS G vm \<and> wf_vm vm \<and>
     plain_code (rd (heap vm) (program vm))"

definition run_measure :: "int \<Rightarrow> virtualMachine \<Rightarrow> nat" where
  "run_measure G vm = nat (potential vm) * (nat G + 1) + length (dataStack vm)"

lemma gasS_potential: "gasS p vm \<longleftrightarrow> 0 \<le> runLimit vm \<and> potential vm \<le> p \<and> context_small (ctxt vm)"
  by (simp add: gasS_def potential_def)

lemma measure_step:
  assumes "gasS (p - 1) vm' \<or> gasS p vm' \<and> length (dataStack vm') < length (dataStack vm)"
    and "p = potential vm" "p \<le> G"
  shows "run_measure G vm' < run_measure G vm"
proof -
  have pos: "0 \<le> potential vm'"
    using assms(1) stacks_cost_nonneg [of vm'] by (auto simp: gasS_def potential_def)
  have "8 * int (length (dataStack vm')) \<le> p"
    using assms(1) gasS_length [of "p - 1" vm'] gasS_length [of p vm'] by auto
  then have len: "length (dataStack vm') \<le> nat G" using assms(3) by linarith
  show ?thesis
  proof (cases "potential vm' < potential vm")
    case True
    then have "Suc (nat (potential vm')) \<le> nat (potential vm)" using pos by linarith
    then have "Suc (nat (potential vm')) * (nat G + 1) \<le> nat (potential vm) * (nat G + 1)"
      by (rule mult_le_mono1)
    then show ?thesis using len by (simp add: run_measure_def)
  next
    case False
    with assms have "potential vm' = potential vm" "length (dataStack vm') < length (dataStack vm)"
      by (auto simp: gasS_potential)
    then show ?thesis by (simp add: run_measure_def)
  qed
qed

lemma run_inv_step:
  assumes inv: "run_inv R G vm" and m: "step R child vm = (r, vm')"
  shows "case r of
      Inl e \<Rightarrow> 0 \<le> runLimit vm' \<and> runLimit vm' \<le> G \<and> \<not> abrupt_exc e
    | Inr _ \<Rightarrow> run_inv R G vm' \<and> run_measure G vm' < run_measure G vm"
proof -
  let ?p = "potential vm"
  have i: "runtime_ok R" "G \<le> gas_cap" "gasS G vm" "wf_vm vm" "plain_code (rd (heap vm) (program vm))"
    using inv by (simp_all add: run_inv_def)
  have g: "gasS ?p vm" "?p \<le> gas_cap" "?p \<le> G" using i by (auto simp: gasS_potential)
  note s = step_gas [OF i(1) g(1,2) i(5) m] and w = plain_step [OF i(4,5) m]
  show ?thesis
  proof (cases r)
    case (Inl e)
    with s w g show ?thesis by auto
  next
    case (Inr u)
    with s have q: "gasS (?p - 1) vm' \<or> gasS ?p vm' \<and> length (dataStack vm') < length (dataStack vm)"
      by simp
    moreover from q have "gasS G vm'" using g(3) by (auto simp: gasS_potential)
    ultimately show ?thesis
      using Inr w i g(3) measure_step [OF q refl g(3)] by (simp add: run_inv_def)
  qed
qed

interpretation vm_loop: fuelled_loop at_end "\<lambda>n. step R (\<lambda>child. run_loop R n (child\<lparr>pc := 0\<rparr>))"
  "run_loop R" OutOfFuel "run_inv R G" "run_measure G" "\<lambda>e vm. 0 \<le> runLimit vm \<and> runLimit vm \<le> G"
  for R G
proof
  show "run_inv R G s' \<and> run_measure G s' < run_measure G s"
    if "run_inv R G s" "step R (\<lambda>child. run_loop R n (child\<lparr>pc := 0\<rparr>)) s = (Inr x, s')" for s n x s'
    using run_inv_step [OF that] by simp
  show "(0 \<le> runLimit s' \<and> runLimit s' \<le> G) \<and> e \<noteq> OutOfFuel"
    if "run_inv R G s" "step R (\<lambda>child. run_loop R n (child\<lparr>pc := 0\<rparr>)) s = (Inl e, s')" for s n e s'
    using run_inv_step [OF that] by auto
qed simp_all

lemma run_measure_bound: "gasS G vm \<Longrightarrow> run_measure G vm < (nat G + 1) ^ 2"
proof -
  assume g: "gasS G vm"
  have "nat (potential vm) \<le> nat G" using g by (auto simp: gasS_potential)
  then have "nat (potential vm) * (nat G + 1) \<le> nat G * (nat G + 1)" by (rule mult_le_mono1)
  moreover have "length (dataStack vm) \<le> nat G" using gasS_length [OF g] by linarith
  moreover have "(nat G + 1) ^ 2 = nat G * (nat G + 1) + nat G + 1" by (simp add: power2_eq_square)
  ultimately show ?thesis unfolding run_measure_def by linarith
qed

lemma push_args_gas:
  assumes "gasP p vm" "p \<le> gas_cap" "list_all small_slice xs"
    and "forE (\<lambda>arg. push arg False) xs vm = (r, vm')"
  shows "case r of Inl _ \<Rightarrow> 0 \<le> runLimit vm' \<and> runLimit vm' \<le> p | Inr _ \<Rightarrow> gasS p vm'"
proof -
  have "gas p p (returnE ()) (\<lambda>_. gasS p)"
    by (auto simp: gas_def returnE_def gasP_def gasS_def)
  then have "gas p p (forE (\<lambda>arg. push arg False) xs) (\<lambda>_. gasS p)"
    using assms(3) by (induction xs) (auto intro: gas_then_push simp: small_slice_def)
  with assms show ?thesis unfolding gas_def by (auto split: sum.splits)
qed

section \<open>Properties\<close>

text \<open>
  Property C10: the gas account of a single instruction.  Take any instruction other than \<^verbatim>\<open>CHECKPREDICATE\<close> and a machine
  with a non-negative run limit; its potential is the run limit plus eight plus the length for every item on both
  stacks.  When the instruction succeeds, the run limit is not negative and the potential is lower by at least one,
  or the same with a shorter data stack (\<^verbatim>\<open>CHECKMULTISIG\<close> with no keys).  When it fails, the run limit is not negative
  and at most the former potential; the potential may then be higher, since an item whose cost cannot be paid stays on
  the stack.
\<close>

theorem execute_charges:
  assumes "runtime_ok R" "op_fn (Op inst) \<noteq> ControlFn OpCheckPredicate"
    and "int (length (Data inst)) \<le> gas_cap" "context_small (ctxt vm)"
    and "0 \<le> runLimit vm" "potential vm \<le> gas_cap" "execute R child inst vm = (r, vm')"
  shows "case r of
      Inl _ \<Rightarrow> 0 \<le> runLimit vm' \<and> runLimit vm' \<le> potential vm
    | Inr _ \<Rightarrow> 0 \<le> runLimit vm' \<and>
        (potential vm' < potential vm \<or>
         potential vm' = potential vm \<and> length (dataStack vm') < length (dataStack vm))"
proof -
  have "gasS (potential vm) vm" using assms(4,5) by (simp add: gasS_potential)
  from execute_gas [OF assms(1-3) this assms(6,7)] show ?thesis
    by (auto simp: gasS_potential split: sum.splits)
qed

lemma sample_small: "context_small (sample_context code)" if "length code \<le> 1000"
  using that by (simp add: context_small_def sample_context_def small_slice_def)

lemma sample_runtime_ok: "runtime_ok sample_runtime"
  by (simp add: runtime_ok_def sample_runtime_def min_def)

theorem execute_charges_witness:
  "let vm = new_vm (sample_context [0x51]) (sample_heap [0x51]) 100;
       e = execute sample_runtime (throwE OutOfFuel) \<lparr>Op = 0x51, Len = 1, Data = [1]\<rparr> vm
   in \<not> isl (fst e) \<and> 0 \<le> runLimit (snd e) \<and> potential (snd e) < potential vm"
proof -
  let ?vm = "new_vm (sample_context [0x51]) (sample_heap [0x51]) 100"
  let ?i = "\<lparr>Op = 0x51, Len = 1, Data = [1]\<rparr> :: instruction"
  let ?e = "execute sample_runtime (throwE OutOfFuel) ?i ?vm"
  have "op_fn (Op ?i) \<noteq> ControlFn OpCheckPredicate" by code_simp
  moreover have "context_small (ctxt ?vm)" by (simp add: new_vm_def sample_small)
  moreover have "0 \<le> runLimit ?vm" "potential ?vm \<le> gas_cap" by code_simp+
  ultimately have "case fst ?e of
      Inl _ \<Rightarrow> 0 \<le> runLimit (snd ?e) \<and> runLimit (snd ?e) \<le> potential ?vm
    | Inr _ \<Rightarrow> 0 \<le> runLimit (snd ?e) \<and> (potential (snd ?e) < potential ?vm \<or>
         potential (snd ?e) = potential ?vm \<and> length (dataStack (snd ?e)) < length (dataStack ?vm))"
    by (intro execute_charges [OF sample_runtime_ok]) simp_all
  moreover have "\<not> isl (fst ?e) \<and> length (dataStack (snd ?e)) = 1" by code_simp
  ultimately show ?thesis by (auto simp: Let_def new_vm_def split: sum.splits)
qed

text \<open>
  Property C11: the interpreter ends and stays within its gas.  For every program without
  \<^verbatim>\<open>CAT\<close>, \<^verbatim>\<open>CATPUSHDATA\<close> and \<^verbatim>\<open>CHECKPREDICATE\<close> opcodes, \<^verbatim>\<open>Verify\<close> with gas limit \<open>G\<close> executes
  fewer than \<open>(G + 1) ^ 2\<close> instructions, and the gas it reports as left is between 0 and \<open>G\<close>.
\<close>

theorem Verify_plain_ends:
  assumes "runtime_ok R" "context_ok h cx" "context_small cx" "heap_ok h" "plain_code (rd h (Code cx))"
    and "0 \<le> gasLimit" "gasLimit \<le> gas_cap" "(nat gasLimit + 1) ^ 2 \<le> fuel"
    and "Verify R fuel cx h gasLimit = (gasLeft, err, vm)"
  shows "err \<noteq> Some OutOfFuel \<and> 0 \<le> gasLeft \<and> gasLeft \<le> gasLimit"
proof -
  have g0: "gasP gasLimit (new_vm cx h gasLimit)"
    using assms(3,6) by (simp add: gasP_def new_vm_def stacks_cost_def)
  have args: "list_all small_slice (Arguments cx)" using assms(3) by (simp add: context_small_def)
  from assms(9) show ?thesis
  proof (cases rule: Verify_cases)
    case version
    with assms show ?thesis by simp
  next
    case (args e)
    with push_args [OF assms(2,4) args(2)]
      push_args_gas [OF g0 assms(7) _ args(2)] assms(3)
    show ?thesis by (auto simp: context_small_def split: if_splits)
  next
    case (run vm0 r)
    note a = push_args [OF assms(2,4) run(2)]
    have "gasS gasLimit vm0"
      using push_args_gas [OF g0 assms(7) args run(2)] by simp
    moreover have "rd (heap vm0) (program vm0) = rd h (Code cx)"
      using a assms(2) by (simp add: same_frame_def new_vm_def context_ok_def rd_frame)
    ultimately have inv: "run_inv R gasLimit (vm0\<lparr>pc := 0\<rparr>)" "gasS gasLimit (vm0\<lparr>pc := 0\<rparr>)"
      using assms a by (simp_all add: run_inv_def gasS_def stacks_cost_def wf_vm_def)
    then have "run_measure gasLimit (vm0\<lparr>pc := 0\<rparr>) < fuel"
      using run_measure_bound assms(8) by fastforce
    from vm_loop.loop_ends [OF inv(1) this run(3)] run(4) assms(6) show ?thesis
      by (auto simp: run_inv_def dest!: gasS_bounds split: sum.splits if_splits)
  qed
qed

theorem Verify_plain_ends_witness:
  "\<exists>gasLeft err vm.
     Verify sample_runtime 10201 (sample_context [0x51, 0x51, 0x87]) (sample_heap [0x51, 0x51, 0x87]) 100
       = (gasLeft, err, vm) \<and> err \<noteq> Some OutOfFuel \<and> 0 \<le> gasLeft \<and> gasLeft \<le> 100"
proof -
  let ?c = "[0x51, 0x51, 0x87] :: bytes"
  obtain gasLeft err vm where
    v: "Verify sample_runtime 10201 (sample_context ?c) (sample_heap ?c) 100 = (gasLeft, err, vm)"
    by (metis prod_cases3)
  have p: "plain_code (rd (sample_heap ?c) (Code (sample_context ?c)))" by code_simp
  have "err \<noteq> Some OutOfFuel \<and> 0 \<le> gasLeft \<and> gasLeft \<le> 100"
    by (rule Verify_plain_ends [OF sample_runtime_ok sample_ok(1) sample_small sample_ok(2) p _ _ _ v])
      simp_all
  with v show ?thesis by blast
qed

end
