(* ===== verification/VM_Findings.thy ===== *)
theory VM_Findings
  imports VM_Gas
begin

text \<open>
  Two defects of the virtual machine that the model exhibits.

  \<^item> \<^verbatim>\<open>BoolBytes(true)\<close> returns the package variable \<^verbatim>\<open>trueBytes\<close> itself, \<^verbatim>\<open>LEFT\<close> re-slices it and
    keeps its capacity, and \<^verbatim>\<open>CAT\<close> appends in place: a program of eight bytes changes the value of
    \<open>true\<close> for every later run.
  \<^item> \<^verbatim>\<open>CHECKPREDICATE\<close> refunds the items a failed child left on its stack, also the one whose cost
    the child could not pay: a program can gain gas in every round of a loop, so the gas limit
    does not bound the length of a run.
\<close>

section \<open>Overwriting the shared \<open>true\<close>\<close>

text \<open>\<^verbatim>\<open>1 1 EQUAL 0 LEFT 0x00 CAT\<close>, and the program \<^verbatim>\<open>1 1 EQUAL\<close> run afterwards.\<close>

definition clobber_code :: bytes where
  "clobber_code = [0x51, 0x51, 0x87, 0x00, 0x80, 0x01, 0x00, 0x7e]"

definition equal_code :: bytes where
  "equal_code = [0x51, 0x51, 0x87]"

section \<open>Gaining gas\<close>

text \<open>
  \<^verbatim>\<open>FALSE DATA_1 [PROGRAM] 1 CHECKPREDICATE DROP JUMP:0\<close>, padded with \<^verbatim>\<open>NOP\<close>s to 200 bytes: the child
  program \<^verbatim>\<open>PROGRAM\<close> pushes the 200 bytes and cannot pay for them with a limit of 1.
\<close>

definition leak_code :: bytes where
  "leak_code = [0x00, 0x01, 0xc4, 0x51, 0xc0, 0x75, 0x63, 0, 0, 0, 0] @ replicate 189 0x61"

lemma leak_parse:
  "ParseOp leak_code 0 = Inr \<lparr>Op = 0x00, Len = 1, Data = []\<rparr>"
  "ParseOp leak_code 1 = Inr \<lparr>Op = 0x01, Len = 2, Data = [0xc4]\<rparr>"
  "ParseOp leak_code 3 = Inr \<lparr>Op = 0x51, Len = 1, Data = [1]\<rparr>"
  "ParseOp leak_code 4 = Inr \<lparr>Op = 0xc0, Len = 1, Data = []\<rparr>"
  "ParseOp leak_code 5 = Inr \<lparr>Op = 0x75, Len = 1, Data = []\<rparr>"
  "ParseOp leak_code 6 = Inr \<lparr>Op = 0x63, Len = 5, Data = [0, 0, 0, 0]\<rparr>"
  "ParseOp [0xc4] 0 = Inr \<lparr>Op = 0xc4, Len = 1, Data = []\<rparr>"
  by code_simp+

lemma leak_ops:
  "op_fn 0x00 = PushdataFn OpFalse" "op_fn 0x01 = PushdataFn OpPushdata"
  "op_fn 0x51 = PushdataFn OpPushdata" "op_fn 0xc0 = ControlFn OpCheckPredicate"
  "op_fn 0x75 = StackFn OpDrop" "op_fn 0x63 = ControlFn OpJump"
  "op_fn 0xc4 = IntrospectionFn OpProgram"
  "\<not> isExpansion 0x00" "\<not> isExpansion 0x01" "\<not> isExpansion 0x51" "\<not> isExpansion 0xc0"
  "\<not> isExpansion 0x75" "\<not> isExpansion 0x63" "\<not> isExpansion 0xc4"
  by code_simp+

definition leak_vm :: "vm_context \<Rightarrow> bool \<Rightarrow> nat \<Rightarrow> nat \<Rightarrow> nat \<Rightarrow> int \<Rightarrow> int \<Rightarrow> bytes \<Rightarrow> slice list \<Rightarrow>
    heap \<Rightarrow> virtualMachine" where
  "leak_vm cx er dp i nx r df da ds h =
     \<lparr>ctxt = cx, program = Code cx, pc = i, nextPC = nx, runLimit = r, deferredCost = df,
      expansionReserved = er, data = da, depth = dp, dataStack = ds, altStack = [], heap = h\<rparr>"

definition leak_env :: "vm_context \<Rightarrow> heap \<Rightarrow> bool" where
  "leak_env cx h \<longleftrightarrow> slice_ok h (Code cx) \<and> s_len (Code cx) = 200 \<and> rd h (Code cx) = leak_code"

lemma leak_env_append: "leak_env cx h \<Longrightarrow> leak_env cx (h @ hs)"
  unfolding leak_env_def using rd_frame [OF heap_frame_append] slice_ok_shape [OF heap_frame_shape [OF heap_frame_append]]
  by simp

lemma applyCost_ok:
  "0 \<le> n \<Longrightarrow> n \<le> runLimit vm \<Longrightarrow> runLimit vm \<le> MaxInt64 \<Longrightarrow>
   applyCost n vm = (Inr (), vm\<lparr>runLimit := runLimit vm - n\<rparr>)"
  by (simp add: applyCost_def i64_idI)

lemma u32_lit: "u32 1 = 1" "u32 3 = 3" "u32 4 = 4" "u32 5 = 5" "u32 6 = 6" "u32 11 = 11" "u32 200 = 200"
  by (simp_all add: u32_def)

lemmas leak_simps = leak_vm_def leak_env_def step_def execute_def comp_simps leak_parse
  leak_parse [unfolded One_nat_def] leak_ops
  applyCost_ok u32_def len64_def i64_idI Let_def

abbreviation one_byte :: "nat \<Rightarrow> slice" where
  "one_byte a \<equiv> \<lparr>s_arr = a, s_off = 0, s_len = 1, s_cap = 1\<rparr>"

lemma leak_step0:
  assumes "leak_env cx h" "9 \<le> r" "r \<le> MaxInt64"
  shows "step R child (leak_vm cx er dp 0 nx r df da [] h) =
    (Inr (), leak_vm cx er dp 1 1 (r - 9) 0 [] [nil_slice] h)"
  using assms
  by (simp add: leak_simps opFalse_def pushBool_def push_def BoolBytes_def)

lemma leak_step1:
  assumes "leak_env cx h" "10 \<le> r" "r \<le> MaxInt64"
  shows "step R child (leak_vm cx er dp 1 nx r df da ds h) =
    (Inr (), leak_vm cx er dp 3 3 (r - 10) 0 [0xc4] (ds @ [one_byte (length h)]) (h @ [[0xc4]]))"
  using assms
  by (simp add: leak_simps opPushdata_def new_bytes_def alloc_def push_def)

lemma leak_step2:
  assumes "leak_env cx h" "10 \<le> r" "r \<le> MaxInt64"
  shows "step R child (leak_vm cx er dp 3 nx r df da ds h) =
    (Inr (), leak_vm cx er dp 4 4 (r - 10) 0 [1] (ds @ [one_byte (length h)]) (h @ [[1]]))"
  using assms
  by (simp add: leak_simps opPushdata_def new_bytes_def alloc_def push_def)

text \<open>The child program \<^verbatim>\<open>PROGRAM\<close>, with run limit 1: it fails and leaves the pushed item behind.\<close>

lemma leak_child:
  assumes "leak_env cx h" "rd h pr = [0xc4]" "s_len pr = 1"
  shows "\<exists>cv. run_loop R (Suc n)
      \<lparr>ctxt = cx, program = pr, pc = 0, nextPC = 0, runLimit = 1, deferredCost = 0,
       expansionReserved = False, data = [], depth = d, dataStack = [], altStack = [], heap = h\<rparr> =
      (Inl (Err ErrRunLimitExceeded), cv) \<and>
    runLimit cv = 0 \<and> dataStack cv = [Code cx] \<and> altStack cv = [] \<and> heap cv = h"
  using assms
  by (simp add: at_end_def leak_simps opProgram_def push_def deferCost_def applyCost_def)

lemma leak_step3:
  assumes env: "leak_env cx h" and h: "h ! a = [0xc4]" "a < length h" "h ! b = [1]" "b < length h"
    and "257 \<le> r" "r \<le> MaxInt64 - 500"
  shows "step R (\<lambda>child. run_loop R (Suc n) (child\<lparr>pc := 0\<rparr>))
      (leak_vm cx er dp 4 nx r df da [nil_slice, one_byte a, one_byte b] h) =
    (Inr (), leak_vm cx er dp 5 5 (r + 161) (- 418) [] [nil_slice] h)"
proof -
  obtain cv where cv: "run_loop R (Suc n)
      \<lparr>ctxt = cx, program = one_byte a, pc = 0, nextPC = 0, runLimit = 1, deferredCost = 0,
       expansionReserved = False, data = [], depth = dp + 1, dataStack = [], altStack = [], heap = h\<rparr> =
      (Inl (Err ErrRunLimitExceeded), cv)"
    "runLimit cv = 0" "dataStack cv = [Code cx]" "altStack cv = []" "heap cv = h"
    using leak_child [OF env, of "one_byte a" R n "dp + 1"] h by (auto simp: rd_def)
  let ?child = "\<lambda>child. run_loop R (Suc n) (child\<lparr>pc := 0\<rparr>)"
  have "runChild ?child (one_byte a) 1 0 (leak_vm cx er dp 4 5 (r - 257) (- 218) [] [] h) =
      (Inr (False, cv), leak_vm cx er dp 4 5 (r - 257) (- 218) [] [] h)"
    using cv by (simp add: runChild_def child_vm_def leak_vm_def del: run_loop.simps)
  note rc = this [unfolded leak_vm_def, simplified One_nat_def]
  have int: "AsInt64 [1] = Inr 1" "AsInt64 [] = Inr 0" by code_simp+
  have rd: "rd h (one_byte b) = [1]" using h by (simp add: rd_def)
  show ?thesis
    using assms cv(2-5)
    by (simp add: leak_simps opCheckPredicate_def deferCost_def popInt64_def pop_def load_def liftErr_def
        int rd rd [simplified] rc stackCost_def pushBool_def push_def BoolBytes_def del: run_loop.simps)
      (simp add: applyCost_def i64_idI)
qed

lemma leak_step4:
  assumes "leak_env cx h" "1 \<le> r" "r \<le> MaxInt64 - 500"
  shows "step R child (leak_vm cx er dp 5 nx r df da [nil_slice] h) =
    (Inr (), leak_vm cx er dp 6 6 (r + 7) 0 [] [] h)"
  using assms by (simp add: leak_simps opDrop_def pop_def)

lemma leak_step5:
  assumes "leak_env cx h" "1 \<le> r" "r \<le> MaxInt64 - 500"
  shows "step R child (leak_vm cx er dp 6 nx r df da [] h) =
    (Inr (), leak_vm cx er dp 0 0 (r - 1) 0 [0, 0, 0, 0] [] h)"
  using assms by (simp add: leak_simps opJump_def)

lemma leak_loop_step:
  assumes "leak_env cx h" "i < 200"
    and "step R (\<lambda>child. run_loop R n (child\<lparr>pc := 0\<rparr>)) (leak_vm cx er dp i nx r df da ds h) = (Inr (), vm')"
  shows "run_loop R (Suc n) (leak_vm cx er dp i nx r df da ds h) = run_loop R n vm'"
proof -
  have "\<not> at_end (leak_vm cx er dp i nx r df da ds h)"
    using assms by (simp add: at_end_def leak_vm_def leak_env_def u32_def)
  with assms(3) show ?thesis by (simp add: thenE_apply)
qed

text \<open>One round of the loop takes six instructions and gains 138 units of gas.\<close>

lemma leak_round:
  assumes "leak_env cx h" "300 \<le> r" "r \<le> MaxInt64 - 1000"
  shows "\<exists>nx da h'. leak_env cx h' \<and>
    run_loop R (n + 6) (leak_vm cx er dp 0 nx0 r df da0 [] h) =
    run_loop R n (leak_vm cx er dp 0 nx (r + 138) 0 da [] h')"
proof -
  let ?h1 = "h @ [[0xc4]]" and ?h2 = "h @ [[0xc4]] @ [[1]]"
  let ?a = "length h" and ?b = "length h + 1"
  have env: "leak_env cx ?h1" "leak_env cx ?h2"
    using leak_env_append [OF assms(1)] by auto
  have n: "n + 6 = Suc (Suc (Suc (Suc (Suc (Suc n)))))" by simp
  have h: "?h2 ! ?a = [0xc4]" "?a < length ?h2" "?h2 ! ?b = [1]" "?b < length ?h2"
    by (simp_all add: nth_append)
  note s3 = leak_step3 [OF env(2) h, of "r - 29" R "Suc n" er dp 4 0 "[1]"]
  have "run_loop R (n + 6) (leak_vm cx er dp 0 nx0 r df da0 [] h) =
      run_loop R (Suc (Suc (Suc (Suc (Suc n))))) (leak_vm cx er dp 1 1 (r - 9) 0 [] [nil_slice] h)"
    unfolding n using assms by (intro leak_loop_step leak_step0) auto
  also have "\<dots> = run_loop R (Suc (Suc (Suc (Suc n))))
      (leak_vm cx er dp 3 3 (r - 9 - 10) 0 [0xc4] ([nil_slice] @ [one_byte ?a]) ?h1)"
    using assms by (intro leak_loop_step leak_step1) auto
  also have "\<dots> = run_loop R (Suc (Suc (Suc n)))
      (leak_vm cx er dp 4 4 (r - 9 - 10 - 10) 0 [1]
        (([nil_slice] @ [one_byte ?a]) @ [one_byte (length ?h1)]) (?h1 @ [[1]]))"
    using assms env by (intro leak_loop_step leak_step2) auto
  also have "\<dots> = run_loop R (Suc (Suc (Suc n)))
      (leak_vm cx er dp 4 4 (r - 29) 0 [1] [nil_slice, one_byte ?a, one_byte ?b] ?h2)"
    by simp
  also have "\<dots> = run_loop R (Suc (Suc n)) (leak_vm cx er dp 5 5 (r - 29 + 161) (- 418) [] [nil_slice] ?h2)"
    using assms env s3 by (intro leak_loop_step) auto
  also have "\<dots> = run_loop R (Suc n) (leak_vm cx er dp 6 6 (r - 29 + 161 + 7) 0 [] [] ?h2)"
    using assms env by (intro leak_loop_step leak_step4) auto
  also have "\<dots> = run_loop R n (leak_vm cx er dp 0 0 (r - 29 + 161 + 7 - 1) 0 [0, 0, 0, 0] [] ?h2)"
    using assms env by (intro leak_loop_step leak_step5) auto
  also have "r - 29 + 161 + 7 - 1 = r + 138" by simp
  finally show ?thesis using env(2) by blast
qed

lemma leak_rounds:
  assumes "leak_env cx h" "300 \<le> r" "r + 138 * int k \<le> MaxInt64 - 1000"
  shows "\<exists>nx df da h'. leak_env cx h' \<and>
    run_loop R (n + 6 * k) (leak_vm cx er dp 0 nx0 r df0 da0 [] h) =
    run_loop R n (leak_vm cx er dp 0 nx (r + 138 * int k) df da [] h')"
  using assms
proof (induction k arbitrary: r h nx0 df0 da0)
  case 0
  then show ?case by auto
next
  case (Suc k)
  obtain nx da h' where h': "leak_env cx h'"
    "run_loop R (n + 6 * k + 6) (leak_vm cx er dp 0 nx0 r df0 da0 [] h) =
     run_loop R (n + 6 * k) (leak_vm cx er dp 0 nx (r + 138) 0 da [] h')"
    using leak_round [OF Suc.prems(1,2), of R "n + 6 * k"] Suc.prems(3) by force
  obtain nx2 df2 da2 h2 where "leak_env cx h2"
    "run_loop R (n + 6 * k) (leak_vm cx er dp 0 nx (r + 138) 0 da [] h') =
     run_loop R n (leak_vm cx er dp 0 nx2 (r + 138 + 138 * int k) df2 da2 [] h2)"
    using Suc.IH [OF h'(1), of "r + 138"] Suc.prems by fastforce
  with h'(2) show ?case by (force simp: algebra_simps)
qed

section \<open>Properties\<close>

definition shared_heap :: heap where
  "shared_heap = [[1], clobber_code, equal_code]"

definition code_context :: "nat \<Rightarrow> nat \<Rightarrow> vm_context" where
  "code_context a n =
     (sample_context [])\<lparr>Code := \<lparr>s_arr = a, s_off = 0, s_len = n, s_cap = n\<rparr>, Arguments := []\<rparr>"

text \<open>
  One script changes the meaning of \<open>true\<close> for the whole process.  On a heap where \<^verbatim>\<open>trueBytes\<close> is \<^verbatim>\<open>0x01\<close>, the program
  \<^verbatim>\<open>1 1 EQUAL\<close> succeeds.  After \<^verbatim>\<open>1 1 EQUAL 0 LEFT 0x00 CAT\<close> has run, \<^verbatim>\<open>trueBytes\<close> is \<^verbatim>\<open>0x00\<close>, and the same program
  \<^verbatim>\<open>1 1 EQUAL\<close> fails with \<^verbatim>\<open>ErrFalseVMResult\<close>.
\<close>

lemma trueBytes_overwritten:
  "fst (snd (Verify sample_runtime 10 (code_context 2 3) shared_heap 1000)) = None \<and>
   (case Verify sample_runtime 10 (code_context 1 8) shared_heap 1000 of (_, _, vm) \<Rightarrow>
      rd (heap vm) trueBytes = [0] \<and>
      fst (snd (Verify sample_runtime 10 (code_context 2 3) (heap vm) 1000)) = Some (Err ErrFalseVMResult))"
  by code_simp



text \<open>
  Property C36: the gas limit does not bound a run.  With a gas limit of 1000, the 200-byte
  program \<open>leak_code\<close> is still running after \<open>6 * k\<close> instructions, for every \<open>k\<close> up to \<open>10 ^ 16\<close>,
  whatever the hash and signature functions, and its run limit has grown to \<open>1000 + 138 * k\<close>.
\<close>

theorem CHECKPREDICATE_gas_leak:
  assumes "VMVersion cx = 1" "Arguments cx = []" "slice_ok h (Code cx)" "rd h (Code cx) = leak_code"
    and "k \<le> 10000000000000000"
  shows "\<exists>vm. Verify R (6 * k) cx h 1000 = (1000 + 138 * int k, Some OutOfFuel, vm)"
proof -
  have "s_len (Code cx) = 200"
    using length_rd [OF assms(3)] assms(4) by (simp add: leak_code_def)
  then have env: "leak_env cx h" using assms by (simp add: leak_env_def)
  obtain nx df da h' where h': "leak_env cx h'"
    "run_loop R (0 + 6 * k) (leak_vm cx (TxVersion cx = Some 1) 0 0 0 1000 0 [] [] h) =
     run_loop R 0 (leak_vm cx (TxVersion cx = Some 1) 0 0 nx (1000 + 138 * int k) df da [] h')"
    using leak_rounds [OF env, of 1000 k R 0] assms(5) by force
  have "new_vm cx h 1000 = leak_vm cx (TxVersion cx = Some 1) 0 0 0 1000 0 [] [] h"
    by (simp add: new_vm_def leak_vm_def)
  moreover have "leak_vm cx er dp i nx r df da ds h\<lparr>pc := 0\<rparr> = leak_vm cx er dp 0 nx r df da ds h"
    for er dp i nx r df da ds by (simp add: leak_vm_def)
  moreover have "\<not> at_end (leak_vm cx (TxVersion cx = Some 1) 0 0 nx (1000 + 138 * int k) df da [] h')"
    using h'(1) by (simp add: at_end_def leak_vm_def leak_env_def u32_def)
  ultimately show ?thesis
    using assms(1,2) h'(2) by (simp add: Verify_def thenE_apply run_def returnE_def leak_vm_def)
qed

theorem CHECKPREDICATE_gas_leak_witness:
  "\<exists>vm. Verify sample_runtime 600 (code_context 1 200) [[1], leak_code] 1000 = (14800, Some OutOfFuel, vm)"
proof -
  have "VMVersion (code_context 1 200) = 1" "Arguments (code_context 1 200) = []"
    by (simp_all add: code_context_def sample_context_def)
  moreover have "slice_ok [[1], leak_code] (Code (code_context 1 200))"
    "rd [[1], leak_code] (Code (code_context 1 200)) = leak_code"
    by (simp_all add: code_context_def slice_ok_def rd_def leak_code_def)
  ultimately show ?thesis
    using CHECKPREDICATE_gas_leak [of "code_context 1 200" "[[1], leak_code]" 100 sample_runtime] by simp
qed

end
