(* ===== verification/Bc_Types.thy ===== *)
theory Bc_Types
  imports Prelude
begin

text \<open>
  The block chain data of \<^verbatim>\<open>protocol/bc\<close>: hashes with their byte and text forms (\<^verbatim>\<open>hash.go\<close>), the
  entries of a transaction (\<^verbatim>\<open>bc.proto\<close>), transactions with their typed entry look-ups (\<^verbatim>\<open>tx.go\<close>),
  blocks (\<^verbatim>\<open>block.go\<close>) and the verification status of a block's transactions (\<^verbatim>\<open>tx_status.go\<close>).

  A Go pointer that the code tests for \<^verbatim>\<open>nil\<close> is an option; an \<^verbatim>\<open>AssetID\<close> has the representation of
  a \<^verbatim>\<open>Hash\<close> and shares its type here.
\<close>

section \<open>Big-endian codec\<close>

definition be_bytes :: "nat \<Rightarrow> nat \<Rightarrow> bytes" where
  "be_bytes k v = rev (le_bytes k v)"

definition be_nat :: "bytes \<Rightarrow> nat" where
  "be_nat bs = le_nat (rev bs)"

lemma length_be_bytes [simp]: "length (be_bytes k v) = k"
  by (simp add: be_bytes_def)

lemma be_nat_be_bytes: "v < 256 ^ k \<Longrightarrow> be_nat (be_bytes k v) = v"
  by (simp add: be_nat_def be_bytes_def le_nat_le_bytes)

lemma be_bytes_be_nat: "length bs = k \<Longrightarrow> be_bytes k (be_nat bs) = bs"
  using le_bytes_le_nat [of "rev bs"] by (simp add: be_nat_def be_bytes_def)

lemma be_nat_bound: "be_nat bs < 256 ^ length bs"
  using le_nat_bound [of "rev bs"] by (simp add: be_nat_def)

section \<open>Hexadecimal text (encoding/hex)\<close>

definition hex_digit :: "nat \<Rightarrow> char" where
  "hex_digit n = ''0123456789abcdef'' ! n"

definition hex_value :: "char \<Rightarrow> nat option" where
  "hex_value c =
     (let n = of_char c in
      if 48 \<le> n \<and> n \<le> 57 then Some (n - 48)
      else if 97 \<le> n \<and> n \<le> 102 then Some (n - 97 + 10)
      else if 65 \<le> n \<and> n \<le> 70 then Some (n - 65 + 10)
      else None)"

definition hex_byte :: "byte \<Rightarrow> string" where
  "hex_byte b = [hex_digit (unat b div 16), hex_digit (unat b mod 16)]"

definition hex_encode :: "bytes \<Rightarrow> string" where
  "hex_encode bs = concat (map hex_byte bs)"

text \<open>
  \<^verbatim>\<open>hex.Decode\<close> on text of even length: the bytes decoded before the first invalid character, and
  whether there was none.
\<close>

fun hex_decode :: "string \<Rightarrow> bytes \<times> bool" where
  "hex_decode (a # b # cs) =
     (case (hex_value a, hex_value b) of
        (Some x, Some y) \<Rightarrow> (case hex_decode cs of (bs, ok) \<Rightarrow> (of_nat (16 * x + y) # bs, ok))
      | _ \<Rightarrow> ([], False))"
| "hex_decode [] = ([], True)"
| "hex_decode [_] = ([], False)"

lemma hex_value_digit: "n < 16 \<Longrightarrow> hex_value (hex_digit n) = Some n"
proof -
  have "list_all (\<lambda>n. hex_value (hex_digit n) = Some n) [0..<16]" by code_simp
  then show "n < 16 \<Longrightarrow> ?thesis" by (simp add: list_all_iff)
qed

lemma hex_decode_encode: "hex_decode (hex_encode bs) = (bs, True)"
proof (induction bs)
  case (Cons b bs)
  have "unat b div 16 < 16" using unat_byte_less [of b] by linarith
  moreover have "16 * (unat b div 16) + unat b mod 16 = unat b" by simp
  ultimately show ?case
    using Cons by (simp add: hex_encode_def hex_byte_def hex_value_digit del: mult_div_mod_eq)
qed (simp add: hex_encode_def)

lemma length_hex_encode: "length (hex_encode bs) = 2 * length bs"
  by (induction bs) (simp_all add: hex_encode_def hex_byte_def)

lemma hex_encode_inj: "hex_encode a = hex_encode b \<Longrightarrow> a = b"
  by (metis hex_decode_encode prod.inject)

section \<open>Hashes (hash.go)\<close>

record hash =
  V0 :: nat
  V1 :: nat
  V2 :: nat
  V3 :: nat

definition hash_ok :: "hash \<Rightarrow> bool" where
  "hash_ok h \<longleftrightarrow> is_u64 (V0 h) \<and> is_u64 (V1 h) \<and> is_u64 (V2 h) \<and> is_u64 (V3 h)"

definition NewHash :: "bytes \<Rightarrow> hash" where
  "NewHash b32 =
     \<lparr>V0 = be_nat (take 8 b32), V1 = be_nat (take 8 (drop 8 b32)),
      V2 = be_nat (take 8 (drop 16 b32)), V3 = be_nat (take 8 (drop 24 b32))\<rparr>"

definition Byte32 :: "hash \<Rightarrow> bytes" where
  "Byte32 h = be_bytes 8 (V0 h) @ be_bytes 8 (V1 h) @ be_bytes 8 (V2 h) @ be_bytes 8 (V3 h)"

definition zeroHash :: hash where
  "zeroHash = \<lparr>V0 = 0, V1 = 0, V2 = 0, V3 = 0\<rparr>"

definition MarshalText :: "hash \<Rightarrow> string" where
  "MarshalText h = hex_encode (Byte32 h)"

text \<open>
  \<^verbatim>\<open>UnmarshalText\<close> returns the new hash and whether it succeeded; text of another length leaves the
  receiver alone, an invalid character leaves the bytes before it in place.
\<close>

definition UnmarshalText :: "hash \<Rightarrow> string \<Rightarrow> hash \<times> bool" where
  "UnmarshalText h v =
     (if length v \<noteq> 64 then (h, False)
      else case hex_decode v of (bs, ok) \<Rightarrow> (NewHash (bs @ replicate (32 - length bs) 0), ok))"

definition IsZero :: "hash option \<Rightarrow> bool" where
  "IsZero h = (case h of None \<Rightarrow> True | Some x \<Rightarrow> x = zeroHash)"

lemma length_Byte32 [simp]: "length (Byte32 h) = 32"
  by (simp add: Byte32_def)

lemma NewHash_Byte32: "hash_ok h \<Longrightarrow> NewHash (Byte32 h) = h"
  by (simp add: NewHash_def Byte32_def hash_ok_def is_u64_def be_nat_be_bytes)

lemma Byte32_NewHash:
  assumes "length b32 = 32"
  shows "Byte32 (NewHash b32) = b32" and "hash_ok (NewHash b32)"
proof -
  have "b32 = take 8 b32 @ take 8 (drop 8 b32) @ take 8 (drop 16 b32) @ take 8 (drop 24 b32)"
  proof -
    have "drop k b32 = take 8 (drop k b32) @ drop (k + 8) b32" for k
      by (metis append_take_drop_id drop_drop add.commute)
    from this [of 0] this [of 8] this [of 16] this [of 24] assms show ?thesis by simp
  qed
  then show "Byte32 (NewHash b32) = b32"
    using assms by (simp add: Byte32_def NewHash_def be_bytes_be_nat)
  have "be_nat (take 8 bs) \<le> MaxUint64" if "8 \<le> length bs" for bs
    using be_nat_bound [of "take 8 bs"] that by simp
  from this [of b32] this [of "drop 8 b32"] this [of "drop 16 b32"] this [of "drop 24 b32"]
  show "hash_ok (NewHash b32)"
    using assms by (simp add: hash_ok_def NewHash_def is_u64_def)
qed

lemma Byte32_inj: "hash_ok a \<Longrightarrow> hash_ok b \<Longrightarrow> Byte32 a = Byte32 b \<Longrightarrow> a = b"
  by (metis NewHash_Byte32)

section \<open>Entries (bc.proto)\<close>

type_synonym asset_id = hash

record asset_amount =
  aa_AssetId :: "asset_id option"
  aa_Amount :: nat

record value_link =
  vl_Ref :: "hash option"
  vl_Value :: "asset_amount option"
  vl_Position :: nat

type_synonym value_source = value_link
type_synonym value_destination = value_link

record bc_program =
  prog_VmVersion :: nat
  prog_Code :: bytes

record asset_definition =
  ad_IssuanceProgram :: bc_program
  ad_Data :: hash

record tx_header =
  th_Version :: nat
  th_SerializedSize :: nat
  th_TimeRange :: nat
  th_ResultIds :: "hash list"

record mux_entry =
  mux_Sources :: "value_source option list"
  mux_Program :: bc_program
  mux_WitnessDestinations :: "value_destination list"
  mux_WitnessArguments :: "bytes list"

record coinbase_entry =
  cb_WitnessDestination :: "value_destination option"
  cb_Arbitrary :: bytes

record output_entry =
  out_Source :: value_source
  out_ControlProgram :: bc_program
  out_Ordinal :: nat

record vote_output_entry =
  vote_Output :: output_entry
  vote_Vote :: bytes

record retirement_entry =
  ret_Source :: value_source
  ret_Ordinal :: nat

text \<open>\<^verbatim>\<open>Spend\<close> and \<^verbatim>\<open>VetoInput\<close> have the same fields.\<close>

record spend_entry =
  sp_SpentOutputId :: "hash option"
  sp_WitnessDestination :: "value_destination option"
  sp_WitnessArguments :: "bytes list"
  sp_Ordinal :: nat

record crosschain_input_entry =
  cc_MainchainOutputId :: "hash option"
  cc_WitnessDestination :: "value_destination option"
  cc_ControlProgram :: bc_program
  cc_AssetDefinition :: asset_definition
  cc_WitnessArguments :: "bytes list"
  cc_Ordinal :: nat
  cc_RawDefinitionByte :: bytes

datatype entry =
    TxHeader tx_header
  | Mux mux_entry
  | Coinbase coinbase_entry
  | IntraChainOutput output_entry
  | CrossChainOutput output_entry
  | VoteOutput vote_output_entry
  | Retirement retirement_entry
  | Spend spend_entry
  | VetoInput spend_entry
  | CrossChainInput crosschain_input_entry

section \<open>Transactions and blocks (tx.go, block.go)\<close>

record tx =
  tx_Header :: tx_header
  tx_ID :: hash
  tx_Entries :: "hash \<rightharpoonup> entry"
  tx_InputIDs :: "hash list"
  tx_SpentOutputIDs :: "hash list"
  tx_MainchainOutputIDs :: "hash list"
  tx_GasInputIDs :: "hash list"

datatype bc_error = ErrEntryType | ErrMissingEntry

definition Entry :: "tx \<Rightarrow> hash \<Rightarrow> bc_error + entry" where
  "Entry t i = (case tx_Entries t i of None \<Rightarrow> Inl ErrMissingEntry | Some e \<Rightarrow> Inr e)"

definition getIntraChainOutput :: "tx \<Rightarrow> hash \<Rightarrow> bc_error + output_entry" where
  "getIntraChainOutput t i =
     (case tx_Entries t i of
        None \<Rightarrow> Inl ErrMissingEntry
      | Some (IntraChainOutput o') \<Rightarrow> Inr o'
      | Some _ \<Rightarrow> Inl ErrEntryType)"

definition getCrossChainOutput :: "tx \<Rightarrow> hash \<Rightarrow> bc_error + output_entry" where
  "getCrossChainOutput t i =
     (case tx_Entries t i of
        None \<Rightarrow> Inl ErrMissingEntry
      | Some (CrossChainOutput o') \<Rightarrow> Inr o'
      | Some _ \<Rightarrow> Inl ErrEntryType)"

definition getSpend :: "tx \<Rightarrow> hash \<Rightarrow> bc_error + spend_entry" where
  "getSpend t i =
     (case tx_Entries t i of
        None \<Rightarrow> Inl ErrMissingEntry
      | Some (Spend sp) \<Rightarrow> Inr sp
      | Some _ \<Rightarrow> Inl ErrEntryType)"

definition getVetoInput :: "tx \<Rightarrow> hash \<Rightarrow> bc_error + spend_entry" where
  "getVetoInput t i =
     (case tx_Entries t i of
        None \<Rightarrow> Inl ErrMissingEntry
      | Some (VetoInput sp) \<Rightarrow> Inr sp
      | Some _ \<Rightarrow> Inl ErrEntryType)"

definition getVoteOutput :: "tx \<Rightarrow> hash \<Rightarrow> bc_error + vote_output_entry" where
  "getVoteOutput t i =
     (case tx_Entries t i of
        None \<Rightarrow> Inl ErrMissingEntry
      | Some (VoteOutput o') \<Rightarrow> Inr o'
      | Some _ \<Rightarrow> Inl ErrEntryType)"

text \<open>What a signature of the input \<open>n\<close> signs; an index out of range panics.\<close>

definition SigHash :: "(bytes \<Rightarrow> bytes) \<Rightarrow> tx \<Rightarrow> nat \<Rightarrow> hash option" where
  "SigHash sha3 t n =
     (if n < length (tx_InputIDs t) then Some (NewHash (sha3 (Byte32 (tx_InputIDs t ! n) @ Byte32 (tx_ID t)))) else None)"

text \<open>A \<^verbatim>\<open>TransactionStatus\<close> is the list of the \<^verbatim>\<open>StatusFail\<close> flags; its version is the constant 1.\<close>

type_synonym tx_status = "bool list"

record block =
  blk_Version :: nat
  blk_Height :: nat
  blk_PreviousBlockId :: hash
  blk_Timestamp :: nat
  blk_TransactionsRoot :: hash
  blk_TransactionStatusHash :: hash
  blk_TransactionStatus :: tx_status
  blk_WitnessArguments :: "bytes list"
  blk_ID :: hash
  blk_Transactions :: "tx list"

section \<open>Verification status (tx_status.go)\<close>

definition SetStatus :: "tx_status \<Rightarrow> nat \<Rightarrow> bool \<Rightarrow> tx_status option" where
  "SetStatus ts i gasOnly =
     (if i > length ts then None
      else if i = length ts then Some (ts @ [gasOnly])
      else Some (ts[i := gasOnly]))"

definition GetStatus :: "tx_status \<Rightarrow> nat \<Rightarrow> bool option" where
  "GetStatus ts i = (if i \<ge> length ts then None else Some (ts ! i))"

lemma GetStatus_SetStatus:
  "SetStatus ts i b = Some ts' \<Longrightarrow>
   GetStatus ts' j = (if j = i then Some b else GetStatus ts j)"
  by (auto simp: SetStatus_def GetStatus_def nth_append split: if_splits)

section \<open>Properties\<close>

text \<open>
  Hashes round-trip through both their forms: through the 32 bytes in both
  directions, and through the hexadecimal text, which replaces whatever the receiver held.
\<close>

theorem hash_roundtrip:
  assumes "hash_ok h" and "length b32 = 32"
  shows "NewHash (Byte32 h) = h \<and> Byte32 (NewHash b32) = b32 \<and> hash_ok (NewHash b32) \<and>
    length (MarshalText h) = 64 \<and> UnmarshalText old (MarshalText h) = (h, True)"
  using assms NewHash_Byte32 [of h] Byte32_NewHash [of b32]
  by (simp add: MarshalText_def UnmarshalText_def length_hex_encode hex_decode_encode)

theorem hash_roundtrip_witness:
  "UnmarshalText zeroHash (MarshalText \<lparr>V0 = 1, V1 = 2, V2 = 3, V3 = 18446744073709551615\<rparr>) =
     (\<lparr>V0 = 1, V1 = 2, V2 = 3, V3 = 18446744073709551615\<rparr>, True)"
  using hash_roundtrip [of "\<lparr>V0 = 1, V1 = 2, V2 = 3, V3 = 18446744073709551615\<rparr>" "replicate 32 7" zeroHash]
  by (simp add: hash_ok_def is_u64_def)

end
