(* ===== verification/Params.thy ===== *)
theory Params
  imports Bc_Types
begin

text \<open>
  Network parameters (\<^verbatim>\<open>consensus/general.go\<close>).  The Go code reads the variable \<^verbatim>\<open>ActiveNetParams\<close>;
  here the parameters are an argument \<open>P\<close> of the definitions that use them.
\<close>

section \<open>Constants\<close>

definition BTMAlias :: string where
  "BTMAlias = ''BTM''"

definition PayToWitnessPubKeyHashDataSize :: nat where
  "PayToWitnessPubKeyHashDataSize = 20"

definition PayToWitnessScriptHashDataSize :: nat where
  "PayToWitnessScriptHashDataSize = 32"

definition CrossInForkHeight :: nat where
  "CrossInForkHeight = 128957600"

text \<open>\<^verbatim>\<open>iota\<close> is 5 at \<^verbatim>\<open>SoftFork001\<close>.\<close>

definition SoftFork001 :: nat where
  "SoftFork001 = 5"

definition BTMAssetID :: asset_id where
  "BTMAssetID =
     \<lparr>V0 = be_nat (replicate 8 0xff), V1 = be_nat (replicate 8 0xff),
      V2 = be_nat (replicate 8 0xff), V3 = be_nat (replicate 8 0xff)\<rparr>"

section \<open>Parameter records\<close>

record checkpoint =
  cp_Height :: nat
  cp_Hash :: hash

record producer_subsidy =
  ps_BeginBlock :: nat
  ps_EndBlock :: nat
  ps_Subsidy :: nat

record mov_reward_program =
  mr_BeginBlock :: nat
  mr_EndBlock :: nat
  mr_Program :: string

text \<open>\<^verbatim>\<open>Params\<close> embeds \<^verbatim>\<open>BasicConfig\<close> and \<^verbatim>\<open>DPOSConfig\<close>; its record extends theirs.\<close>

record basic_config =
  MaxBlockGas :: nat
  MaxGasAmount :: int
  DefaultGasCredit :: int
  VMGasRate :: int
  StorageGasRate :: int
  VotePendingBlockNumber :: nat
  CoinbasePendingBlockNumber :: nat
  CoinbaseArbitrarySizeLimit :: nat

record dpos_config = basic_config +
  NumOfConsensusNode :: int
  BlockNumEachNode :: nat
  RoundVoteBlockNums :: nat
  MinConsensusNodeVoteNum :: nat
  MinVoteOutputAmount :: nat
  BlockTimeInterval :: nat
  MaxTimeOffsetMs :: nat

record params = dpos_config +
  net_Name :: string
  Bech32HRPSegwit :: string
  DefaultPort :: string
  DNSSeeds :: "string list"
  Checkpoints :: "checkpoint list"
  ProducerSubsidys :: "producer_subsidy list"
  SoftForkPoint :: "(nat \<times> nat) list"
  MovStartHeight :: nat
  MovRewardPrograms :: "mov_reward_program list"

section \<open>The three networks\<close>

definition MainNetParams :: params where
  "MainNetParams =
     \<lparr>MaxBlockGas = 10000000, MaxGasAmount = 640000, DefaultGasCredit = 160000, VMGasRate = 200,
      StorageGasRate = 1, VotePendingBlockNumber = 3456000, CoinbasePendingBlockNumber = 7200,
      CoinbaseArbitrarySizeLimit = 128,
      NumOfConsensusNode = 10, BlockNumEachNode = 12, RoundVoteBlockNums = 1200,
      MinConsensusNodeVoteNum = 100000000000000, MinVoteOutputAmount = 100000000,
      BlockTimeInterval = 500, MaxTimeOffsetMs = 2000,
      net_Name = ''main'', Bech32HRPSegwit = ''vp'', DefaultPort = ''56656'',
      DNSSeeds = [''www.mainnetseed.vapor.io''], Checkpoints = [],
      ProducerSubsidys =
        [\<lparr>ps_BeginBlock = 1, ps_EndBlock = 63072000, ps_Subsidy = 9512938\<rparr>,
         \<lparr>ps_BeginBlock = 63072001, ps_EndBlock = 126144000, ps_Subsidy = 9512938\<rparr>],
      SoftForkPoint = [(SoftFork001, 10461600)], MovStartHeight = 42884800,
      MovRewardPrograms =
        [\<lparr>mr_BeginBlock = 1, mr_EndBlock = 126144000,
          mr_Program = ''00141d00f85e220e35a23282cfc7f91fe7b34bf6dc18''\<rparr>]\<rparr>"

definition TestNetParams :: params where
  "TestNetParams =
     \<lparr>MaxBlockGas = 10000000, MaxGasAmount = 640000, DefaultGasCredit = 160000, VMGasRate = 200,
      StorageGasRate = 1, VotePendingBlockNumber = 3456000, CoinbasePendingBlockNumber = 7200,
      CoinbaseArbitrarySizeLimit = 128,
      NumOfConsensusNode = 10, BlockNumEachNode = 12, RoundVoteBlockNums = 1200,
      MinConsensusNodeVoteNum = 100000000000000, MinVoteOutputAmount = 100000000,
      BlockTimeInterval = 500, MaxTimeOffsetMs = 2000,
      net_Name = ''test'', Bech32HRPSegwit = ''tp'', DefaultPort = ''56657'',
      DNSSeeds = [''www.testnetseed.vapor.io''], Checkpoints = [],
      ProducerSubsidys = [\<lparr>ps_BeginBlock = 1, ps_EndBlock = 63072000, ps_Subsidy = 15000000\<rparr>],
      SoftForkPoint = [], MovStartHeight = 0, MovRewardPrograms = []\<rparr>"

definition SoloNetParams :: params where
  "SoloNetParams =
     \<lparr>MaxBlockGas = 10000000, MaxGasAmount = 200000, DefaultGasCredit = 160000, VMGasRate = 200,
      StorageGasRate = 1, VotePendingBlockNumber = 10000, CoinbasePendingBlockNumber = 1200,
      CoinbaseArbitrarySizeLimit = 128,
      NumOfConsensusNode = 10, BlockNumEachNode = 12, RoundVoteBlockNums = 1200,
      MinConsensusNodeVoteNum = 100000000000000, MinVoteOutputAmount = 100000000,
      BlockTimeInterval = 500, MaxTimeOffsetMs = 2000,
      net_Name = ''solo'', Bech32HRPSegwit = ''sp'', DefaultPort = ''56658'', DNSSeeds = [], Checkpoints = [],
      ProducerSubsidys =
        [\<lparr>ps_BeginBlock = 0, ps_EndBlock = 0, ps_Subsidy = 24\<rparr>,
         \<lparr>ps_BeginBlock = 1, ps_EndBlock = 840000, ps_Subsidy = 24\<rparr>,
         \<lparr>ps_BeginBlock = 840001, ps_EndBlock = 1680000, ps_Subsidy = 12\<rparr>,
         \<lparr>ps_BeginBlock = 1680001, ps_EndBlock = 3360000, ps_Subsidy = 6\<rparr>],
      SoftForkPoint = [], MovStartHeight = 0, MovRewardPrograms = []\<rparr>"

definition NetParams :: "(string \<times> params) list" where
  "NetParams = [(''mainnet'', MainNetParams), (''testnet'', TestNetParams), (''solonet'', SoloNetParams)]"

text \<open>The zero value of \<^verbatim>\<open>Params\<close>; a nil map and a nil slice are empty.\<close>

definition zero_params :: params where
  "zero_params =
     \<lparr>MaxBlockGas = 0, MaxGasAmount = 0, DefaultGasCredit = 0, VMGasRate = 0,
      StorageGasRate = 0, VotePendingBlockNumber = 0, CoinbasePendingBlockNumber = 0,
      CoinbaseArbitrarySizeLimit = 0,
      NumOfConsensusNode = 0, BlockNumEachNode = 0, RoundVoteBlockNums = 0,
      MinConsensusNodeVoteNum = 0, MinVoteOutputAmount = 0,
      BlockTimeInterval = 0, MaxTimeOffsetMs = 0,
      net_Name = [], Bech32HRPSegwit = [], DefaultPort = [], DNSSeeds = [], Checkpoints = [],
      ProducerSubsidys = [], SoftForkPoint = [], MovStartHeight = 0, MovRewardPrograms = []\<rparr>"

text \<open>
  \<^verbatim>\<open>InitActiveNetParams\<close> on the variable \<^verbatim>\<open>ActiveNetParams\<close>: the new value, and whether the chain
  exists.  An unknown chain leaves the zero value in the variable.
\<close>

definition InitActiveNetParams :: "string \<Rightarrow> params \<Rightarrow> params \<times> bool" where
  "InitActiveNetParams chainID active =
     (case map_of NetParams chainID of
        None \<Rightarrow> (zero_params, False)
      | Some P \<Rightarrow> (P, True))"

definition BytomMainNetParams :: "params \<Rightarrow> params" where
  "BytomMainNetParams vaporParam =
     zero_params\<lparr>Bech32HRPSegwit :=
       (if net_Name vaporParam = ''main'' then ''bn''
        else if net_Name vaporParam = ''test'' then ''tn''
        else ''sn'')\<rparr>"

section \<open>Block subsidy\<close>

primrec subsidy_in :: "producer_subsidy list \<Rightarrow> nat \<Rightarrow> nat" where
  "subsidy_in [] height = 0"
| "subsidy_in (s # ss) height =
     (if height \<ge> ps_BeginBlock s \<and> height \<le> ps_EndBlock s then ps_Subsidy s
      else subsidy_in ss height)"

definition BlockSubsidy :: "params \<Rightarrow> nat \<Rightarrow> nat" where
  "BlockSubsidy P height = subsidy_in (ProducerSubsidys P) height"

definition softForkHeight :: "params \<Rightarrow> nat \<Rightarrow> nat" where
  "softForkHeight P fork = (case map_of (SoftForkPoint P) fork of None \<Rightarrow> 0 | Some h \<Rightarrow> h)"

text \<open>What the code relies on of a network's parameters.\<close>

definition params_ok :: "params \<Rightarrow> bool" where
  "params_ok P \<longleftrightarrow>
     0 \<le> DefaultGasCredit P \<and> DefaultGasCredit P \<le> MaxGasAmount P \<and> MaxGasAmount P \<le> 1000000000 \<and>
     0 < VMGasRate P \<and> VMGasRate P \<le> MaxInt64 \<and> 0 \<le> StorageGasRate P \<and> StorageGasRate P \<le> MaxInt64 \<and>
     1 < RoundVoteBlockNums P \<and> 0 < BlockNumEachNode P \<and> 0 < BlockTimeInterval P \<and>
     0 < NumOfConsensusNode P"

lemma params_ok_nets: "params_ok MainNetParams" "params_ok TestNetParams" "params_ok SoloNetParams"
  by (simp_all add: params_ok_def MainNetParams_def TestNetParams_def SoloNetParams_def)

end
