(* ===== verification/Utxo_View.thy ===== *)
theory Utxo_View
  imports Params
begin

text \<open>
  The view of unspent outputs (\<^verbatim>\<open>protocol/state/utxo_view.go\<close>, \<^verbatim>\<open>database/storage/utxo_entry.go\<close>).
  A view is a map from output identifiers to entries; the Go code changes it in place, also
  before it returns an error, so the operations are computations on the view.

  The map holds pointers in Go.  No two identifiers share one and none is nil: the store allocates
  an entry per identifier when it fills a view, and \<^verbatim>\<open>NewUtxoEntry\<close> allocates every later one.
  The block is not nil: \<^verbatim>\<open>applyOutputUtxo\<close> reads its height after testing it.
\<close>

section \<open>Entries (utxo_entry.go)\<close>

datatype utxo_type = NormalUTXOType | CoinbaseUTXOType | CrosschainUTXOType | VoteUTXOType

record utxo_entry =
  ue_Type :: utxo_type
  ue_BlockHeight :: nat
  ue_Spent :: bool

definition NewUtxoEntry :: "utxo_type \<Rightarrow> nat \<Rightarrow> bool \<Rightarrow> utxo_entry" where
  "NewUtxoEntry utxoType blockHeight spent =
     \<lparr>ue_Type = utxoType, ue_BlockHeight = blockHeight, ue_Spent = spent\<rparr>"

definition SpendOutput :: "utxo_entry \<Rightarrow> utxo_entry" where
  "SpendOutput e = e\<lparr>ue_Spent := True\<rparr>"

definition UnspendOutput :: "utxo_entry \<Rightarrow> utxo_entry" where
  "UnspendOutput e = e\<lparr>ue_Spent := False\<rparr>"

section \<open>The view\<close>

type_synonym utxo_view = "hash \<rightharpoonup> utxo_entry"

datatype utxo_error =
    UtxoEntryErr bc_error
  | MainchainNotFound
  | MainchainSpent
  | MainchainUnspent
  | UtxoNotFound
  | UtxoSpent
  | CoinbaseNotReady
  | VoteLocked
  | RevertUnspent
  | StatusOutOfRange
  | UtxoPanic

type_synonym 'a view_op = "(utxo_view, utxo_error, 'a) comp"

definition CanSpend :: "utxo_view \<Rightarrow> hash \<Rightarrow> bool" where
  "CanSpend view h = (case view h of None \<Rightarrow> False | Some e \<Rightarrow> \<not> ue_Spent e)"

definition HasUtxo :: "utxo_view \<Rightarrow> hash \<Rightarrow> bool" where
  "HasUtxo view h = (view h \<noteq> None)"

text \<open>The reads \<^verbatim>\<open>*Source.Value.AssetId\<close> and \<^verbatim>\<open>Source.Value.Amount\<close>; a nil pointer makes Go panic.\<close>

definition source_asset :: "value_source \<Rightarrow> asset_id option" where
  "source_asset src = (case vl_Value src of None \<Rightarrow> None | Some v \<Rightarrow> aa_AssetId v)"

definition source_amount :: "value_source \<Rightarrow> nat option" where
  "source_amount src = (case vl_Value src of None \<Rightarrow> None | Some v \<Rightarrow> Some (aa_Amount v))"

definition liftEntry :: "bc_error + 'a \<Rightarrow> 'a view_op" where
  "liftEntry r = (case r of Inl e \<Rightarrow> throwE (UtxoEntryErr e) | Inr x \<Rightarrow> returnE x)"

definition deref :: "'a option \<Rightarrow> 'a view_op" where
  "deref x = (case x of None \<Rightarrow> throwE UtxoPanic | Some y \<Rightarrow> returnE y)"

definition set_entry :: "hash \<Rightarrow> utxo_entry \<Rightarrow> unit view_op" where
  "set_entry h e = modifyE (\<lambda>view. view(h \<mapsto> e))"

section \<open>Applying a transaction\<close>

definition applyCrossChainUtxo_step :: "block \<Rightarrow> hash \<Rightarrow> unit view_op" where
  "applyCrossChainUtxo_step blk prevout =
      bindE (getsE (\<lambda>view. view prevout)) (\<lambda>entry.
       case entry of
         None \<Rightarrow> throwE MainchainNotFound
       | Some e \<Rightarrow>
           if ue_Spent e then throwE MainchainSpent
           else set_entry prevout (SpendOutput (e\<lparr>ue_BlockHeight := blk_Height blk\<rparr>)))"

definition applyCrossChainUtxo :: "block \<Rightarrow> tx \<Rightarrow> unit view_op" where
  "applyCrossChainUtxo blk t = forE (applyCrossChainUtxo_step blk) (tx_MainchainOutputIDs t)"

text \<open>The asset and entry type of an output that a transaction spends.\<close>

definition spent_kind :: "entry \<Rightarrow> (asset_id \<times> utxo_type) view_op" where
  "spent_kind e =
     (case e of
        IntraChainOutput o' \<Rightarrow>
          bindE (deref (source_asset (out_Source o'))) (\<lambda>a. returnE (a, NormalUTXOType))
      | VoteOutput v \<Rightarrow>
          bindE (deref (source_asset (out_Source (vote_Output v)))) (\<lambda>a. returnE (a, VoteUTXOType))
      | _ \<Rightarrow> throwE (UtxoEntryErr ErrEntryType))"

text \<open>The asset and type of a new output, or \<open>None\<close> when the view does not record it.\<close>

definition result_kind :: "entry \<Rightarrow> (asset_id \<times> utxo_type) option view_op" where
  "result_kind e =
     (case e of
        IntraChainOutput o' \<Rightarrow>
          bindE (deref (source_amount (out_Source o'))) (\<lambda>amount.
            if amount = 0 then returnE None
            else bindE (deref (source_asset (out_Source o'))) (\<lambda>a.
              returnE (Some (a, NormalUTXOType))))
      | VoteOutput v \<Rightarrow>
          bindE (deref (source_asset (out_Source (vote_Output v)))) (\<lambda>a.
            returnE (Some (a, VoteUTXOType)))
      | _ \<Rightarrow> returnE None)"

definition applySpendUtxo_step :: "params \<Rightarrow> block \<Rightarrow> tx \<Rightarrow> bool \<Rightarrow> hash \<Rightarrow> unit view_op" where
  "applySpendUtxo_step P blk t statusFail prevout =
      bindE (liftEntry (Entry t prevout)) (\<lambda>entryOutput.
       bindE (spent_kind entryOutput) (\<lambda>(assetID, _).
       if statusFail \<and> assetID \<noteq> BTMAssetID then returnE ()
       else bindE (getsE (\<lambda>view. view prevout)) (\<lambda>entry.
         case entry of
           None \<Rightarrow> throwE UtxoNotFound
         | Some e \<Rightarrow>
             if ue_Spent e then throwE UtxoSpent
             else if ue_Type e = CoinbaseUTXOType \<and>
                     u64 (ue_BlockHeight e + CoinbasePendingBlockNumber P) > blk_Height blk
             then throwE CoinbaseNotReady
             else if ue_Type e = VoteUTXOType \<and>
                     u64 (ue_BlockHeight e + VotePendingBlockNumber P) > blk_Height blk
             then throwE VoteLocked
             else set_entry prevout (SpendOutput e))))"

definition applySpendUtxo :: "params \<Rightarrow> block \<Rightarrow> tx \<Rightarrow> bool \<Rightarrow> unit view_op" where
  "applySpendUtxo P blk t statusFail = forE (applySpendUtxo_step P blk t statusFail) (tx_SpentOutputIDs t)"

definition applyOutputUtxo_step :: "block \<Rightarrow> tx \<Rightarrow> bool \<Rightarrow> hash \<Rightarrow> unit view_op" where
  "applyOutputUtxo_step blk t statusFail i =
      bindE (liftEntry (Entry t i)) (\<lambda>entryOutput.
       bindE (result_kind entryOutput) (\<lambda>kind.
       case kind of
         None \<Rightarrow> returnE ()
       | Some (assetID, utxoType) \<Rightarrow>
           if statusFail \<and> assetID \<noteq> BTMAssetID then returnE ()
           else
             let utxoType' =
               (if blk_Transactions blk \<noteq> [] \<and> tx_ID (hd (blk_Transactions blk)) = tx_ID t
                then CoinbaseUTXOType else utxoType)
             in set_entry i (NewUtxoEntry utxoType' (blk_Height blk) False)))"

definition applyOutputUtxo :: "block \<Rightarrow> tx \<Rightarrow> bool \<Rightarrow> unit view_op" where
  "applyOutputUtxo blk t statusFail = forE (applyOutputUtxo_step blk t statusFail) (th_ResultIds (tx_Header t))"

definition ApplyTransaction :: "params \<Rightarrow> block \<Rightarrow> tx \<Rightarrow> bool \<Rightarrow> unit view_op" where
  "ApplyTransaction P blk t statusFail =
     thenE (applyCrossChainUtxo blk t)
       (thenE (applySpendUtxo P blk t statusFail) (applyOutputUtxo blk t statusFail))"

section \<open>Detaching a transaction\<close>

definition detachCrossChainUtxo_step :: "hash \<Rightarrow> unit view_op" where
  "detachCrossChainUtxo_step prevout =
      bindE (getsE (\<lambda>view. view prevout)) (\<lambda>entry.
       case entry of
         None \<Rightarrow> throwE MainchainNotFound
       | Some e \<Rightarrow>
           if \<not> ue_Spent e then throwE MainchainUnspent
           else set_entry prevout (UnspendOutput e))"

definition detachCrossChainUtxo :: "tx \<Rightarrow> unit view_op" where
  "detachCrossChainUtxo t = forE detachCrossChainUtxo_step (tx_MainchainOutputIDs t)"

definition detachSpendUtxo_step :: "tx \<Rightarrow> bool \<Rightarrow> hash \<Rightarrow> unit view_op" where
  "detachSpendUtxo_step t statusFail prevout =
      bindE (liftEntry (Entry t prevout)) (\<lambda>entryOutput.
       bindE (spent_kind entryOutput) (\<lambda>(assetID, utxoType).
       if statusFail \<and> assetID \<noteq> BTMAssetID then returnE ()
       else bindE (getsE (\<lambda>view. view prevout)) (\<lambda>entry.
         case entry of
           None \<Rightarrow> set_entry prevout (NewUtxoEntry utxoType 0 False)
         | Some e \<Rightarrow>
             if \<not> ue_Spent e then throwE RevertUnspent
             else set_entry prevout (UnspendOutput e))))"

definition detachSpendUtxo :: "tx \<Rightarrow> bool \<Rightarrow> unit view_op" where
  "detachSpendUtxo t statusFail = forE (detachSpendUtxo_step t statusFail) (tx_SpentOutputIDs t)"

definition detachOutputUtxo_step :: "tx \<Rightarrow> bool \<Rightarrow> hash \<Rightarrow> unit view_op" where
  "detachOutputUtxo_step t statusFail i =
      bindE (liftEntry (Entry t i)) (\<lambda>entryOutput.
       bindE (result_kind entryOutput) (\<lambda>kind.
       case kind of
         None \<Rightarrow> returnE ()
       | Some (assetID, utxoType) \<Rightarrow>
           if statusFail \<and> assetID \<noteq> BTMAssetID then returnE ()
           else set_entry i (NewUtxoEntry utxoType 0 True)))"

definition detachOutputUtxo :: "tx \<Rightarrow> bool \<Rightarrow> unit view_op" where
  "detachOutputUtxo t statusFail = forE (detachOutputUtxo_step t statusFail) (th_ResultIds (tx_Header t))"

definition DetachTransaction :: "tx \<Rightarrow> bool \<Rightarrow> unit view_op" where
  "DetachTransaction t statusFail =
     thenE (detachCrossChainUtxo t)
       (thenE (detachSpendUtxo t statusFail) (detachOutputUtxo t statusFail))"

section \<open>Blocks\<close>

definition getStatusE :: "tx_status \<Rightarrow> nat \<Rightarrow> bool view_op" where
  "getStatusE ts i = (case GetStatus ts i of None \<Rightarrow> throwE StatusOutOfRange | Some b \<Rightarrow> returnE b)"

definition ApplyBlock :: "params \<Rightarrow> block \<Rightarrow> tx_status \<Rightarrow> unit view_op" where
  "ApplyBlock P blk txStatus =
     forE (\<lambda>i. bindE (getStatusE txStatus i) (\<lambda>statusFail.
            ApplyTransaction P blk (blk_Transactions blk ! i) statusFail))
       [0..<length (blk_Transactions blk)]"

definition DetachBlock :: "block \<Rightarrow> tx_status \<Rightarrow> unit view_op" where
  "DetachBlock blk txStatus =
     forE (\<lambda>i. bindE (getStatusE txStatus i) (\<lambda>statusFail.
            DetachTransaction (blk_Transactions blk ! i) statusFail))
       (rev [0..<length (blk_Transactions blk)])"

end
