(* ===== verification/Utxo_Wf.thy ===== *)
theory Utxo_Wf
  imports Utxo_View
begin

text \<open>
  Correctness of the view of unspent outputs.  The abstract state is the set of spendable outputs;
  a transaction takes the outputs it consumes out of the set and adds the ones it creates.
  Detaching a block gives back the set from before it.
\<close>

section \<open>The abstract state\<close>

definition spendable :: "utxo_view \<Rightarrow> hash set" where
  "spendable view = {h. CanSpend view h}"

definition skipped :: "bool \<Rightarrow> asset_id \<Rightarrow> bool" where
  "skipped statusFail a = (statusFail \<and> a \<noteq> BTMAssetID)"

text \<open>What the loops learn of an identifier from the transaction alone: an error, nothing to do, or a type.\<close>

definition spend_res :: "tx \<Rightarrow> bool \<Rightarrow> hash \<Rightarrow> utxo_error + utxo_type option" where
  "spend_res t f i =
     (case bindE (liftEntry (Entry t i)) spent_kind Map.empty of
        (Inl e, _) \<Rightarrow> Inl e
      | (Inr (a, ty), _) \<Rightarrow> Inr (if skipped f a then None else Some ty))"

definition result_res :: "tx \<Rightarrow> bool \<Rightarrow> hash \<Rightarrow> utxo_error + utxo_type option" where
  "result_res t f i =
     (case bindE (liftEntry (Entry t i)) result_kind Map.empty of
        (Inl e, _) \<Rightarrow> Inl e
      | (Inr None, _) \<Rightarrow> Inr None
      | (Inr (Some (a, ty)), _) \<Rightarrow> Inr (if skipped f a then None else Some ty))"

definition relevant :: "('e + 'a option) \<Rightarrow> bool" where
  "relevant r = (case r of Inr (Some _) \<Rightarrow> True | _ \<Rightarrow> False)"

definition spends :: "tx \<Rightarrow> bool \<Rightarrow> hash list" where
  "spends t f = filter (\<lambda>i. relevant (spend_res t f i)) (tx_SpentOutputIDs t)"

definition consumed :: "tx \<Rightarrow> bool \<Rightarrow> hash list" where
  "consumed t f = tx_MainchainOutputIDs t @ spends t f"

definition created :: "tx \<Rightarrow> bool \<Rightarrow> hash list" where
  "created t f = filter (\<lambda>i. relevant (result_res t f i)) (th_ResultIds (tx_Header t))"

lemma CanSpend_iff: "CanSpend v i \<longleftrightarrow> (\<exists>e. v i = Some e \<and> \<not> ue_Spent e)"
  by (simp add: CanSpend_def split: option.splits)

section \<open>Loops that consume outputs\<close>

locale consuming =
  fixes body :: "hash \<Rightarrow> unit view_op"
    and fails :: "hash \<Rightarrow> bool"
    and takes :: "hash \<Rightarrow> bool"
    and ready :: "utxo_entry \<Rightarrow> bool"
    and upd :: "utxo_entry \<Rightarrow> utxo_entry"
  assumes step_takes:
      "takes i \<Longrightarrow> body i v = (Inr (), v') \<Longrightarrow>
       \<exists>e. v i = Some e \<and> \<not> ue_Spent e \<and> ready e \<and> v' = v(i \<mapsto> upd e)"
    and step_skips: "\<not> takes i \<Longrightarrow> body i v = (Inr (), v') \<Longrightarrow> v' = v"
    and step_runs:
      "takes i \<Longrightarrow> v i = Some e \<Longrightarrow> \<not> ue_Spent e \<Longrightarrow> ready e \<Longrightarrow> body i v = (Inr (), v(i \<mapsto> upd e))"
    and step_idles: "\<not> takes i \<Longrightarrow> \<not> fails i \<Longrightarrow> body i v = (Inr (), v)"
    and upd_spent: "ue_Spent (upd e)"
begin

lemma loop_runs:
  assumes "\<forall>i \<in> set is. \<not> fails i" "distinct (filter takes is)"
    and "\<forall>i \<in> set (filter takes is). \<exists>e. v i = Some e \<and> \<not> ue_Spent e \<and> ready e"
  shows "\<exists>v'. forE body is v = (Inr (), v')"
  using assms
proof (induction "is" arbitrary: v)
  case (Cons i "is")
  show ?case
  proof (cases "takes i")
    case False
    then have "body i v = (Inr (), v)" using Cons.prems(1) by (simp add: step_idles)
    with False Cons.IH [of v] Cons.prems show ?thesis by (simp add: thenE_apply)
  next
    case True
    then obtain e where e: "body i v = (Inr (), v(i \<mapsto> upd e))"
      using Cons.prems(3) step_runs by fastforce
    have "\<exists>v'. forE body is (v(i \<mapsto> upd e)) = (Inr (), v')"
      using Cons.prems True by (intro Cons.IH) auto
    with e show ?thesis by (simp add: thenE_apply)
  qed
qed (simp add: returnE_def)

lemma loop_consumes:
  assumes "forE body is v = (Inr (), v')"
  shows "distinct (filter takes is)"
    and "\<forall>i \<in> set (filter takes is). \<exists>e. v i = Some e \<and> \<not> ue_Spent e \<and> ready e"
    and "v' = (\<lambda>j. if j \<in> set (filter takes is) then map_option upd (v j) else v j)"
proof -
  have "distinct (filter takes is) \<and>
    (\<forall>i \<in> set (filter takes is). \<exists>e. v i = Some e \<and> \<not> ue_Spent e \<and> ready e) \<and>
    v' = (\<lambda>j. if j \<in> set (filter takes is) then map_option upd (v j) else v j)"
    using assms
  proof (induction "is" arbitrary: v)
    case Nil
    then show ?case by (simp add: returnE_def)
  next
    case (Cons i "is")
    then obtain w where w: "body i v = (Inr (), w)" and rest: "forE body is w = (Inr (), v')"
      by (auto simp: thenE_Inr_iff)
    note IH = Cons.IH [OF rest]
    show ?case
    proof (cases "takes i")
      case False
      with step_skips [OF False w] IH show ?thesis by auto
    next
      case True
      then obtain e where e: "v i = Some e" "\<not> ue_Spent e" "ready e" "w = v(i \<mapsto> upd e)"
        using step_takes [OF True w] by blast
      have "i \<notin> set (filter takes is)" using IH e(4) upd_spent [of e] by fastforce
      with IH e True show ?thesis by (auto simp: fun_eq_iff split: if_splits)
    qed
  qed
  then show "distinct (filter takes is)"
    and "\<forall>i \<in> set (filter takes is). \<exists>e. v i = Some e \<and> \<not> ue_Spent e \<and> ready e"
    and "v' = (\<lambda>j. if j \<in> set (filter takes is) then map_option upd (v j) else v j)"
    by blast+
qed

lemma loop_spendable:
  assumes "forE body is v = (Inr (), v')"
  shows "spendable v' = spendable v - set (filter takes is)"
    and "set (filter takes is) \<subseteq> spendable v" and "dom v' = dom v"
proof -
  note L = loop_consumes [OF assms]
  show "spendable v' = spendable v - set (filter takes is)"
    by (subst L(3)) (auto simp: spendable_def CanSpend_iff upd_spent)
  show "set (filter takes is) \<subseteq> spendable v"
    using L(2) by (auto simp: spendable_def CanSpend_iff)
  show "dom v' = dom v" by (subst L(3)) (auto simp: dom_def)
qed

end

section \<open>Loops that give outputs back\<close>

locale restoring =
  fixes body :: "hash \<Rightarrow> unit view_op"
    and fails :: "hash \<Rightarrow> bool"
    and takes :: "hash \<Rightarrow> bool"
    and needs :: bool
  assumes step_restores:
      "takes i \<Longrightarrow> \<not> CanSpend v i \<Longrightarrow> (needs \<Longrightarrow> i \<in> dom v) \<Longrightarrow>
       \<exists>e. \<not> ue_Spent e \<and> body i v = (Inr (), v(i \<mapsto> e))"
    and step_passes: "\<not> takes i \<Longrightarrow> \<not> fails i \<Longrightarrow> body i v = (Inr (), v)"
begin

lemma loop_restores:
  assumes "\<forall>i \<in> set is. \<not> fails i" "distinct (filter takes is)"
    and "set (filter takes is) \<inter> spendable v = {}"
    and "needs \<Longrightarrow> set (filter takes is) \<subseteq> dom v"
  shows "\<exists>v'. forE body is v = (Inr (), v') \<and>
    spendable v' = spendable v \<union> set (filter takes is) \<and> dom v \<subseteq> dom v'"
  using assms
proof (induction "is" arbitrary: v)
  case Nil
  then show ?case by (simp add: returnE_def)
next
  case (Cons i "is")
  show ?case
  proof (cases "takes i")
    case False
    then have "body i v = (Inr (), v)" using Cons.prems(1) by (simp add: step_passes)
    with False Cons.IH [of v] Cons.prems show ?thesis by (simp add: thenE_apply)
  next
    case True
    have need: "needs \<Longrightarrow> i \<in> dom v" using Cons.prems(4) True by simp
    have "\<not> CanSpend v i" using Cons.prems(3) True by (auto simp: spendable_def)
    then obtain e where e: "\<not> ue_Spent e" "body i v = (Inr (), v(i \<mapsto> e))"
      using step_restores [OF True, of v] need by blast
    define w where "w = v(i \<mapsto> e)"
    have w: "spendable w = insert i (spendable v)" "dom w = insert i (dom v)"
      using e(1) by (auto simp: w_def spendable_def CanSpend_iff)
    have "\<exists>v'. forE body is w = (Inr (), v') \<and>
        spendable v' = spendable w \<union> set (filter takes is) \<and> dom w \<subseteq> dom v'"
      using Cons.prems True by (intro Cons.IH) (auto simp: w)
    with e(2) w True show ?thesis by (auto simp: thenE_apply w_def [symmetric])
  qed
qed

end

section \<open>Loops that record outputs\<close>

locale recording =
  fixes body :: "hash \<Rightarrow> unit view_op"
    and res :: "hash \<Rightarrow> utxo_error + utxo_type option"
    and ent :: "utxo_type \<Rightarrow> utxo_entry"
    and spent :: bool
  assumes step_records:
      "body i v =
        (case res i of
           Inl e \<Rightarrow> (Inl e, v)
         | Inr None \<Rightarrow> (Inr (), v)
         | Inr (Some ty) \<Rightarrow> (Inr (), v(i \<mapsto> ent ty)))"
    and ent_spent: "ue_Spent (ent ty) = spent"
begin

lemma loop_resolved: "fst (forE body is v) = Inr () \<longleftrightarrow> (\<forall>i \<in> set is. \<not> isl (res i))"
proof (induction "is" arbitrary: v)
  case (Cons i "is")
  then show ?case
    by (auto simp: thenE_apply step_records split: sum.splits option.splits)
qed (simp add: returnE_def)

lemma loop_records:
  assumes "forE body is v = (Inr (), v')"
  shows "spendable v' =
      (if spent then spendable v - set (filter (\<lambda>i. relevant (res i)) is)
       else spendable v \<union> set (filter (\<lambda>i. relevant (res i)) is)) \<and> dom v \<subseteq> dom v'"
  using assms
proof (induction "is" arbitrary: v)
  case Nil
  then show ?case by (simp add: returnE_def)
next
  case (Cons i "is")
  then obtain w where w: "body i v = (Inr (), w)" and rest: "forE body is w = (Inr (), v')"
    by (auto simp: thenE_Inr_iff)
  note IH = Cons.IH [OF rest]
  show ?case
  proof (cases "relevant (res i)")
    case False
    then have "w = v" using w by (auto simp: step_records relevant_def split: sum.splits option.splits)
    with IH False show ?thesis by simp
  next
    case True
    then obtain ty where "w = v(i \<mapsto> ent ty)"
      using w by (auto simp: step_records relevant_def split: sum.splits option.splits)
    then have "spendable w = (if spent then spendable v - {i} else insert i (spendable v))"
      and "dom v \<subseteq> dom w"
      using ent_spent [of ty] by (auto simp: spendable_def CanSpend_iff)
    moreover from this(2) IH have "dom v \<subseteq> dom v'" by blast
    ultimately show ?thesis using IH True by auto
  qed
qed

end

section \<open>The bodies of the loops\<close>

lemmas view_op_simps =
  comp_simps liftEntry_def deref_def set_entry_def getsE_def modifyE_def returnE_def throwE_def

lemma spent_kind_state: "snd (spent_kind e v) = v" "fst (spent_kind e v) = fst (spent_kind e w)"
  by (auto simp: spent_kind_def view_op_simps split: entry.splits option.splits)

lemma result_kind_state: "snd (result_kind e v) = v" "fst (result_kind e v) = fst (result_kind e w)"
  by (auto simp: result_kind_def view_op_simps split: entry.splits option.splits)

lemma resolve_spend:
  "bindE (liftEntry (Entry t i)) (\<lambda>e. bindE (spent_kind e) k) v =
     (case fst (bindE (liftEntry (Entry t i)) spent_kind Map.empty) of
        Inl e \<Rightarrow> (Inl e, v)
      | Inr x \<Rightarrow> k x v)"
proof (cases "Entry t i")
  case (Inr e)
  then show ?thesis
    using spent_kind_state(1) [of e v] spent_kind_state(2) [of e v Map.empty]
    by (cases "spent_kind e v") (simp add: view_op_simps split: sum.splits prod.splits)
qed (simp add: view_op_simps)

lemma resolve_result:
  "bindE (liftEntry (Entry t i)) (\<lambda>e. bindE (result_kind e) k) v =
     (case fst (bindE (liftEntry (Entry t i)) result_kind Map.empty) of
        Inl e \<Rightarrow> (Inl e, v)
      | Inr x \<Rightarrow> k x v)"
proof (cases "Entry t i")
  case (Inr e)
  then show ?thesis
    using result_kind_state(1) [of e v] result_kind_state(2) [of e v Map.empty]
    by (cases "result_kind e v") (simp add: view_op_simps split: sum.splits prod.splits)
qed (simp add: view_op_simps)

text \<open>The bodies, named as the loops have them.\<close>

definition lock_ok :: "params \<Rightarrow> nat \<Rightarrow> utxo_entry \<Rightarrow> bool" where
  "lock_ok P height e \<longleftrightarrow>
     (ue_Type e = CoinbaseUTXOType \<longrightarrow> u64 (ue_BlockHeight e + CoinbasePendingBlockNumber P) \<le> height) \<and>
     (ue_Type e = VoteUTXOType \<longrightarrow> u64 (ue_BlockHeight e + VotePendingBlockNumber P) \<le> height)"

lemma applySpendUtxo_step_eq:
  "applySpendUtxo_step P blk t f i v =
     (case spend_res t f i of
        Inl e \<Rightarrow> (Inl e, v)
      | Inr None \<Rightarrow> (Inr (), v)
      | Inr (Some ty) \<Rightarrow>
          (case v i of
             None \<Rightarrow> (Inl UtxoNotFound, v)
           | Some e \<Rightarrow>
               if ue_Spent e then (Inl UtxoSpent, v)
               else if lock_ok P (blk_Height blk) e then (Inr (), v(i \<mapsto> SpendOutput e))
               else (Inl (if ue_Type e = CoinbaseUTXOType then CoinbaseNotReady else VoteLocked), v)))"
  unfolding applySpendUtxo_step_def resolve_spend spend_res_def
  by (cases "bindE (liftEntry (Entry t i)) spent_kind Map.empty")
    (auto simp: view_op_simps skipped_def lock_ok_def split: sum.splits option.splits)

lemma detachSpendUtxo_step_eq:
  "detachSpendUtxo_step t f i v =
     (case spend_res t f i of
        Inl e \<Rightarrow> (Inl e, v)
      | Inr None \<Rightarrow> (Inr (), v)
      | Inr (Some ty) \<Rightarrow>
          (case v i of
             None \<Rightarrow> (Inr (), v(i \<mapsto> NewUtxoEntry ty 0 False))
           | Some e \<Rightarrow>
               if \<not> ue_Spent e then (Inl RevertUnspent, v) else (Inr (), v(i \<mapsto> UnspendOutput e))))"
  unfolding detachSpendUtxo_step_def resolve_spend spend_res_def
  by (cases "bindE (liftEntry (Entry t i)) spent_kind Map.empty")
    (auto simp: view_op_simps skipped_def split: sum.splits option.splits)

text \<open>The type of a new entry: the first transaction of the block makes coinbase outputs.\<close>

definition coinbase_type :: "block \<Rightarrow> tx \<Rightarrow> utxo_type \<Rightarrow> utxo_type" where
  "coinbase_type blk t ty =
     (if blk_Transactions blk \<noteq> [] \<and> tx_ID (hd (blk_Transactions blk)) = tx_ID t
      then CoinbaseUTXOType else ty)"

section \<open>The loops of the code\<close>

interpretation cross: consuming "applyCrossChainUtxo_step blk" "\<lambda>_. False" "\<lambda>_. True" "\<lambda>_. True"
    "\<lambda>e. SpendOutput (e\<lparr>ue_BlockHeight := blk_Height blk\<rparr>)" for blk
  by unfold_locales
    (auto simp: applyCrossChainUtxo_step_def SpendOutput_def view_op_simps split: option.splits if_splits)

interpretation spend: consuming "applySpendUtxo_step P blk t f" "\<lambda>i. isl (spend_res t f i)"
    "\<lambda>i. relevant (spend_res t f i)" "lock_ok P (blk_Height blk)" SpendOutput for P blk t f
  by unfold_locales
    (auto simp: applySpendUtxo_step_eq SpendOutput_def relevant_def
      split: sum.splits option.splits if_splits)

interpretation uncross: restoring detachCrossChainUtxo_step "\<lambda>_. False" "\<lambda>_. True" True
proof unfold_locales
  fix i :: hash and v :: utxo_view
  assume "\<not> CanSpend v i" and "True \<Longrightarrow> i \<in> dom v"
  then obtain e where "v i = Some e" "ue_Spent e" by (auto simp: CanSpend_iff)
  then show "\<exists>e. \<not> ue_Spent e \<and> detachCrossChainUtxo_step i v = (Inr (), v(i \<mapsto> e))"
    by (intro exI [of _ "UnspendOutput e"])
      (simp add: detachCrossChainUtxo_step_def UnspendOutput_def view_op_simps)
qed simp

interpretation unspend: restoring "detachSpendUtxo_step t f" "\<lambda>i. isl (spend_res t f i)"
    "\<lambda>i. relevant (spend_res t f i)" False for t f
proof unfold_locales
  fix i :: hash and v :: utxo_view
  assume "relevant (spend_res t f i)" and no: "\<not> CanSpend v i"
  then obtain ty where ty: "spend_res t f i = Inr (Some ty)"
    by (auto simp: relevant_def split: sum.splits option.splits)
  define e where
    "e = (case v i of None \<Rightarrow> NewUtxoEntry ty 0 False | Some e \<Rightarrow> UnspendOutput e)"
  have "\<not> ue_Spent e" "detachSpendUtxo_step t f i v = (Inr (), v(i \<mapsto> e))"
    using no ty by (auto simp: e_def detachSpendUtxo_step_eq CanSpend_iff UnspendOutput_def
        NewUtxoEntry_def split: option.splits)
  then show "\<exists>e. \<not> ue_Spent e \<and> detachSpendUtxo_step t f i v = (Inr (), v(i \<mapsto> e))" by blast
qed (auto simp: detachSpendUtxo_step_eq relevant_def split: sum.splits option.splits)

interpretation record_out: recording "applyOutputUtxo_step blk t f" "result_res t f"
    "\<lambda>ty. NewUtxoEntry (coinbase_type blk t ty) (blk_Height blk) False" False for blk t f
proof unfold_locales
  fix i v
  show "applyOutputUtxo_step blk t f i v =
    (case result_res t f i of
       Inl e \<Rightarrow> (Inl e, v)
     | Inr None \<Rightarrow> (Inr (), v)
     | Inr (Some ty) \<Rightarrow> (Inr (), v(i \<mapsto> NewUtxoEntry (coinbase_type blk t ty) (blk_Height blk) False)))"
    unfolding applyOutputUtxo_step_def resolve_result result_res_def
    by (cases "bindE (liftEntry (Entry t i)) result_kind Map.empty")
      (auto simp: view_op_simps skipped_def coinbase_type_def Let_def split: sum.splits option.splits)
qed (simp add: NewUtxoEntry_def)

interpretation unrecord_out: recording "detachOutputUtxo_step t f" "result_res t f"
    "\<lambda>ty. NewUtxoEntry ty 0 True" True for t f
proof unfold_locales
  fix i v
  show "detachOutputUtxo_step t f i v =
    (case result_res t f i of
       Inl e \<Rightarrow> (Inl e, v)
     | Inr None \<Rightarrow> (Inr (), v)
     | Inr (Some ty) \<Rightarrow> (Inr (), v(i \<mapsto> NewUtxoEntry ty 0 True)))"
    unfolding detachOutputUtxo_step_def resolve_result result_res_def
    by (cases "bindE (liftEntry (Entry t i)) result_kind Map.empty")
      (auto simp: view_op_simps skipped_def split: sum.splits option.splits)
qed (simp add: NewUtxoEntry_def)

section \<open>One transaction\<close>

text \<open>What a transaction must offer, whatever the view: its entries resolve.\<close>

definition resolves :: "tx \<Rightarrow> bool \<Rightarrow> bool" where
  "resolves t f \<longleftrightarrow>
     (\<forall>i \<in> set (tx_SpentOutputIDs t). \<not> isl (spend_res t f i)) \<and>
     (\<forall>i \<in> set (th_ResultIds (tx_Header t)). \<not> isl (result_res t f i))"

lemma spend_loop_resolved:
  "forE (applySpendUtxo_step P blk t f) is v = (Inr (), v') \<Longrightarrow> \<forall>i \<in> set is. \<not> isl (spend_res t f i)"
  by (induction "is" arbitrary: v)
    (auto simp: thenE_Inr_iff applySpendUtxo_step_eq split: sum.splits)

lemma apply_tx_effect:
  assumes "ApplyTransaction P blk t f v = (Inr (), v')"
  shows "resolves t f" "distinct (consumed t f)" "set (consumed t f) \<subseteq> spendable v"
    "spendable v' = spendable v - set (consumed t f) \<union> set (created t f)"
    "dom v \<subseteq> dom v'"
    "\<forall>i \<in> set (spends t f). \<exists>e. v i = Some e \<and> lock_ok P (blk_Height blk) e"
proof -
  from assms obtain v1 v2 where
      l1: "forE (applyCrossChainUtxo_step blk) (tx_MainchainOutputIDs t) v = (Inr (), v1)"
    and l2: "forE (applySpendUtxo_step P blk t f) (tx_SpentOutputIDs t) v1 = (Inr (), v2)"
    and l3: "forE (applyOutputUtxo_step blk t f) (th_ResultIds (tx_Header t)) v2 = (Inr (), v')"
    by (auto simp: ApplyTransaction_def applyCrossChainUtxo_def applySpendUtxo_def
        applyOutputUtxo_def thenE_Inr_iff)
  note C = cross.loop_consumes [OF l1] cross.loop_spendable [OF l1]
  note S = spend.loop_consumes [OF l2, folded spends_def] spend.loop_spendable [OF l2, folded spends_def]
  note R = record_out.loop_records [OF l3, folded created_def]
  have apart: "set (spends t f) \<inter> set (tx_MainchainOutputIDs t) = {}"
    using C(4) S(5) by auto
  show "resolves t f"
    using spend_loop_resolved [OF l2] record_out.loop_resolved [of blk t f "th_ResultIds (tx_Header t)" v2] l3
    by (simp add: resolves_def)
  show "distinct (consumed t f)" using C(1) S(1) apart by (auto simp: consumed_def)
  show "set (consumed t f) \<subseteq> spendable v" using C(4,5) S(5) by (auto simp: consumed_def)
  show "spendable v' = spendable v - set (consumed t f) \<union> set (created t f)"
    using C(4) S(4) R by (auto simp: consumed_def)
  show "dom v \<subseteq> dom v'" using C(6) S(6) R by blast
  show "\<forall>i \<in> set (spends t f). \<exists>e. v i = Some e \<and> lock_ok P (blk_Height blk) e"
  proof
    fix i assume i: "i \<in> set (spends t f)"
    then obtain e where e: "v1 i = Some e" "lock_ok P (blk_Height blk) e" using S(2) by blast
    have "v1 i = v i" using i apart by (subst C(3)) auto
    with e show "\<exists>e. v i = Some e \<and> lock_ok P (blk_Height blk) e" by auto
  qed
qed

lemma detach_tx_effect:
  assumes "resolves t f" "distinct (consumed t f)" "set (consumed t f) \<inter> spendable v = {}"
    and "set (tx_MainchainOutputIDs t) \<subseteq> dom v"
  shows "\<exists>v'. DetachTransaction t f v = (Inr (), v') \<and>
    spendable v' = spendable v \<union> set (consumed t f) - set (created t f) \<and> dom v \<subseteq> dom v'"
proof -
  obtain v1 where v1: "forE detachCrossChainUtxo_step (tx_MainchainOutputIDs t) v = (Inr (), v1)"
      "spendable v1 = spendable v \<union> set (tx_MainchainOutputIDs t)" "dom v \<subseteq> dom v1"
    using uncross.loop_restores [of "tx_MainchainOutputIDs t" v] assms by (auto simp: consumed_def)
  have "set (spends t f) \<inter> spendable v1 = {}" using assms v1(2) by (auto simp: consumed_def)
  then obtain v2 where v2: "forE (detachSpendUtxo_step t f) (tx_SpentOutputIDs t) v1 = (Inr (), v2)"
      "spendable v2 = spendable v1 \<union> set (spends t f)" "dom v1 \<subseteq> dom v2"
    using unspend.loop_restores [of "tx_SpentOutputIDs t" t f v1, folded spends_def] assms
    by (auto simp: consumed_def resolves_def)
  have "fst (forE (detachOutputUtxo_step t f) (th_ResultIds (tx_Header t)) v2) = Inr ()"
    using assms(1) by (simp add: unrecord_out.loop_resolved resolves_def)
  then obtain v3 where v3: "forE (detachOutputUtxo_step t f) (th_ResultIds (tx_Header t)) v2 = (Inr (), v3)"
    by (metis prod.collapse)
  note R = unrecord_out.loop_records [OF v3, folded created_def]
  have "DetachTransaction t f v = (Inr (), v3)"
    by (simp add: DetachTransaction_def detachCrossChainUtxo_def detachSpendUtxo_def
        detachOutputUtxo_def thenE_apply v1(1) v2(1) v3)
  moreover have "spendable v3 = spendable v \<union> set (consumed t f) - set (created t f)"
    using R v1(2) v2(2) by (auto simp: consumed_def)
  moreover have "dom v \<subseteq> dom v3" using R v1(3) v2(3) by blast
  ultimately show ?thesis by blast
qed

lemma apply_tx_runs:
  assumes "resolves t f" "distinct (consumed t f)" "set (consumed t f) \<subseteq> spendable v"
    and locks: "\<forall>i \<in> set (spends t f). \<exists>e. v i = Some e \<and> lock_ok P (blk_Height blk) e"
  shows "\<exists>v'. ApplyTransaction P blk t f v = (Inr (), v')"
proof -
  have can: "\<exists>e. v i = Some e \<and> \<not> ue_Spent e" if "i \<in> set (consumed t f)" for i
    using assms(3) that by (auto simp: spendable_def CanSpend_iff)
  have "\<forall>i \<in> set (filter (\<lambda>_. True) (tx_MainchainOutputIDs t)). \<exists>e. v i = Some e \<and> \<not> ue_Spent e \<and> True"
    using can by (auto simp: consumed_def)
  then obtain v1 where
      l1: "forE (applyCrossChainUtxo_step blk) (tx_MainchainOutputIDs t) v = (Inr (), v1)"
    using cross.loop_runs [of "tx_MainchainOutputIDs t" v blk] assms(2) by (auto simp: consumed_def)
  have same: "v1 i = v i" if "i \<in> set (spends t f)" for i
    using that assms(2) by (subst cross.loop_consumes(3) [OF l1]) (auto simp: consumed_def)
  have "\<forall>i \<in> set (spends t f). \<exists>e. v1 i = Some e \<and> \<not> ue_Spent e \<and> lock_ok P (blk_Height blk) e"
    using can locks by (fastforce simp: same consumed_def)
  then obtain v2 where
      l2: "forE (applySpendUtxo_step P blk t f) (tx_SpentOutputIDs t) v1 = (Inr (), v2)"
    using spend.loop_runs [of "tx_SpentOutputIDs t" t f v1 P blk, folded spends_def] assms(1,2)
    by (auto simp: consumed_def resolves_def)
  have "fst (forE (applyOutputUtxo_step blk t f) (th_ResultIds (tx_Header t)) v2) = Inr ()"
    using assms(1) by (simp add: record_out.loop_resolved resolves_def)
  then show ?thesis
    by (cases "forE (applyOutputUtxo_step blk t f) (th_ResultIds (tx_Header t)) v2")
      (simp add: ApplyTransaction_def applyCrossChainUtxo_def applySpendUtxo_def applyOutputUtxo_def
        thenE_apply l1 l2)
qed

section \<open>Blocks\<close>

text \<open>The abstract contract of a transaction and of a block on the set of spendable outputs.\<close>

definition spec_tx :: "tx \<Rightarrow> bool \<Rightarrow> hash set \<Rightarrow> hash set option" where
  "spec_tx t f S =
     (if distinct (consumed t f) \<and> set (consumed t f) \<subseteq> S
      then Some (S - set (consumed t f) \<union> set (created t f)) else None)"

primrec spec_block :: "(tx \<times> bool) list \<Rightarrow> hash set \<Rightarrow> hash set option" where
  "spec_block [] S = Some S"
| "spec_block (x # xs) S =
     (case spec_tx (fst x) (snd x) S of None \<Rightarrow> None | Some S' \<Rightarrow> spec_block xs S')"

definition block_txs :: "block \<Rightarrow> tx_status \<Rightarrow> (tx \<times> bool) list" where
  "block_txs blk ts = zip (blk_Transactions blk) ts"

definition all_created :: "(tx \<times> bool) list \<Rightarrow> hash list" where
  "all_created xs = concat (map (\<lambda>(t, f). created t f) xs)"

definition all_consumed :: "(tx \<times> bool) list \<Rightarrow> hash list" where
  "all_consumed xs = concat (map (\<lambda>(t, f). consumed t f) xs)"

text \<open>No output identifier is made twice, and none of them is spendable before the block.\<close>

definition fresh_outputs :: "(tx \<times> bool) list \<Rightarrow> hash set \<Rightarrow> bool" where
  "fresh_outputs xs S \<longleftrightarrow> distinct (all_created xs) \<and> set (all_created xs) \<inter> S = {}"

lemma all_Cons [simp]:
  "all_created ((t, f) # xs) = created t f @ all_created xs"
  "all_consumed ((t, f) # xs) = consumed t f @ all_consumed xs"
  by (simp_all add: all_created_def all_consumed_def)

lemma fresh_outputs_step:
  assumes "fresh_outputs ((t, f) # xs) S"
  shows "fresh_outputs xs (S - C \<union> set (created t f))" "set (created t f) \<inter> S = {}"
    "set (all_created xs) \<inter> S = {}"
  using assms by (auto simp: fresh_outputs_def)

lemma indexed_loop:
  fixes g :: "tx \<Rightarrow> bool \<Rightarrow> unit view_op"
  assumes "length txs \<le> length ts"
  shows "forE (\<lambda>i. bindE (getStatusE ts i) (g (txs ! i))) [0..<length txs] =
      forE (\<lambda>(t, f). g t f) (zip txs ts)"
    and "forE (\<lambda>i. bindE (getStatusE ts i) (g (txs ! i))) (rev [0..<length txs]) =
      forE (\<lambda>(t, f). g t f) (rev (zip txs ts))"
proof -
  have body: "bindE (getStatusE ts i) (g (txs ! i)) = (\<lambda>(t, f). g t f) (txs ! i, ts ! i)"
    if "i < length txs" for i
    using that assms by (simp add: getStatusE_def GetStatus_def bindE_returnE)
  have zip: "zip txs ts = map (\<lambda>i. (txs ! i, ts ! i)) [0..<length txs]"
    using assms by (intro nth_equalityI) auto
  show "forE (\<lambda>i. bindE (getStatusE ts i) (g (txs ! i))) [0..<length txs] =
      forE (\<lambda>(t, f). g t f) (zip txs ts)"
    unfolding zip forE_map by (rule forE_cong) (use body in simp)
  show "forE (\<lambda>i. bindE (getStatusE ts i) (g (txs ! i))) (rev [0..<length txs]) =
      forE (\<lambda>(t, f). g t f) (rev (zip txs ts))"
    unfolding zip rev_map forE_map by (rule forE_cong) (use body in simp)
qed

lemma ApplyBlock_status:
  assumes "ApplyBlock P blk ts v = (Inr (), v')"
  shows "length (blk_Transactions blk) \<le> length ts"
proof (rule ccontr)
  assume "\<not> ?thesis"
  then have "length ts \<in> set [0..<length (blk_Transactions blk)]" by simp
  from forE_Inr_step [OF assms [unfolded ApplyBlock_def] this] show False
    by (auto simp: getStatusE_def GetStatus_def view_op_simps)
qed

lemma ApplyBlock_loop:
  assumes "ApplyBlock P blk ts v = (Inr (), v')"
  shows "forE (\<lambda>(t, f). ApplyTransaction P blk t f) (block_txs blk ts) v = (Inr (), v')"
  using assms indexed_loop(1) [OF ApplyBlock_status [OF assms], of "ApplyTransaction P blk"]
  by (simp add: ApplyBlock_def block_txs_def)

lemma apply_loop_spec:
  "forE (\<lambda>(t, f). ApplyTransaction P blk t f) xs v = (Inr (), v') \<Longrightarrow>
   spec_block xs (spendable v) = Some (spendable v')"
proof (induction xs arbitrary: v)
  case (Cons x xs)
  obtain t f where x: "x = (t, f)" by (cases x)
  from Cons.prems obtain w where w: "ApplyTransaction P blk t f v = (Inr (), w)"
      and rest: "forE (\<lambda>(t, f). ApplyTransaction P blk t f) xs w = (Inr (), v')"
    by (auto simp: x thenE_Inr_iff)
  from Cons.IH [OF rest] apply_tx_effect(2-4) [OF w] show ?case by (simp add: x spec_tx_def)
qed (simp add: returnE_def)

lemma spec_block_consumed:
  "spec_block xs S = Some S' \<Longrightarrow> fresh_outputs xs S \<Longrightarrow>
   distinct (all_consumed xs) \<and> set (all_consumed xs) \<subseteq> S \<union> set (all_created xs)"
proof (induction xs arbitrary: S)
  case (Cons x xs)
  obtain t f where x: "x = (t, f)" by (cases x)
  from Cons.prems(1) have ok: "distinct (consumed t f)" "set (consumed t f) \<subseteq> S"
    and rest: "spec_block xs (S - set (consumed t f) \<union> set (created t f)) = Some S'"
    by (auto simp: x spec_tx_def split: if_splits)
  note fresh = fresh_outputs_step [OF Cons.prems(2) [unfolded x]]
  note IH = Cons.IH [OF rest fresh(1)]
  have "set (consumed t f) \<inter> set (all_consumed xs) = {}"
    using IH ok(2) fresh(2,3) by blast
  with IH ok show ?case by (auto simp: x)
qed (simp add: all_consumed_def)

lemma detach_apply_loop:
  assumes "forE (\<lambda>(t, f). ApplyTransaction P blk t f) xs v = (Inr (), v')"
    and "fresh_outputs xs (spendable v)" and "spendable w = spendable v'" and "dom v' \<subseteq> dom w"
  shows "\<exists>w'. forE (\<lambda>(t, f). DetachTransaction t f) (rev xs) w = (Inr (), w') \<and>
    spendable w' = spendable v \<and> dom w \<subseteq> dom w'"
  using assms
proof (induction xs arbitrary: v)
  case (Cons x xs)
  obtain t f where x: "x = (t, f)" by (cases x)
  from Cons.prems(1) obtain u where u: "ApplyTransaction P blk t f v = (Inr (), u)"
      and rest: "forE (\<lambda>(t, f). ApplyTransaction P blk t f) xs u = (Inr (), v')"
    by (auto simp: x thenE_Inr_iff)
  note E = apply_tx_effect [OF u]
  note new = fresh_outputs_step(2) [OF Cons.prems(2) [unfolded x]]
  have "fresh_outputs xs (spendable u)"
    unfolding E(4) by (rule fresh_outputs_step(1) [OF Cons.prems(2) [unfolded x]])
  from Cons.IH [OF rest this Cons.prems(3,4)] obtain w1 where
      w1: "forE (\<lambda>(t, f). DetachTransaction t f) (rev xs) w = (Inr (), w1)"
        "spendable w1 = spendable u" "dom w \<subseteq> dom w1" by blast
  have "dom u \<subseteq> dom v'" using rest
  proof (induction xs arbitrary: u)
    case (Cons y ys)
    then show ?case by (cases y) (use apply_tx_effect(5) in \<open>fastforce simp: thenE_Inr_iff\<close>)
  qed (simp add: returnE_def)
  then have "dom v \<subseteq> dom w1" using E(5) Cons.prems(4) w1(3) by blast
  moreover have "set (consumed t f) \<subseteq> dom v"
    using E(3) by (auto simp: spendable_def CanSpend_iff)
  ultimately have main: "set (tx_MainchainOutputIDs t) \<subseteq> dom w1"
    unfolding consumed_def set_append by blast
  have "set (consumed t f) \<inter> spendable w1 = {}" using E(3,4) w1(2) new by auto
  from detach_tx_effect [OF E(1,2) this main] obtain w2 where
      w2: "DetachTransaction t f w1 = (Inr (), w2)"
        "spendable w2 = spendable w1 \<union> set (consumed t f) - set (created t f)" "dom w1 \<subseteq> dom w2" by blast
  have "spendable w2 = spendable v" using w2(2) w1(2) E(3,4) new by auto
  moreover have "forE (\<lambda>(t, f). DetachTransaction t f) (rev (x # xs)) w = (Inr (), w2)"
    by (simp add: x forE_append thenE_apply w1(1) w2(1) returnE_def)
  ultimately show ?case using w1(3) w2(3) by blast
qed (simp add: returnE_def)

section \<open>A sample block\<close>

definition sample_id :: "nat \<Rightarrow> hash" where
  "sample_id n = \<lparr>V0 = n, V1 = 0, V2 = 0, V3 = 0\<rparr>"

definition sample_output :: "nat \<Rightarrow> output_entry" where
  "sample_output n =
     \<lparr>out_Source = \<lparr>vl_Ref = None, vl_Value = Some \<lparr>aa_AssetId = Some BTMAssetID, aa_Amount = n\<rparr>,
                     vl_Position = 0\<rparr>,
      out_ControlProgram = \<lparr>prog_VmVersion = 1, prog_Code = []\<rparr>, out_Ordinal = 0\<rparr>"

definition sample_tx :: "nat \<Rightarrow> nat list \<Rightarrow> nat list \<Rightarrow> (nat \<times> entry) list \<Rightarrow> tx" where
  "sample_tx n main spent outs =
     \<lparr>tx_Header = \<lparr>th_Version = 1, th_SerializedSize = 1, th_TimeRange = 0,
                    th_ResultIds = map (sample_id \<circ> fst) outs\<rparr>,
      tx_ID = sample_id n,
      tx_Entries =
        map_of (map (\<lambda>i. (sample_id i, IntraChainOutput (sample_output 7))) spent @
                map (\<lambda>(i, e). (sample_id i, e)) outs),
      tx_InputIDs = [], tx_SpentOutputIDs = map sample_id spent,
      tx_MainchainOutputIDs = map sample_id main, tx_GasInputIDs = []\<rparr>"

text \<open>A coinbase, a transaction that spends output 1 and mainchain output 5, and one that votes with its output.\<close>

definition sample_block :: block where
  "sample_block =
     \<lparr>blk_Version = 1, blk_Height = 9, blk_PreviousBlockId = sample_id 0, blk_Timestamp = 0,
      blk_TransactionsRoot = sample_id 0, blk_TransactionStatusHash = sample_id 0,
      blk_TransactionStatus = [], blk_WitnessArguments = [], blk_ID = sample_id 0,
      blk_Transactions =
        [sample_tx 100 [] [] [(10, IntraChainOutput (sample_output 3))],
         sample_tx 101 [5] [1] [(11, IntraChainOutput (sample_output 7))],
         sample_tx 102 [] [11]
           [(12, VoteOutput \<lparr>vote_Output = sample_output 7, vote_Vote = []\<rparr>)]]\<rparr>"

definition sample_view :: utxo_view where
  "sample_view =
     map_of [(sample_id 1, NewUtxoEntry NormalUTXOType 3 False),
             (sample_id 5, NewUtxoEntry CrosschainUTXOType 0 False)]"

definition sample_status :: tx_status where
  "sample_status = [False, False, False]"

lemma fresh_outputs_code: "fresh_outputs xs (spendable v) \<longleftrightarrow>
    distinct (all_created xs) \<and> list_all (\<lambda>i. \<not> CanSpend v i) (all_created xs)"
  by (auto simp: fresh_outputs_def spendable_def list_all_iff)

lemma sample_fresh: "fresh_outputs (block_txs sample_block sample_status) (spendable sample_view)"
  unfolding fresh_outputs_code by code_simp

lemma sample_applies: "fst (ApplyBlock MainNetParams sample_block sample_status sample_view) = Inr ()"
  by code_simp

section \<open>Properties\<close>

text \<open>
  Property C13: a transaction is applied to the view without an error exactly when all its entries
  resolve, it consumes no output twice, every output it consumes is spendable, and every spent
  coinbase or vote output has passed its lock period.
\<close>

theorem ApplyTransaction_succeeds_iff:
  "fst (ApplyTransaction P blk t f v) = Inr () \<longleftrightarrow>
     resolves t f \<and> distinct (consumed t f) \<and> set (consumed t f) \<subseteq> spendable v \<and>
     (\<forall>i \<in> set (spends t f). \<exists>e. v i = Some e \<and> lock_ok P (blk_Height blk) e)"
    (is "?ok \<longleftrightarrow> ?cond")
proof
  assume ?ok
  from apply_tx_effect [OF runs_ok [OF this]] show ?cond by blast
next
  assume ?cond
  then show ?ok using apply_tx_runs [of t f v P blk] by auto
qed

theorem ApplyTransaction_succeeds_iff_witness:
  "set (consumed (blk_Transactions sample_block ! 1) False) \<subseteq> spendable sample_view"
proof -
  have "fst (ApplyTransaction MainNetParams sample_block (blk_Transactions sample_block ! 1) False
      sample_view) = Inr ()" by code_simp
  then show ?thesis unfolding ApplyTransaction_succeeds_iff by blast
qed

text \<open>
  Property C12: applying a block implements the abstract contract on the set of spendable outputs:
  in order, each transaction consumes distinct spendable outputs, takes them out of the set and
  adds the outputs it creates.
\<close>

theorem ApplyBlock_refines:
  assumes "fst (ApplyBlock P blk ts v) = Inr ()"
  shows "spec_block (block_txs blk ts) (spendable v) = Some (spendable (snd (ApplyBlock P blk ts v)))"
  by (rule apply_loop_spec [OF ApplyBlock_loop [OF runs_ok [OF assms]]])

theorem ApplyBlock_refines_witness:
  "spec_block (block_txs sample_block sample_status) (spendable sample_view) =
     Some (spendable (snd (ApplyBlock MainNetParams sample_block sample_status sample_view)))"
  by (rule ApplyBlock_refines [OF sample_applies])

text \<open>
  Property C4: a block whose output identifiers are new spends no output twice: the outputs that
  all its transactions consume, cross-chain ones included, are pairwise distinct, and each was
  spendable before the block or is made by it.
\<close>

theorem ApplyBlock_no_double_spend:
  assumes "fst (ApplyBlock P blk ts v) = Inr ()"
    and "fresh_outputs (block_txs blk ts) (spendable v)"
  shows "distinct (all_consumed (block_txs blk ts)) \<and>
    set (all_consumed (block_txs blk ts)) \<subseteq> spendable v \<union> set (all_created (block_txs blk ts))"
  by (rule spec_block_consumed [OF apply_loop_spec [OF ApplyBlock_loop [OF runs_ok [OF assms(1)]]] assms(2)])

theorem ApplyBlock_no_double_spend_witness:
  "distinct (all_consumed (block_txs sample_block sample_status))"
  using ApplyBlock_no_double_spend [OF sample_applies sample_fresh] by blast

text \<open>
  Property C5: detaching a block after applying it succeeds and gives back the set of spendable
  outputs, when the block's output identifiers are new.
\<close>

theorem DetachBlock_ApplyBlock:
  assumes "fst (ApplyBlock P blk ts v) = Inr ()"
    and "fresh_outputs (block_txs blk ts) (spendable v)"
  shows "\<exists>w. DetachBlock blk ts (snd (ApplyBlock P blk ts v)) = (Inr (), w) \<and> spendable w = spendable v"
proof -
  note run = runs_ok [OF assms(1)]
  have "DetachBlock blk ts = forE (\<lambda>(t, f). DetachTransaction t f) (rev (block_txs blk ts))"
    using indexed_loop(2) [OF ApplyBlock_status [OF run], of DetachTransaction]
    by (simp add: DetachBlock_def block_txs_def)
  with detach_apply_loop [OF ApplyBlock_loop [OF run] assms(2) refl subset_refl] show ?thesis by auto
qed

theorem DetachBlock_ApplyBlock_witness:
  "\<exists>w. DetachBlock sample_block sample_status
      (snd (ApplyBlock MainNetParams sample_block sample_status sample_view)) = (Inr (), w) \<and>
    spendable w = spendable sample_view"
  by (rule DetachBlock_ApplyBlock [OF sample_applies sample_fresh])

end
