(* ===== verification/Wire.thy ===== *)
theory Wire
  imports Bc_Types
begin

text \<open>
  The byte-level encoding of \<^verbatim>\<open>encoding/blockchain/blockchain.go\<close>.

  A reader is a computation on the unread bytes, a writer one on the bytes written so far.  Writers
  into memory do not fail by themselves; what they wrote before an error stays written.  A nil and
  an empty byte slice are the same list.  A panic is the outcome \<open>WirePanic\<close>.  \<^verbatim>\<open>binary.ReadUvarint\<close> is the one of Go 1.11, which reads on
  until it meets a last byte.
\<close>

datatype wire_error =
    EOF
  | ErrUnexpectedEOF
  | ErrRange
  | UvarintOverflow
  | UnsupportedType
  | UnrecognizedVM
  | UnsupportedSerflags
  | TrailingGarbage
  | InvalidHex
  | WirePanic

type_synonym 'a rd = "(bytes, wire_error, 'a) comp"
type_synonym wr = "(bytes, wire_error, unit) comp"

section \<open>The standard library: varints, ReadFull, Write\<close>

fun PutUvarint :: "nat \<Rightarrow> bytes" where
  "PutUvarint x = (if x < 128 then [of_nat x] else of_nat (x mod 128 + 128) # PutUvarint (x div 128))"

declare PutUvarint.simps [simp del]

fun uvarint_loop :: "nat \<Rightarrow> nat \<Rightarrow> bytes \<Rightarrow> (wire_error + nat) \<times> bytes" where
  "uvarint_loop i x [] = (Inl EOF, [])"
| "uvarint_loop i x (b # bs) =
     (if unat b < 128 then
        if i > 9 \<or> i = 9 \<and> unat b > 1 then (Inl UvarintOverflow, bs)
        else (Inr (x + unat b * 128 ^ i), bs)
      else uvarint_loop (Suc i) (u64 (x + (unat b - 128) * 128 ^ i)) bs)"

definition ReadUvarint :: "nat rd" where
  "ReadUvarint = uvarint_loop 0 0"

definition ReadFull :: "nat \<Rightarrow> bytes rd" where
  "ReadFull n = (\<lambda>buf.
     if n \<le> length buf then (Inr (take n buf), drop n buf)
     else (Inl (if buf = [] then EOF else ErrUnexpectedEOF), []))"

definition Write :: "bytes \<Rightarrow> wr" where
  "Write bs = modifyE (\<lambda>out. out @ bs)"

section \<open>Readers (blockchain.go)\<close>

definition ReadVarint31 :: "nat rd" where
  "ReadVarint31 = bindE ReadUvarint (\<lambda>val.
     if val > 2147483647 then throwE ErrRange else returnE val)"

definition ReadVarint63 :: "nat rd" where
  "ReadVarint63 = bindE ReadUvarint (\<lambda>val.
     if val > 9223372036854775807 then throwE ErrRange else returnE val)"

definition ReadVarstr31 :: "bytes rd" where
  "ReadVarstr31 = bindE ReadVarint31 (\<lambda>l.
     if l = 0 then returnE []
     else bindE (getsE length) (\<lambda>n.
       if l > n then throwE ErrUnexpectedEOF
       else bindE (getsE (take l)) (\<lambda>str. thenE (modifyE (drop l)) (returnE str))))"

text \<open>
  \<^verbatim>\<open>ReadVarstrList\<close> counts down; when reading an element fails, the number of elements appended so
  far, the failed one included, is compared with the number still to come.
\<close>

primrec varstr_loop :: "nat \<Rightarrow> nat \<Rightarrow> bytes list rd" where
  "varstr_loop 0 k = returnE []"
| "varstr_loop (Suc n) k = (\<lambda>buf.
     case ReadVarstr31 buf of
       (Inl e, buf') \<Rightarrow> (Inl (if Suc k < n then ErrUnexpectedEOF else e), buf')
     | (Inr s, buf') \<Rightarrow> bindE (varstr_loop n (Suc k)) (\<lambda>ss. returnE (s # ss)) buf')"

definition ReadVarstrList :: "bytes list rd" where
  "ReadVarstrList = bindE ReadVarint31 (\<lambda>nelts. varstr_loop nelts 0)"

text \<open>The value that the Go closure leaves in its variables is returned beside the suffix.\<close>

definition ReadExtensibleString :: "'a rd \<Rightarrow> ('a \<times> bytes) rd" where
  "ReadExtensibleString f = bindE ReadVarstr31 (\<lambda>s.
     case f s of
       (Inl e, _) \<Rightarrow> throwE e
     | (Inr x, suffix) \<Rightarrow> returnE (x, suffix))"

section \<open>Writers (blockchain.go)\<close>

definition WriteVarint31 :: "nat \<Rightarrow> wr" where
  "WriteVarint31 val = (if val > 2147483647 then throwE ErrRange else Write (PutUvarint val))"

definition WriteVarint63 :: "nat \<Rightarrow> wr" where
  "WriteVarint63 val = (if val > 9223372036854775807 then throwE ErrRange else Write (PutUvarint val))"

definition WriteVarstr31 :: "bytes \<Rightarrow> wr" where
  "WriteVarstr31 str = thenE (WriteVarint31 (length str)) (Write str)"

definition WriteVarstrList :: "bytes list \<Rightarrow> wr" where
  "WriteVarstrList l = thenE (WriteVarint31 (length l)) (forE WriteVarstr31 l)"

definition WriteExtensibleString :: "bytes \<Rightarrow> wr \<Rightarrow> wr" where
  "WriteExtensibleString suffix f = (\<lambda>out.
     case f [] of
       (Inl e, _) \<Rightarrow> (Inl e, out)
     | (Inr _, buf) \<Rightarrow> WriteVarstr31 (buf @ suffix) out)"

section \<open>Hashes and amounts (hash.go, asset.go)\<close>

definition Hash_ReadFrom :: "hash rd" where
  "Hash_ReadFrom = bindE (ReadFull 32) (\<lambda>b32. returnE (NewHash b32))"

definition Hash_WriteTo :: "hash \<Rightarrow> wr" where
  "Hash_WriteTo h = Write (Byte32 h)"

definition AssetAmount_ReadFrom :: "asset_amount rd" where
  "AssetAmount_ReadFrom = bindE Hash_ReadFrom (\<lambda>assetID. bindE ReadVarint63 (\<lambda>amount.
     returnE \<lparr>aa_AssetId = Some assetID, aa_Amount = amount\<rparr>))"

definition AssetAmount_WriteTo :: "asset_amount \<Rightarrow> wr" where
  "AssetAmount_WriteTo a =
     (case aa_AssetId a of
        None \<Rightarrow> throwE WirePanic
      | Some assetID \<Rightarrow> thenE (Hash_WriteTo assetID) (WriteVarint63 (aa_Amount a)))"

section \<open>What a writer and its reader owe each other\<close>

text \<open>
  \<open>codes w r y\<close>: the writer only appends, and what it writes when it succeeds makes the reader
  return \<open>y\<close>, whatever follows.
\<close>

definition appending :: "wr \<Rightarrow> bool" where
  "appending w \<longleftrightarrow> (\<forall>out. w out = (fst (w []), out @ snd (w [])))"

definition codes :: "wr \<Rightarrow> 'a rd \<Rightarrow> 'a \<Rightarrow> bool" where
  "codes w r y \<longleftrightarrow> appending w \<and>
     (fst (w []) = Inr () \<longrightarrow> (\<forall>rest. r (snd (w []) @ rest) = (Inr y, rest)))"

named_theorems appending_intros \<open>writers that only append\<close>
named_theorems codes_intros \<open>pairs of a writer and a reader\<close>

lemma appendingI:
  "(\<And>out. w out = (fst (w []), out @ snd (w []))) \<Longrightarrow> appending w"
  unfolding appending_def by blast

lemma appendingD: "appending w \<Longrightarrow> w out = (fst (w []), out @ snd (w []))"
  unfolding appending_def by blast

lemma appending_Write [appending_intros]: "appending (Write bs)"
  by (simp add: appending_def Write_def modifyE_def)

lemma appending_returnE [appending_intros]: "appending (returnE ())"
  by (simp add: appending_def returnE_def)

lemma appending_throwE [appending_intros]: "appending (throwE e)"
  by (simp add: appending_def throwE_def)

lemma appending_thenE [appending_intros]:
  assumes "appending w1" "appending w2"
  shows "appending (thenE w1 w2)"
proof (rule appendingI)
  fix out
  show "thenE w1 w2 out = (fst (thenE w1 w2 []), out @ snd (thenE w1 w2 []))"
  proof (cases "fst (w1 [])")
    case (Inl e)
    then have "thenE w1 w2 x = (Inl e, x @ snd (w1 []))" for x
      by (subst thenE_apply) (simp add: appendingD [OF assms(1), of x])
    from this [of out] this [of "[]"] show ?thesis by simp
  next
    case (Inr u)
    then have "thenE w1 w2 x = w2 (x @ snd (w1 []))" for x
      by (subst thenE_apply) (simp add: appendingD [OF assms(1), of x])
    then have "thenE w1 w2 x = (fst (w2 []), x @ snd (w1 []) @ snd (w2 []))" for x
      using appendingD [OF assms(2), of "x @ snd (w1 [])"] by simp
    from this [of out] this [of "[]"] show ?thesis by simp
  qed
qed

lemma appending_if [appending_intros]:
  "appending a \<Longrightarrow> appending b \<Longrightarrow> appending (if c then a else b)"
  by simp

lemma appending_forE [appending_intros]:
  "(\<And>x. x \<in> set xs \<Longrightarrow> appending (f x)) \<Longrightarrow> appending (forE f xs)"
  by (induction xs) (auto intro: appending_intros)

lemma codes_appending: "codes w r y \<Longrightarrow> appending w"
  by (simp add: codes_def)

lemma codesI:
  assumes "appending w"
    and "\<And>rest. fst (w []) = Inr () \<Longrightarrow> r (snd (w []) @ rest) = (Inr y, rest)"
  shows "codes w r y"
  using assms by (simp add: codes_def)

lemma codes_returnE [codes_intros]: "codes (returnE ()) (returnE y) y"
  by (rule codesI, rule appending_returnE) (simp add: returnE_def)

lemma codes_thenE:
  assumes "codes w1 r1 x" "codes w2 (r2 x) y"
  shows "codes (thenE w1 w2) (bindE r1 r2) y"
proof (rule codesI)
  show "appending (thenE w1 w2)" using assms by (auto intro: appending_intros codes_appending)
  fix rest
  assume ok: "fst (thenE w1 w2 []) = Inr ()"
  have first: "fst (w1 []) = Inr ()"
    using ok by (cases "w1 []") (auto simp: thenE_apply split: sum.splits)
  then have run: "thenE w1 w2 [] = w2 (snd (w1 []))"
    by (cases "w1 []") (simp add: thenE_apply)
  then have out: "thenE w1 w2 [] = (fst (w2 []), snd (w1 []) @ snd (w2 []))"
    using appendingD [OF codes_appending [OF assms(2)], of "snd (w1 [])"] by simp
  with ok have "fst (w2 []) = Inr ()" by simp
  with first out assms show "bindE r1 r2 (snd (thenE w1 w2 []) @ rest) = (Inr y, rest)"
    by (simp add: codes_def bindE_apply)
qed

lemma codes_last:
  assumes "codes w r1 x"
  shows "codes w (bindE r1 (\<lambda>z. returnE (f z))) (f x)"
  using assms unfolding codes_def by (simp add: bindE_apply returnE_def)

lemma codes_cong: "codes w r y \<Longrightarrow> y = z \<Longrightarrow> codes w r z"
  by simp

lemma codes_end:
  assumes "codes w r1 x" "r2 x = returnE y"
  shows "codes w (bindE r1 r2) y"
  using assms unfolding codes_def by (simp add: bindE_apply returnE_def)

section \<open>Varints\<close>

lemma unat_byte_small: "n < 256 \<Longrightarrow> unat (of_nat n :: byte) = n"
  using unat_byte_of_nat [of n] by simp

lemma pow128_less: "(128 :: nat) ^ i \<le> MaxUint64 \<Longrightarrow> i \<le> 9"
proof (rule ccontr)
  assume le: "(128 :: nat) ^ i \<le> MaxUint64" and "\<not> i \<le> 9"
  then have "(128 :: nat) ^ 10 \<le> 128 ^ i" by (intro power_increasing) simp_all
  with le show False by simp
qed

lemma uvarint_loop_PutUvarint:
  "x + v * 128 ^ i \<le> MaxUint64 \<Longrightarrow> i \<le> 9 \<Longrightarrow>
   uvarint_loop i x (PutUvarint v @ rest) = (Inr (x + v * 128 ^ i), rest)"
proof (induction v arbitrary: i x rest rule: PutUvarint.induct)
  case (1 v)
  show ?case
  proof (cases "v < 128")
    case True
    have "\<not> (i = 9 \<and> v > 1)"
    proof
      assume "i = 9 \<and> v > 1"
      then have "2 * 128 ^ 9 \<le> v * 128 ^ i" by simp
      with "1.prems" show False by simp
    qed
    with True "1.prems"(2) show ?thesis
      by (subst PutUvarint.simps) (auto simp: unat_byte_small)
  next
    case False
    have split: "v * 128 ^ i = (v mod 128) * 128 ^ i + (v div 128) * 128 ^ Suc i"
      by (metis add_mult_distrib div_mult_mod_eq mult.assoc power_Suc add.commute)
    have "1 * 128 ^ Suc i \<le> (v div 128) * 128 ^ Suc i"
      using False by (intro mult_le_mono1) simp
    then have i: "Suc i \<le> 9" using "1.prems"(1) split by (intro pow128_less) linarith
    have small: "u64 (x + v mod 128 * 128 ^ i) = x + v mod 128 * 128 ^ i"
      using "1.prems"(1) split by (intro u64_id) (simp add: is_u64_def)
    have "uvarint_loop (Suc i) (x + v mod 128 * 128 ^ i) (PutUvarint (v div 128) @ rest) =
        (Inr (x + v mod 128 * 128 ^ i + v div 128 * 128 ^ Suc i), rest)"
      using "1.prems"(1) split i by (intro "1.IH" [OF False]) linarith+
    moreover have "unat (of_nat (v mod 128 + 128) :: byte) = v mod 128 + 128"
      by (rule unat_byte_small) (use mod_less_divisor [of 128 v] in linarith)
    ultimately show ?thesis
      using False small split by (subst PutUvarint.simps) (simp add: add.assoc del: of_nat_add)
  qed
qed

text \<open>The writers use a buffer of nine bytes: a value below \<open>2 ^ 63\<close> fits.\<close>

lemma length_PutUvarint: "v < 128 ^ Suc n \<Longrightarrow> length (PutUvarint v) \<le> Suc n"
proof (induction n arbitrary: v)
  case 0
  then show ?case by (subst PutUvarint.simps) simp
next
  case (Suc n)
  then have "v div 128 < 128 ^ Suc n" by (simp add: div_less_iff_less_mult mult.commute)
  with Suc.IH [of "v div 128"] show ?case by (subst PutUvarint.simps) simp
qed

lemma codes_Varint31 [codes_intros]: "codes (WriteVarint31 v) ReadVarint31 v"
proof (rule codesI)
  show "appending (WriteVarint31 v)"
    unfolding WriteVarint31_def by (rule appending_intros)+
  fix rest
  assume "fst (WriteVarint31 v []) = Inr ()"
  then have "\<not> v > 2147483647" by (auto simp: WriteVarint31_def throwE_def)
  then show "ReadVarint31 (snd (WriteVarint31 v []) @ rest) = (Inr v, rest)"
    using uvarint_loop_PutUvarint [of 0 v 0 rest]
    by (simp add: WriteVarint31_def ReadVarint31_def ReadUvarint_def Write_def modifyE_def
        bindE_apply returnE_def)
qed

lemma codes_Varint63 [codes_intros]: "codes (WriteVarint63 v) ReadVarint63 v"
proof (rule codesI)
  show "appending (WriteVarint63 v)"
    unfolding WriteVarint63_def by (rule appending_intros)+
  fix rest
  assume "fst (WriteVarint63 v []) = Inr ()"
  then have "\<not> v > 9223372036854775807" by (auto simp: WriteVarint63_def throwE_def)
  then show "ReadVarint63 (snd (WriteVarint63 v []) @ rest) = (Inr v, rest)"
    using uvarint_loop_PutUvarint [of 0 v 0 rest]
    by (simp add: WriteVarint63_def ReadVarint63_def ReadUvarint_def Write_def modifyE_def
        bindE_apply returnE_def)
qed

section \<open>Strings, lists and extensible strings\<close>

lemma codes_Write_fixed:
  assumes "\<And>rest. r (bs @ rest) = (Inr y, rest)"
  shows "codes (Write bs) r y"
  using assms by (intro codesI appending_intros) (simp add: Write_def modifyE_def)

lemma codes_Varstr31 [codes_intros]: "codes (WriteVarstr31 str) ReadVarstr31 str"
  unfolding WriteVarstr31_def ReadVarstr31_def
  by (rule codes_thenE [OF codes_Varint31], rule codesI, rule appending_Write)
    (auto simp: Write_def modifyE_def returnE_def bindE_apply thenE_apply getsE_def)

lemma codes_varstrs: "codes (forE WriteVarstr31 l) (varstr_loop (length l) k) l"
proof (induction l arbitrary: k)
  case Nil
  then show ?case by (simp add: codes_returnE)
next
  case (Cons s l)
  have "codes (forE WriteVarstr31 (s # l))
      (bindE ReadVarstr31 (\<lambda>s. bindE (varstr_loop (length l) (Suc k)) (\<lambda>ss. returnE (s # ss)))) (s # l)"
    unfolding forE.simps
    by (rule codes_thenE [OF codes_Varstr31]) (rule codes_last [OF Cons.IH])
  moreover have "bindE ReadVarstr31 f buf = (Inr y, rest) \<Longrightarrow>
      (case ReadVarstr31 buf of (Inl e, b) \<Rightarrow> (Inl (g e), b) | (Inr s, b) \<Rightarrow> f s b) = (Inr y, rest)"
    for f :: "bytes \<Rightarrow> bytes list rd" and g buf y rest
    by (auto simp: bindE_apply split: prod.splits sum.splits)
  ultimately show ?case unfolding codes_def by simp
qed

lemma codes_VarstrList [codes_intros]: "codes (WriteVarstrList l) ReadVarstrList l"
  unfolding WriteVarstrList_def ReadVarstrList_def
  by (rule codes_thenE [OF codes_Varint31]) (rule codes_varstrs)

lemma codes_ExtensibleString:
  assumes "codes w r y"
  shows "codes (WriteExtensibleString suffix w) (ReadExtensibleString r) (y, suffix)"
proof (cases "fst (w [])")
  case (Inl e)
  then have w: "WriteExtensibleString suffix w = throwE e"
    by (cases "w []") (simp add: WriteExtensibleString_def throwE_def fun_eq_iff)
  show ?thesis unfolding w by (rule codesI, rule appending_throwE) (simp add: throwE_def)
next
  case (Inr u)
  then have w: "WriteExtensibleString suffix w = WriteVarstr31 (snd (w []) @ suffix)"
    by (cases "w []") (simp add: WriteExtensibleString_def fun_eq_iff)
  have "r (snd (w []) @ suffix) = (Inr y, suffix)" using assms Inr by (simp add: codes_def)
  then show ?thesis
    unfolding w ReadExtensibleString_def
    using codes_Varstr31 [of "snd (w []) @ suffix"]
    by (simp add: codes_def bindE_apply returnE_def)
qed

lemma codes_Hash: "hash_ok h \<Longrightarrow> codes (Hash_WriteTo h) Hash_ReadFrom h"
  unfolding Hash_WriteTo_def
  by (rule codes_Write_fixed)
    (simp add: Hash_ReadFrom_def ReadFull_def bindE_apply returnE_def NewHash_Byte32)

lemma codes_AssetAmount:
  assumes "aa_AssetId a = Some i" "hash_ok i"
  shows "codes (AssetAmount_WriteTo a) AssetAmount_ReadFrom a"
proof -
  have "codes (AssetAmount_WriteTo a) AssetAmount_ReadFrom \<lparr>aa_AssetId = Some i, aa_Amount = aa_Amount a\<rparr>"
    unfolding AssetAmount_WriteTo_def AssetAmount_ReadFrom_def assms(1) option.case
    by (rule codes_thenE [OF codes_Hash [OF assms(2)]]) (rule codes_last [OF codes_Varint63])
  then show ?thesis using assms(1) by (cases a) simp
qed

section \<open>Counted lists of anything that has a codec\<close>

locale codec =
  fixes put :: "'a \<Rightarrow> wr" and get :: "'a rd" and ok :: "'a \<Rightarrow> bool" and norm :: "'a \<Rightarrow> 'a"
  assumes item_codes: "ok x \<Longrightarrow> codes (put x) get (norm x)"
begin

lemma items_code:
  "\<forall>x \<in> set xs. ok x \<Longrightarrow> codes (forE put xs) (collectE (length xs) get) (map norm xs)"
proof (induction xs)
  case Nil
  then show ?case by (simp add: codes_returnE)
next
  case (Cons x xs)
  have "codes (thenE (put x) (forE put xs))
      (bindE get (\<lambda>y. bindE (collectE (length xs) get) (\<lambda>ys. returnE (y # ys)))) (norm x # map norm xs)"
    by (rule codes_thenE [OF item_codes]) (use Cons in \<open>auto intro: codes_last\<close>)
  then show ?case by simp
qed

end

end
