(* ===== verification/Tx_Wire.thy ===== *)
theory Tx_Wire
  imports Wire
begin

text \<open>
  Transactions, block headers and blocks of \<^verbatim>\<open>protocol/bc/types\<close> with their wire format.

  A read returns the value it fills in or the first error; the callers drop the half-filled value of
  a failed read.  \<^verbatim>\<open>readFrom\<close> of a transaction, a header and a block changes a receiver, which is an
  argument here, since it appends to the receiver's lists or leaves the header alone.
\<close>

section \<open>Inputs\<close>

record spend_commitment =
  sc_AssetAmount :: asset_amount
  sc_SourceID :: hash
  sc_SourcePosition :: nat
  sc_VMVersion :: nat
  sc_ControlProgram :: bytes

record spend_input =
  si_SpendCommitmentSuffix :: bytes
  si_Arguments :: "bytes list"
  si_SpendCommitment :: spend_commitment

record veto_input =
  vi_VetoCommitmentSuffix :: bytes
  vi_Arguments :: "bytes list"
  vi_Vote :: bytes
  vi_SpendCommitment :: spend_commitment

record crosschain_input =
  ci_SpendCommitmentSuffix :: bytes
  ci_Arguments :: "bytes list"
  ci_SpendCommitment :: spend_commitment
  ci_AssetDefinition :: bytes
  ci_IssuanceVMVersion :: nat
  ci_IssuanceProgram :: bytes

datatype typed_input =
    CrossChainIn crosschain_input
  | SpendIn spend_input
  | CoinbaseIn bytes
  | VetoIn veto_input

record tx_input =
  ti_AssetVersion :: nat
  ti_TypedInput :: "typed_input option"
  ti_CommitmentSuffix :: bytes
  ti_WitnessSuffix :: bytes

definition CrossChainInputType :: byte where "CrossChainInputType = 0"
definition SpendInputType :: byte where "SpendInputType = 1"
definition CoinbaseInputType :: byte where "CoinbaseInputType = 2"
definition VetoInputType :: byte where "VetoInputType = 3"

definition InputType :: "typed_input \<Rightarrow> byte" where
  "InputType t =
     (case t of
        CrossChainIn _ \<Rightarrow> CrossChainInputType
      | SpendIn _ \<Rightarrow> SpendInputType
      | CoinbaseIn _ \<Rightarrow> CoinbaseInputType
      | VetoIn _ \<Rightarrow> VetoInputType)"

definition zero_amount :: asset_amount where
  "zero_amount = \<lparr>aa_AssetId = None, aa_Amount = 0\<rparr>"

definition input_AssetAmount :: "tx_input \<Rightarrow> asset_amount" where
  "input_AssetAmount t =
     (case ti_TypedInput t of
        Some (SpendIn i) \<Rightarrow> sc_AssetAmount (si_SpendCommitment i)
      | Some (CrossChainIn i) \<Rightarrow> sc_AssetAmount (ci_SpendCommitment i)
      | Some (VetoIn i) \<Rightarrow> sc_AssetAmount (vi_SpendCommitment i)
      | _ \<Rightarrow> zero_amount)"

definition input_Amount :: "tx_input \<Rightarrow> nat" where
  "input_Amount t =
     (case ti_TypedInput t of
        Some (SpendIn i) \<Rightarrow> aa_Amount (sc_AssetAmount (si_SpendCommitment i))
      | Some (CrossChainIn i) \<Rightarrow> aa_Amount (sc_AssetAmount (ci_SpendCommitment i))
      | Some (VetoIn i) \<Rightarrow> aa_Amount (sc_AssetAmount (vi_SpendCommitment i))
      | _ \<Rightarrow> 0)"

text \<open>\<open>None\<close> stands for the panic on a nil asset identifier.\<close>

definition input_AssetID :: "tx_input \<Rightarrow> asset_id option" where
  "input_AssetID t =
     (case ti_TypedInput t of
        Some (SpendIn i) \<Rightarrow> aa_AssetId (sc_AssetAmount (si_SpendCommitment i))
      | Some (CrossChainIn i) \<Rightarrow> aa_AssetId (sc_AssetAmount (ci_SpendCommitment i))
      | Some (VetoIn i) \<Rightarrow> aa_AssetId (sc_AssetAmount (vi_SpendCommitment i))
      | _ \<Rightarrow> Some zeroHash)"

definition input_ControlProgram :: "tx_input \<Rightarrow> bytes" where
  "input_ControlProgram t =
     (case ti_TypedInput t of
        Some (SpendIn i) \<Rightarrow> sc_ControlProgram (si_SpendCommitment i)
      | Some (CrossChainIn i) \<Rightarrow> sc_ControlProgram (ci_SpendCommitment i)
      | Some (VetoIn i) \<Rightarrow> sc_ControlProgram (vi_SpendCommitment i)
      | _ \<Rightarrow> [])"

definition input_Arguments :: "typed_input \<Rightarrow> bytes list" where
  "input_Arguments t =
     (case t of
        SpendIn i \<Rightarrow> si_Arguments i
      | CrossChainIn i \<Rightarrow> ci_Arguments i
      | VetoIn i \<Rightarrow> vi_Arguments i
      | CoinbaseIn _ \<Rightarrow> [])"

definition SetArguments :: "typed_input \<Rightarrow> bytes list \<Rightarrow> typed_input" where
  "SetArguments t args =
     (case t of
        SpendIn i \<Rightarrow> SpendIn (i\<lparr>si_Arguments := args\<rparr>)
      | CrossChainIn i \<Rightarrow> CrossChainIn (i\<lparr>ci_Arguments := args\<rparr>)
      | VetoIn i \<Rightarrow> VetoIn (i\<lparr>vi_Arguments := args\<rparr>)
      | CoinbaseIn _ \<Rightarrow> t)"

section \<open>Outputs\<close>

record output_commitment =
  oc_AssetAmount :: asset_amount
  oc_VMVersion :: nat
  oc_ControlProgram :: bytes

record typed_out =
  to_OutputCommitment :: output_commitment
  to_InnerSuffix :: bytes

datatype typed_output =
    IntraChainOut typed_out
  | CrossChainOut typed_out
  | VoteOut typed_out bytes

record tx_output =
  txo_AssetVersion :: nat
  txo_TypedOutput :: "typed_output option"
  txo_CommitmentSuffix :: bytes

definition IntraChainOutputType :: byte where "IntraChainOutputType = 0"
definition CrossChainOutputType :: byte where "CrossChainOutputType = 1"
definition VoteOutputType :: byte where "VoteOutputType = 2"

definition zero_output_commitment :: output_commitment where
  "zero_output_commitment = \<lparr>oc_AssetAmount = zero_amount, oc_VMVersion = 0, oc_ControlProgram = []\<rparr>"

definition OutputCommitment :: "tx_output \<Rightarrow> output_commitment" where
  "OutputCommitment t =
     (case txo_TypedOutput t of
        Some (IntraChainOut o') \<Rightarrow> to_OutputCommitment o'
      | Some (CrossChainOut o') \<Rightarrow> to_OutputCommitment o'
      | Some (VoteOut o' _) \<Rightarrow> to_OutputCommitment o'
      | None \<Rightarrow> zero_output_commitment)"

definition output_AssetAmount :: "tx_output \<Rightarrow> asset_amount" where
  "output_AssetAmount t =
     (case txo_TypedOutput t of
        Some (IntraChainOut o') \<Rightarrow> oc_AssetAmount (to_OutputCommitment o')
      | Some (CrossChainOut o') \<Rightarrow> oc_AssetAmount (to_OutputCommitment o')
      | Some (VoteOut o' _) \<Rightarrow> oc_AssetAmount (to_OutputCommitment o')
      | None \<Rightarrow> zero_amount)"

definition output_ControlProgram :: "tx_output \<Rightarrow> bytes" where
  "output_ControlProgram t =
     (case txo_TypedOutput t of
        Some (IntraChainOut o') \<Rightarrow> oc_ControlProgram (to_OutputCommitment o')
      | Some (CrossChainOut o') \<Rightarrow> oc_ControlProgram (to_OutputCommitment o')
      | Some (VoteOut o' _) \<Rightarrow> oc_ControlProgram (to_OutputCommitment o')
      | None \<Rightarrow> [])"

definition output_VMVersion :: "tx_output \<Rightarrow> nat" where
  "output_VMVersion t =
     (case txo_TypedOutput t of
        Some (IntraChainOut o') \<Rightarrow> oc_VMVersion (to_OutputCommitment o')
      | Some (CrossChainOut o') \<Rightarrow> oc_VMVersion (to_OutputCommitment o')
      | Some (VoteOut o' _) \<Rightarrow> oc_VMVersion (to_OutputCommitment o')
      | None \<Rightarrow> 0)"

section \<open>Commitments on the wire (spend_commitment.go, output_commitment.go)\<close>

definition zero_spend_commitment :: spend_commitment where
  "zero_spend_commitment =
     \<lparr>sc_AssetAmount = zero_amount, sc_SourceID = zeroHash, sc_SourcePosition = 0, sc_VMVersion = 0,
      sc_ControlProgram = []\<rparr>"

definition SpendCommitment_writeContents :: "spend_commitment \<Rightarrow> bytes \<Rightarrow> nat \<Rightarrow> wr" where
  "SpendCommitment_writeContents sc suffix assetVersion =
     thenE
       (if assetVersion = 1 then
          thenE (Hash_WriteTo (sc_SourceID sc))
            (thenE (AssetAmount_WriteTo (sc_AssetAmount sc))
              (thenE (WriteVarint63 (sc_SourcePosition sc))
                (thenE (WriteVarint63 (sc_VMVersion sc)) (WriteVarstr31 (sc_ControlProgram sc)))))
        else returnE ())
       (if length suffix > 0 then Write suffix else returnE ())"

definition SpendCommitment_writeExtensibleString :: "spend_commitment \<Rightarrow> bytes \<Rightarrow> nat \<Rightarrow> wr" where
  "SpendCommitment_writeExtensibleString sc suffix assetVersion =
     WriteExtensibleString suffix (SpendCommitment_writeContents sc suffix assetVersion)"

definition SpendCommitment_readFrom :: "nat \<Rightarrow> (spend_commitment \<times> bytes) rd" where
  "SpendCommitment_readFrom assetVersion =
     ReadExtensibleString
       (if assetVersion = 1 then
          bindE Hash_ReadFrom (\<lambda>sourceID.
          bindE AssetAmount_ReadFrom (\<lambda>assetAmount.
          bindE ReadVarint63 (\<lambda>sourcePosition.
          bindE ReadVarint63 (\<lambda>vmVersion.
          if vmVersion \<noteq> 1 then throwE UnrecognizedVM
          else bindE ReadVarstr31 (\<lambda>controlProgram.
            returnE \<lparr>sc_AssetAmount = assetAmount, sc_SourceID = sourceID,
              sc_SourcePosition = sourcePosition, sc_VMVersion = vmVersion,
              sc_ControlProgram = controlProgram\<rparr>)))))
        else returnE zero_spend_commitment)"

definition OutputCommitment_writeContents :: "output_commitment \<Rightarrow> bytes \<Rightarrow> nat \<Rightarrow> wr" where
  "OutputCommitment_writeContents oc suffix assetVersion =
     thenE
       (if assetVersion = 1 then
          thenE (AssetAmount_WriteTo (oc_AssetAmount oc))
            (thenE (WriteVarint63 (oc_VMVersion oc)) (WriteVarstr31 (oc_ControlProgram oc)))
        else returnE ())
       (if length suffix > 0 then Write suffix else returnE ())"

definition OutputCommitment_writeExtensibleString :: "output_commitment \<Rightarrow> bytes \<Rightarrow> nat \<Rightarrow> wr" where
  "OutputCommitment_writeExtensibleString oc suffix assetVersion =
     WriteExtensibleString suffix (OutputCommitment_writeContents oc suffix assetVersion)"

definition OutputCommitment_readFrom :: "nat \<Rightarrow> (output_commitment \<times> bytes) rd" where
  "OutputCommitment_readFrom assetVersion =
     ReadExtensibleString
       (if assetVersion = 1 then
          bindE AssetAmount_ReadFrom (\<lambda>assetAmount.
          bindE ReadVarint63 (\<lambda>vmVersion.
          if vmVersion \<noteq> 1 then throwE UnrecognizedVM
          else bindE ReadVarstr31 (\<lambda>controlProgram.
            returnE \<lparr>oc_AssetAmount = assetAmount, oc_VMVersion = vmVersion,
              oc_ControlProgram = controlProgram\<rparr>)))
        else returnE zero_output_commitment)"

section \<open>Inputs on the wire (txinput.go)\<close>

definition readInputCommitment :: "nat \<Rightarrow> typed_input option rd" where
  "readInputCommitment assetVersion =
     (if assetVersion \<noteq> 1 then returnE None
      else bindE (ReadFull 1) (\<lambda>icType.
        if icType = [SpendInputType] then
          bindE (SpendCommitment_readFrom 1) (\<lambda>(sc, suffix).
            returnE (Some (SpendIn \<lparr>si_SpendCommitmentSuffix = suffix, si_Arguments = [],
              si_SpendCommitment = sc\<rparr>)))
        else if icType = [CoinbaseInputType] then
          bindE ReadVarstr31 (\<lambda>arbitrary. returnE (Some (CoinbaseIn arbitrary)))
        else if icType = [CrossChainInputType] then
          bindE (SpendCommitment_readFrom 1) (\<lambda>(sc, suffix).
          bindE ReadVarint63 (\<lambda>issuanceVMVersion.
          bindE ReadVarstr31 (\<lambda>assetDefinition.
          bindE ReadVarstr31 (\<lambda>issuanceProgram.
            returnE (Some (CrossChainIn \<lparr>ci_SpendCommitmentSuffix = suffix, ci_Arguments = [],
              ci_SpendCommitment = sc, ci_AssetDefinition = assetDefinition,
              ci_IssuanceVMVersion = issuanceVMVersion, ci_IssuanceProgram = issuanceProgram\<rparr>))))))
        else if icType = [VetoInputType] then
          bindE (SpendCommitment_readFrom 1) (\<lambda>(sc, suffix).
          bindE ReadVarstr31 (\<lambda>vote.
            returnE (Some (VetoIn \<lparr>vi_VetoCommitmentSuffix = suffix, vi_Arguments = [],
              vi_Vote = vote, vi_SpendCommitment = sc\<rparr>))))
        else throwE UnsupportedType))"

definition readInputWitness :: "nat \<Rightarrow> typed_input option \<Rightarrow> typed_input option rd" where
  "readInputWitness assetVersion typed =
     (if assetVersion \<noteq> 1 then returnE typed
      else case typed of
        None \<Rightarrow> returnE None
      | Some (CoinbaseIn arbitrary) \<Rightarrow> returnE (Some (CoinbaseIn arbitrary))
      | Some t \<Rightarrow> bindE ReadVarstrList (\<lambda>args. returnE (Some (SetArguments t args))))"

definition TxInput_readFrom :: "tx_input rd" where
  "TxInput_readFrom =
     bindE ReadVarint63 (\<lambda>assetVersion.
     bindE (ReadExtensibleString (readInputCommitment assetVersion)) (\<lambda>(typed, commitmentSuffix).
     bindE (ReadExtensibleString (readInputWitness assetVersion typed)) (\<lambda>(typed', witnessSuffix).
       returnE \<lparr>ti_AssetVersion = assetVersion, ti_TypedInput = typed',
         ti_CommitmentSuffix = commitmentSuffix, ti_WitnessSuffix = witnessSuffix\<rparr>)))"

definition writeInputCommitment :: "tx_input \<Rightarrow> wr" where
  "writeInputCommitment t =
     (if ti_AssetVersion t \<noteq> 1 then returnE ()
      else case ti_TypedInput t of
        Some (SpendIn i) \<Rightarrow>
          thenE (Write [SpendInputType])
            (SpendCommitment_writeExtensibleString (si_SpendCommitment i) (si_SpendCommitmentSuffix i)
              (ti_AssetVersion t))
      | Some (CrossChainIn i) \<Rightarrow>
          thenE (Write [CrossChainInputType])
            (thenE (SpendCommitment_writeExtensibleString (ci_SpendCommitment i)
                (ci_SpendCommitmentSuffix i) (ti_AssetVersion t))
              (thenE (WriteVarint63 (ci_IssuanceVMVersion i))
                (thenE (WriteVarstr31 (ci_AssetDefinition i)) (WriteVarstr31 (ci_IssuanceProgram i)))))
      | Some (CoinbaseIn arbitrary) \<Rightarrow>
          thenE (Write [CoinbaseInputType]) (WriteVarstr31 arbitrary)
      | Some (VetoIn i) \<Rightarrow>
          thenE (Write [VetoInputType])
            (thenE (SpendCommitment_writeExtensibleString (vi_SpendCommitment i)
                (vi_VetoCommitmentSuffix i) (ti_AssetVersion t))
              (WriteVarstr31 (vi_Vote i)))
      | None \<Rightarrow> returnE ())"

definition writeInputWitness :: "tx_input \<Rightarrow> wr" where
  "writeInputWitness t =
     (if ti_AssetVersion t \<noteq> 1 then returnE ()
      else case ti_TypedInput t of
        Some (SpendIn i) \<Rightarrow> WriteVarstrList (si_Arguments i)
      | Some (CrossChainIn i) \<Rightarrow> WriteVarstrList (ci_Arguments i)
      | Some (VetoIn i) \<Rightarrow> WriteVarstrList (vi_Arguments i)
      | _ \<Rightarrow> returnE ())"

definition TxInput_writeTo :: "tx_input \<Rightarrow> wr" where
  "TxInput_writeTo t =
     thenE (WriteVarint63 (ti_AssetVersion t))
       (thenE (WriteExtensibleString (ti_CommitmentSuffix t) (writeInputCommitment t))
         (WriteExtensibleString (ti_WitnessSuffix t) (writeInputWitness t)))"

section \<open>Outputs on the wire (txoutput.go)\<close>

definition readOutputCommitment :: "nat \<Rightarrow> typed_output option rd" where
  "readOutputCommitment assetVersion =
     (if assetVersion \<noteq> 1 then returnE None
      else bindE (ReadFull 1) (\<lambda>outType.
        if outType = [IntraChainOutputType] then
          bindE (OutputCommitment_readFrom assetVersion) (\<lambda>(oc, suffix).
            returnE (Some (IntraChainOut \<lparr>to_OutputCommitment = oc, to_InnerSuffix = suffix\<rparr>)))
        else if outType = [CrossChainOutputType] then
          bindE (OutputCommitment_readFrom assetVersion) (\<lambda>(oc, suffix).
            returnE (Some (CrossChainOut \<lparr>to_OutputCommitment = oc, to_InnerSuffix = suffix\<rparr>)))
        else if outType = [VoteOutputType] then
          bindE ReadVarstr31 (\<lambda>vote.
          bindE (OutputCommitment_readFrom assetVersion) (\<lambda>(oc, suffix).
            returnE (Some (VoteOut \<lparr>to_OutputCommitment = oc, to_InnerSuffix = suffix\<rparr> vote))))
        else throwE UnsupportedType))"

definition TxOutput_readFrom :: "tx_output rd" where
  "TxOutput_readFrom =
     bindE ReadVarint63 (\<lambda>assetVersion.
     bindE (ReadExtensibleString (readOutputCommitment assetVersion)) (\<lambda>(typed, commitmentSuffix).
     bindE ReadVarstr31 (\<lambda>_.
       returnE \<lparr>txo_AssetVersion = assetVersion, txo_TypedOutput = typed,
         txo_CommitmentSuffix = commitmentSuffix\<rparr>)))"

definition writeOutputCommitment :: "tx_output \<Rightarrow> wr" where
  "writeOutputCommitment t =
     (if txo_AssetVersion t \<noteq> 1 then returnE ()
      else case txo_TypedOutput t of
        Some (IntraChainOut o') \<Rightarrow>
          thenE (Write [IntraChainOutputType])
            (OutputCommitment_writeExtensibleString (to_OutputCommitment o') (to_InnerSuffix o')
              (txo_AssetVersion t))
      | Some (CrossChainOut o') \<Rightarrow>
          thenE (Write [CrossChainOutputType])
            (OutputCommitment_writeExtensibleString (to_OutputCommitment o') (to_InnerSuffix o')
              (txo_AssetVersion t))
      | Some (VoteOut o' vote) \<Rightarrow>
          thenE (Write [VoteOutputType])
            (thenE (WriteVarstr31 vote)
              (OutputCommitment_writeExtensibleString (to_OutputCommitment o') (to_InnerSuffix o')
                (txo_AssetVersion t)))
      | None \<Rightarrow> returnE ())"

definition TxOutput_writeTo :: "tx_output \<Rightarrow> wr" where
  "TxOutput_writeTo t =
     thenE (WriteVarint63 (txo_AssetVersion t))
       (thenE (WriteExtensibleString (txo_CommitmentSuffix t) (writeOutputCommitment t))
         (WriteVarstr31 []))"

section \<open>Transactions (transaction.go)\<close>

record tx_data =
  td_Version :: nat
  td_SerializedSize :: nat
  td_TimeRange :: nat
  td_Inputs :: "tx_input list"
  td_Outputs :: "tx_output list"

definition zero_tx_data :: tx_data where
  "zero_tx_data =
     \<lparr>td_Version = 0, td_SerializedSize = 0, td_TimeRange = 0, td_Inputs = [], td_Outputs = []\<rparr>"

definition serRequired :: byte where "serRequired = 7"

definition TxData_readBody :: "tx_data \<Rightarrow> tx_data rd" where
  "TxData_readBody t =
     bindE (ReadFull 1) (\<lambda>serflags.
     if serflags \<noteq> [serRequired] then throwE UnsupportedSerflags
     else
       bindE ReadVarint63 (\<lambda>version.
       bindE ReadVarint63 (\<lambda>timeRange.
       bindE ReadVarint31 (\<lambda>n.
       bindE (collectE n TxInput_readFrom) (\<lambda>ins.
       bindE ReadVarint31 (\<lambda>n'.
       bindE (collectE n' TxOutput_readFrom) (\<lambda>outs.
         returnE (t\<lparr>td_Version := version, td_TimeRange := timeRange,
           td_Inputs := td_Inputs t @ ins, td_Outputs := td_Outputs t @ outs\<rparr>))))))))"

definition TxData_readFrom :: "tx_data \<Rightarrow> tx_data rd" where
  "TxData_readFrom t =
     bindE (getsE length) (\<lambda>startSerializedSize.
     bindE (TxData_readBody t) (\<lambda>t'.
     bindE (getsE length) (\<lambda>unread.
       returnE (t'\<lparr>td_SerializedSize := startSerializedSize - unread\<rparr>))))"

definition TxData_writeTo :: "tx_data \<Rightarrow> byte \<Rightarrow> wr" where
  "TxData_writeTo t serflags =
     thenE (Write [serflags])
       (thenE (WriteVarint63 (td_Version t))
         (thenE (WriteVarint63 (td_TimeRange t))
           (thenE (WriteVarint31 (length (td_Inputs t)))
             (thenE (forE TxInput_writeTo (td_Inputs t))
               (thenE (WriteVarint31 (length (td_Outputs t)))
                 (forE TxOutput_writeTo (td_Outputs t)))))))"

definition TxData_WriteTo :: "tx_data \<Rightarrow> wr" where
  "TxData_WriteTo t = TxData_writeTo t serRequired"

definition TxData_MarshalText :: "tx_data \<Rightarrow> wire_error + string" where
  "TxData_MarshalText t =
     (case TxData_WriteTo t [] of (Inl e, _) \<Rightarrow> Inl e | (Inr _, buf) \<Rightarrow> Inr (hex_encode buf))"

definition TxData_UnmarshalText :: "tx_data \<Rightarrow> string \<Rightarrow> wire_error + tx_data" where
  "TxData_UnmarshalText t p =
     (case hex_decode p of (b, ok) \<Rightarrow>
        if \<not> ok then Inl InvalidHex
        else case TxData_readFrom t b of
          (Inl e, _) \<Rightarrow> Inl e
        | (Inr t', r) \<Rightarrow> if length r > 0 then Inl TrailingGarbage else Inr t')"

section \<open>Block headers (block_header.go, block_commitment.go, block_witness.go)\<close>

record block_header =
  bh_Version :: nat
  bh_Height :: nat
  bh_PreviousBlockHash :: hash
  bh_Timestamp :: nat
  bh_TransactionsMerkleRoot :: hash
  bh_TransactionStatusHash :: hash
  bh_Witness :: "bytes list"

definition SerBlockHeader :: byte where "SerBlockHeader = 1"
definition SerBlockTransactions :: byte where "SerBlockTransactions = 2"
definition SerBlockFull :: byte where "SerBlockFull = 3"

definition BlockCommitment_readFrom :: "(hash \<times> hash) rd" where
  "BlockCommitment_readFrom =
     bindE Hash_ReadFrom (\<lambda>root. bindE Hash_ReadFrom (\<lambda>status. returnE (root, status)))"

definition BlockCommitment_writeTo :: "block_header \<Rightarrow> wr" where
  "BlockCommitment_writeTo bh =
     thenE (Hash_WriteTo (bh_TransactionsMerkleRoot bh)) (Hash_WriteTo (bh_TransactionStatusHash bh))"

definition BlockHeader_readFrom :: "block_header \<Rightarrow> (byte \<times> block_header) rd" where
  "BlockHeader_readFrom bh =
     bindE (ReadFull 1) (\<lambda>serflags.
     let serflag = hd serflags in
     if serflag = SerBlockTransactions then returnE (serflag, bh)
     else if serflag \<noteq> SerBlockHeader \<and> serflag \<noteq> SerBlockFull then throwE UnsupportedSerflags
     else
       bindE ReadVarint63 (\<lambda>version.
       bindE ReadVarint63 (\<lambda>height.
       bindE Hash_ReadFrom (\<lambda>previous.
       bindE ReadVarint63 (\<lambda>timestamp.
       bindE (ReadExtensibleString BlockCommitment_readFrom) (\<lambda>((root, status), _).
       bindE (ReadExtensibleString ReadVarstrList) (\<lambda>(witness, _).
         returnE (serflag, \<lparr>bh_Version = version, bh_Height = height, bh_PreviousBlockHash = previous,
           bh_Timestamp = timestamp, bh_TransactionsMerkleRoot = root,
           bh_TransactionStatusHash = status, bh_Witness = witness\<rparr>))))))))"

definition BlockHeader_writeTo :: "block_header \<Rightarrow> byte \<Rightarrow> wr" where
  "BlockHeader_writeTo bh serflags =
     thenE (Write [serflags])
       (if serflags = SerBlockTransactions then returnE ()
        else
          thenE (WriteVarint63 (bh_Version bh))
            (thenE (WriteVarint63 (bh_Height bh))
              (thenE (Hash_WriteTo (bh_PreviousBlockHash bh))
                (thenE (WriteVarint63 (bh_Timestamp bh))
                  (thenE (WriteExtensibleString [] (BlockCommitment_writeTo bh))
                    (WriteExtensibleString [] (WriteVarstrList (bh_Witness bh))))))))"

text \<open>The slots of the block witness; \<open>None\<close> stands for the panic when the new length wraps to zero.\<close>

definition Witness_Set :: "bytes list \<Rightarrow> nat \<Rightarrow> bytes \<Rightarrow> bytes list option" where
  "Witness_Set ws index d =
     (let ws' = (if length ws \<le> index
                 then take (u64 (index + 1)) ws @ replicate (u64 (index + 1) - length ws) []
                 else ws)
      in if index < length ws' then Some (ws'[index := d]) else None)"

definition Witness_Delete :: "bytes list \<Rightarrow> nat \<Rightarrow> bytes list" where
  "Witness_Delete ws index = (if length ws > index then ws[index := []] else ws)"

definition Witness_Get :: "bytes list \<Rightarrow> nat \<Rightarrow> bytes" where
  "Witness_Get ws index = (if length ws > index then ws ! index else [])"

section \<open>Blocks (block.go)\<close>

text \<open>
  A transaction of a block is its \<^verbatim>\<open>TxData\<close>; the entries that \<^verbatim>\<open>NewTx\<close> derives from it are not written.  Reading a block
  derives them and is in \<open>Block_Wire\<close>.
\<close>

record wire_block =
  wb_Header :: block_header
  wb_Transactions :: "tx_data list"

definition Block_writeTo :: "wire_block \<Rightarrow> byte \<Rightarrow> wr" where
  "Block_writeTo b serflags =
     thenE (BlockHeader_writeTo (wb_Header b) serflags)
       (if serflags = SerBlockHeader then returnE ()
        else thenE (WriteVarint31 (length (wb_Transactions b))) (forE TxData_WriteTo (wb_Transactions b)))"

definition Block_marshalText :: "wire_block \<Rightarrow> byte \<Rightarrow> wire_error + string" where
  "Block_marshalText b serflags =
     (case Block_writeTo b serflags [] of (Inl e, _) \<Rightarrow> Inl e | (Inr _, buf) \<Rightarrow> Inr (hex_encode buf))"

end
