(* ===== verification/Tx_Wire_Wf.thy ===== *)
theory Tx_Wire_Wf
  imports Tx_Wire
begin

text \<open>
  Round trips of the wire format.  Writing a value that the code can hold and reading it back
  succeeds and gives the value with every commitment suffix doubled: \<^verbatim>\<open>writeContents\<close> writes the suffix
  and \<^verbatim>\<open>WriteExtensibleString\<close> writes it again.  Values without such suffixes come back unchanged.
\<close>

section \<open>Values the format can carry\<close>

definition amount_ok :: "asset_amount \<Rightarrow> bool" where
  "amount_ok a = (case aa_AssetId a of None \<Rightarrow> False | Some i \<Rightarrow> hash_ok i)"

definition spend_commitment_ok :: "spend_commitment \<Rightarrow> bool" where
  "spend_commitment_ok sc \<longleftrightarrow> hash_ok (sc_SourceID sc) \<and> amount_ok (sc_AssetAmount sc) \<and> sc_VMVersion sc = 1"

definition output_commitment_ok :: "output_commitment \<Rightarrow> bool" where
  "output_commitment_ok oc \<longleftrightarrow> amount_ok (oc_AssetAmount oc) \<and> oc_VMVersion oc = 1"

definition typed_input_ok :: "typed_input \<Rightarrow> bool" where
  "typed_input_ok t =
     (case t of
        SpendIn i \<Rightarrow> spend_commitment_ok (si_SpendCommitment i)
      | CrossChainIn i \<Rightarrow> spend_commitment_ok (ci_SpendCommitment i)
      | VetoIn i \<Rightarrow> spend_commitment_ok (vi_SpendCommitment i)
      | CoinbaseIn _ \<Rightarrow> True)"

definition input_ok :: "tx_input \<Rightarrow> bool" where
  "input_ok t =
     (case ti_TypedInput t of
        None \<Rightarrow> ti_AssetVersion t \<noteq> 1
      | Some typed \<Rightarrow> ti_AssetVersion t = 1 \<and> typed_input_ok typed)"

definition typed_output_ok :: "typed_output \<Rightarrow> bool" where
  "typed_output_ok t =
     (case t of
        IntraChainOut o' \<Rightarrow> output_commitment_ok (to_OutputCommitment o')
      | CrossChainOut o' \<Rightarrow> output_commitment_ok (to_OutputCommitment o')
      | VoteOut o' _ \<Rightarrow> output_commitment_ok (to_OutputCommitment o'))"

definition output_ok :: "tx_output \<Rightarrow> bool" where
  "output_ok t =
     (case txo_TypedOutput t of
        None \<Rightarrow> txo_AssetVersion t \<noteq> 1
      | Some typed \<Rightarrow> txo_AssetVersion t = 1 \<and> typed_output_ok typed)"

definition tx_data_ok :: "tx_data \<Rightarrow> bool" where
  "tx_data_ok t \<longleftrightarrow> list_all input_ok (td_Inputs t) \<and> list_all output_ok (td_Outputs t)"

definition header_ok :: "block_header \<Rightarrow> bool" where
  "header_ok bh \<longleftrightarrow>
     hash_ok (bh_PreviousBlockHash bh) \<and> hash_ok (bh_TransactionsMerkleRoot bh) \<and>
     hash_ok (bh_TransactionStatusHash bh)"

section \<open>What comes back\<close>

definition relay_typed_input :: "typed_input \<Rightarrow> typed_input" where
  "relay_typed_input t =
     (case t of
        SpendIn i \<Rightarrow> SpendIn (i\<lparr>si_SpendCommitmentSuffix :=
          si_SpendCommitmentSuffix i @ si_SpendCommitmentSuffix i\<rparr>)
      | CrossChainIn i \<Rightarrow> CrossChainIn (i\<lparr>ci_SpendCommitmentSuffix :=
          ci_SpendCommitmentSuffix i @ ci_SpendCommitmentSuffix i\<rparr>)
      | VetoIn i \<Rightarrow> VetoIn (i\<lparr>vi_VetoCommitmentSuffix :=
          vi_VetoCommitmentSuffix i @ vi_VetoCommitmentSuffix i\<rparr>)
      | CoinbaseIn a \<Rightarrow> CoinbaseIn a)"

definition relay_input :: "tx_input \<Rightarrow> tx_input" where
  "relay_input t = t\<lparr>ti_TypedInput := map_option relay_typed_input (ti_TypedInput t)\<rparr>"

definition relay_out :: "typed_out \<Rightarrow> typed_out" where
  "relay_out o' = o'\<lparr>to_InnerSuffix := to_InnerSuffix o' @ to_InnerSuffix o'\<rparr>"

definition relay_typed_output :: "typed_output \<Rightarrow> typed_output" where
  "relay_typed_output t =
     (case t of
        IntraChainOut o' \<Rightarrow> IntraChainOut (relay_out o')
      | CrossChainOut o' \<Rightarrow> CrossChainOut (relay_out o')
      | VoteOut o' vote \<Rightarrow> VoteOut (relay_out o') vote)"

definition relay_output :: "tx_output \<Rightarrow> tx_output" where
  "relay_output t = t\<lparr>txo_TypedOutput := map_option relay_typed_output (txo_TypedOutput t)\<rparr>"

definition relay_tx :: "tx_data \<Rightarrow> tx_data" where
  "relay_tx t =
     t\<lparr>td_SerializedSize := length (snd (TxData_WriteTo t [])),
       td_Inputs := map relay_input (td_Inputs t), td_Outputs := map relay_output (td_Outputs t)\<rparr>"

section \<open>Commitments\<close>

lemma Write_Nil: "Write [] = returnE ()"
  by (simp add: Write_def modifyE_def returnE_def)

lemma optional_suffix: "(if length suffix > 0 then Write suffix else returnE ()) = Write suffix"
  by (simp add: Write_Nil)

lemma ext_absorb:
  assumes "appending w"
  shows "WriteExtensibleString suffix (thenE w (Write s)) = WriteExtensibleString (s @ suffix) w"
  by (cases "w []") (auto simp: WriteExtensibleString_def thenE_apply Write_def modifyE_def fun_eq_iff
      split: sum.splits)

lemma codes_AssetAmount_ok: "amount_ok a \<Longrightarrow> codes (AssetAmount_WriteTo a) AssetAmount_ReadFrom a"
  by (auto simp: amount_ok_def intro: codes_AssetAmount split: option.splits)

lemma codes_SpendCommitment:
  assumes "spend_commitment_ok sc"
  shows "codes (SpendCommitment_writeExtensibleString sc suffix 1) (SpendCommitment_readFrom 1)
    (sc, suffix @ suffix)"
proof -
  let ?w = "thenE (Hash_WriteTo (sc_SourceID sc))
            (thenE (AssetAmount_WriteTo (sc_AssetAmount sc))
              (thenE (WriteVarint63 (sc_SourcePosition sc))
                (thenE (WriteVarint63 (sc_VMVersion sc)) (WriteVarstr31 (sc_ControlProgram sc)))))"
  let ?r = "bindE Hash_ReadFrom (\<lambda>sourceID.
          bindE AssetAmount_ReadFrom (\<lambda>assetAmount.
          bindE ReadVarint63 (\<lambda>sourcePosition.
          bindE ReadVarint63 (\<lambda>vmVersion.
          if vmVersion \<noteq> 1 then throwE UnrecognizedVM
          else bindE ReadVarstr31 (\<lambda>controlProgram.
            returnE \<lparr>sc_AssetAmount = assetAmount, sc_SourceID = sourceID,
              sc_SourcePosition = sourcePosition, sc_VMVersion = vmVersion,
              sc_ControlProgram = controlProgram\<rparr>)))))"
  from assms have ok: "hash_ok (sc_SourceID sc)" "amount_ok (sc_AssetAmount sc)" "sc_VMVersion sc = 1"
    by (simp_all add: spend_commitment_ok_def)
  have "codes ?w ?r \<lparr>sc_AssetAmount = sc_AssetAmount sc, sc_SourceID = sc_SourceID sc,
      sc_SourcePosition = sc_SourcePosition sc, sc_VMVersion = sc_VMVersion sc,
      sc_ControlProgram = sc_ControlProgram sc\<rparr>"
    by (rule codes_thenE [OF codes_Hash [OF ok(1)]], rule codes_thenE [OF codes_AssetAmount_ok [OF ok(2)]],
        rule codes_thenE [OF codes_Varint63], rule codes_thenE [OF codes_Varint63])
      (simp add: ok(3), rule codes_last [OF codes_Varstr31])
  then have w: "codes ?w ?r sc" by (rule codes_cong) (cases sc, simp)
  show ?thesis
    unfolding SpendCommitment_writeExtensibleString_def SpendCommitment_writeContents_def
      SpendCommitment_readFrom_def optional_suffix
    using codes_ExtensibleString [OF w, of "suffix @ suffix"] ext_absorb [OF codes_appending [OF w]]
    by simp
qed

lemma codes_OutputCommitment:
  assumes "output_commitment_ok oc"
  shows "codes (OutputCommitment_writeExtensibleString oc suffix 1) (OutputCommitment_readFrom 1)
    (oc, suffix @ suffix)"
proof -
  let ?w = "thenE (AssetAmount_WriteTo (oc_AssetAmount oc))
            (thenE (WriteVarint63 (oc_VMVersion oc)) (WriteVarstr31 (oc_ControlProgram oc)))"
  let ?r = "bindE AssetAmount_ReadFrom (\<lambda>assetAmount.
          bindE ReadVarint63 (\<lambda>vmVersion.
          if vmVersion \<noteq> 1 then throwE UnrecognizedVM
          else bindE ReadVarstr31 (\<lambda>controlProgram.
            returnE \<lparr>oc_AssetAmount = assetAmount, oc_VMVersion = vmVersion,
              oc_ControlProgram = controlProgram\<rparr>)))"
  from assms have ok: "amount_ok (oc_AssetAmount oc)" "oc_VMVersion oc = 1"
    by (simp_all add: output_commitment_ok_def)
  have "codes ?w ?r \<lparr>oc_AssetAmount = oc_AssetAmount oc, oc_VMVersion = oc_VMVersion oc,
      oc_ControlProgram = oc_ControlProgram oc\<rparr>"
    by (rule codes_thenE [OF codes_AssetAmount_ok [OF ok(1)]], rule codes_thenE [OF codes_Varint63])
      (simp add: ok(2), rule codes_last [OF codes_Varstr31])
  then have w: "codes ?w ?r oc" by (rule codes_cong) (cases oc, simp)
  show ?thesis
    unfolding OutputCommitment_writeExtensibleString_def OutputCommitment_writeContents_def
      OutputCommitment_readFrom_def optional_suffix
    using codes_ExtensibleString [OF w, of "suffix @ suffix"] ext_absorb [OF codes_appending [OF w]]
    by simp
qed

lemma codes_tag: "codes (Write [b]) (ReadFull 1) [b]"
  by (rule codes_Write_fixed) (simp add: ReadFull_def)

lemmas input_types = SpendInputType_def CoinbaseInputType_def CrossChainInputType_def VetoInputType_def
lemmas output_types = IntraChainOutputType_def CrossChainOutputType_def VoteOutputType_def

section \<open>Inputs and outputs\<close>

text \<open>The value of an input as the commitment reader leaves it, its arguments not read yet.\<close>

definition bare_input :: "typed_input \<Rightarrow> typed_input" where
  "bare_input t = SetArguments (relay_typed_input t) []"

lemma codes_writeInputCommitment:
  assumes "input_ok t"
  shows "codes (writeInputCommitment t) (readInputCommitment (ti_AssetVersion t))
    (map_option bare_input (ti_TypedInput t))"
proof (cases "ti_TypedInput t")
  case None
  then show ?thesis
    using assms by (simp add: input_ok_def writeInputCommitment_def readInputCommitment_def codes_returnE)
next
  case (Some typed)
  then have v: "ti_AssetVersion t = 1" and ok: "typed_input_ok typed"
    using assms by (simp_all add: input_ok_def)
  show ?thesis
  proof (cases typed)
    case (SpendIn i)
    with ok have sc: "spend_commitment_ok (si_SpendCommitment i)" by (simp add: typed_input_ok_def)
    show ?thesis
      unfolding writeInputCommitment_def readInputCommitment_def v Some SpendIn
      by (simp del: One_nat_def, rule codes_thenE [OF codes_tag], simp add: input_types del: One_nat_def)
        (rule codes_end [OF codes_SpendCommitment [OF sc]],
          cases i, simp add: bare_input_def relay_typed_input_def SetArguments_def)
  next
    case (CoinbaseIn a)
    show ?thesis
      unfolding writeInputCommitment_def readInputCommitment_def v Some CoinbaseIn
      by (simp del: One_nat_def, rule codes_thenE [OF codes_tag], simp add: input_types del: One_nat_def)
        (rule codes_end [OF codes_Varstr31],
          simp add: bare_input_def relay_typed_input_def SetArguments_def)
  next
    case (VetoIn i)
    with ok have sc: "spend_commitment_ok (vi_SpendCommitment i)" by (simp add: typed_input_ok_def)
    show ?thesis
      unfolding writeInputCommitment_def readInputCommitment_def v Some VetoIn
      by (simp del: One_nat_def, rule codes_thenE [OF codes_tag], simp add: input_types del: One_nat_def)
        (rule codes_thenE [OF codes_SpendCommitment [OF sc]], simp only: prod.case, rule codes_end [OF codes_Varstr31],
          cases i, simp add: bare_input_def relay_typed_input_def SetArguments_def)
  next
    case (CrossChainIn i)
    with ok have sc: "spend_commitment_ok (ci_SpendCommitment i)" by (simp add: typed_input_ok_def)
    show ?thesis
      unfolding writeInputCommitment_def readInputCommitment_def v Some CrossChainIn
      by (simp del: One_nat_def, rule codes_thenE [OF codes_tag], simp add: input_types del: One_nat_def)
        (rule codes_thenE [OF codes_SpendCommitment [OF sc]], simp only: prod.case, rule codes_thenE [OF codes_Varint63],
          rule codes_thenE [OF codes_Varstr31], rule codes_end [OF codes_Varstr31],
          cases i, simp add: bare_input_def relay_typed_input_def SetArguments_def)
  qed
qed

lemma codes_writeInputWitness:
  assumes "input_ok t"
  shows "codes (writeInputWitness t)
    (readInputWitness (ti_AssetVersion t) (map_option bare_input (ti_TypedInput t)))
    (map_option relay_typed_input (ti_TypedInput t))"
proof (cases "ti_TypedInput t")
  case None
  then show ?thesis
    using assms by (simp add: input_ok_def writeInputWitness_def readInputWitness_def codes_returnE)
next
  case (Some typed)
  then have v: "ti_AssetVersion t = 1" using assms by (simp add: input_ok_def)
  have args: "codes (WriteVarstrList l) (bindE ReadVarstrList (\<lambda>args. returnE (f args))) (f l)"
    for l and f :: "bytes list \<Rightarrow> typed_input option"
    by (rule codes_last [OF codes_VarstrList])
  show ?thesis
    unfolding writeInputWitness_def readInputWitness_def v Some
    by (cases typed)
      (simp_all add: bare_input_def relay_typed_input_def SetArguments_def codes_returnE
        args [THEN codes_cong])
qed

lemma codes_TxInput:
  assumes "input_ok t"
  shows "codes (TxInput_writeTo t) TxInput_readFrom (relay_input t)"
  unfolding TxInput_writeTo_def TxInput_readFrom_def
  by (rule codes_thenE [OF codes_Varint63],
      rule codes_thenE [OF codes_ExtensibleString [OF codes_writeInputCommitment [OF assms]]],
      simp only: prod.case,
      rule codes_end [OF codes_ExtensibleString [OF codes_writeInputWitness [OF assms]]])
    (cases t, simp add: relay_input_def)

lemma codes_writeOutputCommitment:
  assumes "output_ok t"
  shows "codes (writeOutputCommitment t) (readOutputCommitment (txo_AssetVersion t))
    (map_option relay_typed_output (txo_TypedOutput t))"
proof (cases "txo_TypedOutput t")
  case None
  then show ?thesis
    using assms by (simp add: output_ok_def writeOutputCommitment_def readOutputCommitment_def codes_returnE)
next
  case (Some typed)
  then have v: "txo_AssetVersion t = 1" and ok: "typed_output_ok typed"
    using assms by (simp_all add: output_ok_def)
  show ?thesis
  proof (cases typed)
    case (IntraChainOut o')
    with ok have oc: "output_commitment_ok (to_OutputCommitment o')" by (simp add: typed_output_ok_def)
    show ?thesis
      unfolding writeOutputCommitment_def readOutputCommitment_def v Some IntraChainOut
      by (simp del: One_nat_def, rule codes_thenE [OF codes_tag], simp add: output_types del: One_nat_def)
        (rule codes_end [OF codes_OutputCommitment [OF oc]],
          cases o', simp add: relay_typed_output_def relay_out_def)
  next
    case (CrossChainOut o')
    with ok have oc: "output_commitment_ok (to_OutputCommitment o')" by (simp add: typed_output_ok_def)
    show ?thesis
      unfolding writeOutputCommitment_def readOutputCommitment_def v Some CrossChainOut
      by (simp del: One_nat_def, rule codes_thenE [OF codes_tag], simp add: output_types del: One_nat_def)
        (rule codes_end [OF codes_OutputCommitment [OF oc]],
          cases o', simp add: relay_typed_output_def relay_out_def)
  next
    case (VoteOut o' vote)
    with ok have oc: "output_commitment_ok (to_OutputCommitment o')" by (simp add: typed_output_ok_def)
    show ?thesis
      unfolding writeOutputCommitment_def readOutputCommitment_def v Some VoteOut
      by (simp del: One_nat_def, rule codes_thenE [OF codes_tag], simp add: output_types del: One_nat_def)
        (rule codes_thenE [OF codes_Varstr31], rule codes_end [OF codes_OutputCommitment [OF oc]],
          cases o', simp add: relay_typed_output_def relay_out_def)
  qed
qed

lemma codes_TxOutput:
  assumes "output_ok t"
  shows "codes (TxOutput_writeTo t) TxOutput_readFrom (relay_output t)"
  unfolding TxOutput_writeTo_def TxOutput_readFrom_def
  by (rule codes_thenE [OF codes_Varint63],
      rule codes_thenE [OF codes_ExtensibleString [OF codes_writeOutputCommitment [OF assms]]],
      simp only: prod.case, rule codes_end [OF codes_Varstr31])
    (cases t, simp add: relay_output_def)

interpretation inputs: codec TxInput_writeTo TxInput_readFrom input_ok relay_input
  by unfold_locales (rule codes_TxInput)

interpretation outputs: codec TxOutput_writeTo TxOutput_readFrom output_ok relay_output
  by unfold_locales (rule codes_TxOutput)

section \<open>Transactions\<close>

definition extend_tx :: "tx_data \<Rightarrow> tx_data \<Rightarrow> tx_data" where
  "extend_tx t0 t =
     t0\<lparr>td_Version := td_Version t, td_TimeRange := td_TimeRange t,
       td_Inputs := td_Inputs t0 @ map relay_input (td_Inputs t),
       td_Outputs := td_Outputs t0 @ map relay_output (td_Outputs t)\<rparr>"

lemma codes_TxData_body:
  assumes "tx_data_ok t"
  shows "codes (TxData_WriteTo t) (TxData_readBody t0) (extend_tx t0 t)"
proof -
  have ins: "\<forall>x \<in> set (td_Inputs t). input_ok x" and outs: "\<forall>x \<in> set (td_Outputs t). output_ok x"
    using assms by (simp_all add: tx_data_ok_def list_all_iff)
  show ?thesis
    unfolding TxData_WriteTo_def TxData_writeTo_def TxData_readBody_def
    by (rule codes_thenE [OF codes_tag], simp only: simp_thms if_False,
        rule codes_thenE [OF codes_Varint63], rule codes_thenE [OF codes_Varint63],
        rule codes_thenE [OF codes_Varint31], rule codes_thenE [OF inputs.items_code [OF ins]],
        rule codes_thenE [OF codes_Varint31], rule codes_end [OF outputs.items_code [OF outs]])
      (simp add: extend_tx_def)
qed

lemma codes_TxData:
  assumes "tx_data_ok t"
  shows "codes (TxData_WriteTo t) (TxData_readFrom zero_tx_data) (relay_tx t)"
proof -
  note body = codes_TxData_body [OF assms, of zero_tx_data]
  have size: "relay_tx t = (extend_tx zero_tx_data t)\<lparr>td_SerializedSize := length (snd (TxData_WriteTo t []))\<rparr>"
    by (cases t) (simp add: relay_tx_def extend_tx_def zero_tx_data_def)
  show ?thesis
    using body unfolding codes_def size
    by (auto simp: TxData_readFrom_def bindE_apply getsE_def returnE_def)
qed

interpretation txs: codec TxData_WriteTo "TxData_readFrom zero_tx_data" tx_data_ok relay_tx
  by unfold_locales (rule codes_TxData)

section \<open>Headers and blocks\<close>

lemma codes_BlockHeader:
  assumes "header_ok bh" and "serflags = SerBlockHeader \<or> serflags = SerBlockFull"
  shows "codes (BlockHeader_writeTo bh serflags) (BlockHeader_readFrom bh0) (serflags, bh)"
proof -
  from assms(1) have ok: "hash_ok (bh_PreviousBlockHash bh)" "hash_ok (bh_TransactionsMerkleRoot bh)"
      "hash_ok (bh_TransactionStatusHash bh)" by (simp_all add: header_ok_def)
  have commitment: "codes (BlockCommitment_writeTo bh) BlockCommitment_readFrom
      (bh_TransactionsMerkleRoot bh, bh_TransactionStatusHash bh)"
    unfolding BlockCommitment_writeTo_def BlockCommitment_readFrom_def
    by (rule codes_thenE [OF codes_Hash [OF ok(2)]], rule codes_end [OF codes_Hash [OF ok(3)]]) simp
  have known: "(serflags = SerBlockTransactions) = False"
      "(serflags \<noteq> SerBlockHeader \<and> serflags \<noteq> SerBlockFull) = False"
    using assms(2) by (auto simp: SerBlockHeader_def SerBlockFull_def SerBlockTransactions_def)
  show ?thesis
    unfolding BlockHeader_writeTo_def BlockHeader_readFrom_def
    by (rule codes_thenE [OF codes_tag], simp only: Let_def list.sel known if_False)
      (rule codes_thenE [OF codes_Varint63],
        rule codes_thenE [OF codes_Varint63], rule codes_thenE [OF codes_Hash [OF ok(1)]],
        rule codes_thenE [OF codes_Varint63],
        rule codes_thenE [OF codes_ExtensibleString [OF commitment]], simp only: prod.case,
        rule codes_end [OF codes_ExtensibleString [OF codes_VarstrList]], cases bh, simp)
qed

section \<open>Values without commitment suffixes\<close>

definition no_suffix_input :: "tx_input \<Rightarrow> bool" where
  "no_suffix_input t =
     (case ti_TypedInput t of
        Some (SpendIn i) \<Rightarrow> si_SpendCommitmentSuffix i = []
      | Some (CrossChainIn i) \<Rightarrow> ci_SpendCommitmentSuffix i = []
      | Some (VetoIn i) \<Rightarrow> vi_VetoCommitmentSuffix i = []
      | _ \<Rightarrow> True)"

definition no_suffix_output :: "tx_output \<Rightarrow> bool" where
  "no_suffix_output t =
     (case txo_TypedOutput t of
        Some (IntraChainOut o') \<Rightarrow> to_InnerSuffix o' = []
      | Some (CrossChainOut o') \<Rightarrow> to_InnerSuffix o' = []
      | Some (VoteOut o' _) \<Rightarrow> to_InnerSuffix o' = []
      | None \<Rightarrow> True)"

definition no_suffix :: "tx_data \<Rightarrow> bool" where
  "no_suffix t \<longleftrightarrow> list_all no_suffix_input (td_Inputs t) \<and> list_all no_suffix_output (td_Outputs t)"

lemma relay_input_id: "no_suffix_input t \<Longrightarrow> relay_input t = t"
  by (cases t) (auto simp: no_suffix_input_def relay_input_def relay_typed_input_def
      split: option.splits typed_input.splits)

lemma relay_output_id: "no_suffix_output t \<Longrightarrow> relay_output t = t"
  by (cases t) (auto simp: no_suffix_output_def relay_output_def relay_typed_output_def relay_out_def
      split: option.splits typed_output.splits)

lemma relay_tx_id:
  "no_suffix t \<Longrightarrow> relay_tx t = t\<lparr>td_SerializedSize := length (snd (TxData_WriteTo t []))\<rparr>"
  by (cases t) (simp add: no_suffix_def relay_tx_def list_all_iff relay_input_id relay_output_id map_idI)

section \<open>Samples\<close>

definition sample_spend :: "bytes \<Rightarrow> tx_input" where
  "sample_spend suffix =
     \<lparr>ti_AssetVersion = 1,
      ti_TypedInput = Some (SpendIn
        \<lparr>si_SpendCommitmentSuffix = suffix, si_Arguments = [[1, 2], []],
         si_SpendCommitment =
           \<lparr>sc_AssetAmount = \<lparr>aa_AssetId = Some zeroHash, aa_Amount = 300\<rparr>, sc_SourceID = zeroHash,
            sc_SourcePosition = 2, sc_VMVersion = 1, sc_ControlProgram = [81]\<rparr>\<rparr>),
      ti_CommitmentSuffix = [], ti_WitnessSuffix = [5]\<rparr>"

definition sample_vote :: tx_output where
  "sample_vote =
     \<lparr>txo_AssetVersion = 1,
      txo_TypedOutput = Some (VoteOut
        \<lparr>to_OutputCommitment =
           \<lparr>oc_AssetAmount = \<lparr>aa_AssetId = Some zeroHash, aa_Amount = 299\<rparr>, oc_VMVersion = 1,
            oc_ControlProgram = [81]\<rparr>, to_InnerSuffix = []\<rparr> [7, 8]),
      txo_CommitmentSuffix = []\<rparr>"

definition sample_tx_data :: "bytes \<Rightarrow> tx_data" where
  "sample_tx_data suffix =
     \<lparr>td_Version = 1, td_SerializedSize = 0, td_TimeRange = 1000,
      td_Inputs = [sample_spend suffix], td_Outputs = [sample_vote]\<rparr>"

lemma sample_tx_data_ok: "tx_data_ok (sample_tx_data [])" "no_suffix (sample_tx_data [])"
  by code_simp+

section \<open>Properties\<close>

lemma MarshalText_bytes:
  "TxData_MarshalText t = Inr s \<Longrightarrow>
   fst (TxData_WriteTo t []) = Inr () \<and> s = hex_encode (snd (TxData_WriteTo t []))"
  by (cases "TxData_WriteTo t []") (auto simp: TxData_MarshalText_def split: sum.splits)

text \<open>
  Property C8: the text of a transaction reads back, with the size of its wire format filled in and
  its commitment suffixes doubled, so that a transaction without such suffixes comes back
  unchanged; text with further bytes behind it is refused.
\<close>

theorem tx_text_roundtrip:
  assumes "tx_data_ok t" and "TxData_MarshalText t = Inr s"
  shows "TxData_UnmarshalText zero_tx_data s = Inr (relay_tx t) \<and>
    length s = 2 * td_SerializedSize (relay_tx t) \<and>
    (no_suffix t \<longrightarrow> relay_tx t = t\<lparr>td_SerializedSize := length s div 2\<rparr>) \<and>
    (extra \<noteq> [] \<longrightarrow> TxData_UnmarshalText zero_tx_data (s @ hex_encode extra) = Inl TrailingGarbage)"
proof -
  note w = MarshalText_bytes [OF assms(2)]
  have read: "TxData_readFrom zero_tx_data (snd (TxData_WriteTo t []) @ rest) = (Inr (relay_tx t), rest)"
    for rest using codes_TxData [OF assms(1)] w by (simp add: codes_def)
  have "s @ hex_encode extra = hex_encode (snd (TxData_WriteTo t []) @ extra)"
    using w by (simp add: hex_encode_def)
  with w read [of "[]"] read [of extra] relay_tx_id [of t] show ?thesis
    by (simp add: TxData_UnmarshalText_def hex_decode_encode length_hex_encode relay_tx_def)
qed

theorem tx_text_roundtrip_witness:
  "TxData_UnmarshalText zero_tx_data (hex_encode (snd (TxData_WriteTo (sample_tx_data []) []))) =
     Inr (relay_tx (sample_tx_data []))"
proof -
  have "TxData_MarshalText (sample_tx_data []) =
      Inr (hex_encode (snd (TxData_WriteTo (sample_tx_data []) [])))" by code_simp
  from tx_text_roundtrip [OF sample_tx_data_ok(1) this, of "[]"] show ?thesis by blast
qed

text \<open>
  A transaction with a commitment suffix does not survive being read and written:
  the one-byte suffix of the sample is written twice and comes back as two bytes, and writing the
  result takes two bytes more.
\<close>

lemma suffix_doubles:
  "TxData_UnmarshalText zero_tx_data
      (hex_encode (snd (TxData_WriteTo (sample_tx_data [9]) []))) = Inr (relay_tx (sample_tx_data [9])) \<and>
   td_Inputs (relay_tx (sample_tx_data [9])) = [sample_spend [9, 9]] \<and>
   length (snd (TxData_WriteTo (relay_tx (sample_tx_data [9])) [])) =
     length (snd (TxData_WriteTo (sample_tx_data [9]) [])) + 2"
  by code_simp

end
