(* ===== verification/Entry_Hash.thy ===== *)
theory Entry_Hash
  imports Wire
begin

text \<open>
  Identifiers of entries (\<^verbatim>\<open>protocol/bc/entry.go\<close> and the \<^verbatim>\<open>writeForHash\<close> methods of the entry types).

  SHA3-256 is a library function and an argument \<open>sha3\<close> of the definitions; what the code relies on is
  that it returns 32 bytes (\<open>sha3_ok\<close>) and that the inputs at hand do not collide.  \<open>None\<close> stands for the
  panic of \<^verbatim>\<open>mustWriteForHash\<close>, which happens when a length does not fit 31 bits.
\<close>

section \<open>Writing for the hash\<close>

definition hash_u64 :: "nat \<Rightarrow> wr" where
  "hash_u64 v = Write (le_bytes 8 v)"

definition hash_ptr :: "hash option \<Rightarrow> wr" where
  "hash_ptr h = (case h of None \<Rightarrow> Write (replicate 32 0) | Some x \<Rightarrow> Write (Byte32 x))"

text \<open>A struct is the sequence of its fields; a nil pointer to a struct writes nothing.\<close>

definition hash_amount :: "asset_amount option \<Rightarrow> wr" where
  "hash_amount a =
     (case a of
        None \<Rightarrow> returnE ()
      | Some v \<Rightarrow> thenE (hash_ptr (aa_AssetId v)) (hash_u64 (aa_Amount v)))"

definition hash_source :: "value_source option \<Rightarrow> wr" where
  "hash_source src =
     (case src of
        None \<Rightarrow> returnE ()
      | Some v \<Rightarrow> thenE (hash_ptr (vl_Ref v)) (thenE (hash_amount (vl_Value v)) (hash_u64 (vl_Position v))))"

definition hash_program :: "bc_program \<Rightarrow> wr" where
  "hash_program p = thenE (hash_u64 (prog_VmVersion p)) (WriteVarstr31 (prog_Code p))"

definition hash_definition :: "asset_definition \<Rightarrow> wr" where
  "hash_definition d = thenE (hash_program (ad_IssuanceProgram d)) (hash_ptr (Some (ad_Data d)))"

definition hash_slice :: "('a \<Rightarrow> wr) \<Rightarrow> 'a list \<Rightarrow> wr" where
  "hash_slice f xs = thenE (WriteVarint31 (length xs)) (forE f xs)"

section \<open>The entries\<close>

definition entry_typ :: "entry \<Rightarrow> string" where
  "entry_typ e =
     (case e of
        TxHeader _ \<Rightarrow> ''txheader''
      | Mux _ \<Rightarrow> ''mux1''
      | Coinbase _ \<Rightarrow> ''coinbase1''
      | IntraChainOutput _ \<Rightarrow> ''intrachainoutput1''
      | CrossChainOutput _ \<Rightarrow> ''crosschainoutput1''
      | VoteOutput _ \<Rightarrow> ''voteoutput1''
      | Retirement _ \<Rightarrow> ''retirement1''
      | Spend _ \<Rightarrow> ''spend1''
      | VetoInput _ \<Rightarrow> ''vetoInput1''
      | CrossChainInput _ \<Rightarrow> ''crosschaininput1'')"

definition hash_output :: "output_entry \<Rightarrow> wr" where
  "hash_output o' = thenE (hash_source (Some (out_Source o'))) (hash_program (out_ControlProgram o'))"

definition writeForHash :: "entry \<Rightarrow> wr" where
  "writeForHash e =
     (case e of
        TxHeader h \<Rightarrow>
          thenE (hash_u64 (th_Version h))
            (thenE (hash_u64 (th_TimeRange h)) (hash_slice (\<lambda>i. hash_ptr (Some i)) (th_ResultIds h)))
      | Mux m \<Rightarrow> thenE (hash_slice hash_source (mux_Sources m)) (hash_program (mux_Program m))
      | Coinbase c \<Rightarrow> WriteVarstr31 (cb_Arbitrary c)
      | IntraChainOutput o' \<Rightarrow> hash_output o'
      | CrossChainOutput o' \<Rightarrow> hash_output o'
      | VoteOutput v \<Rightarrow> thenE (hash_output (vote_Output v)) (WriteVarstr31 (vote_Vote v))
      | Retirement r \<Rightarrow> hash_source (Some (ret_Source r))
      | Spend s \<Rightarrow> hash_ptr (sp_SpentOutputId s)
      | VetoInput s \<Rightarrow> hash_ptr (sp_SpentOutputId s)
      | CrossChainInput c \<Rightarrow>
          thenE (hash_ptr (cc_MainchainOutputId c)) (hash_definition (cc_AssetDefinition c)))"

definition ascii :: "string \<Rightarrow> bytes" where
  "ascii s = map of_char s"

text \<open>The input of the outer hash, from the type of the entry and the hash of its body.\<close>

definition tagged :: "string \<Rightarrow> bytes \<Rightarrow> bytes" where
  "tagged typ inner = ascii ''entryid:'' @ ascii typ @ ascii '':'' @ inner"

definition entry_hash :: "(bytes \<Rightarrow> bytes) \<Rightarrow> string \<Rightarrow> wr \<Rightarrow> hash option" where
  "entry_hash sha3 typ body =
     (case body [] of
        (Inl _, _) \<Rightarrow> None
      | (Inr _, bs) \<Rightarrow> Some (NewHash (sha3 (tagged typ (sha3 bs)))))"

definition EntryID :: "(bytes \<Rightarrow> bytes) \<Rightarrow> entry \<Rightarrow> hash option" where
  "EntryID sha3 e = entry_hash sha3 (entry_typ e) (writeForHash e)"

text \<open>The entry of a block header (\<^verbatim>\<open>blockheader.go\<close>); its witness is not hashed.\<close>

definition header_writeForHash :: "block \<Rightarrow> wr" where
  "header_writeForHash b =
     thenE (hash_u64 (blk_Version b))
       (thenE (hash_u64 (blk_Height b))
         (thenE (hash_ptr (Some (blk_PreviousBlockId b)))
           (thenE (hash_u64 (blk_Timestamp b))
             (thenE (hash_ptr (Some (blk_TransactionsRoot b)))
               (hash_ptr (Some (blk_TransactionStatusHash b)))))))"

definition BlockHeaderID :: "(bytes \<Rightarrow> bytes) \<Rightarrow> block \<Rightarrow> hash option" where
  "BlockHeaderID sha3 b = entry_hash sha3 ''blockheader'' (header_writeForHash b)"

section \<open>Readers for the hashed forms\<close>

text \<open>
  The code has no reader for what it hashes.  These readers are used only to show that the hashed form
  of a value determines the value.
\<close>

definition un_u64 :: "nat rd" where
  "un_u64 = bindE (ReadFull 8) (\<lambda>b. returnE (le_nat b))"

definition un_amount :: "asset_amount option rd" where
  "un_amount = bindE Hash_ReadFrom (\<lambda>i. bindE un_u64 (\<lambda>v.
     returnE (Some \<lparr>aa_AssetId = Some i, aa_Amount = v\<rparr>)))"

definition un_source :: "value_source rd" where
  "un_source = bindE Hash_ReadFrom (\<lambda>r. bindE un_amount (\<lambda>a. bindE un_u64 (\<lambda>p.
     returnE \<lparr>vl_Ref = Some r, vl_Value = a, vl_Position = p\<rparr>)))"

definition un_program :: "bc_program rd" where
  "un_program = bindE un_u64 (\<lambda>v. bindE ReadVarstr31 (\<lambda>c.
     returnE \<lparr>prog_VmVersion = v, prog_Code = c\<rparr>))"

definition un_output :: "(value_source \<times> bc_program) rd" where
  "un_output = bindE un_source (\<lambda>s. bindE un_program (\<lambda>p. returnE (s, p)))"

definition full_source :: "value_source \<Rightarrow> bool" where
  "full_source v =
     (case (vl_Ref v, vl_Value v) of
        (Some r, Some a) \<Rightarrow>
          hash_ok r \<and> (case aa_AssetId a of None \<Rightarrow> False | Some i \<Rightarrow> hash_ok i) \<and>
          is_u64 (aa_Amount a) \<and> is_u64 (vl_Position v)
      | _ \<Rightarrow> False)"

definition full_output :: "output_entry \<Rightarrow> bool" where
  "full_output o' \<longleftrightarrow> full_source (out_Source o') \<and> is_u64 (prog_VmVersion (out_ControlProgram o'))"

lemma codes_u64: "is_u64 v \<Longrightarrow> codes (hash_u64 v) un_u64 v"
  unfolding hash_u64_def
  by (rule codes_Write_fixed) (simp add: un_u64_def ReadFull_def bindE_apply returnE_def le_nat_le_bytes is_u64_def)

lemma codes_hash_ptr: "hash_ok h \<Longrightarrow> codes (hash_ptr (Some h)) Hash_ReadFrom h"
  using codes_Hash [of h] by (simp add: hash_ptr_def Hash_WriteTo_def)

lemma codes_hash_source:
  assumes "full_source v"
  shows "codes (hash_source (Some v)) un_source v"
proof -
  obtain r a i where v: "vl_Ref v = Some r" "vl_Value v = Some a" "aa_AssetId a = Some i"
      and ok: "hash_ok r" "hash_ok i" "is_u64 (aa_Amount a)" "is_u64 (vl_Position v)"
    using assms by (auto simp: full_source_def split: option.splits)
  have "codes (hash_amount (Some a)) un_amount (Some a)"
    unfolding hash_amount_def un_amount_def option.case v(3)
    by (rule codes_thenE [OF codes_hash_ptr [OF ok(2)]], rule codes_end [OF codes_u64 [OF ok(3)]])
      (use v(3) in \<open>cases a, simp\<close>)
  then show ?thesis
    unfolding hash_source_def un_source_def option.case v
    by (intro codes_thenE [OF codes_hash_ptr [OF ok(1)]] codes_thenE, assumption,
        intro codes_end [OF codes_u64 [OF ok(4)]]) (use v in \<open>cases v, simp\<close>)
qed

lemma codes_hash_program:
  assumes "is_u64 (prog_VmVersion p)"
  shows "codes (hash_program p) un_program p"
  unfolding hash_program_def un_program_def
  by (rule codes_thenE [OF codes_u64 [OF assms]], rule codes_end [OF codes_Varstr31]) (cases p, simp)

lemma codes_hash_output:
  assumes "full_output o'"
  shows "codes (hash_output o') un_output (out_Source o', out_ControlProgram o')"
  unfolding hash_output_def un_output_def
  by (rule codes_thenE [OF codes_hash_source], use assms in \<open>simp add: full_output_def\<close>)
    (rule codes_end [OF codes_hash_program], use assms in \<open>simp_all add: full_output_def\<close>)

text \<open>Two values that are written alike are alike.\<close>

lemma codes_inj:
  assumes "codes w r x" "codes w' r x'" "w [] = (Inr (), bs)" "w' [] = (Inr (), bs)"
  shows "x = x'"
  using assms unfolding codes_def by (metis fst_conv snd_conv append_Nil2 prod.inject sum.inject(2))

section \<open>Identifiers bind contents\<close>

definition sha3_ok :: "(bytes \<Rightarrow> bytes) \<Rightarrow> bool" where
  "sha3_ok sha3 \<longleftrightarrow> (\<forall>bs. length (sha3 bs) = 32)"

text \<open>The two inputs that are hashed for an identifier.\<close>

definition hash_inputs :: "(bytes \<Rightarrow> bytes) \<Rightarrow> entry \<Rightarrow> bytes list" where
  "hash_inputs sha3 e =
     (let body = snd (writeForHash e []) in [body, tagged (entry_typ e) (sha3 body)])"

lemma of_char_byte_inj: "(of_char c :: byte) = of_char d \<Longrightarrow> c = d"
proof -
  assume eq: "(of_char c :: byte) = of_char d"
  have "unat (of_char x :: byte) = (of_char x :: nat)" for x
    using unat_byte_small [of "of_char x"] nat_of_char_less_256 [of x] by (simp add: of_nat_of_char)
  with eq have "(of_char c :: nat) = of_char d" by metis
  then show "c = d" by simp
qed

lemma ascii_inj: "ascii s = ascii t \<Longrightarrow> s = t"
  unfolding ascii_def by (rule map_injective) (auto intro: injI of_char_byte_inj)

lemma tagged_inj:
  assumes "tagged (entry_typ e) a = tagged (entry_typ e') b" "length a = length b"
  shows "entry_typ e = entry_typ e'" "a = b"
proof -
  have "(ascii (entry_typ e) @ ascii '':'') @ a = (ascii (entry_typ e') @ ascii '':'') @ b"
    using assms(1) by (simp add: tagged_def)
  then have eq: "ascii (entry_typ e) @ ascii '':'' = ascii (entry_typ e') @ ascii '':''" "a = b"
    using assms(2) by simp_all
  then show "entry_typ e = entry_typ e'" by (intro ascii_inj) simp
  show "a = b" by (rule eq(2))
qed

lemma EntryID_Some:
  assumes "EntryID sha3 e = Some h"
  shows "fst (writeForHash e []) = Inr ()"
    "h = NewHash (sha3 (tagged (entry_typ e) (sha3 (snd (writeForHash e [])))))"
  using assms by (cases "writeForHash e []", auto simp: EntryID_def entry_hash_def split: sum.splits)+

lemma NewHash_inj: "length a = 32 \<Longrightarrow> length b = 32 \<Longrightarrow> NewHash a = NewHash b \<Longrightarrow> a = b"
  by (metis Byte32_NewHash(1))

lemma EntryID_inj:
  assumes "sha3_ok sha3" "EntryID sha3 e = Some h" "EntryID sha3 e' = Some h"
    and inj: "inj_on sha3 (set (hash_inputs sha3 e) \<union> set (hash_inputs sha3 e'))"
  shows "entry_typ e = entry_typ e' \<and> writeForHash e [] = writeForHash e' []"
proof -
  note E = EntryID_Some [OF assms(2)] and E' = EntryID_Some [OF assms(3)]
  let ?b = "snd (writeForHash e [])" and ?b' = "snd (writeForHash e' [])"
  have len: "length (sha3 x) = 32" for x using assms(1) by (simp add: sha3_ok_def)
  have "sha3 (tagged (entry_typ e) (sha3 ?b)) = sha3 (tagged (entry_typ e') (sha3 ?b'))"
    using E(2) E'(2) by (intro NewHash_inj) (simp_all add: len)
  then have "tagged (entry_typ e) (sha3 ?b) = tagged (entry_typ e') (sha3 ?b')"
    by (rule inj_onD [OF inj]) (simp_all add: hash_inputs_def Let_def)
  from tagged_inj [OF this] have kind: "entry_typ e = entry_typ e'" and "sha3 ?b = sha3 ?b'"
    by (simp_all add: len)
  from this(2) have "?b = ?b'"
    by (rule inj_onD [OF inj]) (simp_all add: hash_inputs_def Let_def)
  with E(1) E'(1) have "writeForHash e [] = writeForHash e' []" by (simp add: prod_eq_iff)
  with kind show ?thesis by blast
qed

section \<open>Sample\<close>

text \<open>A function of the length of SHA3-256, which keeps apart inputs that differ in their first 32 bytes.\<close>

definition sample_hash :: "bytes \<Rightarrow> bytes" where
  "sample_hash bs = take 32 (bs @ replicate 32 0)"

definition sample_entry_output :: "nat \<Rightarrow> output_entry" where
  "sample_entry_output ordinal =
     \<lparr>out_Source = \<lparr>vl_Ref = Some zeroHash,
        vl_Value = Some \<lparr>aa_AssetId = Some zeroHash, aa_Amount = 5\<rparr>, vl_Position = 1\<rparr>,
      out_ControlProgram = \<lparr>prog_VmVersion = 1, prog_Code = [81]\<rparr>, out_Ordinal = ordinal\<rparr>"

lemma sample_hash_ok: "sha3_ok sample_hash"
  unfolding sha3_ok_def sample_hash_def by (simp add: min_def)

section \<open>Property\<close>

text \<open>
  Property C24: where SHA3 does not collide, two entries with the same identifier have the same type
  and the same hashed body; for intra-chain outputs that means the same value source, with its asset
  and amount, and the same control program.
\<close>

theorem EntryID_binds:
  assumes "sha3_ok sha3" and "EntryID sha3 e = Some h" and "EntryID sha3 e' = Some h"
    and "inj_on sha3 (set (hash_inputs sha3 e) \<union> set (hash_inputs sha3 e'))"
  shows "entry_typ e = entry_typ e' \<and> snd (writeForHash e []) = snd (writeForHash e' []) \<and>
    (\<forall>o1 o2. e = IntraChainOutput o1 \<and> e' = IntraChainOutput o2 \<and> full_output o1 \<and> full_output o2 \<longrightarrow>
      out_Source o1 = out_Source o2 \<and> out_ControlProgram o1 = out_ControlProgram o2)"
proof -
  note same = EntryID_inj [OF assms]
  have "out_Source o1 = out_Source o2 \<and> out_ControlProgram o1 = out_ControlProgram o2"
    if "e = IntraChainOutput o1" "e' = IntraChainOutput o2" "full_output o1" "full_output o2" for o1 o2
  proof -
    have "fst (hash_output o1 []) = Inr ()"
      using EntryID_Some(1) [OF assms(2)] that(1) by (simp add: writeForHash_def)
    from runs_ok [OF this] obtain bs where bs: "hash_output o1 [] = (Inr (), bs)" by blast
    then have "hash_output o2 [] = (Inr (), bs)"
      using same that(1,2) by (simp add: writeForHash_def)
    from codes_inj [OF codes_hash_output [OF that(3)] codes_hash_output [OF that(4)] bs this]
    show ?thesis by simp
  qed
  with same show ?thesis by metis
qed

theorem EntryID_binds_witness:
  "entry_typ (IntraChainOutput (sample_entry_output 0)) = entry_typ (IntraChainOutput (sample_entry_output 3))"
proof -
  let ?e = "\<lambda>n. IntraChainOutput (sample_entry_output n)"
  have ids: "EntryID sample_hash (?e 0) = Some (the (EntryID sample_hash (?e 0)))"
      "EntryID sample_hash (?e 3) = Some (the (EntryID sample_hash (?e 0)))"
    by code_simp+
  have "inj_on sample_hash (set (hash_inputs sample_hash (?e 0)) \<union> set (hash_inputs sample_hash (?e 3)))"
    by code_simp
  from EntryID_binds [OF sample_hash_ok ids this] show ?thesis by blast
qed

end
