(* ===== verification/Script.thy ===== *)
theory Script
  imports VM_Encoding Bc_Types Params
begin

text \<open>
  Control programs: the builder and the standard programs of \<^verbatim>\<open>protocol/vm/vmutil\<close>, and their
  recognition and conversion in \<^verbatim>\<open>consensus/segwit/segwit.go\<close>.

  A builder operation takes the builder last, so that a method chain is a composition.  The
  placeholders are listed in the order in which their targets were first used; Go ranges over them in
  any order, which does not matter since they do not overlap.  Programs of more than 2 GB, on which the
  parser can panic, count as unparsable.
\<close>

section \<open>Opcodes\<close>

abbreviation (input) OP_0 :: byte where "OP_0 \<equiv> 0x00"
abbreviation (input) OP_DATA_20 :: byte where "OP_DATA_20 \<equiv> 0x14"
abbreviation (input) OP_DATA_32 :: byte where "OP_DATA_32 \<equiv> 0x20"
abbreviation (input) OP_TRUE :: byte where "OP_TRUE \<equiv> 0x51"
abbreviation (input) OP_1 :: byte where "OP_1 \<equiv> 0x51"
abbreviation (input) OP_2 :: byte where "OP_2 \<equiv> 0x52"
abbreviation (input) OP_3 :: byte where "OP_3 \<equiv> 0x53"
abbreviation (input) OP_4 :: byte where "OP_4 \<equiv> 0x54"
abbreviation (input) OP_5 :: byte where "OP_5 \<equiv> 0x55"
abbreviation (input) OP_6 :: byte where "OP_6 \<equiv> 0x56"
abbreviation (input) OP_7 :: byte where "OP_7 \<equiv> 0x57"
abbreviation (input) OP_16 :: byte where "OP_16 \<equiv> 0x60"
abbreviation (input) OP_JUMP :: byte where "OP_JUMP \<equiv> 0x63"
abbreviation (input) OP_JUMPIF :: byte where "OP_JUMPIF \<equiv> 0x64"
abbreviation (input) OP_VERIFY :: byte where "OP_VERIFY \<equiv> 0x69"
abbreviation (input) OP_FAIL :: byte where "OP_FAIL \<equiv> 0x6a"
abbreviation (input) OP_TOALTSTACK :: byte where "OP_TOALTSTACK \<equiv> 0x6b"
abbreviation (input) OP_FROMALTSTACK :: byte where "OP_FROMALTSTACK \<equiv> 0x6c"
abbreviation (input) OP_DROP :: byte where "OP_DROP \<equiv> 0x75"
abbreviation (input) OP_DUP :: byte where "OP_DUP \<equiv> 0x76"
abbreviation (input) OP_OVER :: byte where "OP_OVER \<equiv> 0x78"
abbreviation (input) OP_PICK :: byte where "OP_PICK \<equiv> 0x79"
abbreviation (input) OP_ROLL :: byte where "OP_ROLL \<equiv> 0x7a"
abbreviation (input) OP_ROT :: byte where "OP_ROT \<equiv> 0x7b"
abbreviation (input) OP_SWAP :: byte where "OP_SWAP \<equiv> 0x7c"
abbreviation (input) OP_EQUALVERIFY :: byte where "OP_EQUALVERIFY \<equiv> 0x88"
abbreviation (input) OP_ADD :: byte where "OP_ADD \<equiv> 0x93"
abbreviation (input) OP_SUB :: byte where "OP_SUB \<equiv> 0x94"
abbreviation (input) OP_BOOLAND :: byte where "OP_BOOLAND \<equiv> 0x9a"
abbreviation (input) OP_NUMEQUAL :: byte where "OP_NUMEQUAL \<equiv> 0x9c"
abbreviation (input) OP_LESSTHAN :: byte where "OP_LESSTHAN \<equiv> 0x9f"
abbreviation (input) OP_GREATERTHAN :: byte where "OP_GREATERTHAN \<equiv> 0xa0"
abbreviation (input) OP_GREATERTHANOREQUAL :: byte where "OP_GREATERTHANOREQUAL \<equiv> 0xa2"
abbreviation (input) OP_MULFRACTION :: byte where "OP_MULFRACTION \<equiv> 0xa6"
abbreviation (input) OP_SHA3 :: byte where "OP_SHA3 \<equiv> 0xaa"
abbreviation (input) OP_HASH160 :: byte where "OP_HASH160 \<equiv> 0xab"
abbreviation (input) OP_CHECKSIG :: byte where "OP_CHECKSIG \<equiv> 0xac"
abbreviation (input) OP_CHECKMULTISIG :: byte where "OP_CHECKMULTISIG \<equiv> 0xad"
abbreviation (input) OP_TXSIGHASH :: byte where "OP_TXSIGHASH \<equiv> 0xae"
abbreviation (input) OP_CHECKPREDICATE :: byte where "OP_CHECKPREDICATE \<equiv> 0xc0"
abbreviation (input) OP_CHECKOUTPUT :: byte where "OP_CHECKOUTPUT \<equiv> 0xc1"
abbreviation (input) OP_ASSET :: byte where "OP_ASSET \<equiv> 0xc2"
abbreviation (input) OP_AMOUNT :: byte where "OP_AMOUNT \<equiv> 0xc3"
abbreviation (input) OP_BLOCKHEIGHT :: byte where "OP_BLOCKHEIGHT \<equiv> 0xcd"

section \<open>The builder (builder.go)\<close>

record builder =
  b_program :: bytes
  b_jumpCounter :: int
  b_jumpAddr :: "int \<rightharpoonup> nat"
  b_jumpPlaceholders :: "(int \<times> nat list) list"

definition NewBuilder :: builder where
  "NewBuilder = \<lparr>b_program = [], b_jumpCounter = 0, b_jumpAddr = Map.empty, b_jumpPlaceholders = []\<rparr>"

definition AddRawBytes :: "bytes \<Rightarrow> builder \<Rightarrow> builder" where
  "AddRawBytes d b = b\<lparr>b_program := b_program b @ d\<rparr>"

definition AddInt :: "int \<Rightarrow> builder \<Rightarrow> builder" where
  "AddInt n b = b\<lparr>b_program := b_program b @ PushdataInt64 n\<rparr>"

definition AddData :: "bytes \<Rightarrow> builder \<Rightarrow> builder" where
  "AddData d b = b\<lparr>b_program := b_program b @ PushdataBytes d\<rparr>"

definition AddOp :: "byte \<Rightarrow> builder \<Rightarrow> builder" where
  "AddOp op b = b\<lparr>b_program := b_program b @ [op]\<rparr>"

definition NewJumpTarget :: "builder \<Rightarrow> int \<times> builder" where
  "NewJumpTarget b = (i64 (b_jumpCounter b + 1), b\<lparr>b_jumpCounter := i64 (b_jumpCounter b + 1)\<rparr>)"

fun add_placeholder :: "int \<Rightarrow> nat \<Rightarrow> (int \<times> nat list) list \<Rightarrow> (int \<times> nat list) list" where
  "add_placeholder t p [] = [(t, [p])]"
| "add_placeholder t p ((t', ps) # rest) =
     (if t = t' then (t', ps @ [p]) # rest else (t', ps) # add_placeholder t p rest)"

definition addJump :: "byte \<Rightarrow> int \<Rightarrow> builder \<Rightarrow> builder" where
  "addJump op target b =
     (let b1 = AddOp op b;
          b2 = b1\<lparr>b_jumpPlaceholders :=
            add_placeholder target (length (b_program b1)) (b_jumpPlaceholders b1)\<rparr>
      in AddRawBytes [0, 0, 0, 0] b2)"

definition AddJump :: "int \<Rightarrow> builder \<Rightarrow> builder" where
  "AddJump target = addJump OP_JUMP target"

definition AddJumpIf :: "int \<Rightarrow> builder \<Rightarrow> builder" where
  "AddJumpIf target = addJump OP_JUMPIF target"

definition SetJumpTarget :: "int \<Rightarrow> builder \<Rightarrow> builder" where
  "SetJumpTarget target b = b\<lparr>b_jumpAddr := (b_jumpAddr b)(target \<mapsto> u32 (length (b_program b)))\<rparr>"

datatype script_error =
    ErrUnresolvedJump
  | ErrScriptBadValue
  | ErrInvalidMC
  | ErrUnknownVersion
  | ScriptVM vm_exc
  | ScriptPanic

fun fill_in :: "(int \<rightharpoonup> nat) \<Rightarrow> (int \<times> nat list) list \<Rightarrow> bytes \<Rightarrow> script_error + bytes" where
  "fill_in addrs [] prog = Inr prog"
| "fill_in addrs ((target, ps) # rest) prog =
     (case addrs target of
        None \<Rightarrow> Inl ErrUnresolvedJump
      | Some a \<Rightarrow> fill_in addrs rest (fold (\<lambda>p. overwrite p (le_bytes 4 a)) ps prog))"

definition Build :: "builder \<Rightarrow> script_error + bytes" where
  "Build b = fill_in (b_jumpAddr b) (b_jumpPlaceholders b) (b_program b)"

text \<open>A chain of builder calls.\<close>

definition build :: "(builder \<Rightarrow> builder) list \<Rightarrow> script_error + bytes" where
  "build calls = Build (fold (\<lambda>f. f) calls NewBuilder)"

section \<open>Standard programs (script.go)\<close>

record magnetic_contract_args =
  mc_RequestedAsset :: asset_id
  mc_RatioNumerator :: int
  mc_RatioDenominator :: int
  mc_SellerProgram :: bytes
  mc_SellerKey :: bytes

definition IsUnspendable :: "bytes \<Rightarrow> bool" where
  "IsUnspendable prog \<longleftrightarrow> length prog > 0 \<and> prog ! 0 = OP_FAIL"

definition checkMultiSigParams :: "int \<Rightarrow> int \<Rightarrow> bool" where
  "checkMultiSigParams nrequired npubkeys \<longleftrightarrow>
     \<not> nrequired < 0 \<and> \<not> npubkeys < 0 \<and> \<not> nrequired > npubkeys \<and> \<not> (nrequired = 0 \<and> npubkeys > 0)"

definition addP2SPMultiSig :: "bytes list \<Rightarrow> int \<Rightarrow> builder \<Rightarrow> script_error + builder" where
  "addP2SPMultiSig pubkeys nrequired b =
     (if \<not> checkMultiSigParams nrequired (int (length pubkeys)) then Inl ErrScriptBadValue
      else Inr (fold (\<lambda>f. f)
        ([AddOp OP_TXSIGHASH] @ map AddData pubkeys @
         [AddInt nrequired, AddInt (int (length pubkeys)), AddOp OP_CHECKMULTISIG]) b))"

definition DefaultCoinbaseProgram :: "script_error + bytes" where
  "DefaultCoinbaseProgram = build [AddOp OP_TRUE]"

definition P2WPKHProgram :: "bytes \<Rightarrow> script_error + bytes" where
  "P2WPKHProgram h = build [AddInt 0, AddData h]"

definition P2WSHProgram :: "bytes \<Rightarrow> script_error + bytes" where
  "P2WSHProgram h = build [AddInt 0, AddData h]"

definition RetireProgram :: "bytes \<Rightarrow> script_error + bytes" where
  "RetireProgram comment = build (AddOp OP_FAIL # (if length comment \<noteq> 0 then [AddData comment] else []))"

definition P2PKHSigProgram :: "bytes \<Rightarrow> script_error + bytes" where
  "P2PKHSigProgram pubkeyHash =
     build [AddOp OP_DUP, AddOp OP_HASH160, AddData pubkeyHash, AddOp OP_EQUALVERIFY,
       AddOp OP_TXSIGHASH, AddOp OP_SWAP, AddOp OP_CHECKSIG]"

definition P2SHProgram :: "bytes \<Rightarrow> script_error + bytes" where
  "P2SHProgram scriptHash =
     build [AddOp OP_DUP, AddOp OP_SHA3, AddData scriptHash, AddOp OP_EQUALVERIFY,
       AddInt (- 1), AddOp OP_SWAP, AddInt 0, AddOp OP_CHECKPREDICATE]"

definition P2SPMultiSigProgram :: "bytes list \<Rightarrow> int \<Rightarrow> script_error + bytes" where
  "P2SPMultiSigProgram pubkeys nrequired =
     (case addP2SPMultiSig pubkeys nrequired NewBuilder of Inl e \<Rightarrow> Inl e | Inr b \<Rightarrow> Build b)"

definition P2SPMultiSigProgramWithHeight :: "bytes list \<Rightarrow> int \<Rightarrow> int \<Rightarrow> script_error + bytes" where
  "P2SPMultiSigProgramWithHeight pubkeys nrequired blockHeight =
     (if blockHeight < 0 then Inl ErrScriptBadValue
      else
        let b = (if blockHeight > 0
          then fold (\<lambda>f. f) [AddInt blockHeight, AddOp OP_BLOCKHEIGHT, AddOp OP_GREATERTHAN, AddOp OP_VERIFY]
            NewBuilder
          else NewBuilder)
        in case addP2SPMultiSig pubkeys nrequired b of Inl e \<Rightarrow> Inl e | Inr b \<Rightarrow> Build b)"

definition P2WMCProgram :: "magnetic_contract_args \<Rightarrow> script_error + bytes" where
  "P2WMCProgram m =
     build [AddInt 0, AddData (Byte32 (mc_RequestedAsset m)), AddInt (mc_RatioNumerator m),
       AddInt (mc_RatioDenominator m), AddData (mc_SellerProgram m), AddData (mc_SellerKey m)]"

text \<open>The instructions of the magnetic contract, in the order of the source.\<close>

definition partial_trade :: "(builder \<Rightarrow> builder) list" where
  "partial_trade =
     [AddOp OP_6, AddOp OP_PICK, AddOp OP_3, AddOp OP_ROLL, AddOp OP_3, AddOp OP_ROLL,
      AddOp OP_MULFRACTION, AddOp OP_AMOUNT, AddOp OP_OVER, AddOp OP_0, AddOp OP_GREATERTHANOREQUAL,
      AddOp OP_2, AddOp OP_PICK, AddOp OP_ROT, AddOp OP_LESSTHAN, AddOp OP_BOOLAND, AddOp OP_VERIFY,
      AddOp OP_FROMALTSTACK, AddOp OP_DUP, AddOp OP_TOALTSTACK, AddOp OP_6, AddOp OP_ROLL,
      AddInt 999, AddInt 1000, AddOp OP_MULFRACTION, AddOp OP_3, AddOp OP_ROLL, AddOp OP_1,
      AddOp OP_5, AddOp OP_ROLL, AddOp OP_CHECKOUTPUT, AddOp OP_VERIFY, AddOp OP_FROMALTSTACK,
      AddOp OP_1, AddOp OP_ADD, AddOp OP_AMOUNT, AddOp OP_ROT, AddOp OP_SUB, AddOp OP_ASSET,
      AddOp OP_1, AddOp OP_4, AddOp OP_ROLL, AddOp OP_CHECKOUTPUT, AddJump 2]"

definition full_trade :: "(builder \<Rightarrow> builder) list" where
  "full_trade =
     [SetJumpTarget 1, AddOp OP_AMOUNT, AddOp OP_ROT, AddOp OP_3, AddOp OP_ROLL,
      AddOp OP_MULFRACTION, AddInt 999, AddInt 1000, AddOp OP_MULFRACTION, AddOp OP_DUP,
      AddOp OP_0, AddOp OP_GREATERTHANOREQUAL, AddOp OP_VERIFY, AddOp OP_FROMALTSTACK,
      AddOp OP_SWAP, AddOp OP_ROT, AddOp OP_1, AddOp OP_4, AddOp OP_ROLL, AddOp OP_CHECKOUTPUT,
      AddJump 3]"

definition cancel_trade :: "(builder \<Rightarrow> builder) list" where
  "cancel_trade =
     [SetJumpTarget 0, AddOp OP_DROP, AddOp OP_6, AddOp OP_ROLL, AddOp OP_6, AddOp OP_ROLL,
      AddOp OP_TXSIGHASH, AddOp OP_SWAP, AddOp OP_CHECKSIG, SetJumpTarget 2, SetJumpTarget 3]"

definition P2MCProgram :: "magnetic_contract_args \<Rightarrow> script_error + bytes" where
  "P2MCProgram m =
     (case P2WMCProgram m of
        Inl e \<Rightarrow> Inl e
      | Inr standardProgram \<Rightarrow>
          build
            ([AddData (mc_SellerKey m), AddData standardProgram, AddData (mc_SellerProgram m),
              AddInt (mc_RatioDenominator m), AddInt (mc_RatioNumerator m),
              AddData (Byte32 (mc_RequestedAsset m)),
              AddOp OP_7, AddOp OP_ROLL, AddOp OP_TOALTSTACK, AddOp OP_6, AddOp OP_ROLL, AddOp OP_DUP,
              AddOp OP_2, AddOp OP_NUMEQUAL, AddJumpIf 0, AddJumpIf 1] @
             partial_trade @ full_trade @ cancel_trade))"

section \<open>Recognising programs (segwit.go)\<close>

definition IsStraightforward :: "bytes \<Rightarrow> bool" where
  "IsStraightforward prog \<longleftrightarrow>
     (case ParseProgram prog of
        Inl _ \<Rightarrow> False
      | Inr insts \<Rightarrow> length insts = 1 \<and> (Op (insts ! 0) = OP_TRUE \<or> Op (insts ! 0) = OP_FAIL))"

definition IsP2WPKHScript :: "bytes \<Rightarrow> bool" where
  "IsP2WPKHScript prog \<longleftrightarrow>
     (case ParseProgram prog of
        Inl _ \<Rightarrow> False
      | Inr insts \<Rightarrow>
          length insts = 2 \<and> \<not> Op (insts ! 0) > OP_16 \<and> Op (insts ! 1) = OP_DATA_20 \<and>
          length (Data (insts ! 1)) = PayToWitnessPubKeyHashDataSize)"

definition IsP2WSHScript :: "bytes \<Rightarrow> bool" where
  "IsP2WSHScript prog \<longleftrightarrow>
     (case ParseProgram prog of
        Inl _ \<Rightarrow> False
      | Inr insts \<Rightarrow>
          length insts = 2 \<and> \<not> Op (insts ! 0) > OP_16 \<and> Op (insts ! 1) = OP_DATA_32 \<and>
          length (Data (insts ! 1)) = PayToWitnessScriptHashDataSize)"

definition IsP2WScript :: "bytes \<Rightarrow> bool" where
  "IsP2WScript prog \<longleftrightarrow> IsP2WPKHScript prog \<or> IsP2WSHScript prog \<or> IsStraightforward prog"

definition is_int64 :: "bytes \<Rightarrow> bool" where
  "is_int64 d \<longleftrightarrow> (case AsInt64 d of Inl _ \<Rightarrow> False | Inr _ \<Rightarrow> True)"

definition IsP2WMCScript :: "bytes \<Rightarrow> bool" where
  "IsP2WMCScript prog \<longleftrightarrow>
     (case ParseProgram prog of
        Inl _ \<Rightarrow> False
      | Inr insts \<Rightarrow>
          length insts = 6 \<and> \<not> Op (insts ! 0) > OP_16 \<and>
          \<not> (Op (insts ! 1) \<noteq> OP_DATA_32 \<or> length (Data (insts ! 1)) \<noteq> 32) \<and>
          (IsPushdata (insts ! 2) \<and> IsPushdata (insts ! 3) \<and> IsPushdata (insts ! 4)) \<and>
          is_int64 (Data (insts ! 2)) \<and> is_int64 (Data (insts ! 3)) \<and>
          IsP2WScript (Data (insts ! 4)) \<and>
          Op (insts ! 5) = OP_DATA_32 \<and> length (Data (insts ! 5)) = 32)"

definition ConvertP2PKHSigProgram :: "bytes \<Rightarrow> script_error + bytes" where
  "ConvertP2PKHSigProgram prog =
     (case ParseProgram prog of
        Inl e \<Rightarrow> Inl (ScriptVM e)
      | Inr insts \<Rightarrow>
          if insts = [] then Inl ScriptPanic
          else if Op (insts ! 0) = OP_0 then
            if length insts < 2 then Inl ScriptPanic else P2PKHSigProgram (Data (insts ! 1))
          else Inl ErrUnknownVersion)"

definition ConvertP2SHProgram :: "bytes \<Rightarrow> script_error + bytes" where
  "ConvertP2SHProgram prog =
     (case ParseProgram prog of
        Inl e \<Rightarrow> Inl (ScriptVM e)
      | Inr insts \<Rightarrow>
          if insts = [] then Inl ScriptPanic
          else if Op (insts ! 0) = OP_0 then
            if length insts < 2 then Inl ScriptPanic else P2SHProgram (Data (insts ! 1))
          else Inl ErrUnknownVersion)"

text \<open>The copy into an array of 32 bytes keeps what fits; a program that passed the test has exactly 32.\<close>

definition DecodeP2WMCProgram :: "bytes \<Rightarrow> script_error + magnetic_contract_args" where
  "DecodeP2WMCProgram prog =
     (if \<not> IsP2WMCScript prog then Inl ErrInvalidMC
      else case ParseProgram prog of
        Inl e \<Rightarrow> Inl (ScriptVM e)
      | Inr insts \<Rightarrow>
          (case AsInt64 (Data (insts ! 2)) of
             Inl e \<Rightarrow> Inl (ScriptVM (Err e))
           | Inr n \<Rightarrow>
               (case AsInt64 (Data (insts ! 3)) of
                  Inl e \<Rightarrow> Inl (ScriptVM (Err e))
                | Inr d \<Rightarrow>
                    Inr \<lparr>mc_RequestedAsset = NewHash (take 32 (Data (insts ! 1) @ replicate 32 0)),
                      mc_RatioNumerator = n, mc_RatioDenominator = d,
                      mc_SellerProgram = Data (insts ! 4), mc_SellerKey = Data (insts ! 5)\<rparr>)))"

definition ConvertP2MCProgram :: "bytes \<Rightarrow> script_error + bytes" where
  "ConvertP2MCProgram prog =
     (case DecodeP2WMCProgram prog of Inl e \<Rightarrow> Inl e | Inr m \<Rightarrow> P2MCProgram m)"

definition GetHashFromStandardProg :: "bytes \<Rightarrow> script_error + bytes" where
  "GetHashFromStandardProg prog =
     (case ParseProgram prog of
        Inl e \<Rightarrow> Inl (ScriptVM e)
      | Inr insts \<Rightarrow> if length insts < 2 then Inl ScriptPanic else Inr (Data (insts ! 1)))"

end
