(* ===== verification/Consensus_Result.thy ===== *)
theory Consensus_Result
  imports Checked Params Tx_Wire Entry_Hash "HOL-Library.Multiset"
begin

text \<open>
  The result of delegated voting (\<^verbatim>\<open>protocol/state/consensus_result.go\<close>) and transaction fees
  (\<^verbatim>\<open>common/arithmetic/calculate.go\<close>).

  The state is changed in place, also before an error is returned.  A Go map is a map with the default
  0 on look-up.  Ranging over a Go map has no fixed order: where the code does it, the order of the
  keys is an argument.  Deriving the federation's keys is elliptic curve code and an argument
  \<open>derive\<close>.  Every network has rounds of at least one block; with rounds of none the code would panic.
\<close>

section \<open>Block hash (map.go)\<close>

definition mapBlockHeader :: "block_header \<Rightarrow> block" where
  "mapBlockHeader old =
     \<lparr>blk_Version = bh_Version old, blk_Height = bh_Height old,
      blk_PreviousBlockId = bh_PreviousBlockHash old, blk_Timestamp = bh_Timestamp old,
      blk_TransactionsRoot = bh_TransactionsMerkleRoot old,
      blk_TransactionStatusHash = bh_TransactionStatusHash old,
      blk_TransactionStatus = [], blk_WitnessArguments = bh_Witness old, blk_ID = zeroHash,
      blk_Transactions = []\<rparr>"

text \<open>A header is hashed without strings, so that hashing it does not fail.\<close>

definition header_Hash :: "(bytes \<Rightarrow> bytes) \<Rightarrow> block_header \<Rightarrow> hash" where
  "header_Hash sha3 bh =
     (case BlockHeaderID sha3 (mapBlockHeader bh) of None \<Rightarrow> zeroHash | Some h \<Rightarrow> h)"

lemma BlockHeaderID_total: "BlockHeaderID sha3 b \<noteq> None"
  by (simp add: BlockHeaderID_def entry_hash_def header_writeForHash_def hash_u64_def hash_ptr_def
      Write_def modifyE_def thenE_apply)

section \<open>State and errors\<close>

record consensus_result =
  cr_Seq :: nat
  cr_NumOfVote :: "string \<rightharpoonup> nat"
  cr_CoinbaseReward :: "string \<rightharpoonup> nat"
  cr_BlockHash :: hash
  cr_BlockHeight :: nat

datatype cr_error =
    ParentMismatch
  | HashMismatch
  | NoCoinbaseReceiver
  | CR_ErrOverflow
  | BadXPub
  | CR_Panic

type_synonym 'a cr_op = "(consensus_result, cr_error, 'a) comp"

definition lookup0 :: "(string \<rightharpoonup> nat) \<Rightarrow> string \<Rightarrow> nat" where
  "lookup0 m k = (case m k of None \<Rightarrow> 0 | Some v \<Rightarrow> v)"

section \<open>Fees (calculate.go)\<close>

text \<open>The first loop; \<open>None\<close> is its early return on a coinbase input.\<close>

fun fee_inputs :: "nat \<Rightarrow> tx_input list \<Rightarrow> cr_error + nat option" where
  "fee_inputs fee [] = Inr (Some fee)"
| "fee_inputs fee (i # is) =
     (case ti_TypedInput i of
        None \<Rightarrow> Inl CR_Panic
      | Some t \<Rightarrow>
          if InputType t = CoinbaseInputType then Inr None
          else case input_AssetID i of
            None \<Rightarrow> Inl CR_Panic
          | Some a \<Rightarrow>
              if a = BTMAssetID then
                (case AddUint64 fee (input_Amount i) of (fee', ok) \<Rightarrow>
                   if ok then fee_inputs fee' is else Inl CR_ErrOverflow)
              else fee_inputs fee is)"

fun fee_outputs :: "nat \<Rightarrow> tx_output list \<Rightarrow> cr_error + nat" where
  "fee_outputs fee [] = Inr fee"
| "fee_outputs fee (out # outs) =
     (case aa_AssetId (output_AssetAmount out) of
        None \<Rightarrow> Inl CR_Panic
      | Some a \<Rightarrow>
          if a = BTMAssetID then
            (case SubUint64 fee (aa_Amount (output_AssetAmount out)) of (fee', ok) \<Rightarrow>
               if ok then fee_outputs fee' outs else Inl CR_ErrOverflow)
          else fee_outputs fee outs)"

definition CalculateTxFee :: "tx_data \<Rightarrow> cr_error + nat" where
  "CalculateTxFee t =
     (case fee_inputs 0 (td_Inputs t) of
        Inl e \<Rightarrow> Inl e
      | Inr None \<Rightarrow> Inr 0
      | Inr (Some fee) \<Rightarrow> fee_outputs fee (td_Outputs t))"

section \<open>Coinbase rewards\<close>

record coinbase_reward =
  rw_Amount :: nat
  rw_ControlProgram :: bytes

fun add_fees :: "nat \<Rightarrow> tx_data list \<Rightarrow> cr_error + nat" where
  "add_fees amount [] = Inr amount"
| "add_fees amount (t # ts) =
     (case CalculateTxFee t of
        Inl e \<Rightarrow> Inl e
      | Inr txFee \<Rightarrow> add_fees (u64 (amount + txFee)) ts)"

definition CalCoinbaseReward :: "params \<Rightarrow> wire_block \<Rightarrow> cr_error + coinbase_reward" where
  "CalCoinbaseReward P b =
     (if wb_Transactions b \<noteq> [] \<and> td_Outputs (hd (wb_Transactions b)) \<noteq> [] then
        case add_fees (BlockSubsidy P (bh_Height (wb_Header b))) (wb_Transactions b) of
          Inl e \<Rightarrow> Inl e
        | Inr amount \<Rightarrow>
            Inr \<lparr>rw_Amount = amount,
              rw_ControlProgram = output_ControlProgram (hd (td_Outputs (hd (wb_Transactions b))))\<rparr>
      else Inl NoCoinbaseReceiver)"

definition CalcVoteSeq :: "params \<Rightarrow> nat \<Rightarrow> nat" where
  "CalcVoteSeq P blockHeight =
     (if blockHeight = 0 then 0 else (blockHeight - 1) div RoundVoteBlockNums P + 1)"

definition liftR :: "cr_error + 'a \<Rightarrow> 'a cr_op" where
  "liftR r = (case r of Inl e \<Rightarrow> throwE e | Inr x \<Rightarrow> returnE x)"

section \<open>Counters in a map\<close>

text \<open>
  The four places that change a count are two idioms: a checked addition, and a checked subtraction that
  drops the key when it reaches zero.  The result is stored before the flag is tested.
\<close>

definition credit_map :: "(string \<rightharpoonup> nat) \<Rightarrow> string \<Rightarrow> nat \<Rightarrow> (string \<rightharpoonup> nat) \<times> bool" where
  "credit_map m k a = (case AddUint64 (lookup0 m k) a of (v, ok) \<Rightarrow> (m(k \<mapsto> v), ok))"

definition debit_map :: "(string \<rightharpoonup> nat) \<Rightarrow> string \<Rightarrow> nat \<Rightarrow> (string \<rightharpoonup> nat) \<times> bool" where
  "debit_map m k a =
     (case SubUint64 (lookup0 m k) a of (v, ok) \<Rightarrow>
        (if ok \<and> v = 0 then m(k := None) else m(k \<mapsto> v), ok))"

definition credit_votes :: "string \<Rightarrow> nat \<Rightarrow> unit cr_op" where
  "credit_votes k a = (\<lambda>c.
     case credit_map (cr_NumOfVote c) k a of (m, ok) \<Rightarrow>
       (if ok then Inr () else Inl CR_ErrOverflow, c\<lparr>cr_NumOfVote := m\<rparr>))"

definition debit_votes :: "string \<Rightarrow> nat \<Rightarrow> unit cr_op" where
  "debit_votes k a = (\<lambda>c.
     case debit_map (cr_NumOfVote c) k a of (m, ok) \<Rightarrow>
       (if ok then Inr () else Inl CR_ErrOverflow, c\<lparr>cr_NumOfVote := m\<rparr>))"

definition credit_reward :: "string \<Rightarrow> nat \<Rightarrow> unit cr_op" where
  "credit_reward k a = (\<lambda>c.
     case credit_map (cr_CoinbaseReward c) k a of (m, ok) \<Rightarrow>
       (if ok then Inr () else Inl CR_ErrOverflow, c\<lparr>cr_CoinbaseReward := m\<rparr>))"

definition debit_reward :: "string \<Rightarrow> nat \<Rightarrow> unit cr_op" where
  "debit_reward k a = (\<lambda>c.
     case debit_map (cr_CoinbaseReward c) k a of (m, ok) \<Rightarrow>
       (if ok then Inr () else Inl CR_ErrOverflow, c\<lparr>cr_CoinbaseReward := m\<rparr>))"

section \<open>Applying a block\<close>

text \<open>The vote that an input takes back and the one that an output casts.\<close>

definition veto_of :: "tx_input \<Rightarrow> (string \<times> nat) option" where
  "veto_of i =
     (case ti_TypedInput i of
        Some (VetoIn v) \<Rightarrow> Some (hex_encode (vi_Vote v), aa_Amount (sc_AssetAmount (vi_SpendCommitment v)))
      | _ \<Rightarrow> None)"

definition vote_of :: "tx_output \<Rightarrow> (string \<times> nat) option" where
  "vote_of out =
     (case txo_TypedOutput out of
        Some (VoteOut o' vote) \<Rightarrow> Some (hex_encode vote, aa_Amount (oc_AssetAmount (to_OutputCommitment o')))
      | _ \<Rightarrow> None)"

definition each :: "('a \<Rightarrow> (string \<times> nat) option) \<Rightarrow> (string \<Rightarrow> nat \<Rightarrow> unit cr_op) \<Rightarrow> 'a \<Rightarrow> unit cr_op" where
  "each f op x = (case f x of None \<Rightarrow> returnE () | Some (k, a) \<Rightarrow> op k a)"

definition CR_ApplyTransaction :: "tx_data \<Rightarrow> unit cr_op" where
  "CR_ApplyTransaction t =
     thenE (forE (each veto_of debit_votes) (td_Inputs t)) (forE (each vote_of credit_votes) (td_Outputs t))"

definition AttachCoinbaseReward :: "params \<Rightarrow> wire_block \<Rightarrow> unit cr_op" where
  "AttachCoinbaseReward P b =
     bindE (liftR (CalCoinbaseReward P b)) (\<lambda>reward.
     thenE (modifyE (\<lambda>c. if bh_Height (wb_Header b) mod RoundVoteBlockNums P = 1
                          then c\<lparr>cr_CoinbaseReward := Map.empty\<rparr> else c))
       (credit_reward (hex_encode (rw_ControlProgram reward)) (rw_Amount reward)))"

definition CR_ApplyBlock :: "params \<Rightarrow> (bytes \<Rightarrow> bytes) \<Rightarrow> wire_block \<Rightarrow> unit cr_op" where
  "CR_ApplyBlock P sha3 b =
     bindE (getsE cr_BlockHash) (\<lambda>h.
     if h \<noteq> bh_PreviousBlockHash (wb_Header b) then throwE ParentMismatch
     else
       thenE (AttachCoinbaseReward P b)
         (thenE (forE CR_ApplyTransaction (wb_Transactions b))
           (modifyE (\<lambda>c. c\<lparr>cr_BlockHash := header_Hash sha3 (wb_Header b),
              cr_BlockHeight := bh_Height (wb_Header b),
              cr_Seq := CalcVoteSeq P (bh_Height (wb_Header b))\<rparr>))))"

section \<open>Detaching a block\<close>

text \<open>The rewards that the coinbase transaction of the first block of a round paid out.\<close>

fun paid_rewards :: "(string \<rightharpoonup> nat) \<Rightarrow> tx_output list \<Rightarrow> (string \<rightharpoonup> nat)" where
  "paid_rewards m [] = m"
| "paid_rewards m (out # outs) =
     paid_rewards (m(hex_encode (output_ControlProgram out) \<mapsto> aa_Amount (output_AssetAmount out))) outs"

definition DetachCoinbaseReward :: "params \<Rightarrow> wire_block \<Rightarrow> unit cr_op" where
  "DetachCoinbaseReward P b =
     bindE (liftR (CalCoinbaseReward P b)) (\<lambda>reward.
     thenE (debit_reward (hex_encode (rw_ControlProgram reward)) (rw_Amount reward))
       (modifyE (\<lambda>c. if bh_Height (wb_Header b) mod RoundVoteBlockNums P = 1
          then c\<lparr>cr_CoinbaseReward := paid_rewards Map.empty (tl (td_Outputs (hd (wb_Transactions b))))\<rparr>
          else c)))"

definition CR_DetachTransaction :: "tx_data \<Rightarrow> unit cr_op" where
  "CR_DetachTransaction t =
     thenE (forE (each veto_of credit_votes) (td_Inputs t)) (forE (each vote_of debit_votes) (td_Outputs t))"

definition CR_DetachBlock :: "params \<Rightarrow> (bytes \<Rightarrow> bytes) \<Rightarrow> wire_block \<Rightarrow> unit cr_op" where
  "CR_DetachBlock P sha3 b =
     bindE (getsE cr_BlockHash) (\<lambda>h.
     if h \<noteq> header_Hash sha3 (wb_Header b) then throwE HashMismatch
     else
       thenE (DetachCoinbaseReward P b)
         (thenE (forE CR_DetachTransaction (rev (wb_Transactions b)))
           (modifyE (\<lambda>c. c\<lparr>cr_BlockHash := bh_PreviousBlockHash (wb_Header b),
              cr_BlockHeight := sub_u64 (bh_Height (wb_Header b)) 1,
              cr_Seq := CalcVoteSeq P (sub_u64 (bh_Height (wb_Header b)) 1)\<rparr>))))"

definition Fork :: "consensus_result \<Rightarrow> consensus_result" where
  "Fork c =
     \<lparr>cr_Seq = cr_Seq c, cr_NumOfVote = cr_NumOfVote c, cr_CoinbaseReward = cr_CoinbaseReward c,
      cr_BlockHash = cr_BlockHash c, cr_BlockHeight = cr_BlockHeight c\<rparr>"

definition IsFinalize :: "params \<Rightarrow> consensus_result \<Rightarrow> bool" where
  "IsFinalize P c = (cr_BlockHeight c mod RoundVoteBlockNums P = 0)"

section \<open>Sorting\<close>

text \<open>
  \<^verbatim>\<open>sort.Sort\<close> leaves the order of equal elements open; the two orders it is used with have none, as far as
  the keys differ, so that any sorting function has the same result.
\<close>

fun insort_by :: "('a \<Rightarrow> 'a \<Rightarrow> bool) \<Rightarrow> 'a \<Rightarrow> 'a list \<Rightarrow> 'a list" where
  "insort_by lt x [] = [x]"
| "insort_by lt x (y # ys) = (if lt x y then x # y # ys else y # insort_by lt x ys)"

definition sort_by :: "('a \<Rightarrow> 'a \<Rightarrow> bool) \<Rightarrow> 'a list \<Rightarrow> 'a list" where
  "sort_by lt xs = foldr (insort_by lt) xs []"

text \<open>Comparison of Go strings, byte by byte.\<close>

fun str_less :: "string \<Rightarrow> string \<Rightarrow> bool" where
  "str_less _ [] = False"
| "str_less [] (_ # _) = True"
| "str_less (x # xs) (y # ys) =
     ((of_char x :: nat) < of_char y \<or> x = y \<and> str_less xs ys)"

section \<open>Consensus nodes and rewards\<close>

record consensus_node =
  cn_XPub :: bytes
  cn_VoteNum :: nat
  cn_Order :: nat

definition byVote_Less :: "consensus_node \<Rightarrow> consensus_node \<Rightarrow> bool" where
  "byVote_Less a b \<longleftrightarrow>
     cn_VoteNum a > cn_VoteNum b \<or>
     cn_VoteNum a = cn_VoteNum b \<and> str_less (hex_encode (cn_XPub b)) (hex_encode (cn_XPub a))"

definition SortByAmount_Less :: "coinbase_reward \<Rightarrow> coinbase_reward \<Rightarrow> bool" where
  "SortByAmount_Less a b \<longleftrightarrow>
     rw_Amount a > rw_Amount b \<or>
     rw_Amount a = rw_Amount b \<and>
       str_less (hex_encode (rw_ControlProgram b)) (hex_encode (rw_ControlProgram a))"

definition XPub_UnmarshalText :: "string \<Rightarrow> bytes option" where
  "XPub_UnmarshalText inp =
     (if length inp \<noteq> 128 then None
      else case hex_decode inp of (bs, ok) \<Rightarrow> if ok then Some bs else None)"

text \<open>The loop over the map of votes, in the order of \<open>keys\<close>.\<close>

fun collect_nodes :: "params \<Rightarrow> (string \<rightharpoonup> nat) \<Rightarrow> string list \<Rightarrow> cr_error + consensus_node list" where
  "collect_nodes P votes [] = Inr []"
| "collect_nodes P votes (k # ks) =
     (if lookup0 votes k \<ge> MinConsensusNodeVoteNum P then
        case XPub_UnmarshalText k of
          None \<Rightarrow> Inl BadXPub
        | Some xpub \<Rightarrow>
            (case collect_nodes P votes ks of
               Inl e \<Rightarrow> Inl e
             | Inr ns \<Rightarrow> Inr (\<lparr>cn_XPub = xpub, cn_VoteNum = lookup0 votes k, cn_Order = 0\<rparr> # ns))
      else collect_nodes P votes ks)"

fun number_nodes :: "nat \<Rightarrow> consensus_node list \<Rightarrow> (string \<times> consensus_node) list" where
  "number_nodes i [] = []"
| "number_nodes i (n # ns) = (hex_encode (cn_XPub n), n\<lparr>cn_Order := i\<rparr>) # number_nodes (Suc i) ns"

definition fedConsensusPath :: "bytes list" where
  "fedConsensusPath =
     [[0xff, 0xff, 0xff, 0xff], [0xff, 0, 0, 0], [0xff, 0xff, 0xff, 0xff], [0xff, 0, 0, 0], [0xff, 0, 0, 0]]"

definition federationNodes ::
    "(bytes \<Rightarrow> bytes list \<Rightarrow> bytes) \<Rightarrow> bytes list \<Rightarrow> (string \<rightharpoonup> consensus_node)" where
  "federationNodes derive xpubs =
     map_of (rev (number_nodes 0
       (map (\<lambda>x. \<lparr>cn_XPub = derive x fedConsensusPath, cn_VoteNum = 0, cn_Order = 0\<rparr>) xpubs)))"

definition ConsensusNodes ::
    "params \<Rightarrow> (bytes \<Rightarrow> bytes list \<Rightarrow> bytes) \<Rightarrow> bytes list \<Rightarrow> string list \<Rightarrow> consensus_result \<Rightarrow>
     cr_error + (string \<rightharpoonup> consensus_node)" where
  "ConsensusNodes P derive xpubs keys c =
     (case collect_nodes P (cr_NumOfVote c) keys of
        Inl e \<Rightarrow> Inl e
      | Inr nodes \<Rightarrow>
          let chosen = number_nodes 0 (take (nat (NumOfConsensusNode P)) (sort_by byVote_Less nodes)) in
          if chosen \<noteq> [] then Inr (map_of (rev chosen)) else Inr (federationNodes derive xpubs))"

fun collect_rewards :: "(string \<rightharpoonup> nat) \<Rightarrow> string list \<Rightarrow> cr_error + coinbase_reward list" where
  "collect_rewards rewards [] = Inr []"
| "collect_rewards rewards (p # ps) =
     (case hex_decode p of (program, ok) \<Rightarrow>
        if \<not> ok then Inl BadXPub
        else case collect_rewards rewards ps of
          Inl e \<Rightarrow> Inl e
        | Inr rs \<Rightarrow> Inr (\<lparr>rw_Amount = lookup0 rewards p, rw_ControlProgram = program\<rparr> # rs))"

definition GetCoinbaseRewards ::
    "params \<Rightarrow> nat \<Rightarrow> string list \<Rightarrow> consensus_result \<Rightarrow> cr_error + coinbase_reward list" where
  "GetCoinbaseRewards P blockHeight keys c =
     (if blockHeight mod RoundVoteBlockNums P \<noteq> 0 then Inr []
      else case collect_rewards (cr_CoinbaseReward c) keys of
        Inl e \<Rightarrow> Inl e
      | Inr rewards \<Rightarrow> Inr (sort_by SortByAmount_Less rewards))"

section \<open>Sorting does not depend on the order of the input\<close>

lemma set_insort_by: "set (insort_by lt x ys) = insert x (set ys)"
  by (induction ys) auto

lemma mset_insort_by: "mset (insort_by lt x ys) = add_mset x (mset ys)"
  by (induction ys) auto

lemma mset_sort_by: "mset (sort_by lt xs) = mset xs"
  by (induction xs) (simp_all add: sort_by_def mset_insort_by)

lemma set_sort_by: "set (sort_by lt xs) = set xs"
  by (metis mset_sort_by set_mset_mset)

definition strict_order :: "('a \<Rightarrow> 'a \<Rightarrow> bool) \<Rightarrow> 'a set \<Rightarrow> bool" where
  "strict_order lt A \<longleftrightarrow>
     (\<forall>x \<in> A. \<not> lt x x) \<and> (\<forall>x \<in> A. \<forall>y \<in> A. \<forall>z \<in> A. lt x y \<longrightarrow> lt y z \<longrightarrow> lt x z) \<and>
     (\<forall>x \<in> A. \<forall>y \<in> A. x \<noteq> y \<longrightarrow> lt x y \<or> lt y x)"

lemma strict_orderD:
  assumes "strict_order lt A"
  shows "x \<in> A \<Longrightarrow> \<not> lt x x"
    "x \<in> A \<Longrightarrow> y \<in> A \<Longrightarrow> z \<in> A \<Longrightarrow> lt x y \<Longrightarrow> lt y z \<Longrightarrow> lt x z"
    "x \<in> A \<Longrightarrow> y \<in> A \<Longrightarrow> x \<noteq> y \<Longrightarrow> lt x y \<or> lt y x"
  using assms unfolding strict_order_def by blast+

lemma strict_order_mono: "strict_order lt A \<Longrightarrow> B \<subseteq> A \<Longrightarrow> strict_order lt B"
  unfolding strict_order_def by blast

lemma sorted_insort_by:
  assumes "strict_order lt (insert x (set ys))" "x \<notin> set ys" "sorted_wrt lt ys"
  shows "sorted_wrt lt (insort_by lt x ys)"
  using assms
proof (induction ys)
  case (Cons y ys)
  have order: "strict_order lt (insert x (set ys))"
    by (rule strict_order_mono [OF Cons.prems(1)]) auto
  show ?case
  proof (cases "lt x y")
    case True
    have "lt x z" if "z \<in> set ys" for z
      using Cons.prems(3) True that by (intro strict_orderD(2) [OF Cons.prems(1), of x y z]) simp_all
    with True Cons.prems show ?thesis by simp
  next
    case False
    then have yx: "lt y x" using strict_orderD(3) [OF Cons.prems(1), of x y] Cons.prems(2) by simp
    have "sorted_wrt lt (insort_by lt x ys)" using Cons.prems by (intro Cons.IH order) simp_all
    with False yx Cons.prems(3) show ?thesis by (simp add: set_insort_by)
  qed
qed simp

lemma sorted_sort_by:
  "strict_order lt (set xs) \<Longrightarrow> distinct xs \<Longrightarrow> sorted_wrt lt (sort_by lt xs)"
proof (induction xs)
  case (Cons x xs)
  have "sorted_wrt lt (sort_by lt xs)"
    using Cons.prems by (intro Cons.IH strict_order_mono [OF Cons.prems(1)]) auto
  then have "sorted_wrt lt (insort_by lt x (sort_by lt xs))"
    using Cons.prems by (intro sorted_insort_by) (simp_all add: set_sort_by)
  then show ?case by (simp add: sort_by_def)
qed (simp add: sort_by_def)

lemma sorted_unique:
  "strict_order lt (set xs) \<Longrightarrow> sorted_wrt lt xs \<Longrightarrow> sorted_wrt lt ys \<Longrightarrow> mset xs = mset ys \<Longrightarrow> xs = ys"
proof (induction xs arbitrary: ys)
  case (Cons x xs)
  then obtain y ys' where ys: "ys = y # ys'" by (cases ys) auto
  have sets: "set (x # xs) = set (y # ys')" using Cons.prems(4) ys by (metis set_mset_mset)
  have "x = y"
  proof (rule ccontr)
    assume "x \<noteq> y"
    then have "y \<in> set xs" "x \<in> set ys'" using sets by auto
    then have "lt x y" "lt y x" using Cons.prems(2,3) ys by auto
    with strict_orderD(2) [OF Cons.prems(1), of x y x] strict_orderD(1) [OF Cons.prems(1), of x]
      \<open>y \<in> set xs\<close> show False by simp
  qed
  moreover have "xs = ys'"
    using Cons.prems ys \<open>x = y\<close> by (intro Cons.IH strict_order_mono [OF Cons.prems(1)]) auto
  ultimately show ?case using ys by simp
qed simp

lemma sort_by_perm:
  assumes "strict_order lt (set xs)" "distinct xs" "mset xs = mset ys"
  shows "sort_by lt xs = sort_by lt ys"
proof -
  have sets: "set xs = set ys" using assms(3) by (metis set_mset_mset)
  have "distinct ys" using assms(2,3) by (metis mset_eq_imp_distinct_iff)
  with assms sets show ?thesis
    by (intro sorted_unique [of lt]) (simp_all add: set_sort_by sorted_sort_by mset_sort_by)
qed

lemma str_less_irrefl: "\<not> str_less x x"
  by (induction x) auto

lemma str_less_trans: "str_less x y \<Longrightarrow> str_less y z \<Longrightarrow> str_less x z"
proof (induction x arbitrary: y z)
  case Nil
  then show ?case by (cases z; cases y) simp_all
next
  case (Cons a xs)
  then obtain b ys c zs where yz: "y = b # ys" "z = c # zs" by (cases y; cases z) simp_all
  from Cons.prems Cons.IH [of ys zs] show ?case unfolding yz by (auto intro: less_trans)
qed

lemma str_less_total: "x \<noteq> y \<Longrightarrow> str_less x y \<or> str_less y x"
proof (induction x arbitrary: y)
  case Nil
  then show ?case by (cases y) simp_all
next
  case (Cons a xs)
  show ?case
  proof (cases y)
    case (Cons b ys)
    show ?thesis
    proof (cases "a = b")
      case True
      with Cons Cons.IH [of ys] Cons.prems show ?thesis by simp
    next
      case False
      then have "(of_char a :: nat) \<noteq> of_char b" by simp
      then show ?thesis unfolding Cons by (simp only: str_less.simps) linarith
    qed
  qed simp
qed

end
