(* ===== verification/Map_Tx.thy ===== *)
theory Map_Tx
  imports Tx_Wire Entry_Hash Script Consensus_Result "HOL-Library.AList"
begin

text \<open>
  From wire transactions to entries (\<^verbatim>\<open>protocol/bc/types/map.go\<close>, and \<^verbatim>\<open>ComputeOutputID\<close> of \<^verbatim>\<open>txoutput.go\<close>).

  The code builds the entries as heap objects, stores pointers to them in \<^verbatim>\<open>entryMap\<close> under their identifiers, and
  sets their witness fields later, through other pointers.  The model has the objects in a list, where the
  address of an object is its index, and maps identifiers to addresses; so two inputs with one identifier
  are two objects of which the map knows the last.  The error value is a panic.
\<close>

section \<open>Objects\<close>

record map_state =
  ms_objs :: "entry list"
  ms_ids :: "(hash \<times> nat) list"
  ms_spends :: "nat list"
  ms_vetoInputs :: "nat list"
  ms_crossIns :: "nat list"
  ms_coinbase :: "nat option"

type_synonym 'a map_op = "(map_state, unit, 'a) comp"

definition empty_map :: map_state where
  "empty_map = \<lparr>ms_objs = [], ms_ids = [], ms_spends = [], ms_vetoInputs = [], ms_crossIns = [], ms_coinbase = None\<rparr>"

definition newE :: "entry \<Rightarrow> nat map_op" where
  "newE e = (\<lambda>s. (Inr (length (ms_objs s)), s\<lparr>ms_objs := ms_objs s @ [e]\<rparr>))"

definition addEntry :: "(bytes \<Rightarrow> bytes) \<Rightarrow> nat \<Rightarrow> hash map_op" where
  "addEntry sha3 a = (\<lambda>s.
     case EntryID sha3 (ms_objs s ! a) of
       None \<Rightarrow> (Inl (), s)
     | Some k \<Rightarrow> (Inr k, s\<lparr>ms_ids := AList.update k a (ms_ids s)\<rparr>))"

text \<open>A new object that is added at once: its identifier and its address.\<close>

definition addNew :: "(bytes \<Rightarrow> bytes) \<Rightarrow> entry \<Rightarrow> (hash \<times> nat) map_op" where
  "addNew sha3 e = bindE (newE e) (\<lambda>a. bindE (addEntry sha3 a) (\<lambda>k. returnE (k, a)))"

text \<open>The entry that \<^verbatim>\<open>entryMap\<close> has under an identifier.\<close>

definition entries_of :: "map_state \<Rightarrow> hash \<rightharpoonup> entry" where
  "entries_of s k = map_option (\<lambda>a. ms_objs s ! a) (map_of (ms_ids s) k)"

definition setObj :: "nat \<Rightarrow> entry \<Rightarrow> unit map_op" where
  "setObj a e = modifyE (\<lambda>s. s\<lparr>ms_objs := (ms_objs s)[a := e]\<rparr>)"

primrec mapE :: "('a \<Rightarrow> ('s, 'e, 'b) comp) \<Rightarrow> 'a list \<Rightarrow> ('s, 'e, 'b list) comp" where
  "mapE f [] = returnE []"
| "mapE f (x # xs) = bindE (f x) (\<lambda>y. bindE (mapE f xs) (\<lambda>ys. returnE (y # ys)))"

section \<open>The outputs that inputs unlock\<close>

definition prevout_output :: "spend_commitment \<Rightarrow> output_entry" where
  "prevout_output c =
     \<lparr>out_Source = \<lparr>vl_Ref = Some (sc_SourceID c), vl_Value = Some (sc_AssetAmount c), vl_Position = sc_SourcePosition c\<rparr>,
      out_ControlProgram = \<lparr>prog_VmVersion = sc_VMVersion c, prog_Code = sc_ControlProgram c\<rparr>,
      out_Ordinal = 0\<rparr>"

text \<open>The deferred function turns the panic of the hash into an error.\<close>

definition ComputeOutputID :: "(bytes \<Rightarrow> bytes) \<Rightarrow> spend_commitment \<Rightarrow> byte \<Rightarrow> bytes \<Rightarrow> hash option" where
  "ComputeOutputID sha3 sc inputType vote =
     (if inputType = SpendInputType then EntryID sha3 (IntraChainOutput (prevout_output sc))
      else if inputType = VetoInputType
      then EntryID sha3 (VoteOutput \<lparr>vote_Output = prevout_output sc, vote_Vote = vote\<rparr>)
      else None)"

definition input_SpentOutputID :: "(bytes \<Rightarrow> bytes) \<Rightarrow> tx_input \<Rightarrow> hash option" where
  "input_SpentOutputID sha3 t =
     (case ti_TypedInput t of
        Some (SpendIn si) \<Rightarrow> ComputeOutputID sha3 (si_SpendCommitment si) SpendInputType []
      | Some (VetoIn vi) \<Rightarrow> ComputeOutputID sha3 (vi_SpendCommitment vi) VetoInputType (vi_Vote vi)
      | Some (CrossChainIn ci) \<Rightarrow> ComputeOutputID sha3 (ci_SpendCommitment ci) SpendInputType []
      | _ \<Rightarrow> Some zeroHash)"

section \<open>Inputs\<close>

definition new_source :: "hash \<Rightarrow> asset_amount \<Rightarrow> nat \<Rightarrow> value_link" where
  "new_source r v pos = \<lparr>vl_Ref = Some r, vl_Value = Some v, vl_Position = pos\<rparr>"

definition total_output :: "tx_output list \<Rightarrow> nat" where
  "total_output outs = fold (\<lambda>out totalAmount. u64 (totalAmount + aa_Amount (output_AssetAmount out))) outs 0"

definition map_input :: "(bytes \<Rightarrow> bytes) \<Rightarrow> tx_data \<Rightarrow> nat \<times> tx_input \<Rightarrow> value_source option map_op" where
  "map_input sha3 td = (\<lambda>(i, input).
     case ti_TypedInput input of
       None \<Rightarrow> returnE None
     | Some (SpendIn inp) \<Rightarrow>
         let c = si_SpendCommitment inp in
         bindE (addNew sha3 (IntraChainOutput (prevout_output c))) (\<lambda>(prevoutID, _).
         bindE (addNew sha3 (Spend \<lparr>sp_SpentOutputId = Some prevoutID, sp_WitnessDestination = None,
                  sp_WitnessArguments = si_Arguments inp, sp_Ordinal = i\<rparr>)) (\<lambda>(spendID, spend).
         thenE (modifyE (\<lambda>s. s\<lparr>ms_spends := ms_spends s @ [spend]\<rparr>))
           (returnE (Some (new_source spendID (sc_AssetAmount c) 0)))))
     | Some (CoinbaseIn arbitrary) \<Rightarrow>
         bindE (addNew sha3 (Coinbase \<lparr>cb_WitnessDestination = None, cb_Arbitrary = arbitrary\<rparr>)) (\<lambda>(coinbaseID, coinbase).
         thenE (modifyE (\<lambda>s. s\<lparr>ms_coinbase := Some coinbase\<rparr>))
           (returnE (Some (new_source coinbaseID
              \<lparr>aa_AssetId = Some BTMAssetID, aa_Amount = total_output (td_Outputs td)\<rparr> 0))))
     | Some (VetoIn inp) \<Rightarrow>
         let c = vi_SpendCommitment inp in
         bindE (addNew sha3 (VoteOutput \<lparr>vote_Output = prevout_output c, vote_Vote = vi_Vote inp\<rparr>)) (\<lambda>(prevoutID, _).
         bindE (addNew sha3 (VetoInput \<lparr>sp_SpentOutputId = Some prevoutID, sp_WitnessDestination = None,
                  sp_WitnessArguments = vi_Arguments inp, sp_Ordinal = i\<rparr>)) (\<lambda>(vetoVoteID, vetoInput).
         thenE (modifyE (\<lambda>s. s\<lparr>ms_vetoInputs := ms_vetoInputs s @ [vetoInput]\<rparr>))
           (returnE (Some (new_source vetoVoteID (sc_AssetAmount c) 0)))))
     | Some (CrossChainIn inp) \<Rightarrow>
         let c = ci_SpendCommitment inp in
         bindE (addNew sha3 (IntraChainOutput (prevout_output c))) (\<lambda>(mainchainOutputID, _).
         bindE (addNew sha3 (CrossChainInput \<lparr>cc_MainchainOutputId = Some mainchainOutputID, cc_WitnessDestination = None,
                  cc_ControlProgram = out_ControlProgram (prevout_output c),
                  cc_AssetDefinition =
                    \<lparr>ad_IssuanceProgram = \<lparr>prog_VmVersion = ci_IssuanceVMVersion inp, prog_Code = ci_IssuanceProgram inp\<rparr>,
                     ad_Data = NewHash (sha3 (ci_AssetDefinition inp))\<rparr>,
                  cc_WitnessArguments = ci_Arguments inp, cc_Ordinal = i, cc_RawDefinitionByte = ci_AssetDefinition inp\<rparr>))
           (\<lambda>(crossInID, crossIn).
         thenE (modifyE (\<lambda>s. s\<lparr>ms_crossIns := ms_crossIns s @ [crossIn]\<rparr>))
           (returnE (Some (new_source crossInID (sc_AssetAmount c) 0))))))"

section \<open>Connecting the inputs to the mux\<close>

definition connect_spend :: "hash \<Rightarrow> nat \<Rightarrow> unit map_op" where
  "connect_spend muxID a = (\<lambda>s.
     case ms_objs s ! a of
       Spend sp \<Rightarrow>
         (case Option.bind (sp_SpentOutputId sp) (entries_of s) of
            Some (IntraChainOutput o') \<Rightarrow>
              setObj a (Spend (sp\<lparr>sp_WitnessDestination :=
                Some \<lparr>vl_Ref = Some muxID, vl_Value = vl_Value (out_Source o'), vl_Position = sp_Ordinal sp\<rparr>\<rparr>)) s
          | _ \<Rightarrow> (Inl (), s))
     | _ \<Rightarrow> (Inl (), s))"

definition connect_veto :: "hash \<Rightarrow> nat \<Rightarrow> unit map_op" where
  "connect_veto muxID a = (\<lambda>s.
     case ms_objs s ! a of
       VetoInput sp \<Rightarrow>
         (case Option.bind (sp_SpentOutputId sp) (entries_of s) of
            Some (VoteOutput v) \<Rightarrow>
              setObj a (VetoInput (sp\<lparr>sp_WitnessDestination :=
                Some \<lparr>vl_Ref = Some muxID, vl_Value = vl_Value (out_Source (vote_Output v)),
                      vl_Position = sp_Ordinal sp\<rparr>\<rparr>)) s
          | _ \<Rightarrow> (Inl (), s))
     | _ \<Rightarrow> (Inl (), s))"

definition connect_crossin :: "hash \<Rightarrow> nat \<Rightarrow> unit map_op" where
  "connect_crossin muxID a = (\<lambda>s.
     case ms_objs s ! a of
       CrossChainInput c \<Rightarrow>
         (case Option.bind (cc_MainchainOutputId c) (entries_of s) of
            Some (IntraChainOutput o') \<Rightarrow>
              setObj a (CrossChainInput (c\<lparr>cc_WitnessDestination :=
                Some \<lparr>vl_Ref = Some muxID, vl_Value = vl_Value (out_Source o'), vl_Position = cc_Ordinal c\<rparr>\<rparr>)) s
          | _ \<Rightarrow> (Inl (), s))
     | _ \<Rightarrow> (Inl (), s))"

text \<open>The first source of the mux may be a nil pointer.\<close>

definition connect_coinbase :: "hash \<Rightarrow> value_source option list \<Rightarrow> unit map_op" where
  "connect_coinbase muxID sources = (\<lambda>s.
     case ms_coinbase s of
       None \<Rightarrow> (Inr (), s)
     | Some a \<Rightarrow>
         (case (ms_objs s ! a, sources) of
            (Coinbase c, Some src # _) \<Rightarrow>
              setObj a (Coinbase (c\<lparr>cb_WitnessDestination :=
                Some \<lparr>vl_Ref = Some muxID, vl_Value = vl_Value src, vl_Position = 0\<rparr>\<rparr>)) s
          | _ \<Rightarrow> (Inl (), s)))"

section \<open>Outputs\<close>

text \<open>The result of an output.  The type of an output without a typed part is asked of a nil interface, which panics.\<close>

definition result_entry :: "value_source \<Rightarrow> nat \<Rightarrow> tx_output \<Rightarrow> entry option" where
  "result_entry src i out =
     (let o' = \<lparr>out_Source = src,
                out_ControlProgram = \<lparr>prog_VmVersion = output_VMVersion out, prog_Code = output_ControlProgram out\<rparr>,
                out_Ordinal = i\<rparr> in
      if IsUnspendable (output_ControlProgram out) then Some (Retirement \<lparr>ret_Source = src, ret_Ordinal = i\<rparr>)
      else case txo_TypedOutput out of
        None \<Rightarrow> None
      | Some (IntraChainOut _) \<Rightarrow> Some (IntraChainOutput o')
      | Some (CrossChainOut _) \<Rightarrow> Some (CrossChainOutput o')
      | Some (VoteOut _ vote) \<Rightarrow> Some (VoteOutput \<lparr>vote_Output = o', vote_Vote = vote\<rparr>))"

definition add_dest :: "nat \<Rightarrow> value_destination \<Rightarrow> unit map_op" where
  "add_dest mux d = (\<lambda>s.
     case ms_objs s ! mux of
       Mux m \<Rightarrow> setObj mux (Mux (m\<lparr>mux_WitnessDestinations := mux_WitnessDestinations m @ [d]\<rparr>)) s
     | _ \<Rightarrow> (Inl (), s))"

definition map_output :: "(bytes \<Rightarrow> bytes) \<Rightarrow> hash \<Rightarrow> nat \<Rightarrow> nat \<times> tx_output \<Rightarrow> hash map_op" where
  "map_output sha3 muxID mux = (\<lambda>(i, out).
     case result_entry (new_source muxID (output_AssetAmount out) i) i out of
       None \<Rightarrow> throwE ()
     | Some e \<Rightarrow>
         bindE (addNew sha3 e) (\<lambda>(resultID, _).
         thenE (add_dest mux \<lparr>vl_Ref = Some resultID, vl_Value = Some (output_AssetAmount out), vl_Position = 0\<rparr>)
           (returnE resultID)))"

section \<open>Transactions\<close>

definition mux_program :: bc_program where
  "mux_program = \<lparr>prog_VmVersion = 1, prog_Code = [OP_TRUE]\<rparr>"

definition mapTx :: "(bytes \<Rightarrow> bytes) \<Rightarrow> tx_data \<Rightarrow> (hash \<times> tx_header) map_op" where
  "mapTx sha3 td =
     bindE (mapE (map_input sha3 td) (zip [0..<length (td_Inputs td)] (td_Inputs td))) (\<lambda>muxSources.
     bindE (addNew sha3 (Mux \<lparr>mux_Sources = muxSources, mux_Program = mux_program, mux_WitnessDestinations = [],
              mux_WitnessArguments = []\<rparr>)) (\<lambda>(muxID, mux).
     thenE (bindE (getsE ms_spends) (forE (connect_spend muxID)))
     (thenE (bindE (getsE ms_vetoInputs) (forE (connect_veto muxID)))
     (thenE (bindE (getsE ms_crossIns) (forE (connect_crossin muxID)))
     (thenE (connect_coinbase muxID muxSources)
     (bindE (mapE (map_output sha3 muxID mux) (zip [0..<length (td_Outputs td)] (td_Outputs td))) (\<lambda>resultIDs.
      let h = \<lparr>th_Version = td_Version td, th_SerializedSize = td_SerializedSize td, th_TimeRange = td_TimeRange td,
               th_ResultIds = resultIDs\<rparr> in
      bindE (addNew sha3 (TxHeader h)) (\<lambda>(txID, _). returnE (txID, h)))))))))"

text \<open>The loop of \<^verbatim>\<open>MapTx\<close> over the entries; \<open>None\<close> is the panic on a nil pointer.\<close>

record map_ids =
  mi_InputIDs :: "hash list"
  mi_SpentOutputIDs :: "hash list"
  mi_MainchainOutputIDs :: "hash list"
  mi_GasInputIDs :: "hash list"

definition note_id :: "hash \<Rightarrow> hash list \<Rightarrow> hash list" where
  "note_id k ks = (if k \<in> set ks then ks else ks @ [k])"

definition is_btm :: "value_destination option \<Rightarrow> bool option" where
  "is_btm d = Option.bind d (\<lambda>v. Option.bind (vl_Value v) (\<lambda>x. Option.bind (aa_AssetId x) (\<lambda>a. Some (a = BTMAssetID))))"

definition note_gas :: "hash \<Rightarrow> bool \<Rightarrow> map_ids \<Rightarrow> map_ids" where
  "note_gas k btm m = (if btm then m\<lparr>mi_GasInputIDs := mi_GasInputIDs m @ [k]\<rparr> else m)"

definition note_input :: "nat \<Rightarrow> hash \<Rightarrow> map_ids \<Rightarrow> map_ids" where
  "note_input i k m = m\<lparr>mi_InputIDs := (mi_InputIDs m)[i := k]\<rparr>"

definition map_entry :: "hash \<Rightarrow> entry \<Rightarrow> map_ids \<Rightarrow> map_ids option" where
  "map_entry k e m =
     (case e of
        CrossChainInput c \<Rightarrow>
          Option.bind (cc_MainchainOutputId c) (\<lambda>j. Option.bind (is_btm (cc_WitnessDestination c)) (\<lambda>btm.
          Some (note_input (cc_Ordinal c) k (note_gas k btm
            (m\<lparr>mi_MainchainOutputIDs := note_id j (mi_MainchainOutputIDs m)\<rparr>)))))
      | Spend sp \<Rightarrow>
          Option.bind (sp_SpentOutputId sp) (\<lambda>j. Option.bind (is_btm (sp_WitnessDestination sp)) (\<lambda>btm.
          Some (note_input (sp_Ordinal sp) k (note_gas k btm
            (m\<lparr>mi_SpentOutputIDs := note_id j (mi_SpentOutputIDs m)\<rparr>)))))
      | VetoInput sp \<Rightarrow>
          Option.bind (sp_SpentOutputId sp) (\<lambda>j. Option.bind (is_btm (sp_WitnessDestination sp)) (\<lambda>btm.
          Some (note_input (sp_Ordinal sp) k (note_gas k btm
            (m\<lparr>mi_SpentOutputIDs := note_id j (mi_SpentOutputIDs m)\<rparr>)))))
      | Coinbase _ \<Rightarrow> Some (note_input 0 k (note_gas k True m))
      | _ \<Rightarrow> Some m)"

fun map_entries :: "(hash \<rightharpoonup> entry) \<Rightarrow> hash list \<Rightarrow> map_ids \<Rightarrow> map_ids option" where
  "map_entries entries [] m = Some m"
| "map_entries entries (k # ks) m =
     (case entries k of
        None \<Rightarrow> map_entries entries ks m
      | Some e \<Rightarrow> (case map_entry k e m of None \<Rightarrow> None | Some m' \<Rightarrow> map_entries entries ks m'))"

text \<open>
  \<open>visit\<close> gives the order in which each of the three loops over a Go map visits its keys.
  An identifier is stored at the index of its ordinal, if there is one.
\<close>

definition MapTx :: "(bytes \<Rightarrow> bytes) \<Rightarrow> (nat \<Rightarrow> hash list \<Rightarrow> hash list) \<Rightarrow> tx_data \<Rightarrow> tx option" where
  "MapTx sha3 visit oldTx =
     (case mapTx sha3 oldTx empty_map of
        (Inl _, _) \<Rightarrow> None
      | (Inr (txID, txHeader), s) \<Rightarrow>
          (case map_entries (entries_of s) (visit 0 (map fst (ms_ids s)))
             \<lparr>mi_InputIDs = replicate (length (td_Inputs oldTx)) zeroHash, mi_SpentOutputIDs = [],
              mi_MainchainOutputIDs = [], mi_GasInputIDs = []\<rparr> of
             None \<Rightarrow> None
           | Some m \<Rightarrow>
               Some \<lparr>tx_Header = txHeader, tx_ID = txID, tx_Entries = entries_of s, tx_InputIDs = mi_InputIDs m,
                     tx_SpentOutputIDs = visit 1 (mi_SpentOutputIDs m),
                     tx_MainchainOutputIDs = visit 2 (mi_MainchainOutputIDs m), tx_GasInputIDs = mi_GasInputIDs m\<rparr>))"

definition MapBlock :: "(bytes \<Rightarrow> bytes) \<Rightarrow> block_header \<Rightarrow> tx list \<Rightarrow> block" where
  "MapBlock sha3 h txs = (mapBlockHeader h)\<lparr>blk_ID := header_Hash sha3 h, blk_Transactions := txs\<rparr>"

text \<open>\<^verbatim>\<open>SetInputArguments\<close> on the wire data and on the entries; an index out of range panics.\<close>

definition set_entry_arguments :: "hash \<Rightarrow> bytes list \<Rightarrow> tx \<Rightarrow> tx" where
  "set_entry_arguments k args t =
     (case tx_Entries t k of
        Some (Spend sp) \<Rightarrow> t\<lparr>tx_Entries := (tx_Entries t)(k \<mapsto> Spend (sp\<lparr>sp_WitnessArguments := args\<rparr>))\<rparr>
      | Some (CrossChainInput c) \<Rightarrow>
          t\<lparr>tx_Entries := (tx_Entries t)(k \<mapsto> CrossChainInput (c\<lparr>cc_WitnessArguments := args\<rparr>))\<rparr>
      | Some (VetoInput sp) \<Rightarrow> t\<lparr>tx_Entries := (tx_Entries t)(k \<mapsto> VetoInput (sp\<lparr>sp_WitnessArguments := args\<rparr>))\<rparr>
      | _ \<Rightarrow> t)"

definition SetInputArguments :: "nat \<Rightarrow> bytes list \<Rightarrow> tx_data \<times> tx \<Rightarrow> (tx_data \<times> tx) option" where
  "SetInputArguments n args = (\<lambda>(td, t).
     if n \<ge> length (td_Inputs td) \<or> n \<ge> length (tx_InputIDs t) then None
     else
       let inp = td_Inputs td ! n;
           inp' = inp\<lparr>ti_TypedInput := map_option (\<lambda>x. SetArguments x args) (ti_TypedInput inp)\<rparr>
       in Some (td\<lparr>td_Inputs := (td_Inputs td)[n := inp']\<rparr>, set_entry_arguments (tx_InputIDs t ! n) args t))"

end
