(* ===== verification/Block_Wire.thy ===== *)
theory Block_Wire
  imports Tx_Wire_Wf Map_Tx
begin

text \<open>
  Reading a block (\<^verbatim>\<open>block.go\<close>).  Every transaction that is read is mapped to its entries at once, by \<^verbatim>\<open>NewTx\<close>, so
  that a transaction that cannot be mapped makes the reader panic.

  The orders in which the mapping visits Go maps are an argument, for each transaction.
\<close>

section \<open>Reading\<close>

definition NewTx ::
    "(bytes \<Rightarrow> bytes) \<Rightarrow> (tx_data \<Rightarrow> nat \<Rightarrow> hash list \<Rightarrow> hash list) \<Rightarrow> tx_data \<Rightarrow> (tx_data \<times> tx) option" where
  "NewTx sha3 visit data = map_option (Pair data) (MapTx sha3 (visit data) data)"

text \<open>The loop body of \<^verbatim>\<open>readFrom\<close>.\<close>

definition read_tx ::
    "(bytes \<Rightarrow> bytes) \<Rightarrow> (tx_data \<Rightarrow> nat \<Rightarrow> hash list \<Rightarrow> hash list) \<Rightarrow> (tx_data \<times> tx) rd" where
  "read_tx sha3 visit =
     bindE (TxData_readFrom zero_tx_data) (\<lambda>data.
     case NewTx sha3 visit data of None \<Rightarrow> throwE WirePanic | Some t \<Rightarrow> returnE t)"

text \<open>The block, and the entries of the transactions that were appended to it.\<close>

definition Block_readFrom ::
    "(bytes \<Rightarrow> bytes) \<Rightarrow> (tx_data \<Rightarrow> nat \<Rightarrow> hash list \<Rightarrow> hash list) \<Rightarrow> wire_block \<Rightarrow> (wire_block \<times> tx list) rd" where
  "Block_readFrom sha3 visit b =
     bindE (BlockHeader_readFrom (wb_Header b)) (\<lambda>(serflag, header).
     if serflag = SerBlockHeader then returnE (b\<lparr>wb_Header := header\<rparr>, [])
     else
       bindE ReadVarint31 (\<lambda>n.
       bindE (collectE n (read_tx sha3 visit)) (\<lambda>txs.
         returnE (b\<lparr>wb_Header := header, wb_Transactions := wb_Transactions b @ map fst txs\<rparr>, map snd txs))))"

definition Block_UnmarshalText ::
    "(bytes \<Rightarrow> bytes) \<Rightarrow> (tx_data \<Rightarrow> nat \<Rightarrow> hash list \<Rightarrow> hash list) \<Rightarrow> wire_block \<Rightarrow> string \<Rightarrow>
     wire_error + (wire_block \<times> tx list)" where
  "Block_UnmarshalText sha3 visit b text =
     (case hex_decode text of (decoded, ok) \<Rightarrow>
        if \<not> ok then Inl InvalidHex
        else case Block_readFrom sha3 visit b decoded of
          (Inl e, _) \<Rightarrow> Inl e
        | (Inr b', r) \<Rightarrow> if length r > 0 then Inl TrailingGarbage else Inr b')"

section \<open>Transactions\<close>

lemma read_tx_apply:
  assumes "tx_data_ok t" "fst (TxData_WriteTo t []) = Inr ()"
  shows "read_tx sha3 visit (snd (TxData_WriteTo t []) @ rest) =
    (case NewTx sha3 visit (relay_tx t) of None \<Rightarrow> (Inl WirePanic, rest) | Some m \<Rightarrow> (Inr m, rest))"
  using codes_TxData [OF assms(1)] assms(2)
  by (simp add: codes_def read_tx_def bindE_apply throwE_def returnE_def split: option.splits)

lemma thenE_written:
  assumes "appending w2" "fst (thenE w1 w2 []) = Inr ()"
  shows "fst (w1 []) = Inr ()" "fst (w2 []) = Inr ()" "snd (thenE w1 w2 []) = snd (w1 []) @ snd (w2 [])"
proof -
  show first: "fst (w1 []) = Inr ()"
    using assms(2) by (cases "w1 []") (auto simp: thenE_apply split: sum.splits)
  then have "thenE w1 w2 [] = (fst (w2 []), snd (w1 []) @ snd (w2 []))"
    using appendingD [OF assms(1), of "snd (w1 [])"] by (cases "w1 []") (simp add: thenE_apply)
  with assms(2) show "fst (w2 []) = Inr ()" "snd (thenE w1 w2 []) = snd (w1 []) @ snd (w2 [])" by simp_all
qed

lemma read_txs:
  assumes "\<forall>t \<in> set ts. tx_data_ok t" "fst (forE TxData_WriteTo ts []) = Inr ()"
  shows "case those (map (\<lambda>t. NewTx sha3 visit (relay_tx t)) ts) of
      None \<Rightarrow> \<exists>r. collectE (length ts) (read_tx sha3 visit) (snd (forE TxData_WriteTo ts []) @ rest) = (Inl WirePanic, r)
    | Some ms \<Rightarrow> collectE (length ts) (read_tx sha3 visit) (snd (forE TxData_WriteTo ts []) @ rest) = (Inr ms, rest)"
  using assms
proof (induction ts)
  case Nil
  then show ?case by (simp add: returnE_def)
next
  case (Cons t ts)
  have ok: "tx_data_ok t" "\<forall>t \<in> set ts. tx_data_ok t" using Cons.prems(1) by simp_all
  have "appending (forE TxData_WriteTo ts)" using txs.items_code [OF ok(2)] by (rule codes_appending)
  from thenE_written [OF this, of "TxData_WriteTo t"] Cons.prems(2)
  have w: "fst (TxData_WriteTo t []) = Inr ()" "fst (forE TxData_WriteTo ts []) = Inr ()"
    "snd (forE TxData_WriteTo (t # ts) []) = snd (TxData_WriteTo t []) @ snd (forE TxData_WriteTo ts [])" by simp_all
  show ?case
    using Cons.IH [OF ok(2) w(2)] read_tx_apply [OF ok(1) w(1), of sha3 visit "snd (forE TxData_WriteTo ts []) @ rest"]
    unfolding w(3) by (auto simp: bindE_apply returnE_def split: option.splits)
qed

section \<open>Property\<close>

text \<open>
  Property C26: the text of a full block reads back into any receiver: the header replaces the receiver's, the
  transactions, with their commitment suffixes doubled, are appended to the receiver's, and the entries of each are
  those that \<^verbatim>\<open>MapTx\<close> gives.  When \<^verbatim>\<open>MapTx\<close> panics on one of them, so does reading the block.
\<close>

theorem block_text_roundtrip:
  assumes "header_ok (wb_Header b)" and "\<forall>t \<in> set (wb_Transactions b). tx_data_ok t"
    and "Block_marshalText b SerBlockFull = Inr s"
  shows "Block_UnmarshalText sha3 visit b0 s =
    (case those (map (\<lambda>t. MapTx sha3 (visit (relay_tx t)) (relay_tx t)) (wb_Transactions b)) of
       None \<Rightarrow> Inl WirePanic
     | Some entries \<Rightarrow>
         Inr (b0\<lparr>wb_Header := wb_Header b,
           wb_Transactions := wb_Transactions b0 @ map relay_tx (wb_Transactions b)\<rparr>, entries))"
proof -
  let ?ts = "wb_Transactions b"
  let ?wh = "BlockHeader_writeTo (wb_Header b) SerBlockFull" and ?wn = "WriteVarint31 (length ?ts)" and ?wt = "forE TxData_WriteTo ?ts"
  have w: "fst (Block_writeTo b SerBlockFull []) = Inr ()" "s = hex_encode (snd (Block_writeTo b SerBlockFull []))"
    using assms(3) by (cases "Block_writeTo b SerBlockFull []", auto simp: Block_marshalText_def split: sum.splits)+
  have full: "(SerBlockFull = SerBlockHeader) = False" by (simp add: SerBlockFull_def SerBlockHeader_def)
  have split: "Block_writeTo b SerBlockFull = thenE ?wh (thenE ?wn ?wt)" by (simp add: Block_writeTo_def full)
  have ct: "codes ?wt (collectE (length ?ts) (TxData_readFrom zero_tx_data)) (map relay_tx ?ts)" by (rule txs.items_code [OF assms(2)])
  note at = codes_appending [OF this] and an = codes_appending [OF codes_Varint31, of "length ?ts"]
  note w1 = thenE_written [OF appending_thenE [OF an at], of ?wh, folded split, OF w(1)]
  note w2 = thenE_written [OF at w1(2)]
  have "codes ?wh (BlockHeader_readFrom (wb_Header b0)) (SerBlockFull, wb_Header b)"
    by (rule codes_BlockHeader [OF assms(1)]) simp
  then have h: "BlockHeader_readFrom (wb_Header b0) (snd (?wh []) @ rest) = (Inr (SerBlockFull, wb_Header b), rest)" for rest
    using w1(1) by (simp add: codes_def)
  have n: "ReadVarint31 (snd (?wn []) @ rest) = (Inr (length ?ts), rest)" for rest
    using codes_Varint31 [of "length ?ts"] w2(1) by (simp add: codes_def)
  have bytes: "snd (Block_writeTo b SerBlockFull []) = snd (?wh []) @ snd (?wn []) @ snd (?wt []) @ []"
    using w1(3) w2(3) by simp
  have maps: "those (map (\<lambda>t. NewTx sha3 visit (relay_tx t)) ts) =
      map_option (zip (map relay_tx ts)) (those (map (\<lambda>t. MapTx sha3 (visit (relay_tx t)) (relay_tx t)) ts))" for ts
    by (induction ts) (auto simp: NewTx_def option.map_comp o_def split: option.splits)
  have len: "those ys = Some zs \<Longrightarrow> length zs = length ys" for ys :: "tx option list" and zs
    by (induction ys arbitrary: zs) (auto split: option.splits)
  show ?thesis
    using read_txs [OF assms(2) w2(2), of sha3 visit "[]"] len [of "map (\<lambda>t. MapTx sha3 (visit (relay_tx t)) (relay_tx t)) ?ts"]
    unfolding maps w(2) Block_UnmarshalText_def hex_decode_encode Block_readFrom_def bytes
    by (auto simp: bindE_apply h n full returnE_def split: option.splits)
qed

end
