(* ===== verification/Consensus_Wf.thy ===== *)
theory Consensus_Wf
  imports Consensus_Result
begin

text \<open>
  Correctness of the voting result: detaching a block undoes it, the keys and counts stay well formed,
  and the consensus nodes do not depend on the order in which Go ranges over its maps.
\<close>

section \<open>Counters\<close>

definition tally :: "(string \<times> nat) list \<Rightarrow> string \<Rightarrow> nat" where
  "tally xs k = sum_list (map snd (filter (\<lambda>x. fst x = k) xs))"

lemma tally_simps [simp]:
  "tally [] k = 0"
  "tally ((k', a) # xs) k = (if k' = k then a else 0) + tally xs k"
  "tally (xs @ ys) k = tally xs k + tally ys k"
  by (simp_all add: tally_def)

locale counter =
  fixes get :: "'s \<Rightarrow> string \<Rightarrow> nat" and rest :: "'s \<Rightarrow> 'r"
    and credit :: "string \<Rightarrow> nat \<Rightarrow> ('s, 'e, unit) comp"
    and debit :: "string \<Rightarrow> nat \<Rightarrow> ('s, 'e, unit) comp"
  assumes credit_fits: "is_u64 (get s k) \<Longrightarrow> is_u64 (get s k + a) \<Longrightarrow>
      \<exists>s'. credit k a s = (Inr (), s') \<and> get s' = (get s)(k := get s k + a) \<and> rest s' = rest s"
    and credit_fails: "is_u64 (get s k) \<Longrightarrow> \<not> is_u64 (get s k + a) \<Longrightarrow> fst (credit k a s) \<noteq> Inr ()"
    and debit_fits: "is_u64 (get s k) \<Longrightarrow> a \<le> get s k \<Longrightarrow>
      \<exists>s'. debit k a s = (Inr (), s') \<and> get s' = (get s)(k := get s k - a) \<and> rest s' = rest s"
    and debit_fails: "is_u64 (get s k) \<Longrightarrow> \<not> a \<le> get s k \<Longrightarrow> fst (debit k a s) \<noteq> Inr ()"
begin

lemma credits_run:
  "(\<And>k. is_u64 (get s k + tally xs k)) \<Longrightarrow>
   \<exists>s'. forE (\<lambda>(k, a). credit k a) xs s = (Inr (), s') \<and>
     (\<forall>k. get s' k = get s k + tally xs k) \<and> rest s' = rest s"
proof (induction xs arbitrary: s)
  case Nil
  then show ?case by (simp add: returnE_def)
next
  case (Cons x xs)
  obtain k a where x: "x = (k, a)" by (cases x)
  have "is_u64 (get s k)" "is_u64 (get s k + a)"
    using Cons.prems [of k] by (auto simp: x is_u64_def)
  from credit_fits [OF this] obtain s1 where s1: "credit k a s = (Inr (), s1)"
      "get s1 = (get s)(k := get s k + a)" "rest s1 = rest s" by blast
  have "is_u64 (get s1 j + tally xs j)" for j
    using Cons.prems [of j] by (auto simp: x s1(2) add.assoc)
  from Cons.IH [OF this] obtain s2 where "forE (\<lambda>(k, a). credit k a) xs s1 = (Inr (), s2)"
      "\<forall>k. get s2 k = get s1 k + tally xs k" "rest s2 = rest s1" by blast
  with s1 show ?case by (simp add: x thenE_apply)
qed

lemma debits_run:
  "(\<And>k. is_u64 (get s k)) \<Longrightarrow> (\<And>k. tally xs k \<le> get s k) \<Longrightarrow>
   \<exists>s'. forE (\<lambda>(k, a). debit k a) xs s = (Inr (), s') \<and>
     (\<forall>k. get s' k = get s k - tally xs k) \<and> rest s' = rest s"
proof (induction xs arbitrary: s)
  case Nil
  then show ?case by (simp add: returnE_def)
next
  case (Cons x xs)
  obtain k a where x: "x = (k, a)" by (cases x)
  have "a \<le> get s k" using Cons.prems(2) [of k] by (simp add: x)
  from debit_fits [OF Cons.prems(1) this] obtain s1 where s1: "debit k a s = (Inr (), s1)"
      "get s1 = (get s)(k := get s k - a)" "rest s1 = rest s" by blast
  have "is_u64 (get s1 j)" for j using Cons.prems(1) [of j] by (auto simp: s1(2) is_u64_def)
  moreover have "tally xs j \<le> get s1 j" for j using Cons.prems(2) [of j] by (auto simp: x s1(2))
  ultimately obtain s2 where "forE (\<lambda>(k, a). debit k a) xs s1 = (Inr (), s2)"
      "\<forall>k. get s2 k = get s1 k - tally xs k" "rest s2 = rest s1" using Cons.IH [of s1] by blast
  with s1 show ?case by (simp add: x thenE_apply)
qed

lemma credits_effect:
  "(\<And>k. is_u64 (get s k)) \<Longrightarrow> forE (\<lambda>(k, a). credit k a) xs s = (Inr (), s') \<Longrightarrow>
   (\<forall>k. get s' k = get s k + tally xs k \<and> is_u64 (get s' k)) \<and> rest s' = rest s"
proof (induction xs arbitrary: s)
  case Nil
  then show ?case by (simp add: returnE_def)
next
  case (Cons x xs)
  obtain k a where x: "x = (k, a)" by (cases x)
  obtain s1 where run: "credit k a s = (Inr (), s1)" "forE (\<lambda>(k, a). credit k a) xs s1 = (Inr (), s')"
    using Cons.prems(2) by (auto simp: x thenE_Inr_iff)
  have fits: "is_u64 (get s k + a)" using credit_fails [OF Cons.prems(1), of k a] run(1) by auto
  with credit_fits [OF Cons.prems(1) fits] run(1)
  have s1: "get s1 = (get s)(k := get s k + a)" "rest s1 = rest s" by auto
  have "is_u64 (get s1 j)" for j using Cons.prems(1) [of j] fits by (simp add: s1)
  from Cons.IH [OF this run(2)] have IH: "\<forall>j. get s' j = get s1 j + tally xs j"
      "\<forall>j. is_u64 (get s' j)" "rest s' = rest s1" by blast+
  have "get s' j = get s j + tally (x # xs) j" for j using IH(1) s1(1) by (simp add: x)
  with IH(2,3) s1(2) show ?case by metis
qed

lemma debits_effect:
  "(\<And>k. is_u64 (get s k)) \<Longrightarrow> forE (\<lambda>(k, a). debit k a) xs s = (Inr (), s') \<Longrightarrow>
   (\<forall>k. get s k = get s' k + tally xs k \<and> is_u64 (get s' k)) \<and> rest s' = rest s"
proof (induction xs arbitrary: s)
  case Nil
  then show ?case by (simp add: returnE_def)
next
  case (Cons x xs)
  obtain k a where x: "x = (k, a)" by (cases x)
  obtain s1 where run: "debit k a s = (Inr (), s1)" "forE (\<lambda>(k, a). debit k a) xs s1 = (Inr (), s')"
    using Cons.prems(2) by (auto simp: x thenE_Inr_iff)
  have fits: "a \<le> get s k" using debit_fails [OF Cons.prems(1), of a k] run(1) by auto
  with debit_fits [OF Cons.prems(1) fits] run(1)
  have s1: "get s1 = (get s)(k := get s k - a)" "rest s1 = rest s" by auto
  have "is_u64 (get s1 j)" for j using Cons.prems(1) [of j] by (auto simp: s1 is_u64_def)
  from Cons.IH [OF this run(2)] have IH: "\<forall>j. get s1 j = get s' j + tally xs j"
      "\<forall>j. is_u64 (get s' j)" "rest s' = rest s1" by blast+
  have "get s j = get s' j + tally (x # xs) j" for j
    using IH(1) [rule_format, of j] s1(1) fits by (auto simp: x)
  with IH(2,3) s1(2) show ?case by metis
qed

end

section \<open>The two counters of the state\<close>

definition votes :: "consensus_result \<Rightarrow> string \<Rightarrow> nat" where
  "votes c = lookup0 (cr_NumOfVote c)"

definition rewards :: "consensus_result \<Rightarrow> string \<Rightarrow> nat" where
  "rewards c = lookup0 (cr_CoinbaseReward c)"

definition not_votes :: "consensus_result \<Rightarrow> nat \<times> (string \<rightharpoonup> nat) \<times> hash \<times> nat" where
  "not_votes c = (cr_Seq c, cr_CoinbaseReward c, cr_BlockHash c, cr_BlockHeight c)"

definition not_rewards :: "consensus_result \<Rightarrow> nat \<times> (string \<rightharpoonup> nat) \<times> hash \<times> nat" where
  "not_rewards c = (cr_Seq c, cr_NumOfVote c, cr_BlockHash c, cr_BlockHeight c)"

lemma lookup0_update [simp]:
  "lookup0 (m(k \<mapsto> v)) = (lookup0 m)(k := v)" "lookup0 (m(k := None)) = (lookup0 m)(k := 0)"
  by (auto simp: lookup0_def fun_eq_iff)

lemma credit_map_spec:
  assumes "is_u64 (lookup0 m k)"
  shows "snd (credit_map m k a) = is_u64 (lookup0 m k + a)"
    "is_u64 (lookup0 m k + a) \<Longrightarrow> lookup0 (fst (credit_map m k a)) = (lookup0 m)(k := lookup0 m k + a)"
  using assms by (simp_all add: credit_map_def AddUint64_checked checked_def)

lemma debit_map_spec:
  assumes "is_u64 (lookup0 m k)"
  shows "snd (debit_map m k a) = (a \<le> lookup0 m k)"
    "a \<le> lookup0 m k \<Longrightarrow> lookup0 (fst (debit_map m k a)) = (lookup0 m)(k := lookup0 m k - a)"
  using assms by (simp_all add: debit_map_def SubUint64_exact)

lemmas counter_defs =
  votes_def rewards_def not_votes_def not_rewards_def credit_votes_def debit_votes_def
  credit_reward_def debit_reward_def case_prod_beta

interpretation vote_count: counter votes not_votes credit_votes debit_votes
  by unfold_locales (simp_all add: counter_defs credit_map_spec debit_map_spec)

interpretation reward_count: counter rewards not_rewards credit_reward debit_reward
  by unfold_locales (simp_all add: counter_defs credit_map_spec debit_map_spec)

section \<open>Transactions\<close>

lemma each_loop: "forE (each f op) xs = forE (\<lambda>(k, a). op k a) (List.map_filter f xs)"
proof (induction xs)
  case (Cons x xs)
  have skip: "thenE (returnE ()) m = m" for m :: "unit cr_op"
    by (simp add: fun_eq_iff thenE_apply returnE_def)
  show ?case
    by (cases "f x") (simp_all add: Cons map_filter_simps skip each_def [of f op x] split: prod.splits)
qed (simp add: map_filter_simps)

definition vetoed :: "tx_data \<Rightarrow> (string \<times> nat) list" where
  "vetoed t = List.map_filter veto_of (td_Inputs t)"

definition cast :: "tx_data \<Rightarrow> (string \<times> nat) list" where
  "cast t = List.map_filter vote_of (td_Outputs t)"

definition bounded :: "consensus_result \<Rightarrow> bool" where
  "bounded c \<longleftrightarrow> (\<forall>k. is_u64 (votes c k)) \<and> (\<forall>k. is_u64 (rewards c k))"

lemma not_votes_rewards: "not_votes c' = not_votes c \<Longrightarrow> rewards c' = rewards c"
  by (simp add: not_votes_def rewards_def)

lemma apply_votes:
  assumes "\<And>k. is_u64 (votes c k)" "CR_ApplyTransaction t c = (Inr (), c')"
  shows "\<forall>k. votes c' k + tally (vetoed t) k = votes c k + tally (cast t) k \<and> is_u64 (votes c' k)"
    "not_votes c' = not_votes c"
proof -
  obtain c1 where run: "forE (\<lambda>(k, a). debit_votes k a) (vetoed t) c = (Inr (), c1)"
      "forE (\<lambda>(k, a). credit_votes k a) (cast t) c1 = (Inr (), c')"
    using assms(2) by (auto simp: CR_ApplyTransaction_def each_loop thenE_Inr_iff vetoed_def cast_def)
  note D = vote_count.debits_effect [OF assms(1) run(1)]
  have "is_u64 (votes c1 k)" for k using D by blast
  note C = vote_count.credits_effect [OF this run(2)]
  show "\<forall>k. votes c' k + tally (vetoed t) k = votes c k + tally (cast t) k \<and> is_u64 (votes c' k)"
  proof
    fix k
    have "votes c k = votes c1 k + tally (vetoed t) k" "votes c' k = votes c1 k + tally (cast t) k"
      "is_u64 (votes c' k)" using C D by blast+
    then show "votes c' k + tally (vetoed t) k = votes c k + tally (cast t) k \<and> is_u64 (votes c' k)" by simp
  qed
  show "not_votes c' = not_votes c" using C D by simp
qed

lemma detach_votes:
  assumes "\<And>k. votes c' k + tally (vetoed t) k = v k + tally (cast t) k"
    and "\<And>k. is_u64 (v k + tally (cast t) k)"
  shows "\<exists>c''. CR_DetachTransaction t c' = (Inr (), c'') \<and> votes c'' = v \<and> not_votes c'' = not_votes c'"
proof -
  have "is_u64 (votes c' k + tally (vetoed t) k)" for k using assms(2) [of k] by (simp add: assms(1))
  from vote_count.credits_run [OF this] obtain c1 where
      c1: "forE (\<lambda>(k, a). credit_votes k a) (vetoed t) c' = (Inr (), c1)"
        "\<forall>k. votes c1 k = votes c' k + tally (vetoed t) k" "not_votes c1 = not_votes c'" by blast
  have eq: "votes c1 k = v k + tally (cast t) k" for k using c1(2) assms(1) by simp
  have "is_u64 (votes c1 k)" "tally (cast t) k \<le> votes c1 k" for k using assms(2) [of k] eq [of k] by simp_all
  from vote_count.debits_run [OF this] obtain c2 where
      c2: "forE (\<lambda>(k, a). debit_votes k a) (cast t) c1 = (Inr (), c2)"
        "\<forall>k. votes c2 k = votes c1 k - tally (cast t) k" "not_votes c2 = not_votes c1" by blast
  have "votes c2 = v" using c2(2) eq by (simp add: fun_eq_iff)
  with c1 c2 show ?thesis
    by (simp add: CR_DetachTransaction_def each_loop thenE_apply vetoed_def cast_def)
qed

section \<open>Blocks\<close>

definition all_cast :: "tx_data list \<Rightarrow> string \<Rightarrow> nat" where
  "all_cast ts k = tally (concat (map cast ts)) k"

lemma all_cast_simps [simp]:
  "all_cast [] k = 0" "all_cast (t # ts) k = tally (cast t) k + all_cast ts k"
  by (simp_all add: all_cast_def)

lemma apply_txs_votes:
  "(\<And>k. is_u64 (votes c k)) \<Longrightarrow> forE CR_ApplyTransaction ts c = (Inr (), c') \<Longrightarrow>
   (\<forall>k. is_u64 (votes c' k)) \<and> not_votes c' = not_votes c"
proof (induction ts arbitrary: c)
  case Nil
  then show ?case by (simp add: returnE_def)
next
  case (Cons t ts)
  then obtain c1 where run: "CR_ApplyTransaction t c = (Inr (), c1)" "forE CR_ApplyTransaction ts c1 = (Inr (), c')"
    by (auto simp: thenE_Inr_iff)
  note E = apply_votes [OF Cons.prems(1) run(1)]
  have "is_u64 (votes c1 k)" for k using E(1) by blast
  from Cons.IH [OF this run(2)] E(2) show ?case by simp
qed

lemma detach_txs_votes:
  "(\<And>k. is_u64 (votes c k + all_cast ts k)) \<Longrightarrow> forE CR_ApplyTransaction ts c = (Inr (), c') \<Longrightarrow>
   votes d = votes c' \<Longrightarrow>
   \<exists>d'. forE CR_DetachTransaction (rev ts) d = (Inr (), d') \<and> votes d' = votes c \<and> not_votes d' = not_votes d"
proof (induction ts arbitrary: c)
  case Nil
  then show ?case by (simp add: returnE_def)
next
  case (Cons t ts)
  then obtain c1 where run: "CR_ApplyTransaction t c = (Inr (), c1)" "forE CR_ApplyTransaction ts c1 = (Inr (), c')"
    by (auto simp: thenE_Inr_iff)
  have small: "is_u64 (votes c k)" "is_u64 (votes c k + tally (cast t) k)" for k
    using Cons.prems(1) [of k] by (simp_all add: is_u64_def)
  note E = apply_votes [OF small(1) run(1)]
  have "is_u64 (votes c1 k + all_cast ts k)" for k
  proof -
    have "votes c1 k \<le> votes c k + tally (cast t) k" using E(1) [rule_format, of k] by simp
    with Cons.prems(1) [of k] show ?thesis by (simp add: is_u64_def)
  qed
  from Cons.IH [OF this run(2) Cons.prems(3)] obtain d1 where
      d1: "forE CR_DetachTransaction (rev ts) d = (Inr (), d1)" "votes d1 = votes c1" "not_votes d1 = not_votes d"
    by blast
  have "votes d1 k + tally (vetoed t) k = votes c k + tally (cast t) k" for k using E(1) d1(2) by simp
  from detach_votes [of d1 t "votes c", OF this small(2)] obtain d2 where
      d2: "CR_DetachTransaction t d1 = (Inr (), d2)" "votes d2 = votes c" "not_votes d2 = not_votes d1" by blast
  have "forE CR_DetachTransaction (rev (t # ts)) d = (Inr (), d2)"
    by (simp add: forE_append thenE_apply d1(1) d2(1) returnE_def)
  with d1(3) d2(2,3) show ?case by auto
qed

lemma attach_reward:
  assumes "AttachCoinbaseReward P b c = (Inr (), c')" "\<And>k. is_u64 (rewards c k)"
  obtains r where "CalCoinbaseReward P b = Inr r"
    and "\<And>k. rewards c' k = (if bh_Height (wb_Header b) mod RoundVoteBlockNums P = 1 then 0 else rewards c k) +
      (if k = hex_encode (rw_ControlProgram r) then rw_Amount r else 0)"
    and "\<And>k. is_u64 (rewards c' k)" and "not_rewards c' = not_rewards c"
proof (cases "CalCoinbaseReward P b")
  case (Inl e)
  then show ?thesis using assms(1) by (simp add: AttachCoinbaseReward_def liftR_def bindE_apply throwE_def)
next
  case (Inr r)
  let ?first = "bh_Height (wb_Header b) mod RoundVoteBlockNums P = 1"
  let ?k = "hex_encode (rw_ControlProgram r)"
  define c1 where "c1 = (if ?first then c\<lparr>cr_CoinbaseReward := Map.empty\<rparr> else c)"
  have "credit_reward ?k (rw_Amount r) c1 = (Inr (), c')"
    using assms(1) Inr
    by (simp add: AttachCoinbaseReward_def liftR_def bindE_apply returnE_def thenE_apply modifyE_def c1_def)
  then have run: "forE (\<lambda>(k, a). credit_reward k a) [(?k, rw_Amount r)] c1 = (Inr (), c')"
    by (simp add: thenE_apply returnE_def)
  have c1: "rewards c1 k = (if ?first then 0 else rewards c k)" "not_rewards c1 = not_rewards c" for k
    by (simp_all add: c1_def rewards_def lookup0_def not_rewards_def)
  have "is_u64 (rewards c1 k)" for k using assms(2) by (simp add: c1 is_u64_def)
  note E = reward_count.credits_effect [OF this run]
  show ?thesis
  proof (rule that [OF Inr])
    fix k
    have "rewards c' k = rewards c1 k + tally [(?k, rw_Amount r)] k" using E by blast
    then show "rewards c' k = (if ?first then 0 else rewards c k) + (if k = ?k then rw_Amount r else 0)"
      by (simp add: c1 eq_commute [of ?k])
    show "is_u64 (rewards c' k)" using E by blast
    show "not_rewards c' = not_rewards c" using E c1(2) by simp
  qed
qed

lemma detach_reward:
  assumes "CalCoinbaseReward P b = Inr r" "\<And>k. is_u64 (rewards c k)"
    and "rw_Amount r \<le> rewards c (hex_encode (rw_ControlProgram r))"
  shows "\<exists>c'. DetachCoinbaseReward P b c = (Inr (), c') \<and> not_rewards c' = not_rewards c \<and>
    (if bh_Height (wb_Header b) mod RoundVoteBlockNums P = 1
     then cr_CoinbaseReward c' = paid_rewards Map.empty (tl (td_Outputs (hd (wb_Transactions b))))
     else (\<forall>k. rewards c' k = rewards c k -
       (if k = hex_encode (rw_ControlProgram r) then rw_Amount r else 0)))"
proof -
  let ?k = "hex_encode (rw_ControlProgram r)"
  from reward_count.debit_fits [OF assms(2,3)] obtain c1 where
      c1: "debit_reward ?k (rw_Amount r) c = (Inr (), c1)"
        "rewards c1 = (rewards c)(?k := rewards c ?k - rw_Amount r)" "not_rewards c1 = not_rewards c" by blast
  show ?thesis
    using c1 assms(1)
    by (auto simp: DetachCoinbaseReward_def liftR_def bindE_apply returnE_def thenE_apply modifyE_def
        not_rewards_def rewards_def)
qed

section \<open>Apply, then detach\<close>

text \<open>The state that belongs to the block's parent.\<close>

definition at_parent :: "params \<Rightarrow> wire_block \<Rightarrow> consensus_result \<Rightarrow> bool" where
  "at_parent P b c \<longleftrightarrow>
     0 < bh_Height (wb_Header b) \<and> is_u64 (bh_Height (wb_Header b)) \<and>
     cr_BlockHeight c = bh_Height (wb_Header b) - 1 \<and>
     cr_Seq c = CalcVoteSeq P (bh_Height (wb_Header b) - 1)"

lemma CR_ApplyBlock_steps:
  assumes "CR_ApplyBlock P sha3 b c = (Inr (), c')"
  obtains c1 c2 where "cr_BlockHash c = bh_PreviousBlockHash (wb_Header b)"
    "AttachCoinbaseReward P b c = (Inr (), c1)" "forE CR_ApplyTransaction (wb_Transactions b) c1 = (Inr (), c2)"
    "c' = c2\<lparr>cr_BlockHash := header_Hash sha3 (wb_Header b), cr_BlockHeight := bh_Height (wb_Header b),
      cr_Seq := CalcVoteSeq P (bh_Height (wb_Header b))\<rparr>"
  using assms
  by (auto simp: CR_ApplyBlock_def bindE_Inr_iff thenE_Inr_iff getsE_def modifyE_def throwE_def split: if_splits)

lemma detach_apply_result:
  assumes attached: "CR_ApplyBlock P sha3 b c = (Inr (), c')" and "bounded c" "at_parent P b c"
    and small: "\<And>k. is_u64 (votes c k + all_cast (wb_Transactions b) k)"
  shows "\<exists>d. CR_DetachBlock P sha3 b c' = (Inr (), d) \<and> votes d = votes c \<and>
    cr_BlockHash d = cr_BlockHash c \<and> cr_BlockHeight d = cr_BlockHeight c \<and> cr_Seq d = cr_Seq c \<and>
    (if bh_Height (wb_Header b) mod RoundVoteBlockNums P = 1
     then cr_CoinbaseReward d = paid_rewards Map.empty (tl (td_Outputs (hd (wb_Transactions b))))
     else rewards d = rewards c)"
proof -
  let ?h = "bh_Height (wb_Header b)"
  obtain c1 c2 where steps: "cr_BlockHash c = bh_PreviousBlockHash (wb_Header b)"
      "AttachCoinbaseReward P b c = (Inr (), c1)" "forE CR_ApplyTransaction (wb_Transactions b) c1 = (Inr (), c2)"
      "c' = c2\<lparr>cr_BlockHash := header_Hash sha3 (wb_Header b), cr_BlockHeight := ?h, cr_Seq := CalcVoteSeq P ?h\<rparr>"
    using CR_ApplyBlock_steps [OF attached] by blast
  have bounds: "is_u64 (rewards c k)" "is_u64 (votes c k)" for k using assms(2) by (simp_all add: bounded_def)
  obtain r where r: "CalCoinbaseReward P b = Inr r"
      "\<And>k. rewards c1 k = (if ?h mod RoundVoteBlockNums P = 1 then 0 else rewards c k) +
        (if k = hex_encode (rw_ControlProgram r) then rw_Amount r else 0)"
      "\<And>k. is_u64 (rewards c1 k)" "not_rewards c1 = not_rewards c"
    using attach_reward [OF steps(2) bounds(1)] by blast
  have v1: "votes c1 = votes c" using r(4) by (simp add: not_rewards_def votes_def)
  have same: "not_votes c2 = not_votes c1"
    using apply_txs_votes [OF _ steps(3)] bounds(2) v1 by simp
  have c': "rewards c' = rewards c1" "votes c' = votes c2"
    using not_votes_rewards [OF same] steps(4) by (simp_all add: rewards_def votes_def)
  have "rw_Amount r \<le> rewards c' (hex_encode (rw_ControlProgram r))" by (simp add: c' r(2))
  then obtain d1 where d1: "DetachCoinbaseReward P b c' = (Inr (), d1)" "not_rewards d1 = not_rewards c'"
      "if ?h mod RoundVoteBlockNums P = 1
       then cr_CoinbaseReward d1 = paid_rewards Map.empty (tl (td_Outputs (hd (wb_Transactions b))))
       else (\<forall>k. rewards d1 k = rewards c' k - (if k = hex_encode (rw_ControlProgram r) then rw_Amount r else 0))"
    using detach_reward [OF r(1), of c'] r(3) c'(1) by auto
  have "votes d1 = votes c2" using d1(2) c'(2) by (simp add: not_rewards_def votes_def)
  with detach_txs_votes [OF _ steps(3), of d1] small v1 obtain d2 where
      d2: "forE CR_DetachTransaction (rev (wb_Transactions b)) d1 = (Inr (), d2)"
        "votes d2 = votes c" "not_votes d2 = not_votes d1" by auto
  have h: "sub_u64 ?h 1 = ?h - 1" using assms(3) by (intro sub_u64_id) (simp_all add: at_parent_def)
  have hash: "cr_BlockHash c' = header_Hash sha3 (wb_Header b)" by (simp add: steps(4))
  have rew: "cr_CoinbaseReward d2 = cr_CoinbaseReward d1" using d2(3) by (simp add: not_votes_def)
  show ?thesis
    using d1(1,3) d2(1,2) hash steps(1) assms(3) r(2) c'(1)
    by (auto simp: CR_DetachBlock_def bindE_apply getsE_def thenE_apply modifyE_def h h [unfolded One_nat_def] at_parent_def
        votes_def rewards_def rew fun_eq_iff)
qed

section \<open>Keys\<close>

definition hex_keys :: "consensus_result \<Rightarrow> bool" where
  "hex_keys c \<longleftrightarrow> (\<forall>k \<in> dom (cr_NumOfVote c). \<exists>bs. k = hex_encode bs)"

abbreviation (input) keeps_keys :: "unit cr_op \<Rightarrow> bool" where
  "keeps_keys m \<equiv> hoare hex_keys m (\<lambda>_. hex_keys) (\<lambda>_. hex_keys)"

lemma keeps_credit: "keeps_keys (credit_votes (hex_encode bs) a)"
  by (auto simp: hoare_def credit_votes_def credit_map_def hex_keys_def split: prod.splits if_splits)

lemma keeps_debit: "keeps_keys (debit_votes (hex_encode bs) a)"
  by (auto simp: hoare_def debit_votes_def debit_map_def hex_keys_def split: prod.splits if_splits)

lemma keeps_each:
  assumes "\<And>k a. f x = Some (k, a) \<Longrightarrow> \<exists>bs. k = hex_encode bs"
    and "\<And>bs a. keeps_keys (opr (hex_encode bs) a)"
  shows "keeps_keys (each f opr x)"
proof (cases "f x")
  case None
  then show ?thesis by (simp add: each_def hoare_def returnE_def)
next
  case (Some p)
  then obtain bs a where "p = (hex_encode bs, a)" using assms(1) by (cases p) blast
  with Some assms(2) show ?thesis by (simp add: each_def)
qed

lemma keeps_tx: "keeps_keys (CR_ApplyTransaction t)"
  unfolding CR_ApplyTransaction_def
proof (rule hoare_thenE [where R = "\<lambda>_. hex_keys"])
  show "keeps_keys (forE (each veto_of debit_votes) (td_Inputs t))"
    by (intro hoare_forE keeps_each keeps_debit)
      (auto simp: veto_of_def split: option.splits typed_input.splits)
  show "keeps_keys (forE (each vote_of credit_votes) (td_Outputs t))"
    by (intro hoare_forE keeps_each keeps_credit)
      (auto simp: vote_of_def split: option.splits typed_output.splits)
qed

section \<open>Consensus nodes\<close>

definition qualifies :: "params \<Rightarrow> (string \<rightharpoonup> nat) \<Rightarrow> string \<Rightarrow> bool" where
  "qualifies P v k \<longleftrightarrow> lookup0 v k \<ge> MinConsensusNodeVoteNum P"

definition node_of :: "(string \<rightharpoonup> nat) \<Rightarrow> string \<Rightarrow> consensus_node" where
  "node_of v k = \<lparr>cn_XPub = the (XPub_UnmarshalText k), cn_VoteNum = lookup0 v k, cn_Order = 0\<rparr>"

lemma collect_nodes_eq:
  "collect_nodes P v ks =
     (if \<exists>k \<in> set ks. qualifies P v k \<and> XPub_UnmarshalText k = None then Inl BadXPub
      else Inr (map (node_of v) (filter (qualifies P v) ks)))"
proof (induction ks)
  case (Cons k ks)
  then show ?case
    by (cases "qualifies P v k"; cases "XPub_UnmarshalText k")
      (auto simp: qualifies_def [of P v k] node_of_def [of v k])
qed simp

lemma XPub_hex: "XPub_UnmarshalText (hex_encode bs) = Some x \<Longrightarrow> x = bs"
  by (simp add: XPub_UnmarshalText_def hex_decode_encode split: if_splits)

lemma byVote_order: "(\<And>n. n \<in> A \<Longrightarrow> cn_Order n = 0) \<Longrightarrow> strict_order byVote_Less A"
proof -
  assume zero: "\<And>n. n \<in> A \<Longrightarrow> cn_Order n = 0"
  have "byVote_Less x y \<or> byVote_Less y x" if "x \<in> A" "y \<in> A" "x \<noteq> y" for x y
  proof (cases "cn_VoteNum x = cn_VoteNum y")
    case True
    moreover have "cn_Order x = cn_Order y" using zero that(1,2) by metis
    ultimately have "cn_XPub x \<noteq> cn_XPub y" using that(3) by (cases x; cases y) auto
    then have "hex_encode (cn_XPub x) \<noteq> hex_encode (cn_XPub y)" using hex_encode_inj by blast
    from str_less_total [OF this] True show ?thesis by (auto simp: byVote_Less_def)
  qed (auto simp: byVote_Less_def)
  then show ?thesis
    unfolding strict_order_def byVote_Less_def
    by (auto simp: str_less_irrefl intro: str_less_trans)
qed

lemma nodes_distinct:
  assumes "distinct ks" "\<And>k. k \<in> set ks \<Longrightarrow> \<exists>bs. k = hex_encode bs"
    and "\<And>k. k \<in> set ks \<Longrightarrow> XPub_UnmarshalText k \<noteq> None"
  shows "distinct (map (node_of v) ks)" "\<And>k. k \<in> set ks \<Longrightarrow> hex_encode (cn_XPub (node_of v k)) = k"
proof -
  show key: "hex_encode (cn_XPub (node_of v k)) = k" if mem: "k \<in> set ks" for k
  proof -
    obtain bs where "k = hex_encode bs" using assms(2) [OF mem] by blast
    moreover obtain x where "XPub_UnmarshalText k = Some x" using assms(3) [OF mem] by blast
    ultimately show ?thesis using XPub_hex [of bs x] by (simp add: node_of_def)
  qed
  have "inj_on (node_of v) (set ks)"
  proof (rule inj_onI)
    fix j k assume "j \<in> set ks" "k \<in> set ks" "node_of v j = node_of v k"
    then show "j = k" using key by metis
  qed
  with assms(1) show "distinct (map (node_of v) ks)" by (simp add: distinct_map)
qed

lemma sorted_nodes_perm:
  assumes "mset ks = mset ks'" "distinct ks" "\<And>k. k \<in> set ks \<Longrightarrow> \<exists>bs. k = hex_encode bs"
    and "\<And>k. k \<in> set ks \<Longrightarrow> qualifies P v k \<Longrightarrow> XPub_UnmarshalText k \<noteq> None"
  shows "sort_by byVote_Less (map (node_of v) (filter (qualifies P v) ks)) =
    sort_by byVote_Less (map (node_of v) (filter (qualifies P v) ks'))"
proof (rule sort_by_perm)
  show "strict_order byVote_Less (set (map (node_of v) (filter (qualifies P v) ks)))"
    by (rule byVote_order) (auto simp: node_of_def)
  show "distinct (map (node_of v) (filter (qualifies P v) ks))"
    using assms(2-4) by (intro nodes_distinct(1)) auto
  show "mset (map (node_of v) (filter (qualifies P v) ks)) = mset (map (node_of v) (filter (qualifies P v) ks'))"
    using assms(1) by (simp add: mset_map mset_filter)
qed

lemma number_nodes_fst: "map fst (number_nodes i ns) = map (\<lambda>n. hex_encode (cn_XPub n)) ns"
  by (induction ns arbitrary: i) simp_all

lemma number_nodes_Nil: "number_nodes i ns = [] \<longleftrightarrow> ns = []"
  by (cases ns) simp_all

lemma dom_numbered: "dom (map_of (rev (number_nodes i ns))) = (\<lambda>n. hex_encode (cn_XPub n)) ` set ns"
  by (metis dom_map_of_conv_image_fst image_set number_nodes_fst set_rev)

lemma sorted_take_drop:
  assumes "sorted_wrt lt xs" "x \<in> set (take n xs)" "y \<in> set (drop n xs)"
  shows "lt x y"
  using assms by (metis append_take_drop_id sorted_wrt_append)

text \<open>The prefix that the election keeps, stated on the keys.\<close>

lemma elected_prefix:
  assumes ks: "distinct ks" "\<And>k. k \<in> set ks \<Longrightarrow> \<exists>bs. k = hex_encode bs"
      "\<And>k. k \<in> set ks \<Longrightarrow> XPub_UnmarshalText k \<noteq> None"
    and E: "E = (\<lambda>n. hex_encode (cn_XPub n)) ` set (take N (sort_by byVote_Less (map (node_of v) ks)))"
  shows "E \<subseteq> set ks" "card E = min N (length ks)"
    "\<And>j k. k \<in> E \<Longrightarrow> j \<in> set ks - E \<Longrightarrow> lookup0 v j \<le> lookup0 v k"
proof -
  let ?s = "sort_by byVote_Less (map (node_of v) ks)"
  let ?h = "\<lambda>n. hex_encode (cn_XPub n)"
  note key = nodes_distinct(2) [OF ks, of _ v]
  have order: "strict_order byVote_Less (set (map (node_of v) ks))"
    by (rule byVote_order) (auto simp: node_of_def)
  have sorted: "sorted_wrt byVote_Less ?s" by (rule sorted_sort_by [OF order nodes_distinct(1) [OF ks]])
  have set: "set ?s = node_of v ` set ks" by (simp add: set_sort_by)
  have dist: "distinct ?s" by (metis mset_eq_imp_distinct_iff mset_sort_by nodes_distinct(1) [OF ks])
  have inj: "inj_on ?h (set ?s)" using key by (auto simp: set inj_on_def)
  have sub: "set (take N ?s) \<subseteq> set ?s" by (rule set_take_subset)
  show "E \<subseteq> set ks" using sub key by (auto simp: E set)
  have len: "length ?s = length ks" by (metis length_map mset_sort_by size_mset)
  have "card E = card (set (take N ?s))" unfolding E by (rule card_image [OF inj_on_subset [OF inj sub]])
  also have "\<dots> = min N (length ks)" using dist by (simp add: distinct_card len min.commute)
  finally show "card E = min N (length ks)" .
  show "lookup0 v j \<le> lookup0 v k" if k: "k \<in> E" and j: "j \<in> set ks - E" for j k
  proof -
    have "node_of v k \<in> set (take N ?s)"
      using k sub key unfolding E set by (smt (verit) imageE subsetD)
    moreover have "node_of v j \<notin> set (take N ?s)" using j key unfolding E by (metis DiffE image_eqI)
    then have "node_of v j \<in> set (drop N ?s)"
      using j set by (metis DiffD1 Un_iff append_take_drop_id image_eqI set_append)
    ultimately have "byVote_Less (node_of v k) (node_of v j)" by (rule sorted_take_drop [OF sorted])
    then show ?thesis by (auto simp: byVote_Less_def node_of_def)
  qed
qed

section \<open>Fees\<close>

text \<open>What goes in and comes out of a transaction in the native asset.\<close>

definition btm_in :: "tx_data \<Rightarrow> nat" where
  "btm_in t = sum_list (map input_Amount (filter (\<lambda>i. input_AssetID i = Some BTMAssetID) (td_Inputs t)))"

definition btm_out :: "tx_data \<Rightarrow> nat" where
  "btm_out t = sum_list (map (\<lambda>out. aa_Amount (output_AssetAmount out))
     (filter (\<lambda>out. aa_AssetId (output_AssetAmount out) = Some BTMAssetID) (td_Outputs t)))"

definition spending_input :: "tx_input \<Rightarrow> bool" where
  "spending_input i \<longleftrightarrow> input_AssetID i \<noteq> None \<and>
     (case ti_TypedInput i of None \<Rightarrow> False | Some ty \<Rightarrow> InputType ty \<noteq> CoinbaseInputType)"

lemma fee_inputs_exact:
  assumes "list_all spending_input is" "is_u64 fee"
  shows "fee_inputs fee is =
    (let s = fee + sum_list (map input_Amount (filter (\<lambda>i. input_AssetID i = Some BTMAssetID) is)) in
     if is_u64 s then Inr (Some s) else Inl CR_ErrOverflow)"
  using assms
proof (induction "is" arbitrary: fee)
  case (Cons i "is")
  then show ?case
    by (auto simp: spending_input_def AddUint64_checked checked_def Let_def is_u64_def add.assoc
        split: option.splits)
qed simp

lemma fee_outputs_exact:
  assumes "list_all (\<lambda>out. aa_AssetId (output_AssetAmount out) \<noteq> None) outs" "is_u64 fee"
  shows "fee_outputs fee outs =
    (let s = sum_list (map (\<lambda>out. aa_Amount (output_AssetAmount out))
       (filter (\<lambda>out. aa_AssetId (output_AssetAmount out) = Some BTMAssetID) outs)) in
     if s \<le> fee then Inr (fee - s) else Inl CR_ErrOverflow)"
  using assms
proof (induction outs arbitrary: fee)
  case (Cons out outs)
  have "is_u64 (fee - n)" for n using Cons.prems(2) by (simp add: is_u64_def)
  with Cons show ?case by (auto simp: SubUint64_exact Let_def split: option.splits)
qed simp

section \<open>Samples\<close>

definition sample_votes :: consensus_result where
  "sample_votes =
     \<lparr>cr_Seq = 1, cr_NumOfVote = [hex_encode (replicate 64 1) \<mapsto> 100000000000000,
        hex_encode (replicate 64 2) \<mapsto> 300000000000000],
      cr_CoinbaseReward = Map.empty, cr_BlockHash = zeroHash, cr_BlockHeight = 11\<rparr>"

definition sample_vote_block :: wire_block where
  "sample_vote_block =
     \<lparr>wb_Header = \<lparr>bh_Version = 1, bh_Height = 12, bh_PreviousBlockHash = zeroHash, bh_Timestamp = 1500,
        bh_TransactionsMerkleRoot = zeroHash, bh_TransactionStatusHash = zeroHash, bh_Witness = []\<rparr>,
      wb_Transactions =
        [\<lparr>td_Version = 1, td_SerializedSize = 1, td_TimeRange = 0,
          td_Inputs = [\<lparr>ti_AssetVersion = 1, ti_TypedInput = Some (CoinbaseIn []),
            ti_CommitmentSuffix = [], ti_WitnessSuffix = []\<rparr>],
          td_Outputs = [\<lparr>txo_AssetVersion = 1,
            txo_TypedOutput = Some (VoteOut
              \<lparr>to_OutputCommitment =
                 \<lparr>oc_AssetAmount = \<lparr>aa_AssetId = Some BTMAssetID, aa_Amount = 200000000\<rparr>, oc_VMVersion = 1,
                  oc_ControlProgram = [81]\<rparr>, to_InnerSuffix = []\<rparr> (replicate 64 1)),
            txo_CommitmentSuffix = []\<rparr>]\<rparr>]\<rparr>"

definition sample_payment :: tx_data where
  "sample_payment =
     \<lparr>td_Version = 1, td_SerializedSize = 1, td_TimeRange = 0,
      td_Inputs = [\<lparr>ti_AssetVersion = 1,
        ti_TypedInput = Some (SpendIn
          \<lparr>si_SpendCommitmentSuffix = [], si_Arguments = [],
           si_SpendCommitment =
             \<lparr>sc_AssetAmount = \<lparr>aa_AssetId = Some BTMAssetID, aa_Amount = 1000000\<rparr>, sc_SourceID = zeroHash,
              sc_SourcePosition = 0, sc_VMVersion = 1, sc_ControlProgram = [81]\<rparr>\<rparr>),
        ti_CommitmentSuffix = [], ti_WitnessSuffix = []\<rparr>],
      td_Outputs = [\<lparr>txo_AssetVersion = 1,
        txo_TypedOutput = Some (IntraChainOut
          \<lparr>to_OutputCommitment =
             \<lparr>oc_AssetAmount = \<lparr>aa_AssetId = Some BTMAssetID, aa_Amount = 960000\<rparr>, oc_VMVersion = 1,
              oc_ControlProgram = [81]\<rparr>, to_InnerSuffix = []\<rparr>),
        txo_CommitmentSuffix = []\<rparr>]\<rparr>"

lemma sample_votes_facts:
  "bounded sample_votes" "hex_keys sample_votes" "at_parent MainNetParams sample_vote_block sample_votes"
proof -
  show "bounded sample_votes"
    by (simp add: bounded_def votes_def rewards_def sample_votes_def lookup0_def is_u64_def)
  show "hex_keys sample_votes" by (auto simp: hex_keys_def sample_votes_def split: if_splits)
  show "at_parent MainNetParams sample_vote_block sample_votes" by code_simp
qed

lemma sample_vote_applies:
  "fst (CR_ApplyBlock MainNetParams sample_hash sample_vote_block sample_votes) = Inr ()"
  by code_simp

lemma sample_cast: "is_u64 (votes sample_votes k + all_cast (wb_Transactions sample_vote_block) k)"
proof -
  have "concat (map cast (wb_Transactions sample_vote_block)) = [(hex_encode (replicate 64 1), 200000000)]"
    by code_simp
  then have "all_cast (wb_Transactions sample_vote_block) k \<le> 200000000" by (simp add: all_cast_def)
  moreover have "votes sample_votes k \<le> 300000000000000"
    by (simp add: votes_def sample_votes_def lookup0_def)
  ultimately show ?thesis by (simp add: is_u64_def)
qed

section \<open>Properties\<close>

text \<open>
  Property C20: applying a block to the voting result of its parent and detaching it again succeeds and
  restores the votes of every node, the block, its height and the sequence number, as long as the
  votes cast do not exceed an unsigned 64-bit integer.  The coinbase rewards are restored too, except
  after the first block of a round, where they become what its coinbase transaction paid out.
\<close>

theorem vote_detach_restores:
  assumes "fst (CR_ApplyBlock P sha3 b c) = Inr ()" and "bounded c" and "at_parent P b c"
    and "\<And>k. is_u64 (votes c k + all_cast (wb_Transactions b) k)"
  shows "\<exists>d. CR_DetachBlock P sha3 b (snd (CR_ApplyBlock P sha3 b c)) = (Inr (), d) \<and> votes d = votes c \<and>
    cr_BlockHash d = cr_BlockHash c \<and> cr_BlockHeight d = cr_BlockHeight c \<and> cr_Seq d = cr_Seq c \<and>
    (if bh_Height (wb_Header b) mod RoundVoteBlockNums P = 1
     then cr_CoinbaseReward d = paid_rewards Map.empty (tl (td_Outputs (hd (wb_Transactions b))))
     else rewards d = rewards c)"
  by (rule detach_apply_result [OF runs_ok [OF assms(1)] assms(2-4)])

theorem vote_detach_restores_witness:
  "\<exists>d. CR_DetachBlock MainNetParams sample_hash sample_vote_block
      (snd (CR_ApplyBlock MainNetParams sample_hash sample_vote_block sample_votes)) = (Inr (), d) \<and>
    votes d = votes sample_votes"
  using vote_detach_restores [OF sample_vote_applies sample_votes_facts(1,3) sample_cast] by blast

text \<open>
  Property C22: the consensus nodes do not depend on the order in which Go ranges over the map of votes,
  so that all nodes of the network agree on them.
\<close>

theorem ConsensusNodes_order_free:
  assumes "hex_keys c" and "distinct keys" and "distinct keys'"
    and "set keys = dom (cr_NumOfVote c)" and "set keys' = dom (cr_NumOfVote c)"
  shows "ConsensusNodes P derive xpubs keys c = ConsensusNodes P derive xpubs keys' c"
proof -
  have perm: "mset keys = mset keys'"
    using set_eq_iff_mset_eq_distinct [OF assms(2,3)] assms(4,5) by simp
  show ?thesis
  proof (cases "\<exists>k \<in> set keys. qualifies P (cr_NumOfVote c) k \<and> XPub_UnmarshalText k = None")
    case True
    with assms(4,5) show ?thesis by (simp add: ConsensusNodes_def collect_nodes_eq)
  next
    case False
    have "sort_by byVote_Less (map (node_of (cr_NumOfVote c)) (filter (qualifies P (cr_NumOfVote c)) keys)) =
        sort_by byVote_Less (map (node_of (cr_NumOfVote c)) (filter (qualifies P (cr_NumOfVote c)) keys'))"
      using False assms(1,4) by (intro sorted_nodes_perm [OF perm assms(2)]) (auto simp: hex_keys_def)
    moreover have "\<not> (\<exists>k \<in> set keys'. qualifies P (cr_NumOfVote c) k \<and> XPub_UnmarshalText k = None)"
      using False assms(4,5) by simp
    ultimately show ?thesis using False by (simp only: ConsensusNodes_def collect_nodes_eq if_False if_not_P sum.case)
  qed
qed

theorem ConsensusNodes_order_free_witness:
  "ConsensusNodes MainNetParams (\<lambda>x _. x) [] [hex_encode (replicate 64 1), hex_encode (replicate 64 2)] sample_votes =
   ConsensusNodes MainNetParams (\<lambda>x _. x) [] [hex_encode (replicate 64 2), hex_encode (replicate 64 1)] sample_votes"
proof (rule ConsensusNodes_order_free [OF sample_votes_facts(2)])
  have ne: "hex_encode (replicate 64 1) \<noteq> hex_encode (replicate 64 2)" by code_simp
  then show "distinct [hex_encode (replicate 64 1), hex_encode (replicate 64 2)]"
    "distinct [hex_encode (replicate 64 2), hex_encode (replicate 64 1)]" by auto
  show "set [hex_encode (replicate 64 1), hex_encode (replicate 64 2)] = dom (cr_NumOfVote sample_votes)"
    "set [hex_encode (replicate 64 2), hex_encode (replicate 64 1)] = dom (cr_NumOfVote sample_votes)"
    by (auto simp: sample_votes_def)
qed

text \<open>
  Property C21: the election.  When some key has enough votes, the consensus nodes are as many of the
  keys with enough votes as there are seats, and no key that was left out has more votes than one that
  was elected.
\<close>

theorem ConsensusNodes_elects:
  assumes "hex_keys c" and "distinct keys" and "set keys = dom (cr_NumOfVote c)"
    and ok: "\<And>k. k \<in> set keys \<Longrightarrow> qualifies P (cr_NumOfVote c) k \<Longrightarrow> XPub_UnmarshalText k \<noteq> None"
    and some: "k0 \<in> set keys" "qualifies P (cr_NumOfVote c) k0" and seats: "0 < NumOfConsensusNode P"
  shows "\<exists>m. ConsensusNodes P derive xpubs keys c = Inr m \<and>
    dom m \<subseteq> {k \<in> set keys. qualifies P (cr_NumOfVote c) k} \<and>
    card (dom m) = min (nat (NumOfConsensusNode P)) (card {k \<in> set keys. qualifies P (cr_NumOfVote c) k}) \<and>
    (\<forall>k \<in> dom m. \<forall>j \<in> {j \<in> set keys. qualifies P (cr_NumOfVote c) j} - dom m. votes c j \<le> votes c k)"
proof -
  let ?v = "cr_NumOfVote c" and ?N = "nat (NumOfConsensusNode P)"
  let ?ks = "filter (qualifies P ?v) keys"
  let ?top = "take ?N (sort_by byVote_Less (map (node_of ?v) ?ks))"
  have ks: "distinct ?ks" "\<And>k. k \<in> set ?ks \<Longrightarrow> \<exists>bs. k = hex_encode bs"
      "\<And>k. k \<in> set ?ks \<Longrightarrow> XPub_UnmarshalText k \<noteq> None"
    using assms(1-3) ok by (auto simp: hex_keys_def)
  define E where "E = (\<lambda>n. hex_encode (cn_XPub n)) ` set ?top"
  have top: "E \<subseteq> set ?ks" "card E = min ?N (length ?ks)"
      "\<And>j k. k \<in> E \<Longrightarrow> j \<in> set ?ks - E \<Longrightarrow> lookup0 ?v j \<le> lookup0 ?v k"
    using elected_prefix [OF ks E_def] by blast+
  have "k0 \<in> set ?ks" using some by simp
  then have "node_of ?v k0 \<in> set (sort_by byVote_Less (map (node_of ?v) ?ks))" by (simp add: set_sort_by)
  then have "sort_by byVote_Less (map (node_of ?v) ?ks) \<noteq> []" by (metis empty_iff list.set(1))
  then have "?top \<noteq> []" using seats by simp
  moreover have "\<not> (\<exists>k \<in> set keys. qualifies P ?v k \<and> XPub_UnmarshalText k = None)" using ok by blast
  ultimately have "ConsensusNodes P derive xpubs keys c = Inr (map_of (rev (number_nodes 0 ?top)))"
    by (simp only: ConsensusNodes_def collect_nodes_eq if_not_P sum.case Let_def number_nodes_Nil if_True
      simp_thms)
  moreover have "length ?ks = card {k \<in> set keys. qualifies P ?v k}"
    by (metis distinct_card ks(1) set_filter)
  moreover have "dom (map_of (rev (number_nodes 0 ?top))) = E" by (simp only: dom_numbered E_def)
  ultimately show ?thesis
    using top unfolding votes_def set_filter by (intro exI conjI ballI) (assumption | simp)+
qed

theorem ConsensusNodes_elects_witness:
  "\<exists>m. ConsensusNodes MainNetParams (\<lambda>x _. x) [] [hex_encode (replicate 64 1), hex_encode (replicate 64 2)]
      sample_votes = Inr m \<and>
    dom m \<subseteq> {k \<in> set [hex_encode (replicate 64 1), hex_encode (replicate 64 2)].
      qualifies MainNetParams (cr_NumOfVote sample_votes) k}"
proof -
  let ?keys = "[hex_encode (replicate 64 1), hex_encode (replicate 64 2)]"
  have dist: "distinct ?keys" by code_simp
  have all: "set ?keys = dom (cr_NumOfVote sample_votes)" by (auto simp: sample_votes_def)
  have ok: "XPub_UnmarshalText k \<noteq> None" if "k \<in> set ?keys" for k
  proof -
    have "list_all (\<lambda>k. XPub_UnmarshalText k \<noteq> None) ?keys" by code_simp
    with that show ?thesis by (auto simp: list_all_iff)
  qed
  have q: "qualifies MainNetParams (cr_NumOfVote sample_votes) (hex_encode (replicate 64 1))" by code_simp
  have N: "0 < NumOfConsensusNode MainNetParams" by code_simp
  show ?thesis
    using ConsensusNodes_elects [OF sample_votes_facts(2) dist all ok list.set_intros(1) q N] by blast
qed

text \<open>
  Property C30: for a transaction without coinbase input whose outputs have an asset, the fee is what it takes in of the
  native asset less what it gives out.  It is an overflow error exactly when the sum of what it takes in does not
  fit 64 bits, although the difference may, or when it gives out more than it takes in.
\<close>

theorem CalculateTxFee_exact:
  assumes "list_all spending_input (td_Inputs t)"
    and "list_all (\<lambda>out. aa_AssetId (output_AssetAmount out) \<noteq> None) (td_Outputs t)"
  shows "CalculateTxFee t =
    (if is_u64 (btm_in t) \<and> btm_out t \<le> btm_in t then Inr (btm_in t - btm_out t) else Inl CR_ErrOverflow)"
  using fee_inputs_exact [OF assms(1), of 0] fee_outputs_exact [OF assms(2)]
  by (auto simp: CalculateTxFee_def btm_in_def btm_out_def Let_def is_u64_def)

theorem CalculateTxFee_exact_witness:
  "CalculateTxFee sample_payment = Inr 40000"
proof -
  have "list_all spending_input (td_Inputs sample_payment)"
    "list_all (\<lambda>out. aa_AssetId (output_AssetAmount out) \<noteq> None) (td_Outputs sample_payment)" by code_simp+
  from CalculateTxFee_exact [OF this]
  have "CalculateTxFee sample_payment =
    (if is_u64 (btm_in sample_payment) \<and> btm_out sample_payment \<le> btm_in sample_payment
     then Inr (btm_in sample_payment - btm_out sample_payment) else Inl CR_ErrOverflow)" .
  moreover have "btm_in sample_payment = 1000000" "btm_out sample_payment = 960000" by code_simp+
  ultimately show ?thesis by (simp add: is_u64_def)
qed

end
