(* ===== verification/Merkle.thy ===== *)
theory Merkle
  imports Entry_Hash
begin

text \<open>
  Merkle trees over the transactions of a block and over their verification results, and membership
  proofs (\<^verbatim>\<open>protocol/bc/types/merkle.go\<close>).

  A node is what its \<^verbatim>\<open>WriteTo\<close> writes: the 32 bytes of a hash, or the JSON of a verification result.  The
  set of hexadecimal strings of a proof request is a list.  SHA3 is the argument \<open>sha3\<close>.
\<close>

unbundle bit_operations_syntax

section \<open>The root\<close>

definition leafPrefix :: bytes where "leafPrefix = [0x00]"

definition interiorPrefix :: bytes where "interiorPrefix = [0x01]"

definition EmptyStringHash :: "(bytes \<Rightarrow> bytes) \<Rightarrow> hash" where
  "EmptyStringHash sha3 = NewHash (sha3 [])"

definition leafMerkleHash :: "(bytes \<Rightarrow> bytes) \<Rightarrow> bytes \<Rightarrow> hash" where
  "leafMerkleHash sha3 node = NewHash (sha3 (leafPrefix @ node))"

definition interiorMerkleHash :: "(bytes \<Rightarrow> bytes) \<Rightarrow> hash \<Rightarrow> hash \<Rightarrow> hash" where
  "interiorMerkleHash sha3 left right = NewHash (sha3 (interiorPrefix @ Byte32 left @ Byte32 right))"

text \<open>
  The integral part of the binary logarithm.  The floating point value that the code truncates has the
  same integral part for all numbers below \<open>2\<^sup>4\<^sup>8\<close>.
\<close>

fun uint_log2 :: "nat \<Rightarrow> nat" where
  "uint_log2 n = (if n < 2 then 0 else Suc (uint_log2 (n div 2)))"

declare uint_log2.simps [simp del]

definition prevPowerOfTwo :: "nat \<Rightarrow> nat" where
  "prevPowerOfTwo n = (if n AND (n - 1) = 0 then n div 2 else 2 ^ uint_log2 n)"

lemma uint_log2_bounds: "0 < n \<Longrightarrow> 2 ^ uint_log2 n \<le> n \<and> n < 2 * 2 ^ uint_log2 n"
proof (induction n rule: uint_log2.induct)
  case (1 n)
  show ?case
  proof (cases "n < 2")
    case False
    then have "2 ^ uint_log2 (n div 2) \<le> n div 2 \<and> n div 2 < 2 * 2 ^ uint_log2 (n div 2)" using 1 by simp
    with False show ?thesis by (subst (1 2) uint_log2.simps) auto
  qed (use 1 in \<open>simp add: uint_log2.simps\<close>)
qed

lemma pow2_and_pred: "(2::nat) ^ k AND (2 ^ k - 1) = 0"
proof -
  have "(2::nat) ^ k AND mask k = 0" by (simp flip: take_bit_eq_mask add: take_bit_eq_mod)
  then show ?thesis by (simp only: mask_eq_exp_minus_1)
qed

lemma odd_and_pred: "odd n \<Longrightarrow> n AND (n - 1) = n - (1::nat)"
  by (elim oddE, subst and_rec) simp

text \<open>The split point of the comment: \<open>k < n \<le> 2 k\<close>.\<close>

lemma prevPowerOfTwo_bounds:
  assumes "2 \<le> n"
  shows "0 < prevPowerOfTwo n" "prevPowerOfTwo n < n" "n \<le> 2 * prevPowerOfTwo n"
proof -
  have b: "2 ^ uint_log2 n \<le> n" "n < 2 * 2 ^ uint_log2 n" using uint_log2_bounds [of n] assms by auto
  have "2 ^ uint_log2 n < n" if "n AND (n - 1) \<noteq> 0"
    using that b(1) pow2_and_pred [of "uint_log2 n"] by (cases "2 ^ uint_log2 n = n") auto
  moreover have "even n" if "n AND (n - 1) = 0"
    using that odd_and_pred [of n] assms by (cases "odd n") auto
  ultimately show "0 < prevPowerOfTwo n" "prevPowerOfTwo n < n" "n \<le> 2 * prevPowerOfTwo n"
    using assms b by (auto simp: prevPowerOfTwo_def)
qed

lemma prev_split:
  assumes "length nodes \<noteq> 0" "length nodes \<noteq> 1" "k = prevPowerOfTwo (length nodes)"
  shows "length (take k nodes) < length nodes" "length (drop k nodes) < length nodes"
    "take k nodes \<noteq> []" "drop k nodes \<noteq> []"
proof -
  have "2 \<le> length nodes" using assms(1,2) by linarith
  from prevPowerOfTwo_bounds [OF this] assms(1,3)
  show "length (take k nodes) < length nodes" "length (drop k nodes) < length nodes"
    "take k nodes \<noteq> []" "drop k nodes \<noteq> []" by auto
qed

function merkleRoot :: "(bytes \<Rightarrow> bytes) \<Rightarrow> bytes list \<Rightarrow> hash" where
  "merkleRoot sha3 nodes =
     (if length nodes = 0 then EmptyStringHash sha3
      else if length nodes = 1 then leafMerkleHash sha3 (nodes ! 0)
      else
        let k = prevPowerOfTwo (length nodes);
            left = merkleRoot sha3 (take k nodes);
            right = merkleRoot sha3 (drop k nodes)
        in interiorMerkleHash sha3 left right)"
  by auto
termination
proof (relation "measure (\<lambda>(_, nodes). length nodes)", goal_cases)
  case (2 sha3 nodes k)
  from prev_split(1) [OF this] show ?case by (simp only: in_measure case_prod_conv)
next
  case (3 sha3 nodes k)
  from prev_split(2) [OF 3(1-3)] show ?case by (simp only: in_measure case_prod_conv)
qed (rule wf_measure)

declare merkleRoot.simps [simp del]

section \<open>The tree\<close>

text \<open>
  \<^verbatim>\<open>newMerkleTreeNode\<close> is called with two nil pointers or with none: a node is a leaf or has two children.
\<close>

datatype merkleTreeNode =
    MLeaf (node_hash: hash)
  | MNode (node_hash: hash) merkleTreeNode merkleTreeNode

function buildMerkleTree :: "(bytes \<Rightarrow> bytes) \<Rightarrow> bytes list \<Rightarrow> merkleTreeNode option" where
  "buildMerkleTree sha3 rawDatas =
     (if length rawDatas = 0 then None
      else if length rawDatas = 1 then Some (MLeaf (leafMerkleHash sha3 (rawDatas ! 0)))
      else
        let k = prevPowerOfTwo (length rawDatas) in
        case (buildMerkleTree sha3 (take k rawDatas), buildMerkleTree sha3 (drop k rawDatas)) of
          (Some left, Some right) \<Rightarrow>
            Some (MNode (interiorMerkleHash sha3 (node_hash left) (node_hash right)) left right)
        | _ \<Rightarrow> None)"
  by auto
termination
proof (relation "measure (\<lambda>(_, nodes). length nodes)", goal_cases)
  case (2 sha3 nodes k)
  from prev_split(1) [OF this] show ?case by (simp only: in_measure case_prod_conv)
next
  case (3 sha3 nodes k)
  from prev_split(2) [OF 3(1-3)] show ?case by (simp only: in_measure case_prod_conv)
qed (rule wf_measure)

declare buildMerkleTree.simps [simp del]

section \<open>Proofs\<close>

abbreviation (input) FlagAssist :: nat where "FlagAssist \<equiv> 0"
abbreviation (input) FlagTxParent :: nat where "FlagTxParent \<equiv> 1"
abbreviation (input) FlagTxLeaf :: nat where "FlagTxLeaf \<equiv> 2"

primrec tree_proof :: "string list \<Rightarrow> merkleTreeNode \<Rightarrow> hash list \<times> nat list" where
  "tree_proof merkleHashSet (MLeaf h) =
     (if MarshalText h \<in> set merkleHashSet then ([h], [FlagTxLeaf]) else ([], []))"
| "tree_proof merkleHashSet (MNode h left right) =
     (case (tree_proof merkleHashSet left, tree_proof merkleHashSet right) of
        ((leftHashes, leftFlags), (rightHashes, rightFlags)) \<Rightarrow>
          if leftHashes = [] \<and> rightHashes = [] then ([], [])
          else
            ((if leftHashes \<noteq> [] then leftHashes else [node_hash left]) @
             (if rightHashes \<noteq> [] then rightHashes else [node_hash right]),
             FlagTxParent # (if leftHashes \<noteq> [] then leftFlags else [FlagAssist]) @
             (if rightHashes \<noteq> [] then rightFlags else [FlagAssist])))"

definition getMerkleTreeProof ::
    "(bytes \<Rightarrow> bytes) \<Rightarrow> bytes list \<Rightarrow> bytes list \<Rightarrow> hash list \<times> nat list" where
  "getMerkleTreeProof sha3 rawDatas relatedRawDatas =
     (case buildMerkleTree sha3 rawDatas of
        None \<Rightarrow> ([], [])
      | Some tree \<Rightarrow>
          let merkleHashSet = map (\<lambda>d. MarshalText (leafMerkleHash sha3 d)) relatedRawDatas in
          if merkleHashSet = [] then ([node_hash tree], [FlagAssist])
          else tree_proof merkleHashSet tree)"

text \<open>The hashes that a list of flags selects, with the flags that are left.\<close>

primrec tree_proof_by_flags :: "merkleTreeNode \<Rightarrow> nat list \<Rightarrow> hash list \<times> nat list" where
  "tree_proof_by_flags (MLeaf h) flags =
     (case flags of
        [] \<Rightarrow> ([], [])
      | f # fs \<Rightarrow> if f = FlagTxLeaf \<or> f = FlagAssist then ([h], fs) else ([], fs))"
| "tree_proof_by_flags (MNode h left right) flags =
     (case flags of
        [] \<Rightarrow> ([], [])
      | f # fs \<Rightarrow>
          if f = FlagTxLeaf \<or> f = FlagAssist then ([h], fs)
          else
            (case tree_proof_by_flags left fs of (leftHashes, fs1) \<Rightarrow>
               (case tree_proof_by_flags right fs1 of (rightHashes, fs2) \<Rightarrow>
                  (leftHashes @ rightHashes, fs2))))"

text \<open>\<open>None\<close> is the panic on the nil tree of an empty list.\<close>

definition getMerkleTreeProofByFlags :: "(bytes \<Rightarrow> bytes) \<Rightarrow> bytes list \<Rightarrow> nat list \<Rightarrow> hash list option" where
  "getMerkleTreeProofByFlags sha3 rawDatas flags =
     (case buildMerkleTree sha3 rawDatas of
        None \<Rightarrow> if flags = [] then Some [] else None
      | Some tree \<Rightarrow> Some (fst (tree_proof_by_flags tree flags)))"

text \<open>The root of a proof, with what is left of the three lists.\<close>

function getMerkleRootByProof ::
    "(bytes \<Rightarrow> bytes) \<Rightarrow> hash list \<Rightarrow> nat list \<Rightarrow> hash list \<Rightarrow> hash \<times> hash list \<times> nat list \<times> hash list" where
  "getMerkleRootByProof sha3 hashes [] related = (EmptyStringHash sha3, hashes, [], related)"
| "getMerkleRootByProof sha3 [] (f # fs) related = (EmptyStringHash sha3, [], f # fs, related)"
| "getMerkleRootByProof sha3 (h # hs) (f # fs) related =
     (if f = FlagAssist then (h, hs, fs, related)
      else if f = FlagTxLeaf then
        (case related of
           [] \<Rightarrow> (EmptyStringHash sha3, h # hs, fs, [])
         | r # rs \<Rightarrow> if h = r then (h, hs, fs, rs) else (EmptyStringHash sha3, h # hs, fs, r # rs))
      else if f = FlagTxParent then
        (case getMerkleRootByProof sha3 (h # hs) fs related of (leftHash, hs1, fs1, rel1) \<Rightarrow>
           (case getMerkleRootByProof sha3 hs1 fs1 rel1 of (rightHash, hs2, fs2, rel2) \<Rightarrow>
              (interiorMerkleHash sha3 leftHash rightHash, hs2, fs2, rel2)))
      else (EmptyStringHash sha3, h # hs, fs, related))"
  by pat_completeness auto

termination
proof -
  have shrinks: "length (fst (snd (snd (getMerkleRootByProof sha3 hashes flags related)))) \<le> length flags"
    if "getMerkleRootByProof_dom (sha3, hashes, flags, related)" for sha3 hashes flags related
    using that
  proof (induction rule: getMerkleRootByProof.pinduct)
    case (3 sha3 h hs f fs related)
    show ?case
    proof (cases "f = FlagTxParent")
      case True
      obtain l hs1 fs1 rel1 where L: "getMerkleRootByProof sha3 (h # hs) fs related = (l, hs1, fs1, rel1)"
        by (metis prod_cases4)
      obtain r hs2 fs2 rel2 where R: "getMerkleRootByProof sha3 hs1 fs1 rel1 = (r, hs2, fs2, rel2)"
        by (metis prod_cases4)
      have "length fs1 \<le> length fs" using 3(2) True L by simp
      moreover have "length fs2 \<le> length fs1" using 3(3) True L R by simp
      ultimately show ?thesis
        unfolding getMerkleRootByProof.psimps(3) [OF 3(1)] using True L R by simp
    next
      case False
      then show ?thesis by (simp add: getMerkleRootByProof.psimps(3) [OF 3(1)] split: list.split)
    qed
  qed (simp_all add: getMerkleRootByProof.psimps)
  show ?thesis
  proof (relation "measure (\<lambda>(_, _, flags, _). length flags)", goal_cases)
    case (3 sha3 h hs f fs related)
    then have "length (fst (snd (snd (getMerkleRootByProof sha3 (h # hs) fs related)))) \<le> length fs"
      using shrinks by blast
    with 3 show ?case by (cases "getMerkleRootByProof sha3 (h # hs) fs related") auto
  qed simp_all
qed

definition validateMerkleTreeProof ::
    "(bytes \<Rightarrow> bytes) \<Rightarrow> hash list \<Rightarrow> nat list \<Rightarrow> bytes list \<Rightarrow> hash \<Rightarrow> bool" where
  "validateMerkleTreeProof sha3 hashes flags relatedNodes root \<longleftrightarrow>
     (case getMerkleRootByProof sha3 hashes flags (map (leafMerkleHash sha3) relatedNodes) of
        (h, _, _, rest) \<Rightarrow> h = root \<and> rest = [])"

section \<open>Transactions and statuses\<close>

definition GetTxMerkleTreeProof :: "(bytes \<Rightarrow> bytes) \<Rightarrow> tx list \<Rightarrow> tx list \<Rightarrow> hash list \<times> nat list" where
  "GetTxMerkleTreeProof sha3 txs relatedTxs =
     getMerkleTreeProof sha3 (map (\<lambda>t. Byte32 (tx_ID t)) txs) (map (\<lambda>t. Byte32 (tx_ID t)) relatedTxs)"

text \<open>\<^verbatim>\<open>TxVerifyResult.WriteTo\<close>: the JSON of a struct whose only field is left out when false.\<close>

definition status_json :: "bool \<Rightarrow> bytes" where
  "status_json statusFail =
     (if statusFail then ascii (CHR ''{'' # CHR 0x22 # ''status_fail'' @ CHR 0x22 # '':true}'')
      else ascii ''{}'')"

definition GetStatusMerkleTreeProof :: "(bytes \<Rightarrow> bytes) \<Rightarrow> tx_status \<Rightarrow> nat list \<Rightarrow> hash list option" where
  "GetStatusMerkleTreeProof sha3 statuses flags = getMerkleTreeProofByFlags sha3 (map status_json statuses) flags"

definition ValidateTxMerkleTreeProof ::
    "(bytes \<Rightarrow> bytes) \<Rightarrow> hash list \<Rightarrow> nat list \<Rightarrow> hash list \<Rightarrow> hash \<Rightarrow> bool" where
  "ValidateTxMerkleTreeProof sha3 hashes flags relatedHashes root =
     validateMerkleTreeProof sha3 hashes flags (map Byte32 relatedHashes) root"

definition ValidateStatusMerkleTreeProof ::
    "(bytes \<Rightarrow> bytes) \<Rightarrow> hash list \<Rightarrow> nat list \<Rightarrow> tx_status \<Rightarrow> hash \<Rightarrow> bool" where
  "ValidateStatusMerkleTreeProof sha3 hashes flags relatedStatus root =
     validateMerkleTreeProof sha3 hashes flags (map status_json relatedStatus) root"

definition TxStatusMerkleRoot :: "(bytes \<Rightarrow> bytes) \<Rightarrow> tx_status \<Rightarrow> hash" where
  "TxStatusMerkleRoot sha3 tvrs = merkleRoot sha3 (map status_json tvrs)"

definition TxMerkleRoot :: "(bytes \<Rightarrow> bytes) \<Rightarrow> tx list \<Rightarrow> hash" where
  "TxMerkleRoot sha3 transactions = merkleRoot sha3 (map (\<lambda>t. Byte32 (tx_ID t)) transactions)"

section \<open>The tree has the root of the list\<close>

fun leaves :: "merkleTreeNode \<Rightarrow> hash list" where
  "leaves (MLeaf h) = [h]"
| "leaves (MNode h l r) = leaves l @ leaves r"

fun hashed :: "(bytes \<Rightarrow> bytes) \<Rightarrow> merkleTreeNode \<Rightarrow> bool" where
  "hashed sha3 (MLeaf h) \<longleftrightarrow> True"
| "hashed sha3 (MNode h l r) \<longleftrightarrow>
     h = interiorMerkleHash sha3 (node_hash l) (node_hash r) \<and> hashed sha3 l \<and> hashed sha3 r"

text \<open>An induction on lists that follows the split of the tree.\<close>

lemma split_induct [case_names Nil One Split]:
  assumes "P []" "\<And>x. P [x]"
    and "\<And>xs k. length xs \<noteq> 0 \<Longrightarrow> length xs \<noteq> 1 \<Longrightarrow> k = prevPowerOfTwo (length xs) \<Longrightarrow>
      P (take k xs) \<Longrightarrow> P (drop k xs) \<Longrightarrow> P xs"
  shows "P xs"
proof (induction xs rule: length_induct)
  case (1 xs)
  show ?case
  proof (cases "length xs = 0 \<or> length xs = 1")
    case True
    then show ?thesis using assms(1,2) by (metis length_0_conv length_Suc_conv One_nat_def)
  next
    case False
    then show ?thesis using assms(3) [OF _ _ refl] 1 prev_split(1,2) [of xs, OF _ _ refl] by blast
  qed
qed

lemma merkleRoot_simps:
  "merkleRoot sha3 [] = EmptyStringHash sha3"
  "merkleRoot sha3 [x] = leafMerkleHash sha3 x"
  "length xs \<noteq> 0 \<Longrightarrow> length xs \<noteq> 1 \<Longrightarrow> k = prevPowerOfTwo (length xs) \<Longrightarrow>
   merkleRoot sha3 xs = interiorMerkleHash sha3 (merkleRoot sha3 (take k xs)) (merkleRoot sha3 (drop k xs))"
  by (simp_all add: merkleRoot.simps [of sha3 "[]"] merkleRoot.simps [of sha3 "[x]"] merkleRoot.simps [of sha3 xs]
      Let_def)

lemma buildMerkleTree_simps:
  "buildMerkleTree sha3 [] = None"
  "buildMerkleTree sha3 [x] = Some (MLeaf (leafMerkleHash sha3 x))"
  "length xs \<noteq> 0 \<Longrightarrow> length xs \<noteq> 1 \<Longrightarrow> k = prevPowerOfTwo (length xs) \<Longrightarrow>
   buildMerkleTree sha3 (take k xs) = Some l \<Longrightarrow> buildMerkleTree sha3 (drop k xs) = Some r \<Longrightarrow>
   buildMerkleTree sha3 xs = Some (MNode (interiorMerkleHash sha3 (node_hash l) (node_hash r)) l r)"
  by (simp_all add: buildMerkleTree.simps [of sha3 "[]"] buildMerkleTree.simps [of sha3 "[x]"]
      buildMerkleTree.simps [of sha3 xs] Let_def)

lemma buildMerkleTree_root:
  "xs \<noteq> [] \<Longrightarrow> \<exists>t. buildMerkleTree sha3 xs = Some t \<and> node_hash t = merkleRoot sha3 xs \<and>
     leaves t = map (leafMerkleHash sha3) xs \<and> hashed sha3 t"
proof (induction xs rule: split_induct)
  case (Split xs k)
  note ne = prev_split(3,4) [OF Split(1-3)]
  from Split.IH(1) [OF ne(1)] obtain l where l: "buildMerkleTree sha3 (take k xs) = Some l"
    "node_hash l = merkleRoot sha3 (take k xs)" "leaves l = map (leafMerkleHash sha3) (take k xs)" "hashed sha3 l"
    by blast
  from Split.IH(2) [OF ne(2)] obtain r where r: "buildMerkleTree sha3 (drop k xs) = Some r"
    "node_hash r = merkleRoot sha3 (drop k xs)" "leaves r = map (leafMerkleHash sha3) (drop k xs)" "hashed sha3 r"
    by blast
  show ?case
    using buildMerkleTree_simps(3) [OF Split(1-3) l(1) r(1)] merkleRoot_simps(3) [OF Split(1-3), of sha3] l r
    by (simp flip: map_append)
qed (simp_all add: merkleRoot_simps buildMerkleTree_simps)

section \<open>A generated proof is accepted\<close>

lemma tree_proof_empty:
  "fst (tree_proof S t) = [] \<Longrightarrow>
   snd (tree_proof S t) = [] \<and> filter (\<lambda>h. MarshalText h \<in> set S) (leaves t) = []"
  by (induction t) (auto split: if_splits prod.splits)

lemma proof_accepted:
  assumes "hashed sha3 t" "fst (tree_proof S t) \<noteq> []"
  shows "getMerkleRootByProof sha3 (fst (tree_proof S t) @ hs) (snd (tree_proof S t) @ fs)
      (filter (\<lambda>h. MarshalText h \<in> set S) (leaves t) @ rs) = (node_hash t, hs, fs, rs)"
  using assms
proof (induction t arbitrary: hs fs rs)
  case (MLeaf h)
  then show ?case by (simp split: if_splits)
next
  case (MNode h l r)
  obtain lh lf where l: "tree_proof S l = (lh, lf)" by fastforce
  obtain rh rf where r: "tree_proof S r = (rh, rf)" by fastforce
  let ?sel = "filter (\<lambda>h. MarshalText h \<in> set S)"
  let ?L = "if lh \<noteq> [] then lh else [node_hash l]" and ?LF = "if lh \<noteq> [] then lf else [FlagAssist]"
  let ?R = "if rh \<noteq> [] then rh else [node_hash r]" and ?RF = "if rh \<noteq> [] then rf else [FlagAssist]"
  have left: "getMerkleRootByProof sha3 (?L @ hs') (?LF @ fs') (?sel (leaves l) @ rs') = (node_hash l, hs', fs', rs')"
    for hs' fs' rs'
    using MNode.IH(1) [of hs' fs' rs'] MNode.prems(1) tree_proof_empty [of S l] l by auto
  have right: "getMerkleRootByProof sha3 (?R @ hs') (?RF @ fs') (?sel (leaves r) @ rs') = (node_hash r, hs', fs', rs')"
    for hs' fs' rs'
    using MNode.IH(2) [of hs' fs' rs'] MNode.prems(1) tree_proof_empty [of S r] r by auto
  have "?L @ ?R @ hs \<noteq> []" by simp
  then obtain x xs where hd: "?L @ ?R @ hs = x # xs" by (meson neq_Nil_conv)
  have ne: "lh \<noteq> [] \<or> rh \<noteq> []" using MNode.prems(2) l r by (auto split: if_splits)
  have "getMerkleRootByProof sha3 (?L @ ?R @ hs) (FlagTxParent # ?LF @ ?RF @ fs) (?sel (leaves l) @ ?sel (leaves r) @ rs) =
      (interiorMerkleHash sha3 (node_hash l) (node_hash r), hs, fs, rs)"
    using left [of "?R @ hs" "?RF @ fs" "?sel (leaves r) @ rs"] right [of hs fs rs]
    unfolding hd by (simp del: append_assoc)
  with ne MNode.prems(1) show ?case by (simp add: l r) blast
qed

section \<open>An accepted proof is right\<close>

text \<open>The inputs that are hashed for a root, and those that are hashed when a proof is checked.\<close>

function merkle_inputs :: "(bytes \<Rightarrow> bytes) \<Rightarrow> bytes list \<Rightarrow> bytes list" where
  "merkle_inputs sha3 nodes =
     (if length nodes = 0 then [[]]
      else if length nodes = 1 then [leafPrefix @ nodes ! 0]
      else
        let k = prevPowerOfTwo (length nodes) in
        (interiorPrefix @ Byte32 (merkleRoot sha3 (take k nodes)) @ Byte32 (merkleRoot sha3 (drop k nodes))) #
        merkle_inputs sha3 (take k nodes) @ merkle_inputs sha3 (drop k nodes))"
  by auto
termination
proof (relation "measure (\<lambda>(_, nodes). length nodes)", goal_cases)
  case (2 sha3 nodes k)
  from prev_split(1) [OF this] show ?case by (simp only: in_measure case_prod_conv)
next
  case (3 sha3 nodes k)
  from prev_split(2) [OF 3(1-3)] show ?case by (simp only: in_measure case_prod_conv)
qed (rule wf_measure)

declare merkle_inputs.simps [simp del]

lemma merkle_inputs_simps:
  "merkle_inputs sha3 [] = [[]]"
  "merkle_inputs sha3 [x] = [leafPrefix @ x]"
  "length xs \<noteq> 0 \<Longrightarrow> length xs \<noteq> 1 \<Longrightarrow> k = prevPowerOfTwo (length xs) \<Longrightarrow>
   merkle_inputs sha3 xs =
     (interiorPrefix @ Byte32 (merkleRoot sha3 (take k xs)) @ Byte32 (merkleRoot sha3 (drop k xs))) #
     merkle_inputs sha3 (take k xs) @ merkle_inputs sha3 (drop k xs)"
  by (simp_all add: merkle_inputs.simps [of sha3 "[]"] merkle_inputs.simps [of sha3 "[x]"]
      merkle_inputs.simps [of sha3 xs] Let_def)

fun proof_inputs :: "(bytes \<Rightarrow> bytes) \<Rightarrow> nat \<Rightarrow> hash list \<Rightarrow> nat list \<Rightarrow> hash list \<Rightarrow> bytes list" where
  "proof_inputs sha3 0 hashes flags related = []"
| "proof_inputs sha3 (Suc n) hashes flags related =
     (case flags of
        f # fs \<Rightarrow>
          if hashes \<noteq> [] \<and> f = FlagTxParent then
            (case getMerkleRootByProof sha3 hashes fs related of (leftHash, hs1, fs1, rel1) \<Rightarrow>
               (interiorPrefix @ Byte32 leftHash @ Byte32 (fst (getMerkleRootByProof sha3 hs1 fs1 rel1))) #
               proof_inputs sha3 n hashes fs related @ proof_inputs sha3 n hs1 fs1 rel1)
          else []
      | [] \<Rightarrow> [])"

abbreviation leaf_inputs :: "bytes list \<Rightarrow> bytes set" where
  "leaf_inputs nodes \<equiv> (\<lambda>x. leafPrefix @ x) ` set nodes"

lemma NewHash_sha3_eq:
  "sha3_ok sha3 \<Longrightarrow> NewHash (sha3 a) = NewHash (sha3 b) \<Longrightarrow> inj_on sha3 I \<Longrightarrow> a \<in> I \<Longrightarrow> b \<in> I \<Longrightarrow> a = b"
  unfolding sha3_ok_def by (metis NewHash_inj inj_onD)

lemma prefix_neq: "leafPrefix @ a \<noteq> interiorPrefix @ b" "leafPrefix @ a \<noteq> []" "interiorPrefix @ b \<noteq> []"
  by (simp_all add: leafPrefix_def interiorPrefix_def)

lemma root_ok: "sha3_ok sha3 \<Longrightarrow> hash_ok (merkleRoot sha3 xs)"
  by (subst merkleRoot.simps)
    (simp add: Let_def EmptyStringHash_def leafMerkleHash_def interiorMerkleHash_def sha3_ok_def Byte32_NewHash(2))

lemma interior_inj:
  assumes "interiorPrefix @ Byte32 a @ Byte32 b = interiorPrefix @ Byte32 c @ Byte32 d"
    and "hash_ok a" "hash_ok b" "hash_ok c" "hash_ok d"
  shows "a = c \<and> b = d"
  using assms Byte32_inj by (metis append_eq_append_conv length_Byte32)

lemma hash_kinds:
  assumes "sha3_ok sha3" "inj_on sha3 I"
  shows "leafPrefix @ x \<in> I \<Longrightarrow> [] \<in> I \<Longrightarrow> leafMerkleHash sha3 x \<noteq> EmptyStringHash sha3"
    "interiorPrefix @ Byte32 l @ Byte32 r \<in> I \<Longrightarrow> [] \<in> I \<Longrightarrow>
     interiorMerkleHash sha3 l r \<noteq> EmptyStringHash sha3"
    "interiorPrefix @ Byte32 l @ Byte32 r \<in> I \<Longrightarrow> leafPrefix @ x \<in> I \<Longrightarrow>
     interiorMerkleHash sha3 l r \<noteq> leafMerkleHash sha3 x"
    "leafPrefix @ x \<in> I \<Longrightarrow> leafPrefix @ y \<in> I \<Longrightarrow> leafMerkleHash sha3 x = leafMerkleHash sha3 y \<Longrightarrow> x = y"
  using NewHash_sha3_eq [OF assms(1) _ assms(2)] prefix_neq
  unfolding EmptyStringHash_def leafMerkleHash_def interiorMerkleHash_def
  by (metis, metis, metis, metis same_append_eq)

text \<open>The root determines the list.\<close>

lemma list_kinds:
  obtains "ys = []" | y where "ys = [y]" | "length ys \<noteq> 0" "length ys \<noteq> 1"
  by (metis length_0_conv length_Suc_conv One_nat_def)

lemma merkleRoot_inj:
  assumes ok: "sha3_ok sha3" and inj: "inj_on sha3 I"
  shows "merkleRoot sha3 xs = merkleRoot sha3 ys \<Longrightarrow>
    set (merkle_inputs sha3 xs) \<subseteq> I \<Longrightarrow> set (merkle_inputs sha3 ys) \<subseteq> I \<Longrightarrow> xs = ys"
proof (induction xs arbitrary: ys rule: split_induct)
  case Nil
  show ?case
  proof (cases ys rule: list_kinds)
    case (2 y)
    with Nil hash_kinds(1) [OF ok inj, of y] show ?thesis by (simp add: merkleRoot_simps merkle_inputs_simps)
  next
    case 3
    note Y = merkleRoot_simps(3) [OF 3 refl, of sha3] merkle_inputs_simps(3) [OF 3 refl, of sha3]
    from Nil hash_kinds(2) [OF ok inj] show ?thesis
      by (simp add: merkleRoot_simps(1) merkle_inputs_simps(1) Y) metis
  qed simp
next
  case (One x)
  show ?case
  proof (cases ys rule: list_kinds)
    case 1
    with One hash_kinds(1) [OF ok inj, of x] show ?thesis by (simp add: merkleRoot_simps merkle_inputs_simps)
  next
    case (2 y)
    with One hash_kinds(4) [OF ok inj, of x y] show ?thesis by (simp add: merkleRoot_simps merkle_inputs_simps)
  next
    case 3
    note Y = merkleRoot_simps(3) [OF 3 refl, of sha3] merkle_inputs_simps(3) [OF 3 refl, of sha3]
    from One hash_kinds(3) [OF ok inj, of _ _ x] show ?thesis
      by (simp add: merkleRoot_simps(2) merkle_inputs_simps(2) Y) metis
  qed
next
  case (Split xs k)
  note X = merkleRoot_simps(3) [OF Split(1-3), of sha3] merkle_inputs_simps(3) [OF Split(1-3), of sha3]
  show ?case
  proof (cases ys rule: list_kinds)
    case 1
    with Split.prems hash_kinds(2) [OF ok inj] show ?thesis
      by (simp add: merkleRoot_simps(1) merkle_inputs_simps(1) X)
  next
    case (2 y)
    with Split.prems hash_kinds(3) [OF ok inj, of _ _ y] show ?thesis
      by (simp add: merkleRoot_simps(2) merkle_inputs_simps(2) X)
  next
    case 3
    define j where "j = prevPowerOfTwo (length ys)"
    note Y = merkleRoot_simps(3) [OF 3 j_def, of sha3] merkle_inputs_simps(3) [OF 3 j_def, of sha3]
    have "interiorPrefix @ Byte32 (merkleRoot sha3 (take k xs)) @ Byte32 (merkleRoot sha3 (drop k xs)) =
        interiorPrefix @ Byte32 (merkleRoot sha3 (take j ys)) @ Byte32 (merkleRoot sha3 (drop j ys))"
      using Split.prems by (intro NewHash_sha3_eq [OF ok _ inj]) (simp_all add: X Y interiorMerkleHash_def)
    from interior_inj [OF this root_ok [OF ok] root_ok [OF ok] root_ok [OF ok] root_ok [OF ok]]
    have "take k xs = take j ys" "drop k xs = drop j ys"
      using Split.IH(1) [of "take j ys"] Split.IH(2) [of "drop j ys"] Split.prems(2,3) by (simp_all add: X Y)
    then show ?thesis by (metis append_take_drop_id)
  qed
qed

lemma proof_step:
  assumes "f = FlagTxParent" "getMerkleRootByProof sha3 (h # hs) fs rel = (l, hs1, fs1, rel1)"
  shows "getMerkleRootByProof sha3 (h # hs) (f # fs) rel =
    (case getMerkleRootByProof sha3 hs1 fs1 rel1 of (r, hs2, fs2, rel2) \<Rightarrow>
       (interiorMerkleHash sha3 l r, hs2, fs2, rel2))"
  using assms by simp

lemma proof_frame:
  "getMerkleRootByProof sha3 hs fs rel = (h, hs', fs', rel') \<Longrightarrow> sha3_ok sha3 \<Longrightarrow> list_all hash_ok hs \<Longrightarrow>
   hash_ok h \<and> list_all hash_ok hs' \<and> length fs' \<le> length fs"
proof (induction sha3 hs fs rel arbitrary: h hs' fs' rel' rule: getMerkleRootByProof.induct)
  case (3 sha3 x xs f fs rel)
  have new: "hash_ok (NewHash (sha3 b))" for b
    using 3(4) by (simp add: sha3_ok_def Byte32_NewHash(2))
  show ?case
  proof (cases "f = FlagTxParent")
    case True
    obtain l hs1 fs1 rel1 where L: "getMerkleRootByProof sha3 (x # xs) fs rel = (l, hs1, fs1, rel1)"
      by (metis prod_cases4)
    obtain r hs2 fs2 rel2 where R: "getMerkleRootByProof sha3 hs1 fs1 rel1 = (r, hs2, fs2, rel2)"
      by (metis prod_cases4)
    have l: "hash_ok l \<and> list_all hash_ok hs1 \<and> length fs1 \<le> length fs"
      using 3(1) [OF _ _ True L 3(4,5)] True by simp
    have "hash_ok r \<and> list_all hash_ok hs2 \<and> length fs2 \<le> length fs1"
      using 3(2) [OF _ _ True L [symmetric] refl refl R 3(4)] True l by simp
    with l 3(3) show ?thesis unfolding proof_step [OF True L] R by (auto simp: interiorMerkleHash_def new)
  next
    case False
    with 3(3,5) new show ?thesis by (auto simp: EmptyStringHash_def split: if_splits list.splits)
  qed
qed (auto simp: EmptyStringHash_def sha3_ok_def Byte32_NewHash(2))

text \<open>What is taken from the list of related hashes while a root is recomputed are hashes of nodes.\<close>

lemma leaf_of_root:
  assumes "sha3_ok sha3" "inj_on sha3 I" "leafMerkleHash sha3 d = merkleRoot sha3 nodes" "nodes \<noteq> []"
    and "set (merkle_inputs sha3 nodes) \<subseteq> I" "leafPrefix @ d \<in> I"
  shows "d \<in> set nodes"
proof -
  have "[d] = nodes"
    using assms by (intro merkleRoot_inj [OF assms(1,2)]) (simp_all add: merkleRoot_simps merkle_inputs_simps)
  then show ?thesis by auto
qed

lemma interior_of_root:
  assumes "sha3_ok sha3" "inj_on sha3 I" "interiorMerkleHash sha3 l r = merkleRoot sha3 nodes" "nodes \<noteq> []"
    and "set (merkle_inputs sha3 nodes) \<subseteq> I" "interiorPrefix @ Byte32 l @ Byte32 r \<in> I" "hash_ok l" "hash_ok r"
  shows "\<exists>ls rs. nodes = ls @ rs \<and> ls \<noteq> [] \<and> rs \<noteq> [] \<and> l = merkleRoot sha3 ls \<and> r = merkleRoot sha3 rs \<and>
    set (merkle_inputs sha3 ls) \<subseteq> I \<and> set (merkle_inputs sha3 rs) \<subseteq> I"
proof (cases "length nodes = 1")
  case True
  then obtain x where x: "nodes = [x]" by (metis length_Suc_conv length_0_conv One_nat_def)
  with assms(3,5,6) NewHash_sha3_eq [OF assms(1) _ assms(2), of "leafPrefix @ x" "interiorPrefix @ Byte32 l @ Byte32 r"]
  show ?thesis by (simp add: merkleRoot_simps merkle_inputs_simps leafMerkleHash_def interiorMerkleHash_def
      leafPrefix_def interiorPrefix_def)
next
  case False
  define k where "k = prevPowerOfTwo (length nodes)"
  have len: "length nodes \<noteq> 0" using assms(4) by simp
  note N = merkleRoot_simps(3) [OF len False k_def, of sha3] merkle_inputs_simps(3) [OF len False k_def, of sha3]
  have "interiorPrefix @ Byte32 l @ Byte32 r =
      interiorPrefix @ Byte32 (merkleRoot sha3 (take k nodes)) @ Byte32 (merkleRoot sha3 (drop k nodes))"
    using assms(3,5,6) by (intro NewHash_sha3_eq [OF assms(1) _ assms(2)]) (simp_all add: N interiorMerkleHash_def)
  from interior_inj [OF this assms(7,8) root_ok [OF assms(1)] root_ok [OF assms(1)]]
  have "l = merkleRoot sha3 (take k nodes)" "r = merkleRoot sha3 (drop k nodes)" by simp_all
  moreover note prev_split(3,4) [OF len False k_def]
  ultimately show ?thesis
    using assms(5) by (intro exI [of _ "take k nodes"] exI [of _ "drop k nodes"]) (simp add: N)
qed

lemma proof_sound:
  "getMerkleRootByProof sha3 hs fs rel = (merkleRoot sha3 nodes, hs', fs', rel') \<Longrightarrow>
   sha3_ok sha3 \<Longrightarrow> inj_on sha3 I \<Longrightarrow> nodes \<noteq> [] \<Longrightarrow> length fs \<le> n \<Longrightarrow> list_all hash_ok hs \<Longrightarrow>
   set (merkle_inputs sha3 nodes) \<subseteq> I \<Longrightarrow> set (proof_inputs sha3 n hs fs rel) \<subseteq> I \<Longrightarrow>
   \<forall>h \<in> set rel. \<exists>d. h = leafMerkleHash sha3 d \<and> leafPrefix @ d \<in> I \<Longrightarrow>
   \<exists>used. rel = used @ rel' \<and> set used \<subseteq> leafMerkleHash sha3 ` set nodes"
proof (induction sha3 hs fs rel arbitrary: nodes hs' fs' rel' n rule: getMerkleRootByProof.induct)
  case (3 sha3 x xs f fs rel)
  note prems = 3(3-)
  show ?case
  proof (cases "f = FlagTxParent")
    case True
    then have f: "f \<noteq> FlagAssist" "f \<noteq> FlagTxLeaf" by simp_all
    obtain m where n: "n = Suc m" "length fs \<le> m" using prems(5) by (cases n) auto
    obtain l hs1 fs1 rel1 where L: "getMerkleRootByProof sha3 (x # xs) fs rel = (l, hs1, fs1, rel1)"
      by (metis prod_cases4)
    obtain r hs2 fs2 rel2 where R: "getMerkleRootByProof sha3 hs1 fs1 rel1 = (r, hs2, fs2, rel2)"
      by (metis prod_cases4)
    have I: "interiorPrefix @ Byte32 l @ Byte32 r \<in> I" "set (proof_inputs sha3 m (x # xs) fs rel) \<subseteq> I"
        "set (proof_inputs sha3 m hs1 fs1 rel1) \<subseteq> I"
      using prems(8) True L R n(1) by simp_all
    have root: "interiorMerkleHash sha3 l r = merkleRoot sha3 nodes" "rel2 = rel'"
      using prems(1) unfolding proof_step [OF True L] R by simp_all
    note l = proof_frame [OF L prems(2,6)]
    have r: "hash_ok r" using proof_frame [OF R prems(2)] l by blast
    from interior_of_root [OF prems(2,3) root(1) prems(4,7) I(1) _ r] l
    obtain ls rs where N: "nodes = ls @ rs" "ls \<noteq> []" "rs \<noteq> []" "l = merkleRoot sha3 ls" "r = merkleRoot sha3 rs"
        "set (merkle_inputs sha3 ls) \<subseteq> I" "set (merkle_inputs sha3 rs) \<subseteq> I" by blast
    from 3(1) [OF f True L [unfolded N(4)] prems(2,3) N(2) n(2) prems(6) N(6) I(2) prems(9)]
    obtain u1 where u1: "rel = u1 @ rel1" "set u1 \<subseteq> leafMerkleHash sha3 ` set ls" by blast
    have len: "length fs1 \<le> m" and hs1: "list_all hash_ok hs1" using l n(2) by auto
    have rel1: "\<forall>h \<in> set rel1. \<exists>d. h = leafMerkleHash sha3 d \<and> leafPrefix @ d \<in> I"
      using prems(9) unfolding u1(1) by simp
    from 3(2) [OF f True L [symmetric] refl refl R [unfolded N(5) root(2)] prems(2,3) N(3) len hs1 N(7) I(3) rel1]
    obtain u2 where "rel1 = u2 @ rel'" "set u2 \<subseteq> leafMerkleHash sha3 ` set rs" by blast
    then have "rel = (u1 @ u2) @ rel'" "set (u1 @ u2) \<subseteq> leafMerkleHash sha3 ` set nodes"
      using u1 unfolding N(1) by auto
    then show ?thesis by (intro exI [of _ "u1 @ u2"] conjI)
  next
    case False
    show ?thesis
    proof (cases "f = FlagTxLeaf \<and> rel \<noteq> [] \<and> x = hd rel")
      case True
      then obtain rs where rel: "rel = x # rs" by (cases rel) auto
      have root: "merkleRoot sha3 nodes = x" "rel' = rs" using prems(1) conjunct1 [OF True] rel by simp_all
      have "x \<in> set rel" using rel by simp
      with prems(9) obtain d where d: "x = leafMerkleHash sha3 d" "leafPrefix @ d \<in> I" by blast
      have "d \<in> set nodes"
        by (rule leaf_of_root [OF prems(2,3) _ prems(4,7) d(2)]) (simp only: root(1) d(1))
      then have "rel = [x] @ rel'" "set [x] \<subseteq> leafMerkleHash sha3 ` set nodes" using rel root(2) d(1) by auto
      then show ?thesis by (intro exI [of _ "[x]"] conjI)
    next
      case other: False
      have "rel' = rel" using other False prems(1) by (simp split: if_splits list.splits)
      then show ?thesis by simp
    qed
  qed
qed simp_all

lemma merkle_two:
  "merkleRoot sha3 [a, b] = interiorMerkleHash sha3 (leafMerkleHash sha3 a) (leafMerkleHash sha3 b)"
  "merkle_inputs sha3 [a, b] =
     [interiorPrefix @ Byte32 (leafMerkleHash sha3 a) @ Byte32 (leafMerkleHash sha3 b), leafPrefix @ a, leafPrefix @ b]"
proof -
  have "prevPowerOfTwo (Suc (Suc 0)) = 1" by code_simp
  then show "merkleRoot sha3 [a, b] = interiorMerkleHash sha3 (leafMerkleHash sha3 a) (leafMerkleHash sha3 b)"
    "merkle_inputs sha3 [a, b] =
     [interiorPrefix @ Byte32 (leafMerkleHash sha3 a) @ Byte32 (leafMerkleHash sha3 b), leafPrefix @ a, leafPrefix @ b]"
    using merkleRoot_simps(3) [OF _ _ refl, of "[a, b]" sha3] merkle_inputs_simps(3) [OF _ _ refl, of "[a, b]" sha3]
    by (simp_all add: merkleRoot_simps merkle_inputs_simps)
qed

section \<open>Samples\<close>

definition sample_id :: "nat \<Rightarrow> hash" where
  "sample_id n = \<lparr>V0 = n, V1 = 0, V2 = 0, V3 = 0\<rparr>"

definition sample_merkle_tx :: "nat \<Rightarrow> tx" where
  "sample_merkle_tx n =
     \<lparr>tx_Header = \<lparr>th_Version = 1, th_SerializedSize = 1, th_TimeRange = 0, th_ResultIds = []\<rparr>,
      tx_ID = sample_id n, tx_Entries = Map.empty, tx_InputIDs = [], tx_SpentOutputIDs = [],
      tx_MainchainOutputIDs = [], tx_GasInputIDs = []\<rparr>"

lemma sample_leaf_inj:
  assumes "leafMerkleHash sample_hash (Byte32 (sample_id n)) = leafMerkleHash sample_hash (Byte32 (sample_id m))"
    and "n < 256 ^ 8" "m < 256 ^ 8"
  shows "n = m"
proof -
  let ?b = "\<lambda>k. Byte32 (sample_id k)"
  have "sample_hash (leafPrefix @ ?b n) = sample_hash (leafPrefix @ ?b m)"
    using sample_hash_ok assms(1) by (intro NewHash_inj) (simp_all add: sha3_ok_def leafMerkleHash_def)
  then have "take 31 (?b n) = take 31 (?b m)" by (simp add: sample_hash_def leafPrefix_def)
  then have "take 8 (take 31 (?b n)) = take 8 (take 31 (?b m))" by simp
  then have "be_bytes 8 n = be_bytes 8 m" by (simp add: Byte32_def sample_id_def)
  with assms(2,3) show ?thesis by (metis be_nat_be_bytes)
qed

section \<open>Properties\<close>

text \<open>
  Property C27: the proof that is generated for some transactions of a block, in the order of the block,
  is accepted for them against the Merkle root of the block, where the hashes of the block's
  transactions do not collide.
\<close>

theorem merkle_proof_accepted:
  assumes "sha3_ok sha3" and "inj_on (\<lambda>i. leafMerkleHash sha3 (Byte32 i)) (tx_ID ` set txs)"
    and "related = filter (\<lambda>t. P (tx_ID t)) txs"
    and "GetTxMerkleTreeProof sha3 txs related = (hashes, flags)"
  shows "ValidateTxMerkleTreeProof sha3 hashes flags (map tx_ID related) (TxMerkleRoot sha3 txs)"
proof (cases "txs = []")
  case True
  with assms(3,4) show ?thesis
    by (simp add: GetTxMerkleTreeProof_def getMerkleTreeProof_def buildMerkleTree_simps
        ValidateTxMerkleTreeProof_def validateMerkleTreeProof_def TxMerkleRoot_def merkleRoot_simps)
next
  case False
  let ?leaf = "\<lambda>t. leafMerkleHash sha3 (Byte32 (tx_ID t))"
  obtain t where t: "buildMerkleTree sha3 (map (\<lambda>t. Byte32 (tx_ID t)) txs) = Some t"
    "node_hash t = TxMerkleRoot sha3 txs" "leaves t = map ?leaf txs" "hashed sha3 t"
    using buildMerkleTree_root [of "map (\<lambda>t. Byte32 (tx_ID t)) txs" sha3] False
    by (auto simp: TxMerkleRoot_def)
  let ?S = "map (\<lambda>t. MarshalText (?leaf t)) related"
  have leaf_ok: "hash_ok (?leaf x)" for x
    using assms(1) by (simp add: leafMerkleHash_def sha3_ok_def Byte32_NewHash(2))
  have same: "MarshalText (?leaf x) = MarshalText (?leaf y) \<Longrightarrow> ?leaf x = ?leaf y" for x y
    unfolding MarshalText_def using Byte32_inj [OF leaf_ok leaf_ok] hex_encode_inj by blast
  have "tx_ID x = tx_ID y" if "x \<in> set txs" "y \<in> set txs" "MarshalText (?leaf x) = MarshalText (?leaf y)" for x y
    using inj_onD [OF assms(2) same [OF that(3)]] that(1,2) by blast
  then have sel: "MarshalText (?leaf x) \<in> set ?S \<longleftrightarrow> P (tx_ID x)" if "x \<in> set txs" for x
    using that unfolding assms(3) by (auto simp: image_iff) metis
  have chosen: "filter (\<lambda>h. MarshalText h \<in> set ?S) (leaves t) = map ?leaf related"
    unfolding t(3) assms(3) filter_map comp_def using sel unfolding assms(3) by (simp cong: filter_cong)
  show ?thesis
  proof (cases "related = []")
    case True
    with assms(4) t show ?thesis
      by (auto simp: GetTxMerkleTreeProof_def getMerkleTreeProof_def ValidateTxMerkleTreeProof_def
          validateMerkleTreeProof_def)
  next
    case False
    with assms(4) t(1) have p: "tree_proof ?S t = (hashes, flags)"
      by (simp add: GetTxMerkleTreeProof_def getMerkleTreeProof_def comp_def)
    have "fst (tree_proof ?S t) \<noteq> []" using tree_proof_empty [of ?S t] chosen False by auto
    from proof_accepted [OF t(4) this, of "[]" "[]" "[]"]
    show ?thesis
      unfolding p chosen t(2) by (simp add: ValidateTxMerkleTreeProof_def validateMerkleTreeProof_def comp_def)
  qed
qed

theorem merkle_proof_accepted_witness:
  "case GetTxMerkleTreeProof sample_hash (map sample_merkle_tx [1, 2, 3]) (map sample_merkle_tx [2]) of
     (hashes, flags) \<Rightarrow> ValidateTxMerkleTreeProof sample_hash hashes flags [sample_id 2]
       (TxMerkleRoot sample_hash (map sample_merkle_tx [1, 2, 3]))"
proof -
  let ?txs = "map sample_merkle_tx [1, 2, 3]" and ?rel = "map sample_merkle_tx [2]"
  have ids: "tx_ID (sample_merkle_tx n) = sample_id n" for n by (simp add: sample_merkle_tx_def)
  have inj: "inj_on (\<lambda>i. leafMerkleHash sample_hash (Byte32 i)) (tx_ID ` set ?txs)"
    by (auto simp: inj_on_def ids dest: sample_leaf_inj)
  have rel: "?rel = filter (\<lambda>t. tx_ID t = sample_id 2) ?txs" by (simp add: ids) (simp add: sample_id_def)
  obtain hashes flags where p: "GetTxMerkleTreeProof sample_hash ?txs ?rel = (hashes, flags)" by fastforce
  from merkle_proof_accepted [OF sample_hash_ok inj rel p] show ?thesis
    unfolding p by (simp add: ids)
qed

text \<open>
  Property C19: a proof that is accepted is right.  Whatever hashes and flags a prover sends, when they
  are accepted for a list of transaction identifiers against the root of a block, then all of these are
  transactions of the block, where the inputs that are hashed do not collide.
\<close>

theorem merkle_proof_sound:
  assumes "sha3_ok sha3" and "txs \<noteq> []" and "list_all hash_ok hashes"
    and "list_all hash_ok relatedHashes" and "list_all (\<lambda>t. hash_ok (tx_ID t)) txs"
    and "inj_on sha3 (set (merkle_inputs sha3 (map (\<lambda>t. Byte32 (tx_ID t)) txs)) \<union>
      leaf_inputs (map (\<lambda>t. Byte32 (tx_ID t)) txs) \<union> leaf_inputs (map Byte32 relatedHashes) \<union>
      set (proof_inputs sha3 (length flags) hashes flags
        (map (\<lambda>i. leafMerkleHash sha3 (Byte32 i)) relatedHashes)))"
    and "ValidateTxMerkleTreeProof sha3 hashes flags relatedHashes (TxMerkleRoot sha3 txs)"
  shows "set relatedHashes \<subseteq> tx_ID ` set txs"
proof
  let ?nodes = "map (\<lambda>t. Byte32 (tx_ID t)) txs" and ?rel = "map (\<lambda>i. leafMerkleHash sha3 (Byte32 i)) relatedHashes"
  let ?I = "set (merkle_inputs sha3 ?nodes) \<union> leaf_inputs ?nodes \<union> leaf_inputs (map Byte32 relatedHashes) \<union>
    set (proof_inputs sha3 (length flags) hashes flags ?rel)"
  fix i assume i: "i \<in> set relatedHashes"
  obtain hs fs where run: "getMerkleRootByProof sha3 hashes flags ?rel = (merkleRoot sha3 ?nodes, hs, fs, [])"
    using assms(7) by (auto simp: ValidateTxMerkleTreeProof_def validateMerkleTreeProof_def TxMerkleRoot_def comp_def
        split: prod.splits)
  have rel: "\<forall>h \<in> set ?rel. \<exists>d. h = leafMerkleHash sha3 d \<and> leafPrefix @ d \<in> ?I" by auto
  have "\<exists>used. ?rel = used @ [] \<and> set used \<subseteq> leafMerkleHash sha3 ` set ?nodes"
    by (rule proof_sound [OF run assms(1,6) _ order_refl assms(3) _ _ rel]) (use assms(2) in auto)
  with i obtain t where t: "t \<in> set txs" "leafMerkleHash sha3 (Byte32 i) = leafMerkleHash sha3 (Byte32 (tx_ID t))"
    by auto
  have "Byte32 i = Byte32 (tx_ID t)"
    by (rule hash_kinds(4) [OF assms(1,6) _ _ t(2)]) (use i t(1) in auto)
  then have "i = tx_ID t" using assms(4,5) i t(1) by (auto simp: list_all_iff intro: Byte32_inj)
  with t(1) show "i \<in> tx_ID ` set txs" by blast
qed

theorem merkle_proof_sound_witness:
  "set [sample_id 1] \<subseteq> tx_ID ` set (map sample_merkle_tx [1, 2])"
proof -
  let ?txs = "map sample_merkle_tx [1, 2]" and ?leaf = "\<lambda>n. leafMerkleHash sample_hash (Byte32 (sample_id n))"
  have ids: "tx_ID (sample_merkle_tx n) = sample_id n" for n by (simp add: sample_merkle_tx_def)
  have "?leaf 1 \<noteq> ?leaf 2" using sample_leaf_inj [of 1 2] by auto
  then have b: "sample_hash (leafPrefix @ Byte32 (sample_id 1)) \<noteq> sample_hash (leafPrefix @ Byte32 (sample_id 2))"
    by (auto simp: leafMerkleHash_def)
  have ok: "hash_ok (?leaf n)" for n
    using sample_hash_ok by (simp add: leafMerkleHash_def sha3_ok_def Byte32_NewHash(2))
  have ids_ok: "hash_ok (sample_id 1)" "hash_ok (sample_id 2)"
    by (simp_all add: hash_ok_def is_u64_def sample_id_def)
  have inj: "inj_on sample_hash (set (merkle_inputs sample_hash (map (\<lambda>t. Byte32 (tx_ID t)) ?txs)) \<union>
      leaf_inputs (map (\<lambda>t. Byte32 (tx_ID t)) ?txs) \<union> leaf_inputs (map Byte32 [sample_id 1]) \<union>
      set (proof_inputs sample_hash (length [1, 2, 0 :: nat]) [?leaf 1, ?leaf 2] [1, 2, 0]
        (map (\<lambda>i. leafMerkleHash sample_hash (Byte32 i)) [sample_id 1])))"
    using b by (auto simp: ids merkle_two inj_on_def sample_hash_def leafPrefix_def interiorPrefix_def numeral_2_eq_2)
  have "ValidateTxMerkleTreeProof sample_hash [?leaf 1, ?leaf 2] [1, 2, 0] [sample_id 1]
      (TxMerkleRoot sample_hash ?txs)"
    by (simp add: ValidateTxMerkleTreeProof_def validateMerkleTreeProof_def TxMerkleRoot_def merkle_two ids)
  from merkle_proof_sound [OF sample_hash_ok _ _ _ _ inj this] ok ids_ok show ?thesis by (simp add: ids)
qed

text \<open>
  Property C28: the Merkle roots in a header bind its contents: where the inputs that are hashed do not collide, two
  lists of transactions have the same root exactly when they have the same identifiers in the same order, and two
  lists of statuses exactly when they are equal.
\<close>

theorem merkle_root_binds:
  assumes "sha3_ok sha3"
    and "list_all (\<lambda>t. hash_ok (tx_ID t)) txs" and "list_all (\<lambda>t. hash_ok (tx_ID t)) txs'"
    and "inj_on sha3 (set (merkle_inputs sha3 (map (\<lambda>t. Byte32 (tx_ID t)) txs)) \<union>
      set (merkle_inputs sha3 (map (\<lambda>t. Byte32 (tx_ID t)) txs')))"
    and "inj_on sha3 (set (merkle_inputs sha3 (map status_json statuses)) \<union>
      set (merkle_inputs sha3 (map status_json statuses')))"
  shows "(TxMerkleRoot sha3 txs = TxMerkleRoot sha3 txs' \<longleftrightarrow> map tx_ID txs = map tx_ID txs') \<and>
    (TxStatusMerkleRoot sha3 statuses = TxStatusMerkleRoot sha3 statuses' \<longleftrightarrow> statuses = statuses')"
proof -
  have bytes: "map (\<lambda>t. Byte32 (tx_ID t)) ts = map Byte32 (map tx_ID ts)" for ts :: "tx list" by simp
  have "map tx_ID txs = map tx_ID txs'" if "TxMerkleRoot sha3 txs = TxMerkleRoot sha3 txs'"
  proof -
    have "map (\<lambda>t. Byte32 (tx_ID t)) txs = map (\<lambda>t. Byte32 (tx_ID t)) txs'"
      using that by (intro merkleRoot_inj [OF assms(1,4)]) (auto simp: TxMerkleRoot_def)
    then have "map NewHash (map (\<lambda>t. Byte32 (tx_ID t)) txs) = map NewHash (map (\<lambda>t. Byte32 (tx_ID t)) txs')" by simp
    then show ?thesis
      using assms(2,3) by (simp add: list_all_iff NewHash_Byte32 comp_def cong: map_cong)
  qed
  moreover have "TxMerkleRoot sha3 txs = TxMerkleRoot sha3 txs'" if "map tx_ID txs = map tx_ID txs'"
    unfolding TxMerkleRoot_def bytes that ..
  moreover have "statuses = statuses'" if "TxStatusMerkleRoot sha3 statuses = TxStatusMerkleRoot sha3 statuses'"
  proof -
    have "map status_json statuses = map status_json statuses'"
      using that by (intro merkleRoot_inj [OF assms(1,5)]) (auto simp: TxStatusMerkleRoot_def)
    then show ?thesis
      by (rule map_injective) (auto simp: inj_on_def status_json_def ascii_def split: if_splits)
  qed
  ultimately show ?thesis by blast
qed

theorem merkle_root_binds_witness:
  "TxMerkleRoot sample_hash (map sample_merkle_tx [1, 2]) \<noteq> TxMerkleRoot sample_hash (map sample_merkle_tx [2, 1]) \<and>
   TxStatusMerkleRoot sample_hash [True] \<noteq> TxStatusMerkleRoot sample_hash [False]"
proof -
  have ids: "tx_ID (sample_merkle_tx n) = sample_id n" for n by (simp add: sample_merkle_tx_def)
  have ok: "list_all (\<lambda>t. hash_ok (tx_ID t)) (map sample_merkle_tx [1, 2])"
    "list_all (\<lambda>t. hash_ok (tx_ID t)) (map sample_merkle_tx [2, 1])"
    by (simp_all add: ids hash_ok_def is_u64_def sample_id_def)
  have inj: "inj_on sample_hash (set (merkle_inputs sample_hash (map (\<lambda>t. Byte32 (tx_ID t)) (map sample_merkle_tx [1, 2]))) \<union>
      set (merkle_inputs sample_hash (map (\<lambda>t. Byte32 (tx_ID t)) (map sample_merkle_tx [2, 1]))))"
    unfolding ids list.map merkle_two inj_on_def
    by code_simp
  have inj': "inj_on sample_hash (set (merkle_inputs sample_hash (map status_json [True])) \<union>
      set (merkle_inputs sample_hash (map status_json [False])))"
    unfolding list.map merkle_inputs_simps inj_on_def by code_simp
  from merkle_root_binds [OF sample_hash_ok ok inj inj'] show ?thesis
    by (simp add: ids) (simp add: sample_id_def)
qed

end
