(* ===== verification/Script_Wf.thy ===== *)
theory Script_Wf
  imports Script
begin

text \<open>
  The standard programs: what the builder emits, that it parses back into the intended instructions,
  that the recognisers accept exactly their own kind, and that the arguments of a magnetic contract
  survive encoding and decoding.
\<close>

section \<open>Programs as sequences of chunks\<close>

definition parses :: "bytes \<Rightarrow> instruction \<Rightarrow> bool" where
  "parses c i \<longleftrightarrow> c \<noteq> [] \<and> Len i = length c \<and>
     (\<forall>pre post. length pre + length c + length post \<le> 2147483647 \<longrightarrow>
        ParseOp (pre @ c @ post) (length pre) = Inr i)"

abbreviation inst :: "byte \<Rightarrow> bytes \<Rightarrow> bytes \<Rightarrow> instruction" where
  "inst op c d \<equiv> \<lparr>Op = op, Len = length c, Data = d\<rparr>"

lemma parses_PushdataBytes: "parses (PushdataBytes d) (inst (hd (PushdataBytes d)) (PushdataBytes d) d)"
  by (simp add: parses_def PushdataBytes_nonempty ParseOp_PushdataBytes)

definition plain_op :: "byte \<Rightarrow> bool" where
  "plain_op op \<longleftrightarrow> \<not> (0x51 \<le> unat op \<and> unat op \<le> 0x60) \<and> \<not> (0x01 \<le> unat op \<and> unat op \<le> 0x4b) \<and>
     unat op \<noteq> 0x4c \<and> unat op \<noteq> 0x4d \<and> unat op \<noteq> 0x4e \<and> \<not> (unat op = 0x63 \<or> unat op = 0x64)"

lemma at_pc:
  assumes "length pre + length c + length post \<le> 2147483647" "c = op # a"
  shows "u32 (length (pre @ c @ post)) = length (pre @ c @ post)" "\<not> length pre \<ge> length (pre @ c @ post)"
    "(pre @ c @ post) ! length pre = op" "\<not> length (pre @ c @ post) > 2147483647"
  using assms by (simp_all add: u32_small nth_append)

lemma parses_op:
  assumes "plain_op op"
  shows "parses [op] (inst op [op] [])"
proof -
  have "ParseOp (pre @ [op] @ post) (length pre) = Inr (inst op [op] [])"
    if "length pre + length [op] + length post \<le> 2147483647" for pre post
    unfolding ParseOp_def at_pc [OF that refl]
    using assms [unfolded plain_op_def] at_pc(2,4) [OF that refl] by (simp only: Let_def if_False list.size) simp
  then show ?thesis by (simp add: parses_def)
qed

lemma parses_small:
  assumes "0x51 \<le> unat op" "unat op \<le> 0x60"
  shows "parses [op] (inst op [op] [op - 0x51 + 1])"
proof -
  have "ParseOp (pre @ [op] @ post) (length pre) = Inr (inst op [op] [op - 0x51 + 1])"
    if "length pre + length [op] + length post \<le> 2147483647" for pre post
    unfolding ParseOp_def at_pc [OF that refl]
    using assms at_pc(2,4) [OF that refl] by (simp only: Let_def if_False list.size) simp
  then show ?thesis by (simp add: parses_def)
qed

lemma parses_jump:
  assumes "unat op = 0x63 \<or> unat op = 0x64" "length a = 4"
  shows "parses (op # a) (inst op (op # a) a)"
proof -
  have "ParseOp (pre @ (op # a) @ post) (length pre) = Inr (inst op (op # a) a)"
    if len: "length pre + length (op # a) + length post \<le> 2147483647" for pre post
  proof -
    have "AddUint32 (length pre) 5 = (length pre + 5, True)" using len by (simp add: AddUint32_small)
    moreover have "sub_bytes (pre @ (op # a) @ post) (length pre + 1) (length pre + 5) = a"
      using assms(2) sub_bytes_middle [of "length pre + 1" "pre @ [op]" "length pre + 5" a post] by simp
    moreover have "\<not> length pre + 5 > length (pre @ (op # a) @ post)" using assms(2) by simp
    ultimately show ?thesis
      unfolding ParseOp_def at_pc [OF len refl]
      using assms at_pc(2,4) [OF len refl] by (elim disjE) (simp_all only: Let_def if_False list.size, simp_all)
  qed
  then show ?thesis by (simp add: parses_def)
qed

lemma parse_from_chunks:
  assumes "list_all2 parses cs is" "length pre + length (concat cs) \<le> 2147483647" "length cs \<le> n"
  shows "parse_from n (pre @ concat cs) (length pre) = Inr is"
  using assms
proof (induction cs "is" arbitrary: pre n rule: list_all2_induct)
  case Nil
  then show ?case by (cases n) (simp_all add: parse_arith)
next
  case (Cons c cs i "is")
  obtain m where n: "n = Suc m" "length cs \<le> m" using Cons.prems(2) by (cases n) auto
  have c: "c \<noteq> []" "Len i = length c" "ParseOp (pre @ c @ concat cs) (length pre) = Inr i"
    using Cons.hyps(1) Cons.prems(1) by (auto simp: parses_def)
  have "parse_from m ((pre @ c) @ concat cs) (length (pre @ c)) = Inr is"
    using Cons.prems(1) n(2) by (intro Cons.IH) auto
  with c Cons.prems(1) show ?case by (simp add: n(1) parse_arith)
qed

lemma ParseProgram_chunks:
  assumes "list_all2 parses cs is" "length (concat cs) \<le> 2147483647"
  shows "ParseProgram (concat cs) = Inr is"
proof -
  have "length cs \<le> length (concat cs)"
  proof -
    have "list_all (\<lambda>c. c \<noteq> []) cs" using assms(1) by (auto simp: list_all2_conv_all_nth list_all_length parses_def)
    then show ?thesis by (induction cs) (auto simp: Suc_le_eq simp flip: length_greater_0_conv)
  qed
  from parse_from_chunks [OF assms(1), of "[]", simplified, OF assms(2) this]
  show ?thesis by (simp add: ParseProgram_def)
qed

section \<open>Pushes\<close>

lemma op_fn_push: "unat op \<le> 0x4e \<or> 0x51 \<le> unat op \<and> unat op \<le> 0x60 \<Longrightarrow>
    op_fn op = PushdataFn (if op = 0 then OpFalse else OpPushdata)"
proof -
  assume r: "unat op \<le> 0x4e \<or> 0x51 \<le> unat op \<and> unat op \<le> 0x60"
  have z: "op = 0 \<longleftrightarrow> unat op = 0" by (simp add: unat_eq_0)
  consider "1 \<le> unat op \<and> unat op \<le> 75 \<or> 81 \<le> unat op \<and> unat op \<le> 96" | "unat op = 0" | "unat op = 0x4c"
    | "unat op = 0x4d" | "unat op = 0x4e" using r by linarith
  then show ?thesis by cases (auto simp: op_fn_code z Let_def op_fns_def)
qed

lemma IsPushdata_push:
  assumes "unat (Op i) \<le> 0x4e \<or> 0x51 \<le> unat (Op i) \<and> unat (Op i) \<le> 0x60"
  shows "IsPushdata i"
  using assms by (simp add: IsPushdata_def op_fn_push)

lemma hd_PushdataBytes:
  "unat (hd (PushdataBytes d)) \<le> 0x4e"
  "length d \<le> 75 \<Longrightarrow> hd (PushdataBytes d) = of_nat (length d)"
  by (simp_all add: PushdataBytes_def Let_def unat_of_nat_byte)

text \<open>A pushed integer reads back.\<close>

definition int_data :: "int \<Rightarrow> bytes" where
  "int_data n = (if n = 0 then [] else if 1 \<le> n \<and> n \<le> 16 then [of_int n] else Int64Bytes n)"

lemma small_int_op:
  assumes "1 \<le> n" "n \<le> 16"
  shows "unat (0x51 + of_int n - 1 :: byte) = 0x50 + nat n" "(0x51 + of_int n - 1 :: byte) - 0x51 + 1 = of_int n"
proof -
  have "(0x51 + of_int n - 1 :: byte) = of_nat (0x50 + nat n)" using assms by simp
  then show "unat (0x51 + of_int n - 1 :: byte) = 0x50 + nat n"
    using assms unat_of_nat_byte [of "0x50 + nat n"] by simp
qed simp

lemma parses_int:
  "\<exists>i. parses (PushdataInt64 n) i \<and> Data i = int_data n \<and> IsPushdata i"
proof -
  consider "n = 0" | "1 \<le> n" "n \<le> 16" | "n < 0 \<or> 16 < n" by linarith
  then show ?thesis
  proof cases
    case 1
    have "parses [0] (inst 0 [0] [])" by (rule parses_op) (simp add: plain_op_def)
    with 1 show ?thesis by (intro exI [of _ "inst 0 [0] []"]) (simp add: PushdataInt64_def int_data_def IsPushdata_push)
  next
    case 2
    let ?op = "0x51 + of_int n - 1 :: byte"
    have r: "0x51 \<le> unat ?op" "unat ?op \<le> 0x60" using small_int_op(1) [OF 2] 2 by auto
    have "PushdataInt64 n = [?op]" using 2 by (simp add: PushdataInt64_def)
    moreover have "int_data n = [?op - 0x51 + 1]" using 2 small_int_op(2) [OF 2] by (simp add: int_data_def)
    ultimately show ?thesis using parses_small [OF r] IsPushdata_push [of "inst ?op [?op] [?op - 0x51 + 1]"] r by auto
  next
    case 3
    then have "PushdataInt64 n = PushdataBytes (Int64Bytes n)" "int_data n = Int64Bytes n"
      by (auto simp: PushdataInt64_def int_data_def)
    with parses_PushdataBytes [of "Int64Bytes n"] hd_PushdataBytes(1) [of "Int64Bytes n"] show ?thesis
      by (intro exI [of _ "inst (hd (PushdataBytes (Int64Bytes n))) (PushdataBytes (Int64Bytes n)) (Int64Bytes n)"])
        (simp add: IsPushdata_push)
  qed
qed

lemma AsInt64_int_data: "is_i64 n \<Longrightarrow> AsInt64 (int_data n) = Inr n"
proof -
  assume n: "is_i64 n"
  consider "n = 0" | "1 \<le> n" "n \<le> 16" | "n < 0 \<or> 16 < n" by linarith
  then show ?thesis
  proof cases
    case 2
    then have "(of_int n :: byte) = of_nat (nat n)" by simp
    then have "unat (of_int n :: byte) = nat n" using 2 unat_of_nat_byte [of "nat n"] by simp
    with 2 n show ?thesis
      by (simp add: int_data_def AsInt64_le_nat i64_of_u64_def i64_id)
  next
    case 3
    then show ?thesis using AsInt64_Int64Bytes [OF n] by (auto simp: int_data_def)
  qed (simp add: int_data_def AsInt64_def)
qed

section \<open>What the builder emits\<close>

lemmas builder_simps = build_def Build_def NewBuilder_def AddOp_def AddData_def AddInt_def AddRawBytes_def

lemma programs:
  "P2WPKHProgram h = Inr (concat [[OP_0], PushdataBytes h])"
  "P2WSHProgram h = Inr (concat [[OP_0], PushdataBytes h])"
  "P2PKHSigProgram h = Inr (concat [[OP_DUP], [OP_HASH160], PushdataBytes h, [OP_EQUALVERIFY], [OP_TXSIGHASH],
     [OP_SWAP], [OP_CHECKSIG]])"
  "P2WMCProgram m = Inr (concat [[OP_0], PushdataBytes (Byte32 (mc_RequestedAsset m)),
     PushdataInt64 (mc_RatioNumerator m), PushdataInt64 (mc_RatioDenominator m),
     PushdataBytes (mc_SellerProgram m), PushdataBytes (mc_SellerKey m)])"
  by (simp_all add: P2WPKHProgram_def P2WSHProgram_def P2PKHSigProgram_def P2WMCProgram_def builder_simps
      PushdataInt64_def)

section \<open>Recognition\<close>

lemma parses_OP_0: "parses [OP_0] (inst OP_0 [OP_0] [])"
  by (rule parses_op) (simp add: plain_op_def)

lemma witness_program_parse:
  assumes "length h \<le> 75"
  shows "ParseProgram (concat [[OP_0], PushdataBytes h]) =
    Inr [inst OP_0 [OP_0] [], inst (of_nat (length h)) (PushdataBytes h) h]"
  using assms parses_OP_0 parses_PushdataBytes [of h]
  by (intro ParseProgram_chunks) (auto simp: hd_PushdataBytes(2) length_PushdataBytes)

lemma mc_program_parse:
  assumes "length k \<le> 75" "length r \<le> 75" "length sp \<le> 1000000"
  shows "\<exists>i2 i3. ParseProgram (concat [[OP_0], PushdataBytes r, PushdataInt64 n, PushdataInt64 d, PushdataBytes sp,
      PushdataBytes k]) =
    Inr [inst OP_0 [OP_0] [], inst (of_nat (length r)) (PushdataBytes r) r, i2, i3,
      inst (hd (PushdataBytes sp)) (PushdataBytes sp) sp, inst (of_nat (length k)) (PushdataBytes k) k] \<and>
    Data i2 = int_data n \<and> IsPushdata i2 \<and> Data i3 = int_data d \<and> IsPushdata i3"
proof -
  obtain i2 where i2: "parses (PushdataInt64 n) i2" "Data i2 = int_data n" "IsPushdata i2" using parses_int by blast
  obtain i3 where i3: "parses (PushdataInt64 d) i3" "Data i3 = int_data d" "IsPushdata i3" using parses_int by blast
  have int_len: "length (PushdataInt64 x) \<le> 9" for x
    using length_Int64Bytes [of x] by (simp add: PushdataInt64_def length_PushdataBytes)
  have "ParseProgram (concat [[OP_0], PushdataBytes r, PushdataInt64 n, PushdataInt64 d, PushdataBytes sp, PushdataBytes k]) =
    Inr [inst OP_0 [OP_0] [], inst (of_nat (length r)) (PushdataBytes r) r, i2, i3,
      inst (hd (PushdataBytes sp)) (PushdataBytes sp) sp, inst (of_nat (length k)) (PushdataBytes k) k]"
    using assms parses_OP_0 parses_PushdataBytes [of r] parses_PushdataBytes [of k] parses_PushdataBytes [of sp]
      i2(1) i3(1) int_len [of n] int_len [of d]
    by (intro ParseProgram_chunks) (auto simp: hd_PushdataBytes(2) length_PushdataBytes)
  with i2 i3 show ?thesis by blast
qed

section \<open>Properties\<close>

text \<open>
  Property C32: the program of a public key hash or of a script hash is recognised as its own kind and no
  other, the hash can be read back from it, and it is converted into the program that checks the hash.
\<close>

theorem standard_programs_recognised:
  assumes "length pubkeyHash = 20" and "length scriptHash = 32"
  shows "\<exists>p q. P2WPKHProgram pubkeyHash = Inr p \<and> P2WSHProgram scriptHash = Inr q \<and>
    IsP2WPKHScript p \<and> \<not> IsP2WSHScript p \<and> \<not> IsP2WMCScript p \<and> \<not> IsStraightforward p \<and> \<not> IsUnspendable p \<and>
    GetHashFromStandardProg p = Inr pubkeyHash \<and> ConvertP2PKHSigProgram p = P2PKHSigProgram pubkeyHash \<and>
    IsP2WSHScript q \<and> \<not> IsP2WPKHScript q \<and> \<not> IsP2WMCScript q \<and> \<not> IsStraightforward q \<and> \<not> IsUnspendable q \<and>
    GetHashFromStandardProg q = Inr scriptHash \<and> ConvertP2SHProgram q = P2SHProgram scriptHash"
proof -
  let ?p = "concat [[OP_0], PushdataBytes pubkeyHash]" and ?q = "concat [[OP_0], PushdataBytes scriptHash]"
  have p: "ParseProgram ?p = Inr [inst OP_0 [OP_0] [], inst OP_DATA_20 (PushdataBytes pubkeyHash) pubkeyHash]"
    using witness_program_parse [of pubkeyHash] assms(1) by simp
  have q: "ParseProgram ?q = Inr [inst OP_0 [OP_0] [], inst OP_DATA_32 (PushdataBytes scriptHash) scriptHash]"
    using witness_program_parse [of scriptHash] assms(2) by simp
  have "IsP2WPKHScript ?p" "\<not> IsP2WSHScript ?p" "\<not> IsP2WMCScript ?p" "\<not> IsStraightforward ?p" "\<not> IsUnspendable ?p"
      "GetHashFromStandardProg ?p = Inr pubkeyHash" "ConvertP2PKHSigProgram ?p = P2PKHSigProgram pubkeyHash"
    unfolding IsP2WPKHScript_def IsP2WSHScript_def IsP2WMCScript_def IsStraightforward_def IsUnspendable_def
      GetHashFromStandardProg_def ConvertP2PKHSigProgram_def p
    using assms(1) by (simp_all add: PayToWitnessPubKeyHashDataSize_def)
  moreover have "IsP2WSHScript ?q" "\<not> IsP2WPKHScript ?q" "\<not> IsP2WMCScript ?q" "\<not> IsStraightforward ?q" "\<not> IsUnspendable ?q"
      "GetHashFromStandardProg ?q = Inr scriptHash" "ConvertP2SHProgram ?q = P2SHProgram scriptHash"
    unfolding IsP2WPKHScript_def IsP2WSHScript_def IsP2WMCScript_def IsStraightforward_def IsUnspendable_def
      GetHashFromStandardProg_def ConvertP2SHProgram_def q
    using assms(2) by (simp_all add: PayToWitnessScriptHashDataSize_def)
  ultimately show ?thesis unfolding programs(1,2) by blast
qed

theorem standard_programs_recognised_witness:
  "\<exists>p. P2WPKHProgram (replicate 20 7) = Inr p \<and> IsP2WPKHScript p"
  using standard_programs_recognised [of "replicate 20 7" "replicate 32 9"] by auto

text \<open>
  Property C33: the arguments of a magnetic contract (an order of the decentralised exchange) survive
  being written as a program and read back.
\<close>

theorem magnetic_contract_roundtrip:
  assumes "hash_ok (mc_RequestedAsset m)" and "is_i64 (mc_RatioNumerator m)" and "is_i64 (mc_RatioDenominator m)"
    and "IsP2WScript (mc_SellerProgram m)" and "length (mc_SellerProgram m) \<le> 1000000"
    and "length (mc_SellerKey m) = 32"
  shows "\<exists>prog. P2WMCProgram m = Inr prog \<and> IsP2WMCScript prog \<and> DecodeP2WMCProgram prog = Inr m"
proof -
  let ?sp = "mc_SellerProgram m"
  let ?prog = "concat [[OP_0], PushdataBytes (Byte32 (mc_RequestedAsset m)), PushdataInt64 (mc_RatioNumerator m),
    PushdataInt64 (mc_RatioDenominator m), PushdataBytes ?sp, PushdataBytes (mc_SellerKey m)]"
  obtain i2 i3 where P: "ParseProgram ?prog = Inr [inst OP_0 [OP_0] [],
      inst OP_DATA_32 (PushdataBytes (Byte32 (mc_RequestedAsset m))) (Byte32 (mc_RequestedAsset m)), i2, i3,
      inst (hd (PushdataBytes ?sp)) (PushdataBytes ?sp) ?sp,
      inst OP_DATA_32 (PushdataBytes (mc_SellerKey m)) (mc_SellerKey m)]"
      "Data i2 = int_data (mc_RatioNumerator m)" "IsPushdata i2"
      "Data i3 = int_data (mc_RatioDenominator m)" "IsPushdata i3"
    using mc_program_parse [of "mc_SellerKey m" "Byte32 (mc_RequestedAsset m)" ?sp "mc_RatioNumerator m" "mc_RatioDenominator m"]
      assms(5,6) by auto
  have sp: "IsPushdata (inst (hd (PushdataBytes ?sp)) (PushdataBytes ?sp) ?sp)"
    by (rule IsPushdata_push) (simp add: hd_PushdataBytes(1))
  note ints = AsInt64_int_data [OF assms(2)] AsInt64_int_data [OF assms(3)]
  have "IsP2WMCScript ?prog"
    unfolding IsP2WMCScript_def P(1) using P(2-5) sp assms(4,6) ints by (simp add: is_int64_def)
  moreover from this have "DecodeP2WMCProgram ?prog = Inr m"
    unfolding DecodeP2WMCProgram_def P(1) using P(2,4) ints assms(1) by (simp add: NewHash_Byte32)
  ultimately show ?thesis unfolding programs(4) by blast
qed

theorem magnetic_contract_roundtrip_witness:
  "\<exists>prog. P2WMCProgram \<lparr>mc_RequestedAsset = zeroHash, mc_RatioNumerator = - 3, mc_RatioDenominator = 1000,
      mc_SellerProgram = [OP_TRUE], mc_SellerKey = replicate 32 5\<rparr> = Inr prog \<and> IsP2WMCScript prog"
proof -
  have "IsP2WScript [OP_TRUE]" by code_simp
  then show ?thesis
    using magnetic_contract_roundtrip [of "\<lparr>mc_RequestedAsset = zeroHash, mc_RatioNumerator = - 3,
      mc_RatioDenominator = 1000, mc_SellerProgram = [OP_TRUE], mc_SellerKey = replicate 32 5\<rparr>"]
    by (auto simp: hash_ok_def zeroHash_def is_u64_def is_i64_def)
qed

end
