(* ===== verification/Validation.thy ===== *)
theory Validation
  imports VM_Run Script Merkle Consensus_Result
begin

text \<open>
  Validation of transactions and blocks (\<^verbatim>\<open>protocol/validation\<close>).

  \<^verbatim>\<open>validationState\<close> is copied at every call, but its gas state and its cache are pointers that all copies
  share: these two, and the memory of the virtual machine, are the state of the computations, the rest
  are arguments.  \<open>sourcePos\<close> and \<open>destPos\<close> are set right before the calls that read them and are
  arguments of those only.  An error wrapped with details is its root.  A nil dereference is the
  outcome \<open>V_Panic\<close>.

  The recursion of \<^verbatim>\<open>checkValid\<close> follows the references between entries and has no bound of its own; the
  model takes fuel, and running out is the outcome \<open>V_OutOfFuel\<close>.
\<close>

section \<open>Errors and the gas state (tx.go)\<close>

datatype v_error =
    ErrTxVersion | ErrWrongTransactionSize | ErrBadTimeRange | ErrEmptyInputIDs
  | ErrWrongCoinbaseTransaction | ErrWrongCoinbaseAsset | ErrCoinbaseArbitraryOversize
  | ErrEmptyResults | ErrMismatchedPosition | ErrMismatchedReference | ErrMismatchedValue
  | ErrMissingField | ErrNoSource | V_ErrOverflow | ErrPosition | ErrUnbalanced
  | ErrOverGasCredit | ErrGasCalculate | ErrVotePubKey | ErrVoteOutputAmount | ErrVoteOutputAseet
  | IncorrectCrossChainAsset | EmptyAssetAmount | UnexpectedEntryType
  | V_Bc bc_error | V_VM vm_exc | V_Panic | V_OutOfFuel

record gas_state =
  BTMValue :: nat
  GasLeft :: int
  GasUsed :: int
  GasValid :: bool
  StorageGas :: int

type_synonym gas_op = "(gas_state, v_error, unit) comp"

definition setGas :: "params \<Rightarrow> int \<Rightarrow> int \<Rightarrow> gas_op" where
  "setGas P btmValue txSize =
     (if btmValue < 0 then throwE ErrGasCalculate
      else
        thenE (modifyE (\<lambda>g. g\<lparr>BTMValue := u64_of_i64 btmValue\<rparr>))
        (case DivInt64 btmValue (VMGasRate P) of (q, ok) \<Rightarrow>
         thenE (modifyE (\<lambda>g. g\<lparr>GasLeft := q\<rparr>))
         (thenE (assertE ok ErrGasCalculate)
         (bindE (getsE GasLeft) (\<lambda>left.
          case AddInt64 left (DefaultGasCredit P) of (s, ok) \<Rightarrow>
          thenE (modifyE (\<lambda>g. g\<lparr>GasLeft := s\<rparr>))
          (thenE (assertE ok ErrGasCalculate)
          (thenE (modifyE (\<lambda>g. if GasLeft g > MaxGasAmount P then g\<lparr>GasLeft := MaxGasAmount P\<rparr> else g))
          (case MulInt64 txSize (StorageGasRate P) of (m, ok) \<Rightarrow>
           thenE (modifyE (\<lambda>g. g\<lparr>StorageGas := m\<rparr>))
             (assertE ok ErrGasCalculate)))))))))"

definition setGasValid :: gas_op where
  "setGasValid =
     bindE (getsE (\<lambda>g. SubInt64 (GasLeft g) (StorageGas g))) (\<lambda>(d, ok).
     thenE (modifyE (\<lambda>g. g\<lparr>GasLeft := d\<rparr>))
     (thenE (assertE (ok \<and> \<not> d < 0) ErrGasCalculate)
     (bindE (getsE (\<lambda>g. AddInt64 (GasUsed g) (StorageGas g))) (\<lambda>(s, ok).
      thenE (modifyE (\<lambda>g. g\<lparr>GasUsed := s\<rparr>))
      (thenE (assertE ok ErrGasCalculate)
        (modifyE (\<lambda>g. g\<lparr>GasValid := True\<rparr>)))))))"

definition updateUsage :: "params \<Rightarrow> int \<Rightarrow> gas_op" where
  "updateUsage P gasLeft =
     (if gasLeft < 0 then throwE ErrGasCalculate
      else
        bindE (getsE (\<lambda>g. SubInt64 (GasLeft g) gasLeft)) (\<lambda>(gasUsed, ok).
        if ok then
          thenE (modifyE (\<lambda>g. g\<lparr>GasUsed := i64 (GasUsed g + gasUsed), GasLeft := gasLeft\<rparr>))
          (bindE (getsE (\<lambda>g. \<not> GasValid g \<and> (GasUsed g > DefaultGasCredit P \<or> StorageGas g > GasLeft g)))
            (\<lambda>over. assertE (\<not> over) ErrOverGasCredit))
        else throwE ErrGasCalculate))"

section \<open>Contexts for the virtual machine (vmcontext.go)\<close>

definition witnessProgram :: "bytes \<Rightarrow> bytes" where
  "witnessProgram prog =
     (if IsP2WPKHScript prog then case ConvertP2PKHSigProgram prog of Inr p \<Rightarrow> p | Inl _ \<Rightarrow> prog
      else if IsP2WSHScript prog then case ConvertP2SHProgram prog of Inr p \<Rightarrow> p | Inl _ \<Rightarrow> prog
      else if IsP2WMCScript prog then case ConvertP2MCProgram prog of Inr p \<Rightarrow> p | Inl _ \<Rightarrow> prog
      else prog)"

text \<open>
  \<^verbatim>\<open>checkOutput\<close>.  On an output without a value the code panics inside the machine, which turns the
  panic into \<^verbatim>\<open>ErrUnexpected\<close>; here the callback returns that error.
\<close>

definition check_value ::
    "bc_program \<Rightarrow> asset_amount option \<Rightarrow> nat \<Rightarrow> bytes \<Rightarrow> nat \<Rightarrow> bytes \<Rightarrow> vm_error + bool" where
  "check_value prog v amount assetID vmVersion code =
     (case v of
        None \<Rightarrow> Inl ErrUnexpected
      | Some a \<Rightarrow>
          (case aa_AssetId a of
             None \<Rightarrow> Inl ErrUnexpected
           | Some i \<Rightarrow>
               Inr (prog_VmVersion prog = vmVersion \<and> prog_Code prog = code \<and> Byte32 i = assetID \<and>
                 aa_Amount a = amount)))"

definition check_entry ::
    "entry \<Rightarrow> nat \<Rightarrow> bytes \<Rightarrow> nat \<Rightarrow> bytes \<Rightarrow> bool \<Rightarrow> vm_error + bool" where
  "check_entry e amount assetID vmVersion code expansion =
     (case e of
        IntraChainOutput o' \<Rightarrow>
          check_value (out_ControlProgram o') (vl_Value (out_Source o')) amount assetID vmVersion code
      | VoteOutput v \<Rightarrow>
          check_value (out_ControlProgram (vote_Output v)) (vl_Value (out_Source (vote_Output v))) amount assetID
            vmVersion code
      | Retirement r \<Rightarrow>
          check_value \<lparr>prog_VmVersion = 0, prog_Code = (if expansion then code else [])\<rparr> (vl_Value (ret_Source r))
            amount assetID vmVersion code
      | _ \<Rightarrow> Inl ErrContext)"

definition check_mux ::
    "(hash \<rightharpoonup> entry) \<Rightarrow> mux_entry \<Rightarrow> nat \<Rightarrow> nat \<Rightarrow> bytes \<Rightarrow> nat \<Rightarrow> bytes \<Rightarrow> bool \<Rightarrow> vm_error + bool" where
  "check_mux entries m index amount assetID vmVersion code expansion =
     (if index \<ge> length (mux_WitnessDestinations m) then Inl ErrBadValue
      else case vl_Ref (mux_WitnessDestinations m ! index) of
        None \<Rightarrow> Inl ErrUnexpected
      | Some eID \<Rightarrow>
          (case entries eID of
             None \<Rightarrow> Inl vm_error.ErrMissingEntry
           | Some e \<Rightarrow> check_entry e amount assetID vmVersion code expansion))"

definition check_destination ::
    "(hash \<rightharpoonup> entry) \<Rightarrow> value_destination option \<Rightarrow> nat \<Rightarrow> nat \<Rightarrow> bytes \<Rightarrow> nat \<Rightarrow> bytes \<Rightarrow> bool \<Rightarrow>
     vm_error + bool" where
  "check_destination entries dst index amount assetID vmVersion code expansion =
     (case dst of
        None \<Rightarrow> Inl ErrUnexpected
      | Some v \<Rightarrow>
          (case vl_Ref v of
             None \<Rightarrow> Inl ErrUnexpected
           | Some r \<Rightarrow>
               (case entries r of
                  None \<Rightarrow> Inl vm_error.ErrMissingEntry
                | Some (Mux m) \<Rightarrow> check_mux entries m index amount assetID vmVersion code expansion
                | Some e \<Rightarrow>
                    if index \<noteq> 0 then Inl ErrBadValue
                    else check_entry e amount assetID vmVersion code expansion)))"

definition checkOutput ::
    "entry \<Rightarrow> (hash \<rightharpoonup> entry) \<Rightarrow> nat \<Rightarrow> nat \<Rightarrow> bytes \<Rightarrow> nat \<Rightarrow> bytes \<Rightarrow> bool \<Rightarrow> vm_error + bool" where
  "checkOutput e entries index amount assetID vmVersion code expansion =
     (case e of
        Mux m \<Rightarrow> check_mux entries m index amount assetID vmVersion code expansion
      | Spend sp \<Rightarrow>
          check_destination entries (sp_WitnessDestination sp) index amount assetID vmVersion code expansion
      | VetoInput sp \<Rightarrow>
          check_destination entries (sp_WitnessDestination sp) index amount assetID vmVersion code expansion
      | _ \<Rightarrow> Inl ErrContext)"

text \<open>What an input unlocks: the identifier and value of the output, and the position in the mux.\<close>

definition spent_of :: "tx \<Rightarrow> entry \<Rightarrow> (hash \<times> asset_amount option \<times> value_destination option) option" where
  "spent_of t e =
     (case e of
        CrossChainInput c \<Rightarrow>
          (case cc_MainchainOutputId c of
             None \<Rightarrow> None
           | Some i \<Rightarrow>
               (case tx_Entries t i of
                  Some (IntraChainOutput o') \<Rightarrow> Some (i, vl_Value (out_Source o'), cc_WitnessDestination c)
                | _ \<Rightarrow> None))
      | Spend sp \<Rightarrow>
          (case sp_SpentOutputId sp of
             None \<Rightarrow> None
           | Some i \<Rightarrow>
               (case tx_Entries t i of
                  Some (IntraChainOutput o') \<Rightarrow> Some (i, vl_Value (out_Source o'), sp_WitnessDestination sp)
                | _ \<Rightarrow> None))
      | VetoInput sp \<Rightarrow>
          (case sp_SpentOutputId sp of
             None \<Rightarrow> None
           | Some i \<Rightarrow>
               (case tx_Entries t i of
                  Some (VoteOutput v) \<Rightarrow> Some (i, vl_Value (out_Source (vote_Output v)), sp_WitnessDestination sp)
                | _ \<Rightarrow> None))
      | _ \<Rightarrow> None)"

primrec alloc_all :: "bytes list \<Rightarrow> heap \<Rightarrow> slice list \<times> heap" where
  "alloc_all [] h = ([], h)"
| "alloc_all (b # bs) h =
     (case alloc b h of (s, h1) \<Rightarrow> case alloc_all bs h1 of (ss, h2) \<Rightarrow> (s # ss, h2))"

text \<open>
  The code that a program runs as: a witness program is converted, into a new array, and any other program is
  the slice itself.
\<close>

definition witness_code :: "slice \<Rightarrow> heap \<Rightarrow> slice \<times> heap" where
  "witness_code code h =
     (let prog = rd h code; converted = witnessProgram prog in
      if converted = prog then (code, h) else alloc converted h)"

text \<open>
  \<^verbatim>\<open>NewTxVMContext\<close> for the three kinds of input that run programs.  The program and the arguments are slices of the
  memory, which other slices may share and which may have spare capacity: a decoded transaction has them inside
  the buffer it was read from.  The identifiers of the context are new arrays.  \<open>None\<close> is a panic.
\<close>

definition NewTxVMContext ::
    "(bytes \<Rightarrow> bytes) \<Rightarrow> block \<Rightarrow> tx \<Rightarrow> entry \<Rightarrow> nat \<Rightarrow> slice \<Rightarrow> slice list \<Rightarrow> heap \<Rightarrow> (vm_context \<times> heap) option" where
  "NewTxVMContext sha3 blk t e vmVersion code args h =
     (case (EntryID sha3 e, spent_of t e) of
        (Some entryID, Some (outID, Some v, Some dst)) \<Rightarrow>
          (case aa_AssetId v of
             None \<Rightarrow> None
           | Some asset \<Rightarrow>
               let sigHash = Byte32 (NewHash (sha3 (Byte32 entryID @ Byte32 (tx_ID t)))) in
               (case witness_code code h of (code', h1) \<Rightarrow>
               (case alloc_all [Byte32 entryID, Byte32 asset, Byte32 outID, sigHash] h1 of
                  ([eid, aid, oid, sh], h2) \<Rightarrow>
                    Some
                      (\<lparr>VMVersion = vmVersion, Code = code', Arguments = args, vm_context.EntryID = eid,
                        TxVersion = Some (th_Version (tx_Header t)), BlockHeight = Some (blk_Height blk),
                        NumResults = Some (length (th_ResultIds (tx_Header t))), AssetID = Some aid,
                        Amount = Some (aa_Amount v), DestPos = Some (vl_Position dst), SpentOutputID = Some oid,
                        TxSigHash = Some sh, CheckOutput = Some (checkOutput e (tx_Entries t))\<rparr>, h2)
                | _ \<Rightarrow> None)))
      | _ \<Rightarrow> None)"

section \<open>Cross-chain configuration (common/crossin_asset.go, config/genesis.go)\<close>

text \<open>
  Decoding JSON into a map is a library function and an argument; the code only looks at one string.
\<close>

datatype json = JString string | JObject "(string \<times> json) list" | JOther

definition IsOpenFederationIssueAsset ::
    "(bytes \<Rightarrow> (string \<times> json) list option) \<Rightarrow> bytes \<Rightarrow> bool" where
  "IsOpenFederationIssueAsset unmarshal rawDefinitionByte =
     (case unmarshal rawDefinitionByte of
        None \<Rightarrow> False
      | Some defMap \<Rightarrow>
          (case map_of defMap ''description'' of
             Some (JObject description) \<Rightarrow>
               (case map_of description ''issue_asset_action'' of
                  Some (JString a) \<Rightarrow> a = ''open_federation_cross_chain''
                | _ \<Rightarrow> False)
           | _ \<Rightarrow> False))"

text \<open>
  The derived public keys of the configured federation and of the single key that replaces it after the
  fork are given; deriving them is elliptic curve code.  A quorum that does not fit the keys makes the
  node panic.  \<^verbatim>\<open>crypto.Sha256\<close> is SHA3-256.
\<close>

record federation =
  fed_Keys :: "bytes list"
  fed_Quorum :: int
  single_Keys :: "bytes list"

definition FederationPMultiSigScript :: "bytes list \<Rightarrow> int \<Rightarrow> bytes option" where
  "FederationPMultiSigScript keys quorum =
     (case P2SPMultiSigProgram keys quorum of Inr p \<Rightarrow> Some p | Inl _ \<Rightarrow> None)"

definition FederationWScript :: "(bytes \<Rightarrow> bytes) \<Rightarrow> federation \<Rightarrow> nat \<Rightarrow> bytes option" where
  "FederationWScript sha3 c height =
     (case FederationPMultiSigScript (fed_Keys c) (fed_Quorum c) of
        None \<Rightarrow> None
      | Some script \<Rightarrow>
          (case (if height > CrossInForkHeight then FederationPMultiSigScript (single_Keys c) 1 else Some script) of
             None \<Rightarrow> None
           | Some script' \<Rightarrow>
               (case P2WSHProgram (sha3 script') of Inr w \<Rightarrow> Some w | Inl _ \<Rightarrow> None)))"

section \<open>The transaction graph (tx.go)\<close>

text \<open>
  What a validation reads.  \<open>v_first\<close> says whether the transaction is the very object that is the first
  of the block, which the code decides by comparing pointers.  \<open>v_place\<close> says where in the memory of the machine the
  program that an input runs and the arguments of the input lie; it is determined when the transaction is
  decoded or built, before its validation.  What runs is what the memory holds there at that time.
\<close>

record val_env =
  v_P :: params
  v_R :: runtime
  v_fuel :: nat
  v_fed :: federation
  v_unmarshal :: "bytes \<Rightarrow> (string \<times> json) list option"
  v_block :: block
  v_tx :: tx
  v_first :: bool
  v_place :: "entry \<Rightarrow> slice \<times> slice list"

record val_state =
  vs_gas :: gas_state
  vs_cache :: "hash \<rightharpoonup> v_error option"
  vs_heap :: heap

type_synonym v_op = "(val_state, v_error, unit) comp"

abbreviation sha3_of :: "val_env \<Rightarrow> bytes \<Rightarrow> bytes" where
  "sha3_of V \<equiv> sha3_sum (v_R V)"

definition gasE :: "gas_op \<Rightarrow> v_op" where
  "gasE m = (\<lambda>s. case m (vs_gas s) of (r, g) \<Rightarrow> (r, s\<lparr>vs_gas := g\<rparr>))"

definition AssetAmount_Equal :: "asset_amount option \<Rightarrow> asset_amount option \<Rightarrow> bool option" where
  "AssetAmount_Equal a b =
     (case (a, b) of
        (Some x, Some y) \<Rightarrow>
          (case (aa_AssetId x, aa_AssetId y) of
             (Some i, Some j) \<Rightarrow> Some (aa_Amount x = aa_Amount y \<and> i = j)
           | _ \<Rightarrow> None)
      | _ \<Rightarrow> None)"

definition ComputeAssetID :: "(bytes \<Rightarrow> bytes) \<Rightarrow> asset_definition \<Rightarrow> asset_id" where
  "ComputeAssetID sha3 d = NewHash (sha3 (snd (hash_definition d [])))"

text \<open>The checks at the head of both link functions.\<close>

definition link_fields :: "value_link option \<Rightarrow> v_error + (hash \<times> value_link)" where
  "link_fields l =
     (case l of
        None \<Rightarrow> Inl ErrMissingField
      | Some v \<Rightarrow>
          (case vl_Ref v of
             None \<Rightarrow> Inl ErrMissingField
           | Some r \<Rightarrow>
               (case vl_Value v of
                  None \<Rightarrow> Inl ErrMissingField
                | Some a \<Rightarrow> if aa_AssetId a = None then Inl ErrMissingField else Inr (r, v))))"

text \<open>
  The checks at the end of both: the other end of the link points back, at the right position, with the
  same value.  Formatting the error of a nil reference panics.
\<close>

definition link_back :: "hash \<Rightarrow> nat \<Rightarrow> value_link \<Rightarrow> value_link option \<Rightarrow> v_error + unit" where
  "link_back entryID pos v other =
     (case other of
        None \<Rightarrow> Inl V_Panic
      | Some w \<Rightarrow>
          (case vl_Ref w of
             None \<Rightarrow> Inl V_Panic
           | Some r \<Rightarrow>
               if r \<noteq> entryID then Inl ErrMismatchedReference
               else if vl_Position w \<noteq> pos then Inl ErrMismatchedPosition
               else case AssetAmount_Equal (vl_Value w) (vl_Value v) of
                 None \<Rightarrow> Inl ErrMissingField
               | Some eq \<Rightarrow> if eq then Inr () else Inl ErrMismatchedValue))"

definition source_dest :: "entry \<Rightarrow> nat \<Rightarrow> v_error + value_destination option" where
  "source_dest e pos =
     (case e of
        VetoInput sp \<Rightarrow> if pos \<noteq> 0 then Inl ErrPosition else Inr (sp_WitnessDestination sp)
      | Coinbase c \<Rightarrow> if pos \<noteq> 0 then Inl ErrPosition else Inr (cb_WitnessDestination c)
      | CrossChainInput c \<Rightarrow> if pos \<noteq> 0 then Inl ErrPosition else Inr (cc_WitnessDestination c)
      | Spend sp \<Rightarrow> if pos \<noteq> 0 then Inl ErrPosition else Inr (sp_WitnessDestination sp)
      | Mux m \<Rightarrow>
          if pos \<ge> length (mux_WitnessDestinations m) then Inl ErrPosition
          else Inr (Some (mux_WitnessDestinations m ! pos))
      | _ \<Rightarrow> Inl (V_Bc ErrEntryType))"

definition dest_source :: "entry \<Rightarrow> nat \<Rightarrow> v_error + value_source option" where
  "dest_source e pos =
     (case e of
        IntraChainOutput o' \<Rightarrow> if pos \<noteq> 0 then Inl ErrPosition else Inr (Some (out_Source o'))
      | CrossChainOutput o' \<Rightarrow> if pos \<noteq> 0 then Inl ErrPosition else Inr (Some (out_Source o'))
      | VoteOutput v \<Rightarrow> if pos \<noteq> 0 then Inl ErrPosition else Inr (Some (out_Source (vote_Output v)))
      | Retirement r \<Rightarrow> if pos \<noteq> 0 then Inl ErrPosition else Inr (Some (ret_Source r))
      | Mux m \<Rightarrow>
          if pos \<ge> length (mux_Sources m) then Inl ErrPosition else Inr (mux_Sources m ! pos)
      | _ \<Rightarrow> Inl (V_Bc ErrEntryType))"

definition liftV :: "v_error + 'a \<Rightarrow> (val_state, v_error, 'a) comp" where
  "liftV r = (case r of Inl e \<Rightarrow> throwE e | Inr x \<Rightarrow> returnE x)"

text \<open>\<open>check\<close> is the recursive call of \<^verbatim>\<open>checkValid\<close>.\<close>

definition checkValidSrc ::
    "val_env \<Rightarrow> (hash \<Rightarrow> entry option \<Rightarrow> v_op) \<Rightarrow> hash \<Rightarrow> nat \<Rightarrow> value_source option \<Rightarrow> v_op" where
  "checkValidSrc V check entryID sourcePos src =
     bindE (liftV (link_fields src)) (\<lambda>(r, v).
     case tx_Entries (v_tx V) r of
       None \<Rightarrow> throwE (V_Bc bc_error.ErrMissingEntry)
     | Some e \<Rightarrow>
         thenE (check r (Some e))
         (bindE (liftV (source_dest e (vl_Position v))) (\<lambda>dst.
          liftV (link_back entryID sourcePos v dst))))"

definition checkValidDest :: "val_env \<Rightarrow> hash \<Rightarrow> nat \<Rightarrow> value_destination option \<Rightarrow> v_op" where
  "checkValidDest V entryID destPos dst =
     bindE (liftV (link_fields dst)) (\<lambda>(r, v).
     case tx_Entries (v_tx V) r of
       None \<Rightarrow> throwE (V_Bc bc_error.ErrMissingEntry)
     | Some e \<Rightarrow>
         bindE (liftV (dest_source e (vl_Position v))) (\<lambda>src.
         liftV (link_back entryID destPos v src)))"

section \<open>The balance of a mux\<close>

text \<open>
  The Go map \<^verbatim>\<open>parity\<close>, in the order of insertion.  The last loop ranges over it in any order, which does
  not matter: it only looks for an unbalanced asset, and all its errors have the same root.
\<close>

type_synonym parity = "(asset_id \<times> int) list"

fun parity_set :: "asset_id \<Rightarrow> int \<Rightarrow> parity \<Rightarrow> parity" where
  "parity_set a n [] = [(a, n)]"
| "parity_set a n ((b, m) # ps) = (if a = b then (b, n) # ps else (b, m) # parity_set a n ps)"

definition parity_get :: "parity \<Rightarrow> asset_id \<Rightarrow> int" where
  "parity_get p a = (case map_of p a of None \<Rightarrow> 0 | Some n \<Rightarrow> n)"

fun parity_sources :: "value_source option list \<Rightarrow> parity \<Rightarrow> v_error + parity" where
  "parity_sources [] p = Inr p"
| "parity_sources (src # srcs) p =
     (case src of
        None \<Rightarrow> Inl V_Panic
      | Some s \<Rightarrow>
          (case vl_Value s of
             None \<Rightarrow> Inl V_Panic
           | Some v \<Rightarrow>
               if int (aa_Amount v) > MaxInt64 then Inl V_ErrOverflow
               else case aa_AssetId v of
                 None \<Rightarrow> Inl V_Panic
               | Some a \<Rightarrow>
                   (case AddInt64 (parity_get p a) (i64_of_u64 (aa_Amount v)) of (n, ok) \<Rightarrow>
                      if \<not> ok then Inl V_ErrOverflow else parity_sources srcs (parity_set a n p))))"

fun parity_dests :: "value_destination list \<Rightarrow> parity \<Rightarrow> v_error + parity" where
  "parity_dests [] p = Inr p"
| "parity_dests (d # ds) p =
     (case vl_Value d of
        None \<Rightarrow> Inl V_Panic
      | Some v \<Rightarrow>
          (case aa_AssetId v of
             None \<Rightarrow> Inl V_Panic
           | Some a \<Rightarrow>
               (case map_of p a of
                  None \<Rightarrow> Inl ErrNoSource
                | Some held \<Rightarrow>
                    if int (aa_Amount v) > MaxInt64 then Inl V_ErrOverflow
                    else
                      (case SubInt64 held (i64_of_u64 (aa_Amount v)) of (n, ok) \<Rightarrow>
                         if \<not> ok then Inl V_ErrOverflow else parity_dests ds (parity_set a n p)))))"

definition parity_btm :: "parity \<Rightarrow> v_error + int" where
  "parity_btm p =
     (if list_ex (\<lambda>(a, n). a \<noteq> BTMAssetID \<and> n \<noteq> 0) p then Inl ErrUnbalanced
      else Inr (parity_get p BTMAssetID))"

definition mux_balance :: "mux_entry \<Rightarrow> v_error + int" where
  "mux_balance m =
     (case parity_sources (mux_Sources m) [] of
        Inl e \<Rightarrow> Inl e
      | Inr p \<Rightarrow>
          (case parity_dests (mux_WitnessDestinations m) p of Inl e \<Rightarrow> Inl e | Inr q \<Rightarrow> parity_btm q))"

section \<open>Checking an entry\<close>

text \<open>Running a program for an input, with the arguments of the input: the gas that is left, or the error.\<close>

definition verifyE :: "val_env \<Rightarrow> entry \<Rightarrow> nat \<Rightarrow> slice \<Rightarrow> int \<Rightarrow> (val_state, v_error, int) comp" where
  "verifyE V e vmVersion code gasLimit = (\<lambda>s.
     case NewTxVMContext (sha3_of V) (v_block V) (v_tx V) e vmVersion code (snd (v_place V e)) (vs_heap s) of
       None \<Rightarrow> (Inl V_Panic, s)
     | Some (cx, h) \<Rightarrow>
         (case Verify (v_R V) (v_fuel V) cx h gasLimit of
            (gasLeft, None, vm) \<Rightarrow> (Inr gasLeft, s\<lparr>vs_heap := heap vm\<rparr>)
          | (_, Some x, vm) \<Rightarrow> (Inl (V_VM x), s\<lparr>vs_heap := heap vm\<rparr>)))"

text \<open>A program that is not part of the transaction gets an array of its own.\<close>

definition new_code :: "bytes \<Rightarrow> (val_state, v_error, slice) comp" where
  "new_code bs = (\<lambda>s. case alloc bs (vs_heap s) of (code, h) \<Rightarrow> (Inr code, s\<lparr>vs_heap := h\<rparr>))"

text \<open>The value of the spent output must be the value that the input passes on.\<close>

definition same_value :: "value_source \<Rightarrow> value_destination option \<Rightarrow> v_op" where
  "same_value src dst =
     (case dst of
        None \<Rightarrow> throwE V_Panic
      | Some d \<Rightarrow>
          (case AssetAmount_Equal (vl_Value src) (vl_Value d) of
             None \<Rightarrow> throwE EmptyAssetAmount
           | Some eq \<Rightarrow> assertE eq ErrMismatchedValue))"

definition check_spend :: "val_env \<Rightarrow> hash \<Rightarrow> entry \<Rightarrow> output_entry \<Rightarrow> spend_entry \<Rightarrow> v_op" where
  "check_spend V entryID e out sp =
     bindE (getsE (\<lambda>s. GasLeft (vs_gas s))) (\<lambda>limit.
     bindE (verifyE V e (prog_VmVersion (out_ControlProgram out)) (fst (v_place V e)) limit) (\<lambda>gasLeft.
     thenE (gasE (updateUsage (v_P V) gasLeft))
     (thenE (same_value (out_Source out) (sp_WitnessDestination sp))
       (checkValidDest V entryID 0 (sp_WitnessDestination sp)))))"

definition check_crosschain_input :: "val_env \<Rightarrow> hash \<Rightarrow> entry \<Rightarrow> output_entry \<Rightarrow> crosschain_input_entry \<Rightarrow> v_op" where
  "check_crosschain_input V entryID e out c =
     (case vl_Value (out_Source out) of
        None \<Rightarrow> throwE V_Panic
      | Some v \<Rightarrow>
          (case aa_AssetId v of
             None \<Rightarrow> throwE V_Panic
           | Some a \<Rightarrow>
               if a \<noteq> BTMAssetID \<and> a \<noteq> ComputeAssetID (sha3_of V) (cc_AssetDefinition c)
               then throwE IncorrectCrossChainAsset
               else
                 bindE
                   (if \<not> IsOpenFederationIssueAsset (v_unmarshal V) (cc_RawDefinitionByte c)
                    then (case FederationWScript (sha3_of V) (v_fed V) (blk_Height (v_block V)) of
                            None \<Rightarrow> throwE V_Panic
                          | Some script \<Rightarrow> new_code script)
                    else returnE (fst (v_place V e))) (\<lambda>code.
                 bindE (verifyE V e (prog_VmVersion (ad_IssuanceProgram (cc_AssetDefinition c))) code
                   (DefaultGasCredit (v_P V))) (\<lambda>_.
                 thenE (same_value (out_Source out) (cc_WitnessDestination c))
                 (thenE (checkValidDest V entryID 0 (cc_WitnessDestination c))
                   (gasE (modifyE (\<lambda>g. g\<lparr>StorageGas := 0\<rparr>))))))))"

definition check_coinbase :: "val_env \<Rightarrow> hash \<Rightarrow> coinbase_entry \<Rightarrow> v_op" where
  "check_coinbase V entryID c =
     (if \<not> v_first V then throwE ErrWrongCoinbaseTransaction
      else case cb_WitnessDestination c of
        None \<Rightarrow> throwE V_Panic
      | Some d \<Rightarrow>
          (case vl_Value d of
             None \<Rightarrow> throwE V_Panic
           | Some v \<Rightarrow>
               (case aa_AssetId v of
                  None \<Rightarrow> throwE V_Panic
                | Some a \<Rightarrow>
                    if a \<noteq> BTMAssetID then throwE ErrWrongCoinbaseAsset
                    else if length (cb_Arbitrary c) > CoinbaseArbitrarySizeLimit (v_P V)
                    then throwE ErrCoinbaseArbitraryOversize
                    else
                      thenE (checkValidDest V entryID 0 (cb_WitnessDestination c))
                        (gasE (modifyE (\<lambda>g. g\<lparr>StorageGas := 0\<rparr>))))))"

definition check_vote_output ::
    "val_env \<Rightarrow> (hash \<Rightarrow> entry option \<Rightarrow> v_op) \<Rightarrow> hash \<Rightarrow> vote_output_entry \<Rightarrow> v_op" where
  "check_vote_output V check entryID o' =
     (if length (vote_Vote o') \<noteq> 64 then throwE ErrVotePubKey
      else
        thenE (checkValidSrc V check entryID 0 (Some (out_Source (vote_Output o'))))
        (case vl_Value (out_Source (vote_Output o')) of
           None \<Rightarrow> throwE V_Panic
         | Some v \<Rightarrow>
             if aa_Amount v < MinVoteOutputAmount (v_P V) then throwE ErrVoteOutputAmount
             else case aa_AssetId v of
               None \<Rightarrow> throwE V_Panic
             | Some a \<Rightarrow> assertE (a = BTMAssetID) ErrVoteOutputAseet))"

definition enumerate_from :: "'a list \<Rightarrow> (nat \<times> 'a) list" where
  "enumerate_from xs = zip [0..<length xs] xs"

definition check_mux_entry ::
    "val_env \<Rightarrow> (hash \<Rightarrow> entry option \<Rightarrow> v_op) \<Rightarrow> hash \<Rightarrow> mux_entry \<Rightarrow> v_op" where
  "check_mux_entry V check entryID m =
     bindE (liftV (mux_balance m)) (\<lambda>btmAmount.
     thenE (gasE (setGas (v_P V) btmAmount (i64_of_u64 (th_SerializedSize (tx_Header (v_tx V))))))
     (thenE (forE (\<lambda>i. case tx_Entries (v_tx V) i of
                None \<Rightarrow> throwE (V_Bc bc_error.ErrMissingEntry)
              | Some e \<Rightarrow> check i (Some e)) (tx_GasInputIDs (v_tx V)))
     (thenE (forE (\<lambda>(i, d). checkValidDest V entryID i (Some d)) (enumerate_from (mux_WitnessDestinations m)))
     (thenE (gasE setGasValid)
       (forE (\<lambda>(i, src). checkValidSrc V check entryID i src) (enumerate_from (mux_Sources m)))))))"

definition check_body :: "val_env \<Rightarrow> (hash \<Rightarrow> entry option \<Rightarrow> v_op) \<Rightarrow> hash \<Rightarrow> entry \<Rightarrow> v_op" where
  "check_body V check entryID e =
     (case e of
        TxHeader h \<Rightarrow>
          thenE (forE (\<lambda>r. check r (tx_Entries (v_tx V) r)) (th_ResultIds h))
            (assertE (\<not> (th_Version h = 1 \<and> th_ResultIds h = [])) ErrEmptyResults)
      | Mux m \<Rightarrow> check_mux_entry V check entryID m
      | IntraChainOutput o' \<Rightarrow> checkValidSrc V check entryID 0 (Some (out_Source o'))
      | CrossChainOutput o' \<Rightarrow> checkValidSrc V check entryID 0 (Some (out_Source o'))
      | VoteOutput o' \<Rightarrow> check_vote_output V check entryID o'
      | Retirement r \<Rightarrow> checkValidSrc V check entryID 0 (Some (ret_Source r))
      | CrossChainInput c \<Rightarrow>
          (case cc_MainchainOutputId c of
             None \<Rightarrow> throwE ErrMissingField
           | Some i \<Rightarrow>
               (case getIntraChainOutput (v_tx V) i of
                  Inl b \<Rightarrow> throwE (V_Bc b)
                | Inr out \<Rightarrow> check_crosschain_input V entryID e out c))
      | Spend sp \<Rightarrow>
          (case sp_SpentOutputId sp of
             None \<Rightarrow> throwE ErrMissingField
           | Some i \<Rightarrow>
               (case getIntraChainOutput (v_tx V) i of
                  Inl b \<Rightarrow> throwE (V_Bc b)
                | Inr out \<Rightarrow> check_spend V entryID e out sp))
      | VetoInput sp \<Rightarrow>
          (case sp_SpentOutputId sp of
             None \<Rightarrow> throwE ErrMissingField
           | Some i \<Rightarrow>
               (case getVoteOutput (v_tx V) i of
                  Inl b \<Rightarrow> throwE (V_Bc b)
                | Inr v \<Rightarrow>
                    if length (vote_Vote v) \<noteq> 64 then throwE ErrVotePubKey
                    else check_spend V entryID e (vote_Output v) sp))
      | Coinbase c \<Rightarrow> check_coinbase V entryID c)"

text \<open>
  \<^verbatim>\<open>checkValid\<close>: the result of an entry is looked up in the cache, and stored there by the deferred function.  A
  missing result entry is a nil interface, whose identifier is the zero hash.
\<close>

definition memoE :: "hash \<Rightarrow> v_op \<Rightarrow> v_op" where
  "memoE k m = (\<lambda>s.
     case vs_cache s k of
       Some None \<Rightarrow> (Inr (), s)
     | Some (Some err) \<Rightarrow> (Inl err, s)
     | None \<Rightarrow>
         (case m s of
            (Inl err, s') \<Rightarrow> (Inl err, s'\<lparr>vs_cache := (vs_cache s')(k \<mapsto> Some err)\<rparr>)
          | (Inr _, s') \<Rightarrow> (Inr (), s'\<lparr>vs_cache := (vs_cache s')(k \<mapsto> None)\<rparr>)))"

primrec checkValid :: "val_env \<Rightarrow> nat \<Rightarrow> hash \<Rightarrow> entry option \<Rightarrow> v_op" where
  "checkValid V 0 entryID e = throwE V_OutOfFuel"
| "checkValid V (Suc n) entryID e =
     (case e of
        None \<Rightarrow> memoE zeroHash (throwE UnexpectedEntryType)
      | Some x \<Rightarrow>
          (case EntryID (sha3_of V) x of
             None \<Rightarrow> throwE V_Panic
           | Some k \<Rightarrow> memoE k (check_body V (checkValid V n) entryID x)))"

section \<open>Transactions\<close>

definition checkInputID :: "tx \<Rightarrow> v_error + unit" where
  "checkInputID t = (if list_ex (\<lambda>i. IsZero (Some i)) (tx_InputIDs t) then Inl ErrEmptyInputIDs else Inr ())"

definition checkTimeRange :: "tx \<Rightarrow> block \<Rightarrow> v_error + unit" where
  "checkTimeRange t b =
     (if th_TimeRange (tx_Header t) = 0 then Inr ()
      else if th_TimeRange (tx_Header t) < blk_Height b then Inl ErrBadTimeRange
      else Inr ())"

text \<open>A missing fork point reads as height 0.\<close>

definition applySoftFork001 :: "params \<Rightarrow> block \<Rightarrow> v_error + unit \<Rightarrow> gas_state \<Rightarrow> gas_state" where
  "applySoftFork001 P b r g =
     (case r of
        Inr _ \<Rightarrow> g
      | Inl err \<Rightarrow>
          if blk_Height b < (case map_of (SoftForkPoint P) SoftFork001 of None \<Rightarrow> 0 | Some h \<Rightarrow> h) then g
          else if err = ErrVotePubKey \<or> err = ErrVoteOutputAmount \<or> err = ErrVoteOutputAseet
          then g\<lparr>GasValid := False\<rparr>
          else g)"

definition new_gas :: gas_state where
  "new_gas = \<lparr>BTMValue = 0, GasLeft = 0, GasUsed = 0, GasValid = False, StorageGas = 0\<rparr>"

definition new_state :: "heap \<Rightarrow> val_state" where
  "new_state h = \<lparr>vs_gas = new_gas, vs_cache = Map.empty, vs_heap = h\<rparr>"

text \<open>
  \<open>n\<close> is the fuel of the recursion and \<open>h\<close> the memory of the machine.  \<open>ValidateTx_mem\<close> also has the memory that the
  validation leaves: it outlives the call, and its first array is a variable of the package that every program
  of the process shares.
\<close>

type_synonym tx_result = "gas_state \<times> (v_error + unit)"

definition ValidateTx_mem :: "val_env \<Rightarrow> nat \<Rightarrow> heap \<Rightarrow> tx_result \<times> heap" where
  "ValidateTx_mem V n h =
     (let t = v_tx V; b = v_block V in
      if blk_Version b = 1 \<and> th_Version (tx_Header t) \<noteq> 1 then ((new_gas, Inl ErrTxVersion), h)
      else if th_SerializedSize (tx_Header t) = 0 then ((new_gas, Inl ErrWrongTransactionSize), h)
      else case checkTimeRange t b of
        Inl e \<Rightarrow> ((new_gas, Inl e), h)
      | Inr _ \<Rightarrow>
          (case checkInputID t of
             Inl e \<Rightarrow> ((new_gas, Inl e), h)
           | Inr _ \<Rightarrow>
               (case checkValid V n (tx_ID t) (Some (TxHeader (tx_Header t))) (new_state h) of (r, s) \<Rightarrow>
                  ((applySoftFork001 (v_P V) b r (vs_gas s), r), vs_heap s))))"

definition ValidateTx :: "val_env \<Rightarrow> nat \<Rightarrow> heap \<Rightarrow> tx_result" where
  "ValidateTx V n h = fst (ValidateTx_mem V n h)"

text \<open>
  \<^verbatim>\<open>ValidateTxs\<close> hands the transactions to workers, which share the memory, and stores each result at its index as
  it arrives.  \<open>order\<close> is the order in which the workers validate the transactions, each as a whole: that two of
  them run at the same time is not modelled.
\<close>

primrec workers :: "(nat \<Rightarrow> val_env) \<Rightarrow> nat \<Rightarrow> nat list \<Rightarrow> heap \<Rightarrow> (nat \<times> tx_result) list" where
  "workers env n [] h = []"
| "workers env n (i # order) h =
     (case ValidateTx_mem (env i) n h of (r, h') \<Rightarrow> (i, r) # workers env n order h')"

definition collect_results :: "nat \<Rightarrow> (nat \<times> tx_result) list \<Rightarrow> tx_result option list" where
  "collect_results n arrivals = fold (\<lambda>(i, r) results. results[i := Some r]) arrivals (replicate n None)"

definition ValidateTxs :: "(nat \<Rightarrow> val_env) \<Rightarrow> nat \<Rightarrow> heap \<Rightarrow> nat \<Rightarrow> nat list \<Rightarrow> tx_result option list" where
  "ValidateTxs env n h txSize order = collect_results txSize (workers env n order h)"

section \<open>Blocks (block.go)\<close>

datatype b_error =
    ErrBadTimestamp | ErrMisorderedBlockHeight | ErrMismatchedBlock | ErrMismatchedMerkleRoot
  | ErrOverBlockLimit | ErrVersionRegression | B_WrongCoinbaseTransaction | B_Bc bc_error
  | B_Tx "v_error + unit" | B_Status | B_Panic

text \<open>\<open>now\<close> is the time in milliseconds.\<close>

definition checkBlockTime :: "params \<Rightarrow> nat \<Rightarrow> block \<Rightarrow> block_header \<Rightarrow> b_error + unit" where
  "checkBlockTime P now b parent =
     (if blk_Timestamp b < u64 (bh_Timestamp parent + BlockTimeInterval P) then Inl ErrBadTimestamp
      else if blk_Timestamp b > u64 (now + MaxTimeOffsetMs P) then Inl ErrBadTimestamp
      else Inr ())"

fun coinbase_amount :: "tx \<Rightarrow> hash list \<Rightarrow> nat \<Rightarrow> b_error + nat" where
  "coinbase_amount t [] amount = Inr amount"
| "coinbase_amount t (r # rs) amount =
     (case getIntraChainOutput t r of
        Inl e \<Rightarrow> Inl (B_Bc e)
      | Inr out \<Rightarrow>
          (case vl_Value (out_Source out) of
             None \<Rightarrow> Inl B_Panic
           | Some v \<Rightarrow> coinbase_amount t rs (u64 (amount + aa_Amount v))))"

definition checkCoinbaseTx :: "block \<Rightarrow> coinbase_reward list \<Rightarrow> b_error + unit" where
  "checkCoinbaseTx b rewards =
     (case blk_Transactions b of
        [] \<Rightarrow> Inl B_WrongCoinbaseTransaction
      | t # _ \<Rightarrow>
          (case coinbase_amount t (th_ResultIds (tx_Header t)) 0 of
             Inl e \<Rightarrow> Inl e
           | Inr coinbaseAmount \<Rightarrow>
               if fold (\<lambda>r a. u64 (a + rw_Amount r)) rewards 0 \<noteq> coinbaseAmount
               then Inl B_WrongCoinbaseTransaction else Inr ()))"

definition ValidateBlockHeader :: "params \<Rightarrow> (bytes \<Rightarrow> bytes) \<Rightarrow> nat \<Rightarrow> block \<Rightarrow> block_header \<Rightarrow> b_error + unit" where
  "ValidateBlockHeader P sha3 now b parent =
     (if blk_Version b \<noteq> 1 then Inl ErrVersionRegression
      else if blk_Height b \<noteq> u64 (bh_Height parent + 1) then Inl ErrMisorderedBlockHeight
      else if header_Hash sha3 parent \<noteq> blk_PreviousBlockId b then Inl ErrMismatchedBlock
      else checkBlockTime P now b parent)"

text \<open>The loop over the results: the statuses and the gas of the transactions so far.\<close>

fun block_results :: "params \<Rightarrow> nat \<Rightarrow> tx_status \<Rightarrow> nat \<Rightarrow> tx_result option list \<Rightarrow> b_error + tx_status" where
  "block_results P i ts gasSum [] = Inr ts"
| "block_results P i ts gasSum (r # rs) =
     (case r of
        None \<Rightarrow> Inl B_Panic
      | Some (g, err) \<Rightarrow>
          if \<not> GasValid g then Inl (B_Tx err)
          else
            (case SetStatus ts i (err \<noteq> Inr ()) of
               None \<Rightarrow> Inl B_Status
             | Some ts' \<Rightarrow>
                 let gasSum' = u64 (gasSum + u64_of_i64 (GasUsed g)) in
                 if gasSum' > MaxBlockGas P then Inl ErrOverBlockLimit
                 else block_results P (Suc i) ts' gasSum' rs))"

text \<open>
  The transactions of a block are distinct objects, so that only the first is the coinbase transaction.
  \<^verbatim>\<open>errors.Wrapf(nil, ...)\<close> is nil: on a transaction with invalid gas and no error, \<^verbatim>\<open>ValidateBlock\<close> would return
  no error and look no further.  That outcome is \<open>Inl (B_Tx (Inr ()))\<close>.
\<close>

definition block_env ::
    "params \<Rightarrow> runtime \<Rightarrow> nat \<Rightarrow> federation \<Rightarrow> (bytes \<Rightarrow> (string \<times> json) list option) \<Rightarrow>
     (nat \<Rightarrow> entry \<Rightarrow> slice \<times> slice list) \<Rightarrow> block \<Rightarrow> nat \<Rightarrow> val_env" where
  "block_env P R fuel fed unmarshal place b i =
     \<lparr>v_P = P, v_R = R, v_fuel = fuel, v_fed = fed, v_unmarshal = unmarshal, v_block = b,
      v_tx = blk_Transactions b ! i, v_first = (i = 0), v_place = place i\<rparr>"

definition ValidateBlock ::
    "params \<Rightarrow> runtime \<Rightarrow> nat \<Rightarrow> federation \<Rightarrow> (bytes \<Rightarrow> (string \<times> json) list option) \<Rightarrow>
     (nat \<Rightarrow> entry \<Rightarrow> slice \<times> slice list) \<Rightarrow> nat \<Rightarrow> heap \<Rightarrow> nat list \<Rightarrow>
     nat \<Rightarrow> block \<Rightarrow> block_header \<Rightarrow> coinbase_reward list \<Rightarrow> b_error + tx_status" where
  "ValidateBlock P R fuel fed unmarshal place n h order now b parent rewards =
     (case ValidateBlockHeader P (sha3_sum R) now b parent of
        Inl e \<Rightarrow> Inl e
      | Inr _ \<Rightarrow>
          (case block_results P 0 [] 0
             (ValidateTxs (block_env P R fuel fed unmarshal place b) n h (length (blk_Transactions b)) order) of
             Inl e \<Rightarrow> Inl e
           | Inr ts \<Rightarrow>
               (case checkCoinbaseTx b rewards of
                  Inl e \<Rightarrow> Inl e
                | Inr _ \<Rightarrow>
                    if TxMerkleRoot (sha3_sum R) (blk_Transactions b) \<noteq> blk_TransactionsRoot b
                    then Inl ErrMismatchedMerkleRoot
                    else if TxStatusMerkleRoot (sha3_sum R) ts \<noteq> blk_TransactionStatusHash b
                    then Inl ErrMismatchedMerkleRoot
                    else Inr ts)))"

end
