(* ===== verification/Validation_Wf.thy ===== *)
theory Validation_Wf
  imports Validation
begin

text \<open>
  What a validated transaction satisfies.  The cache of \<^verbatim>\<open>checkValid\<close> holds the entries that passed; the
  invariant \<open>sound\<close> says that every one of them passed its own checks and refers only to others that did.
  From it follow the conservation of value, and facts about the gas.
\<close>

section \<open>The entries that passed\<close>

type_synonym cache = "hash \<rightharpoonup> v_error option"

definition passed :: "cache \<Rightarrow> hash \<Rightarrow> bool" where
  "passed c i \<longleftrightarrow> c i = Some None"

definition cache_le :: "cache \<Rightarrow> cache \<Rightarrow> bool" where
  "cache_le c c' \<longleftrightarrow> (\<forall>i. passed c i \<longrightarrow> passed c' i)"

definition src_link :: "tx \<Rightarrow> hash \<Rightarrow> nat \<Rightarrow> value_source option \<Rightarrow> cache \<Rightarrow> bool" where
  "src_link t i pos src c \<longleftrightarrow>
     (\<exists>r v e dst. link_fields src = Inr (r, v) \<and> tx_Entries t r = Some e \<and> passed c r \<and>
        source_dest e (vl_Position v) = Inr dst \<and> link_back i pos v dst = Inr ())"

definition dest_link :: "tx \<Rightarrow> hash \<Rightarrow> nat \<Rightarrow> value_destination option \<Rightarrow> bool" where
  "dest_link t i pos dst \<longleftrightarrow>
     (\<exists>r v e src. link_fields dst = Inr (r, v) \<and> tx_Entries t r = Some e \<and>
        dest_source e (vl_Position v) = Inr src \<and> link_back i pos v src = Inr ())"

definition passes_on :: "value_source \<Rightarrow> value_destination option \<Rightarrow> bool" where
  "passes_on src dst \<longleftrightarrow> (\<exists>d. dst = Some d \<and> AssetAmount_Equal (vl_Value src) (vl_Value d) = Some True)"

definition entry_ok :: "tx \<Rightarrow> hash \<Rightarrow> entry \<Rightarrow> cache \<Rightarrow> bool" where
  "entry_ok t i e c \<longleftrightarrow>
     (case e of
        TxHeader h \<Rightarrow>
          (\<forall>r \<in> set (th_ResultIds h). tx_Entries t r \<noteq> None \<and> passed c r) \<and> \<not> (th_Version h = 1 \<and> th_ResultIds h = [])
      | Mux m \<Rightarrow>
          (\<exists>btm \<ge> 0. mux_balance m = Inr btm) \<and>
          (\<forall>(j, d) \<in> set (enumerate_from (mux_WitnessDestinations m)). dest_link t i j (Some d)) \<and>
          (\<forall>(j, src) \<in> set (enumerate_from (mux_Sources m)). src_link t i j src c)
      | IntraChainOutput o' \<Rightarrow> src_link t i 0 (Some (out_Source o')) c
      | CrossChainOutput o' \<Rightarrow> src_link t i 0 (Some (out_Source o')) c
      | VoteOutput o' \<Rightarrow> src_link t i 0 (Some (out_Source (vote_Output o'))) c \<and> length (vote_Vote o') = 64
      | Retirement r \<Rightarrow> src_link t i 0 (Some (ret_Source r)) c
      | CrossChainInput x \<Rightarrow>
          (\<exists>j out. cc_MainchainOutputId x = Some j \<and> getIntraChainOutput t j = Inr out \<and>
             passes_on (out_Source out) (cc_WitnessDestination x)) \<and> dest_link t i 0 (cc_WitnessDestination x)
      | Spend sp \<Rightarrow>
          (\<exists>j out. sp_SpentOutputId sp = Some j \<and> getIntraChainOutput t j = Inr out \<and>
             passes_on (out_Source out) (sp_WitnessDestination sp)) \<and> dest_link t i 0 (sp_WitnessDestination sp)
      | VetoInput sp \<Rightarrow>
          (\<exists>j v. sp_SpentOutputId sp = Some j \<and> getVoteOutput t j = Inr v \<and>
             passes_on (out_Source (vote_Output v)) (sp_WitnessDestination sp)) \<and>
          dest_link t i 0 (sp_WitnessDestination sp)
      | Coinbase b \<Rightarrow> dest_link t i 0 (cb_WitnessDestination b))"

definition sound :: "tx \<Rightarrow> cache \<Rightarrow> bool" where
  "sound t c \<longleftrightarrow>
     \<not> passed c zeroHash \<and> (\<forall>i e. tx_Entries t i = Some e \<longrightarrow> passed c i \<longrightarrow> entry_ok t i e c)"

lemma cache_le_refl [simp]: "cache_le c c"
  by (simp add: cache_le_def)

lemma cache_le_trans: "cache_le a b \<Longrightarrow> cache_le b c \<Longrightarrow> cache_le a c"
  by (simp add: cache_le_def)

lemma passed_mono: "cache_le c c' \<Longrightarrow> passed c i \<Longrightarrow> passed c' i"
  by (simp add: cache_le_def)

lemma src_link_mono: "cache_le c c' \<Longrightarrow> src_link t i pos src c \<Longrightarrow> src_link t i pos src c'"
  unfolding src_link_def using passed_mono by blast

lemma entry_ok_mono:
  assumes "cache_le c c'" "entry_ok t i e c"
  shows "entry_ok t i e c'"
  using assms(2) passed_mono [OF assms(1)] src_link_mono [OF assms(1)]
  by (cases e) (auto simp: entry_ok_def)

section \<open>A logic for the checks\<close>

text \<open>\<open>gives t m Q\<close>: a successful run of \<open>m\<close> keeps the invariant, adds entries that passed, and has \<open>Q\<close>.\<close>

definition gives :: "tx \<Rightarrow> (val_state, v_error, 'a) comp \<Rightarrow> (cache \<Rightarrow> bool) \<Rightarrow> bool" where
  "gives t m Q \<longleftrightarrow>
     (\<forall>s x s'. m s = (Inr x, s') \<longrightarrow> sound t (vs_cache s) \<longrightarrow>
        sound t (vs_cache s') \<and> cache_le (vs_cache s) (vs_cache s') \<and> Q (vs_cache s'))"

definition stable :: "(cache \<Rightarrow> bool) \<Rightarrow> bool" where
  "stable Q \<longleftrightarrow> (\<forall>c c'. cache_le c c' \<longrightarrow> Q c \<longrightarrow> Q c')"

lemma givesD:
  "gives t m Q \<Longrightarrow> m s = (Inr x, s') \<Longrightarrow> sound t (vs_cache s) \<Longrightarrow>
   sound t (vs_cache s') \<and> cache_le (vs_cache s) (vs_cache s') \<and> Q (vs_cache s')"
  unfolding gives_def by blast

lemma gives_weaken: "gives t m Q \<Longrightarrow> (\<And>c. Q c \<Longrightarrow> Q' c) \<Longrightarrow> gives t m Q'"
  unfolding gives_def by blast

lemma gives_throwE: "gives t (throwE e) Q"
  by (simp add: gives_def throwE_def)

lemma gives_thenE:
  assumes "gives t m Q" "gives t k R" "stable Q"
  shows "gives t (thenE m k) (\<lambda>c. Q c \<and> R c)"
  unfolding gives_def
proof (intro allI impI)
  fix s x s' assume "thenE m k s = (Inr x, s')" and s: "sound t (vs_cache s)"
  then obtain s1 where m: "m s = (Inr (), s1)" and k: "k s1 = (Inr x, s')" by (auto simp: thenE_Inr_iff)
  note M = givesD [OF assms(1) m s]
  note K = givesD [OF assms(2) k conjunct1 [OF M]]
  from M K assms(3) show "sound t (vs_cache s') \<and> cache_le (vs_cache s) (vs_cache s') \<and> Q (vs_cache s') \<and> R (vs_cache s')"
    unfolding stable_def using cache_le_trans by blast
qed

lemma gives_bindE:
  assumes "\<And>s x s'. m s = (Inr x, s') \<Longrightarrow> vs_cache s' = vs_cache s" "\<And>x. gives t (f x) Q"
  shows "gives t (bindE m f) Q"
  unfolding gives_def
proof (intro allI impI)
  fix s y s' assume "bindE m f s = (Inr y, s')" and s: "sound t (vs_cache s)"
  then obtain x s1 where m: "m s = (Inr x, s1)" and f: "f x s1 = (Inr y, s')" by (auto simp: bindE_Inr_iff)
  from assms(1) [OF m] have eq: "vs_cache s1 = vs_cache s" .
  from givesD [OF assms(2) f] s
  show "sound t (vs_cache s') \<and> cache_le (vs_cache s) (vs_cache s') \<and> Q (vs_cache s')" by (simp add: eq)
qed

lemma gives_forE:
  assumes "\<And>x. x \<in> set xs \<Longrightarrow> gives t (f x) (Q x)" "\<And>x. stable (Q x)"
  shows "gives t (forE f xs) (\<lambda>c. \<forall>x \<in> set xs. Q x c)"
  using assms(1)
proof (induction xs)
  case Nil
  then show ?case by (simp add: gives_def returnE_def)
next
  case (Cons x xs)
  have "gives t (thenE (f x) (forE f xs)) (\<lambda>c. Q x c \<and> (\<forall>y \<in> set xs. Q y c))"
    using Cons by (intro gives_thenE assms(2)) auto
  then show ?case by simp
qed

lemma gives_liftV: "(\<And>x. r = Inr x \<Longrightarrow> gives t (f x) Q) \<Longrightarrow> gives t (bindE (liftV r) f) Q"
  by (cases r) (simp_all add: gives_def liftV_def throwE_def returnE_def bindE_def)

lemma gives_liftV_end: "gives t (liftV r) (\<lambda>c. \<exists>x. r = Inr x)"
  by (cases r) (simp_all add: gives_def liftV_def throwE_def returnE_def)

lemma gives_gasE: "gives t (gasE m) (\<lambda>c. True)"
  by (auto simp: gives_def gasE_def split: prod.splits)

lemma verifyE_cache: "verifyE V e ver code g s = (r, s') \<Longrightarrow> vs_cache s' = vs_cache s"
  by (auto simp: verifyE_def split: option.splits prod.splits)

lemma new_code_cache: "new_code bs s = (r, s') \<Longrightarrow> vs_cache s' = vs_cache s"
  by (auto simp: new_code_def split: prod.splits)

lemma stable_const: "stable (\<lambda>c. b)"
  by (simp add: stable_def)

lemma stable_src: "stable (src_link t i pos src)"
  using src_link_mono by (fastforce simp: stable_def)

lemma stable_passed: "stable (\<lambda>c. passed c i)"
  by (simp add: stable_def cache_le_def)

section \<open>The checks of the entries\<close>

text \<open>What is used of the recursive call.\<close>

definition call_ok :: "tx \<Rightarrow> (hash \<Rightarrow> entry option \<Rightarrow> v_op) \<Rightarrow> bool" where
  "call_ok t check \<longleftrightarrow>
     (\<forall>i. gives t (check i (tx_Entries t i)) (\<lambda>c. tx_Entries t i \<noteq> None \<and> passed c i))"

lemma gives_call:
  "call_ok t check \<Longrightarrow> tx_Entries t i = Some e \<Longrightarrow> gives t (check i (Some e)) (\<lambda>c. passed c i)"
  unfolding call_ok_def by (erule allE [of _ i]) simp

lemma gives_same_value: "gives t (same_value src dst) (\<lambda>c. passes_on src dst)"
  by (auto simp: same_value_def gives_def passes_on_def comp_simps split: option.splits bool.splits if_splits)

lemma gives_checkValidDest:
  assumes "v_tx V = t"
  shows "gives t (checkValidDest V i pos dst) (\<lambda>c. dest_link t i pos dst)"
  unfolding checkValidDest_def assms
proof (rule gives_liftV)
  fix p assume p: "link_fields dst = Inr p"
  obtain r v where rv: "p = (r, v)" by (cases p)
  show "gives t (case p of (r, v) \<Rightarrow>
      case tx_Entries t r of
        None \<Rightarrow> throwE (V_Bc bc_error.ErrMissingEntry)
      | Some e \<Rightarrow> bindE (liftV (dest_source e (vl_Position v))) (\<lambda>src. liftV (link_back i pos v src)))
    (\<lambda>c. dest_link t i pos dst)"
  proof (cases "tx_Entries t r")
    case None
    then show ?thesis by (simp add: rv gives_throwE)
  next
    case (Some e)
    have "gives t (bindE (liftV (dest_source e (vl_Position v))) (\<lambda>src. liftV (link_back i pos v src)))
        (\<lambda>c. dest_link t i pos dst)"
    proof (rule gives_liftV)
      fix src assume "dest_source e (vl_Position v) = Inr src"
      with p Some show "gives t (liftV (link_back i pos v src)) (\<lambda>c. dest_link t i pos dst)"
        by (intro gives_weaken [OF gives_liftV_end]) (auto simp: dest_link_def rv)
    qed
    with Some show ?thesis by (simp add: rv)
  qed
qed

lemma gives_checkValidSrc:
  assumes "v_tx V = t" "call_ok t check"
  shows "gives t (checkValidSrc V check i pos src) (src_link t i pos src)"
  unfolding checkValidSrc_def assms(1)
proof (rule gives_liftV)
  fix p assume p: "link_fields src = Inr p"
  obtain r v where rv: "p = (r, v)" by (cases p)
  show "gives t (case p of (r, v) \<Rightarrow>
      case tx_Entries t r of
        None \<Rightarrow> throwE (V_Bc bc_error.ErrMissingEntry)
      | Some e \<Rightarrow> thenE (check r (Some e))
          (bindE (liftV (source_dest e (vl_Position v))) (\<lambda>dst. liftV (link_back i pos v dst))))
    (src_link t i pos src)"
  proof (cases "tx_Entries t r")
    case None
    then show ?thesis by (simp add: rv gives_throwE)
  next
    case (Some e)
    let ?Q = "\<exists>dst. source_dest e (vl_Position v) = Inr dst \<and> link_back i pos v dst = Inr ()"
    have "gives t (bindE (liftV (source_dest e (vl_Position v))) (\<lambda>dst. liftV (link_back i pos v dst))) (\<lambda>c. ?Q)"
      by (rule gives_liftV, rule gives_weaken [OF gives_liftV_end]) auto
    from gives_thenE [OF gives_call [OF assms(2) Some] this stable_passed]
    have "gives t (thenE (check r (Some e))
        (bindE (liftV (source_dest e (vl_Position v))) (\<lambda>dst. liftV (link_back i pos v dst)))) (src_link t i pos src)"
      by (rule gives_weaken) (use p Some in \<open>auto simp: src_link_def rv\<close>)
    with Some show ?thesis by (simp add: rv)
  qed
qed

lemma gives_check_spend:
  assumes "v_tx V = t"
  shows "gives t (check_spend V i e out sp)
           (\<lambda>c. passes_on (out_Source out) (sp_WitnessDestination sp) \<and> dest_link t i 0 (sp_WitnessDestination sp))"
proof -
  have "gives t (check_spend V i e out sp) (\<lambda>c. True \<and> (passes_on (out_Source out) (sp_WitnessDestination sp) \<and>
      dest_link t i 0 (sp_WitnessDestination sp)))"
    unfolding check_spend_def
    by (intro gives_bindE gives_thenE gives_gasE gives_same_value gives_checkValidDest assms stable_const)
      (auto simp: getsE_def dest: verifyE_cache)
  then show ?thesis by simp
qed

lemma gives_check_crosschain_input:
  assumes "v_tx V = t"
  shows "gives t (check_crosschain_input V i e out x)
           (\<lambda>c. passes_on (out_Source out) (cc_WitnessDestination x) \<and> dest_link t i 0 (cc_WitnessDestination x))"
proof -
  let ?d = "cc_WitnessDestination x"
  have run: "gives t (bindE (verifyE V e ver code limit) (\<lambda>_.
      thenE (same_value (out_Source out) ?d)
      (thenE (checkValidDest V i 0 ?d) (gasE (modifyE (\<lambda>g. g\<lparr>StorageGas := 0\<rparr>))))))
      (\<lambda>c. passes_on (out_Source out) ?d \<and> dest_link t i 0 ?d \<and> True)" for ver code limit
    by (intro gives_bindE gives_thenE gives_gasE gives_same_value gives_checkValidDest assms stable_const)
      (auto dest: verifyE_cache)
  have "gives t (bindE
      (if \<not> IsOpenFederationIssueAsset (v_unmarshal V) (cc_RawDefinitionByte x)
       then (case FederationWScript (sha3_of V) (v_fed V) (blk_Height (v_block V)) of
               None \<Rightarrow> throwE V_Panic | Some script \<Rightarrow> new_code script)
       else returnE (fst (v_place V e))) (\<lambda>code. bindE (verifyE V e ver code limit) (\<lambda>_.
      thenE (same_value (out_Source out) ?d)
      (thenE (checkValidDest V i 0 ?d) (gasE (modifyE (\<lambda>g. g\<lparr>StorageGas := 0\<rparr>)))))))
      (\<lambda>c. passes_on (out_Source out) ?d \<and> dest_link t i 0 ?d \<and> True)" for ver limit
    by (rule gives_bindE [OF _ run])
      (auto simp: throwE_def returnE_def dest: new_code_cache split: option.splits if_splits)
  then show ?thesis
    unfolding check_crosschain_input_def
    by (auto intro!: gives_throwE split: option.splits)
qed

lemma gives_check_coinbase:
  assumes "v_tx V = t"
  shows "gives t (check_coinbase V i b) (\<lambda>c. dest_link t i 0 (cb_WitnessDestination b))"
proof -
  have "gives t (thenE (checkValidDest V i 0 (cb_WitnessDestination b)) (gasE (modifyE (\<lambda>g. g\<lparr>StorageGas := 0\<rparr>))))
      (\<lambda>c. dest_link t i 0 (cb_WitnessDestination b) \<and> True)"
    by (intro gives_thenE gives_gasE gives_checkValidDest assms stable_const)
  then show ?thesis
    by (auto simp: check_coinbase_def intro!: gives_throwE split: option.splits if_splits)
qed

lemma gives_check_vote_output:
  assumes "v_tx V = t" "call_ok t check"
  shows "gives t (check_vote_output V check i v)
           (\<lambda>c. src_link t i 0 (Some (out_Source (vote_Output v))) c \<and> length (vote_Vote v) = 64)"
proof (cases "length (vote_Vote v) = 64")
  case False
  then show ?thesis by (simp add: check_vote_output_def gives_throwE)
next
  case True
  have "gives t (case vl_Value (out_Source (vote_Output v)) of
      None \<Rightarrow> throwE V_Panic
    | Some a \<Rightarrow>
        if aa_Amount a < MinVoteOutputAmount (v_P V) then throwE ErrVoteOutputAmount
        else case aa_AssetId a of
          None \<Rightarrow> throwE V_Panic
        | Some b \<Rightarrow> assertE (b = BTMAssetID) ErrVoteOutputAseet) (\<lambda>c. True)"
    by (auto simp: gives_def comp_simps split: option.splits if_splits)
  from gives_thenE [OF gives_checkValidSrc [OF assms] this stable_src] True show ?thesis
    by (simp add: check_vote_output_def)
qed

lemma gives_setGas: "gives t (gasE (setGas P btm txSize)) (\<lambda>c. 0 \<le> btm)"
proof (cases "btm < 0")
  case True
  then show ?thesis by (simp add: gives_def gasE_def setGas_def throwE_def)
next
  case False
  then show ?thesis by (intro gives_weaken [OF gives_gasE]) simp
qed

lemma gives_check_mux_entry:
  assumes "v_tx V = t" "call_ok t check"
  shows "gives t (check_mux_entry V check i m) (entry_ok t i (Mux m))"
  unfolding check_mux_entry_def assms(1)
proof (rule gives_liftV)
  fix btm assume btm: "mux_balance m = Inr btm"
  let ?gas = "\<lambda>i. case tx_Entries t i of
      None \<Rightarrow> throwE (V_Bc bc_error.ErrMissingEntry) | Some e \<Rightarrow> check i (Some e)"
  have 1: "gives t (forE ?gas ids) (\<lambda>c. \<forall>x \<in> set ids. True)" for ids
    by (intro gives_forE stable_const)
      (auto intro: gives_throwE gives_weaken [OF gives_call [OF assms(2)]] split: option.split)
  have 2: "gives t (forE (\<lambda>(j, d). checkValidDest V i j (Some d)) ds)
      (\<lambda>c. \<forall>x \<in> set ds. case x of (j, d) \<Rightarrow> dest_link t i j (Some d))" for ds
    by (intro gives_forE) (auto intro: gives_checkValidDest assms(1) stable_const)
  have 3: "gives t (forE (\<lambda>(j, src). checkValidSrc V check i j src) srcs)
      (\<lambda>c. \<forall>x \<in> set srcs. case x of (j, src) \<Rightarrow> src_link t i j src c)" for srcs
    by (intro gives_forE) (auto intro: gives_checkValidSrc assms stable_src)
  show "gives t (thenE (gasE (setGas (v_P V) btm (i64_of_u64 (th_SerializedSize (tx_Header t)))))
     (thenE (forE ?gas (tx_GasInputIDs t))
     (thenE (forE (\<lambda>(j, d). checkValidDest V i j (Some d)) (enumerate_from (mux_WitnessDestinations m)))
     (thenE (gasE setGasValid)
       (forE (\<lambda>(j, src). checkValidSrc V check i j src) (enumerate_from (mux_Sources m)))))))
     (entry_ok t i (Mux m))"
    by (rule gives_weaken [OF gives_thenE [OF gives_setGas gives_thenE [OF 1 gives_thenE [OF 2
        gives_thenE [OF gives_gasE 3 stable_const] stable_const] stable_const] stable_const]])
      (use btm in \<open>auto simp: entry_ok_def\<close>)
qed

lemma gives_check_body:
  assumes "v_tx V = t" "call_ok t check"
  shows "gives t (check_body V check i e) (entry_ok t i e)"
proof (cases e)
  case (TxHeader h)
  have r: "gives t (check r (tx_Entries t r)) (\<lambda>c. tx_Entries t r \<noteq> None \<and> passed c r)" for r
    using assms(2) by (simp add: call_ok_def)
  have "gives t (forE (\<lambda>r. check r (tx_Entries t r)) rs) (\<lambda>c. \<forall>r \<in> set rs. tx_Entries t r \<noteq> None \<and> passed c r)" for rs
    by (intro gives_forE r) (auto simp: stable_def cache_le_def)
  moreover have "gives t (assertE b x) (\<lambda>c. b)" for b and x :: v_error
    by (auto simp: gives_def comp_simps split: if_splits)
  ultimately show ?thesis
    unfolding TxHeader check_body_def assms(1) entry_ok_def entry.case
    by (intro gives_weaken [OF gives_thenE]) (auto simp: stable_def cache_le_def)
next
  case (Mux m)
  then show ?thesis using gives_check_mux_entry [OF assms] by (simp add: check_body_def)
next
  case (IntraChainOutput x)
  then show ?thesis
    by (auto simp: check_body_def entry_ok_def intro: gives_weaken [OF gives_checkValidSrc [OF assms]])
next
  case (CrossChainOutput x)
  then show ?thesis
    by (auto simp: check_body_def entry_ok_def intro: gives_weaken [OF gives_checkValidSrc [OF assms]])
next
  case (VoteOutput x)
  then show ?thesis
    by (auto simp: check_body_def entry_ok_def intro: gives_weaken [OF gives_check_vote_output [OF assms]])
next
  case (Retirement x)
  then show ?thesis
    by (auto simp: check_body_def entry_ok_def intro: gives_weaken [OF gives_checkValidSrc [OF assms]])
next
  case (CrossChainInput x)
  then show ?thesis
    by (auto simp: check_body_def entry_ok_def assms(1) gives_throwE split: option.split sum.split
        intro: gives_weaken [OF gives_check_crosschain_input [OF assms(1)]])
next
  case (Spend x)
  then show ?thesis
    by (auto simp: check_body_def entry_ok_def assms(1) gives_throwE split: option.split sum.split
        intro: gives_weaken [OF gives_check_spend [OF assms(1)]])
next
  case (VetoInput x)
  then show ?thesis
    by (auto simp: check_body_def entry_ok_def assms(1) gives_throwE split: option.split sum.split
        intro: gives_weaken [OF gives_check_spend [OF assms(1)]])
next
  case (Coinbase x)
  then show ?thesis
    by (auto simp: check_body_def entry_ok_def intro: gives_weaken [OF gives_check_coinbase [OF assms(1)]])
qed

section \<open>A validated transaction\<close>

text \<open>The entries of a transaction are stored under their identifiers, none of which is the zero hash.\<close>

definition ids_ok :: "(bytes \<Rightarrow> bytes) \<Rightarrow> tx \<Rightarrow> bool" where
  "ids_ok sha3 t \<longleftrightarrow>
     (\<forall>i e. tx_Entries t i = Some e \<longrightarrow> EntryID sha3 e = Some i) \<and>
     EntryID sha3 (TxHeader (tx_Header t)) = Some (tx_ID t) \<and>
     (\<forall>e. tx_Entries t (tx_ID t) = Some e \<longrightarrow> e = TxHeader (tx_Header t)) \<and>
     tx_Entries t zeroHash = None \<and> tx_ID t \<noteq> zeroHash"

text \<open>An entry is recorded as passed after its own check.\<close>

lemma gives_memoE:
  assumes body: "gives t m (entry_ok t k x)" and x: "\<And>e. tx_Entries t k = Some e \<Longrightarrow> e = x"
    and k: "k \<noteq> zeroHash"
  shows "gives t (memoE k m) (\<lambda>c. passed c k)"
  unfolding gives_def
proof (intro allI impI)
  fix s u s' assume run: "memoE k m s = (Inr u, s')" and s: "sound t (vs_cache s)"
  show "sound t (vs_cache s') \<and> cache_le (vs_cache s) (vs_cache s') \<and> passed (vs_cache s') k"
  proof (cases "vs_cache s k")
    case (Some r)
    then show ?thesis using run s by (cases r) (auto simp: memoE_def passed_def)
  next
    case None
    then obtain v s1 where m: "m s = (Inr v, s1)" and s': "vs_cache s' = (vs_cache s1)(k \<mapsto> None)"
      using run by (auto simp: memoE_def split: prod.splits sum.splits)
    note B = givesD [OF body m s]
    have le: "cache_le (vs_cache s1) (vs_cache s')" by (simp add: s' cache_le_def passed_def)
    have "entry_ok t i e (vs_cache s')" if "tx_Entries t i = Some e" "passed (vs_cache s') i" for i e
    proof (cases "i = k")
      case True
      then show ?thesis using x that(1) B entry_ok_mono [OF le] by simp
    next
      case False
      then have "passed (vs_cache s1) i" using that(2) by (simp add: s' passed_def)
      then show ?thesis using B that(1) entry_ok_mono [OF le] by (simp add: sound_def)
    qed
    then show ?thesis using cache_le_trans [OF _ le] B k by (simp add: sound_def s' passed_def)
  qed
qed

lemma call_ok_checkValid:
  assumes "v_tx V = t" "ids_ok (sha3_of V) t"
  shows "call_ok t (checkValid V n)"
proof (induction n)
  case 0
  then show ?case by (simp add: call_ok_def gives_throwE)
next
  case (Suc n)
  show ?case unfolding call_ok_def
  proof
    fix i
    show "gives t (checkValid V (Suc n) i (tx_Entries t i)) (\<lambda>c. tx_Entries t i \<noteq> None \<and> passed c i)"
    proof (cases "tx_Entries t i")
      case None
      have "memoE zeroHash (throwE UnexpectedEntryType) s \<noteq> (Inr u, s')" if "sound t (vs_cache s)" for s u s'
        using that by (auto simp: memoE_def sound_def passed_def throwE_def split: option.splits)
      then show ?thesis by (auto simp: None gives_def)
    next
      case (Some e)
      then have "EntryID (sha3_of V) e = Some i" using assms(2) by (simp add: ids_ok_def)
      moreover have "i \<noteq> zeroHash" using assms(2) Some by (auto simp: ids_ok_def)
      then have "gives t (memoE i (check_body V (checkValid V n) i e)) (\<lambda>c. passed c i)"
        using Some by (intro gives_memoE [OF gives_check_body [OF assms(1) Suc.IH]]) simp_all
      ultimately show ?thesis using Some by simp
    qed
  qed
qed

lemma validated:
  assumes "ids_ok (sha3_of V) (v_tx V)" "ValidateTx V n h = (g, Inr ())"
  obtains c where "sound (v_tx V) c" "\<And>r. r \<in> set (th_ResultIds (tx_Header (v_tx V))) \<Longrightarrow> passed c r"
    "\<not> (th_Version (tx_Header (v_tx V)) = 1 \<and> th_ResultIds (tx_Header (v_tx V)) = [])"
proof -
  let ?t = "v_tx V"
  let ?hdr = "TxHeader (tx_Header ?t)"
  obtain s where run: "checkValid V n (tx_ID ?t) (Some ?hdr) (new_state h) = (Inr (), s)"
    using assms(2) by (auto simp: ValidateTx_def ValidateTx_mem_def Let_def split: if_splits sum.splits prod.splits)
  then obtain k where n: "n = Suc k" by (cases n) (auto simp: throwE_def)
  obtain s1 where "check_body V (checkValid V k) (tx_ID ?t) ?hdr (new_state h) = (Inr (), s1)"
    using run assms(1) by (auto simp: n ids_ok_def memoE_def new_state_def split: prod.splits sum.splits)
  from givesD [OF gives_check_body [OF refl call_ok_checkValid [OF refl assms(1)]] this]
  have "sound ?t (vs_cache s1) \<and> entry_ok ?t (tx_ID ?t) ?hdr (vs_cache s1)"
    by (simp add: new_state_def sound_def passed_def)
  then show ?thesis by (intro that [of "vs_cache s1"]) (auto simp: entry_ok_def)
qed

section \<open>The balance of a mux\<close>

definition amount_of :: "asset_id \<Rightarrow> asset_amount option \<Rightarrow> nat" where
  "amount_of a v = (case v of None \<Rightarrow> 0 | Some x \<Rightarrow> if aa_AssetId x = Some a then aa_Amount x else 0)"

definition link_amount :: "asset_id \<Rightarrow> value_link option \<Rightarrow> nat" where
  "link_amount a l = (case l of None \<Rightarrow> 0 | Some v \<Rightarrow> amount_of a (vl_Value v))"

lemma link_amount_Some:
  "vl_Value l = Some v \<Longrightarrow> aa_AssetId v = Some a \<Longrightarrow> link_amount b (Some l) = (if b = a then aa_Amount v else 0)"
  by (simp add: link_amount_def amount_of_def)

definition parity_i64 :: "parity \<Rightarrow> bool" where
  "parity_i64 p \<longleftrightarrow> (\<forall>a. is_i64 (parity_get p a))"

lemma parity_get_set: "parity_get (parity_set a n p) b = (if b = a then n else parity_get p b)"
proof -
  have "map_of (parity_set a n p) = (map_of p)(a \<mapsto> n)"
    by (induction a n p rule: parity_set.induct) (auto simp: fun_upd_twist)
  then show ?thesis by (simp add: parity_get_def)
qed

lemma parity_i64_set: "parity_i64 p \<Longrightarrow> is_i64 n \<Longrightarrow> parity_i64 (parity_set a n p)"
  by (simp add: parity_i64_def parity_get_set)

lemma amount_i64: "int u \<le> MaxInt64 \<Longrightarrow> is_i64 (int u) \<and> i64_of_u64 u = int u"
  by (simp add: i64_of_u64_def i64_id is_i64_def)

lemma parity_sources_sum:
  "parity_sources srcs p = Inr q \<Longrightarrow> parity_i64 p \<Longrightarrow>
   parity_i64 q \<and> (\<forall>a. parity_get q a = parity_get p a + int (sum_list (map (link_amount a) srcs)))"
proof (induction srcs p rule: parity_sources.induct)
  case (2 src srcs p)
  from 2(2) obtain s v a where src: "src = Some s" "vl_Value s = Some v" "aa_AssetId v = Some a"
      and le: "int (aa_Amount v) \<le> MaxInt64"
    by (auto split: option.splits if_splits prod.splits)
  have a: "is_i64 (parity_get p a)" using 2(3) by (simp add: parity_i64_def)
  let ?n = "parity_get p a + int (aa_Amount v)"
  note add = AddInt64_checked [OF a conjunct1 [OF amount_i64 [OF le]]]
  have n: "is_i64 ?n" and rest: "parity_sources srcs (parity_set a ?n p) = Inr q"
    using 2(2) le by (auto simp: src amount_i64 add checked_def split: if_splits prod.splits)
  have "parity_i64 q \<and> (\<forall>b. parity_get q b =
      parity_get (parity_set a ?n p) b + int (sum_list (map (link_amount b) srcs)))"
    using 2(1) [OF src(1,2) _ src(3) _ _ rest parity_i64_set [OF 2(3) n]] le n
    by (simp add: amount_i64 add checked_def)
  then show ?case using src(1) by (simp add: parity_get_set link_amount_Some [OF src(2,3)])
qed simp

lemma parity_dests_sum:
  "parity_dests ds p = Inr q \<Longrightarrow> parity_i64 p \<Longrightarrow>
   parity_i64 q \<and> (\<forall>a. parity_get q a = parity_get p a - int (sum_list (map (\<lambda>d. link_amount a (Some d)) ds)))"
proof (induction ds p rule: parity_dests.induct)
  case (2 d ds p)
  from 2(2) obtain v a held where d: "vl_Value d = Some v" "aa_AssetId v = Some a" "map_of p a = Some held"
      and le: "int (aa_Amount v) \<le> MaxInt64"
    by (auto split: option.splits if_splits prod.splits)
  have get: "parity_get p a = held" using d(3) by (simp add: parity_get_def)
  have a: "is_i64 held" using 2(3) get by (auto simp: parity_i64_def)
  let ?n = "held - int (aa_Amount v)"
  note sub = SubInt64_checked [OF a conjunct1 [OF amount_i64 [OF le]]]
  have n: "is_i64 ?n" and rest: "parity_dests ds (parity_set a ?n p) = Inr q"
    using 2(2) le by (auto simp: d amount_i64 sub checked_def split: if_splits prod.splits)
  have "parity_i64 q \<and> (\<forall>b. parity_get q b =
      parity_get (parity_set a ?n p) b - int (sum_list (map (\<lambda>d. link_amount b (Some d)) ds)))"
    using 2(1) [OF d _ _ _ rest parity_i64_set [OF 2(3) n]] le n by (simp add: amount_i64 sub checked_def)
  then show ?case using get by (simp add: parity_get_set link_amount_Some [OF d(1,2)])
qed simp

lemma mux_balanced:
  assumes "mux_balance m = Inr fee"
  shows "int (sum_list (map (link_amount a) (mux_Sources m))) =
    int (sum_list (map (\<lambda>d. link_amount a (Some d)) (mux_WitnessDestinations m))) + (if a = BTMAssetID then fee else 0)"
proof -
  from assms obtain p q where p: "parity_sources (mux_Sources m) [] = Inr p"
      and q: "parity_dests (mux_WitnessDestinations m) p = Inr q" and btm: "parity_btm q = Inr fee"
    by (auto simp: mux_balance_def split: sum.splits)
  have "parity_i64 []" by (simp add: parity_i64_def parity_get_def is_i64_def)
  note P = parity_sources_sum [OF p this]
  note Q = parity_dests_sum [OF q conjunct1 [OF P]]
  have "parity_get q a = (if a = BTMAssetID then fee else 0)"
    using btm by (auto simp: parity_btm_def parity_get_def list_ex_iff split: if_splits option.splits dest!: map_of_SomeD)
  then show ?thesis using P Q by (simp add: parity_get_def)
qed

section \<open>Conservation of value\<close>

text \<open>What a result receives, and what an input brings: the value of the output it unlocks, or of the coinbase.\<close>

definition result_source :: "tx \<Rightarrow> hash \<Rightarrow> value_source option" where
  "result_source t r =
     (case tx_Entries t r of
        Some (IntraChainOutput o') \<Rightarrow> Some (out_Source o')
      | Some (CrossChainOutput o') \<Rightarrow> Some (out_Source o')
      | Some (VoteOutput v) \<Rightarrow> Some (out_Source (vote_Output v))
      | Some (Retirement x) \<Rightarrow> Some (ret_Source x)
      | _ \<Rightarrow> None)"

definition input_value :: "tx \<Rightarrow> hash \<Rightarrow> asset_amount option" where
  "input_value t i =
     (case tx_Entries t i of
        None \<Rightarrow> None
      | Some (Coinbase b) \<Rightarrow> (case cb_WitnessDestination b of None \<Rightarrow> None | Some d \<Rightarrow> vl_Value d)
      | Some e \<Rightarrow> (case spent_of t e of None \<Rightarrow> None | Some (_, v, _) \<Rightarrow> v))"

definition mux_inputs :: "mux_entry \<Rightarrow> hash set" where
  "mux_inputs m = set (List.map_filter (\<lambda>src. Option.bind src vl_Ref) (mux_Sources m))"

lemma mux_inputs_iff: "r \<in> mux_inputs m \<longleftrightarrow> (\<exists>src \<in> set (mux_Sources m). Option.bind src vl_Ref = Some r)"
  by (auto simp: mux_inputs_def List.map_filter_def image_iff)

definition is_input :: "entry option \<Rightarrow> bool" where
  "is_input e =
     (case e of
        Some (Spend _) \<Rightarrow> True | Some (VetoInput _) \<Rightarrow> True | Some (CrossChainInput _) \<Rightarrow> True
      | Some (Coinbase _) \<Rightarrow> True | _ \<Rightarrow> False)"

text \<open>The shape of the transactions that \<^verbatim>\<open>MapTx\<close> builds: every result is fed by one mux, and the mux by inputs.\<close>

definition one_mux :: "tx \<Rightarrow> hash \<Rightarrow> mux_entry \<Rightarrow> bool" where
  "one_mux t mid m \<longleftrightarrow>
     tx_Entries t mid = Some (Mux m) \<and> th_ResultIds (tx_Header t) \<noteq> [] \<and>
     list_all (\<lambda>r. Option.bind (result_source t r) vl_Ref = Some mid) (th_ResultIds (tx_Header t)) \<and>
     (\<forall>i \<in> mux_inputs m. is_input (tx_Entries t i))"

lemma link_backD:
  assumes "link_back i pos v other = Inr ()"
  obtains w where "other = Some w" "vl_Ref w = Some i" "vl_Position w = pos"
    "AssetAmount_Equal (vl_Value w) (vl_Value v) = Some True"
  using assms that by (auto simp: link_back_def split: option.splits if_splits bool.splits)

lemma amount_of_Equal: "AssetAmount_Equal x y = Some True \<Longrightarrow> amount_of a x = amount_of a y"
  by (auto simp: AssetAmount_Equal_def amount_of_def split: option.splits)

lemma link_fieldsD: "link_fields l = Inr (r, v) \<Longrightarrow> l = Some v \<and> vl_Ref v = Some r"
  by (auto simp: link_fields_def split: option.splits if_splits)

lemma result_src_link:
  assumes "sound t c" "passed c r" "result_source t r = Some src"
  shows "src_link t r 0 (Some src) c"
proof -
  from assms(3) obtain e where e: "tx_Entries t r = Some e"
    by (auto simp: result_source_def split: option.splits)
  with assms(1,2) have "entry_ok t r e c" by (simp add: sound_def)
  with assms(3) e show ?thesis by (cases e) (auto simp: entry_ok_def result_source_def)
qed

text \<open>A result takes the destination of the mux that points to it.\<close>

lemma result_linked:
  assumes "sound t c" "passed c r" "result_source t r = Some src" "vl_Ref src = Some mid" "tx_Entries t mid = Some (Mux m)"
  shows "vl_Position src < length (mux_WitnessDestinations m) \<and>
    vl_Ref (mux_WitnessDestinations m ! vl_Position src) = Some r \<and>
    link_amount a (Some (mux_WitnessDestinations m ! vl_Position src)) = amount_of a (vl_Value src)"
proof -
  from result_src_link [OF assms(1-3)]
  obtain dst where dst: "source_dest (Mux m) (vl_Position src) = Inr dst" "link_back r 0 src dst = Inr ()"
    using assms(4,5) by (auto simp: src_link_def dest: link_fieldsD)
  from dst(2) show ?thesis
    using dst(1) by (elim link_backD)
      (auto simp: source_dest_def link_amount_def dest: amount_of_Equal split: if_splits)
qed

lemma mux_passed:
  assumes "sound t c" "\<And>r. r \<in> set rs \<Longrightarrow> passed c r"
    "list_all (\<lambda>r. Option.bind (result_source t r) vl_Ref = Some mid) rs" "rs \<noteq> []"
  shows "passed c mid"
proof -
  from assms(3,4) obtain src where src: "result_source t (hd rs) = Some src" "vl_Ref src = Some mid"
    by (cases rs; cases "result_source t (hd rs)") auto
  have "passed c (hd rs)" using assms(2,4) by simp
  from result_src_link [OF assms(1) this src(1)] src(2) show ?thesis
    by (auto simp: src_link_def dest: link_fieldsD)
qed

text \<open>A source of the mux takes the one destination of an input, which points back to it.\<close>

definition input_dest :: "entry \<Rightarrow> value_destination option" where
  "input_dest e =
     (case e of
        Spend x \<Rightarrow> sp_WitnessDestination x | VetoInput x \<Rightarrow> sp_WitnessDestination x
      | CrossChainInput x \<Rightarrow> cc_WitnessDestination x | Coinbase x \<Rightarrow> cb_WitnessDestination x | _ \<Rightarrow> None)"

lemma getIntraChainOutput_iff: "getIntraChainOutput t j = Inr out \<longleftrightarrow> tx_Entries t j = Some (IntraChainOutput out)"
  by (auto simp: getIntraChainOutput_def split: option.splits entry.splits)

lemma getVoteOutput_iff: "getVoteOutput t j = Inr out \<longleftrightarrow> tx_Entries t j = Some (VoteOutput out)"
  by (auto simp: getVoteOutput_def split: option.splits entry.splits)

lemma passes_on_amount: "passes_on src dst \<Longrightarrow> amount_of a (vl_Value src) = link_amount a dst"
  by (auto simp: passes_on_def link_amount_def intro: amount_of_Equal)

lemma input_passes_on:
  assumes "entry_ok t i e c" "tx_Entries t i = Some e" "is_input (Some e)"
  shows "amount_of a (input_value t i) = link_amount a (input_dest e)"
proof (cases e)
  case (Coinbase b)
  then show ?thesis using assms(2)
    by (cases "cb_WitnessDestination b") (simp_all add: input_value_def input_dest_def link_amount_def amount_of_def)
qed (use assms in \<open>auto simp: is_input_def entry_ok_def input_value_def input_dest_def spent_of_def
      getIntraChainOutput_iff getVoteOutput_iff passes_on_amount\<close>)

lemma source_linked:
  assumes "sound t c" "src_link t mid j src c" "Option.bind src vl_Ref = Some r" "is_input (tx_Entries t r)"
  shows "\<exists>e d. tx_Entries t r = Some e \<and> input_dest e = Some d \<and> vl_Position d = j \<and>
    link_amount a src = amount_of a (input_value t r)"
proof -
  from assms(2,3) obtain v e dst where v: "src = Some v" "vl_Ref v = Some r" and e: "tx_Entries t r = Some e" "passed c r"
      and dst: "source_dest e (vl_Position v) = Inr dst" "link_back mid j v dst = Inr ()"
    by (auto simp: src_link_def dest!: link_fieldsD)
  have in': "is_input (Some e)" using assms(4) e(1) by simp
  then have d: "dst = input_dest e"
    using dst(1) by (cases e) (auto simp: is_input_def source_dest_def input_dest_def split: if_splits)
  from assms(1) e have "entry_ok t r e c" by (simp add: sound_def)
  from input_passes_on [OF this e(1) in', of a] have val: "amount_of a (input_value t r) = link_amount a (input_dest e)" .
  from dst(2) show ?thesis
    by (elim link_backD) (use val v e d in \<open>auto simp: link_amount_def intro: amount_of_Equal [symmetric]\<close>)
qed

definition result_value :: "tx \<Rightarrow> hash \<Rightarrow> asset_amount option" where
  "result_value t r = Option.bind (result_source t r) vl_Value"

lemma sum_inj_le:
  fixes f :: "nat \<Rightarrow> nat"
  assumes "finite R" "inj_on p R" "\<And>r. r \<in> R \<Longrightarrow> p r < n \<and> g r = f (p r)"
  shows "(\<Sum>r \<in> R. g r) \<le> (\<Sum>j < n. f j)"
proof -
  have "(\<Sum>r \<in> R. g r) = (\<Sum>j \<in> p ` R. f j)" using assms by (simp add: sum.reindex)
  also have "\<dots> \<le> (\<Sum>j < n. f j)" using assms by (intro sum_mono2) auto
  finally show ?thesis .
qed

lemma results_le_destinations:
  assumes "sound t c" "\<And>r. r \<in> set rs \<Longrightarrow> passed c r" "tx_Entries t mid = Some (Mux m)"
    "list_all (\<lambda>r. Option.bind (result_source t r) vl_Ref = Some mid) rs"
  shows "(\<Sum>r \<in> set rs. amount_of a (result_value t r)) \<le>
    sum_list (map (\<lambda>d. link_amount a (Some d)) (mux_WitnessDestinations m))"
proof -
  let ?ds = "mux_WitnessDestinations m" and ?p = "\<lambda>r. vl_Position (the (result_source t r))"
  have L: "?p r < length ?ds \<and> vl_Ref (?ds ! ?p r) = Some r \<and>
      link_amount a (Some (?ds ! ?p r)) = amount_of a (result_value t r)" if "r \<in> set rs" for r
  proof -
    from assms(4) that obtain src where "result_source t r = Some src" "vl_Ref src = Some mid"
      by (cases "result_source t r") (auto simp: list_all_iff)
    with result_linked [OF assms(1) assms(2) [OF that] this assms(3), of a] show ?thesis
      by (simp add: result_value_def)
  qed
  have "inj_on ?p (set rs)"
  proof (rule inj_onI)
    fix r r' assume "r \<in> set rs" "r' \<in> set rs" "?p r = ?p r'"
    then have "Some r = Some r'" using L [THEN conjunct2, THEN conjunct1] by (metis (no_types))
    then show "r = r'" by simp
  qed
  then have "(\<Sum>r \<in> set rs. amount_of a (result_value t r)) \<le> (\<Sum>j < length ?ds. link_amount a (Some (?ds ! j)))"
    using L by (intro sum_inj_le [OF finite_set, where p = ?p]) metis+
  then show ?thesis by (simp add: sum_list_sum_nth atLeast0LessThan)
qed

lemma sources_inputs:
  assumes "sound t c" "\<forall>(j, src) \<in> set (enumerate_from (mux_Sources m)). src_link t mid j src c"
    "\<forall>i \<in> mux_inputs m. is_input (tx_Entries t i)"
  shows "inj_on (\<lambda>j. Option.bind (mux_Sources m ! j) vl_Ref) {..<length (mux_Sources m)}"
    and "sum_list (map (link_amount a) (mux_Sources m)) = (\<Sum>i \<in> mux_inputs m. amount_of a (input_value t i))"
proof -
  let ?srcs = "mux_Sources m"
  let ?r = "\<lambda>j. the (Option.bind (?srcs ! j) vl_Ref)"
  have link: "src_link t mid j (?srcs ! j) c" if "j < length ?srcs" for j
    using assms(2) that by (fastforce simp: enumerate_from_def set_zip)
  have bind: "Option.bind (?srcs ! j) vl_Ref = Some (?r j)" if "j < length ?srcs" for j
    using link [OF that] by (auto simp: src_link_def dest!: link_fieldsD)
  have inputs: "mux_inputs m = ?r ` {..<length ?srcs}"
  proof (intro equalityI subsetI)
    fix r assume "r \<in> mux_inputs m"
    then obtain j where "j < length ?srcs" "Option.bind (?srcs ! j) vl_Ref = Some r"
      by (auto simp: mux_inputs_iff in_set_conv_nth)
    then show "r \<in> ?r ` {..<length ?srcs}" by (intro image_eqI [of _ _ j]) simp_all
  next
    fix r assume "r \<in> ?r ` {..<length ?srcs}"
    then obtain j where j: "j < length ?srcs" "r = ?r j" by blast
    with bind [OF j(1)] show "r \<in> mux_inputs m" unfolding mux_inputs_iff using nth_mem [OF j(1)] by metis
  qed
  have L: "\<exists>e d. tx_Entries t (?r j) = Some e \<and> input_dest e = Some d \<and> vl_Position d = j \<and>
      link_amount a (?srcs ! j) = amount_of a (input_value t (?r j))" if "j < length ?srcs" for j
    by (rule source_linked [OF assms(1) link [OF that] bind [OF that]]) (use assms(3) inputs that in auto)
  have inj: "inj_on ?r {..<length ?srcs}"
  proof (rule inj_onI)
    fix j k assume "j \<in> {..<length ?srcs}" "k \<in> {..<length ?srcs}" "?r j = ?r k"
    then show "j = k" using L by (metis lessThan_iff option.inject)
  qed
  show "inj_on (\<lambda>j. Option.bind (?srcs ! j) vl_Ref) {..<length ?srcs}"
    by (rule inj_on_imageI2 [of the]) (use inj in \<open>simp add: comp_def\<close>)
  from inj have "(\<Sum>i \<in> mux_inputs m. amount_of a (input_value t i)) =
      (\<Sum>j < length ?srcs. amount_of a (input_value t (?r j)))" by (simp add: inputs sum.reindex)
  also have "\<dots> = (\<Sum>j < length ?srcs. link_amount a (?srcs ! j))"
    by (rule sum.cong) (use L in \<open>metis lessThan_iff\<close>)+
  finally show "sum_list (map (link_amount a) ?srcs) = (\<Sum>i \<in> mux_inputs m. amount_of a (input_value t i))"
    by (simp add: sum_list_sum_nth atLeast0LessThan)
qed

lemma validated_mux:
  assumes "ids_ok (sha3_of V) (v_tx V)" "ValidateTx V n h = (g, Inr ())" "one_mux (v_tx V) mid m"
  obtains c where "sound (v_tx V) c" "\<And>r. r \<in> set (th_ResultIds (tx_Header (v_tx V))) \<Longrightarrow> passed c r"
    "entry_ok (v_tx V) mid (Mux m) c"
proof -
  from validated [OF assms(1,2)] obtain c where c: "sound (v_tx V) c"
      "\<And>r. r \<in> set (th_ResultIds (tx_Header (v_tx V))) \<Longrightarrow> passed c r" by blast
  have "passed c mid" using mux_passed [OF c] assms(3) by (simp add: one_mux_def)
  with c(1) assms(3) have "entry_ok (v_tx V) mid (Mux m) c" by (simp add: sound_def one_mux_def)
  with c show ?thesis by (intro that)
qed

text \<open>
  A transaction that \<^verbatim>\<open>ValidateTx\<close> accepts creates no value.  For every asset the results receive
  at most what the inputs bring, and for BTM at most that less the fee, which is not negative.  The entries
  have distinct identifiers and one mux connects inputs and results, as in the transactions that \<^verbatim>\<open>MapTx\<close> builds.
\<close>

theorem value_conserved:
  assumes "ids_ok (sha3_of V) (v_tx V)" "ValidateTx V n h = (g, Inr ())" "one_mux (v_tx V) mid m"
  shows "\<exists>fee \<ge> 0. mux_balance m = Inr fee \<and>
    (\<forall>a. int (\<Sum>r \<in> set (th_ResultIds (tx_Header (v_tx V))). amount_of a (result_value (v_tx V) r)) +
       (if a = BTMAssetID then fee else 0) \<le> int (\<Sum>i \<in> mux_inputs m. amount_of a (input_value (v_tx V) i)))"
proof -
  let ?t = "v_tx V"
  let ?rs = "th_ResultIds (tx_Header ?t)"
  from validated_mux [OF assms] obtain c where c: "sound ?t c" "\<And>r. r \<in> set ?rs \<Longrightarrow> passed c r"
      and ok: "entry_ok ?t mid (Mux m) c" by blast
  have mid: "tx_Entries ?t mid = Some (Mux m)"
    and rs: "list_all (\<lambda>r. Option.bind (result_source ?t r) vl_Ref = Some mid) ?rs"
    and ins: "\<forall>i \<in> mux_inputs m. is_input (tx_Entries ?t i)" using assms(3) by (auto simp: one_mux_def)
  from ok obtain fee where fee: "fee \<ge> 0" "mux_balance m = Inr fee" by (auto simp: entry_ok_def)
  have srcs: "\<forall>(j, src) \<in> set (enumerate_from (mux_Sources m)). src_link ?t mid j src c"
    using ok by (simp add: entry_ok_def)
  have "int (\<Sum>r \<in> set ?rs. amount_of a (result_value ?t r)) + (if a = BTMAssetID then fee else 0) \<le>
      int (\<Sum>i \<in> mux_inputs m. amount_of a (input_value ?t i))" for a
    using results_le_destinations [OF c mid rs, of a] mux_balanced [OF fee(2), of a]
      sources_inputs(2) [OF c(1) srcs ins, of a] by linarith
  with fee show ?thesis by blast
qed

end
