(* ===== verification/Validation_Live.thy ===== *)
theory Validation_Live
  imports Validation_Wf
begin

text \<open>
  Validation accepts what it should: a transaction whose links agree, whose mux balances, whose programs
  accept and whose gas suffices is valid.  The converse direction is in \<open>Validation_Wf\<close>.
\<close>

section \<open>Conditions\<close>

definition src_static :: "tx \<Rightarrow> hash \<Rightarrow> nat \<Rightarrow> value_source option \<Rightarrow> bool" where
  "src_static t i pos src \<longleftrightarrow>
     (\<exists>r v e dst. link_fields src = Inr (r, v) \<and> tx_Entries t r = Some e \<and>
        source_dest e (vl_Position v) = Inr dst \<and> link_back i pos v dst = Inr ())"

text \<open>
  The program of an input accepts with cost \<open>c\<close> and reserve \<open>d\<close> when, run with at least \<open>c + d\<close> gas in a memory that
  satisfies \<open>I\<close>, it leaves all of it but \<open>c\<close>, and such a memory again.  The reserve is what a run holds for items on the stacks
  and gives back.  Programs share memory, the constant that comparisons push among it: a condition like \<open>I\<close>,
  which says what the program may rely on, is needed for any program that compares.
\<close>

definition accepts :: "(heap \<Rightarrow> bool) \<Rightarrow> val_env \<Rightarrow> entry \<Rightarrow> nat \<Rightarrow> int \<Rightarrow> int \<Rightarrow> bool" where
  "accepts I V e vmVersion c d \<longleftrightarrow> 0 \<le> c \<and> 0 \<le> d \<and>
     (\<forall>s limit. I (vs_heap s) \<longrightarrow> c + d \<le> limit \<longrightarrow> limit \<le> MaxInt64 \<longrightarrow>
        (\<exists>h. verifyE V e vmVersion (fst (v_place V e)) limit s = (Inr (limit - c), s\<lparr>vs_heap := h\<rparr>) \<and> I h))"

definition spend_ready :: "(heap \<Rightarrow> bool) \<Rightarrow> val_env \<Rightarrow> hash \<Rightarrow> int \<Rightarrow> int \<Rightarrow> bool" where
  "spend_ready I V i c d \<longleftrightarrow>
     (case tx_Entries (v_tx V) i of
        Some (Spend sp) \<Rightarrow>
          (\<exists>j out. sp_SpentOutputId sp = Some j \<and> getIntraChainOutput (v_tx V) j = Inr out \<and>
             passes_on (out_Source out) (sp_WitnessDestination sp) \<and> dest_link (v_tx V) i 0 (sp_WitnessDestination sp) \<and>
             accepts I V (Spend sp) (prog_VmVersion (out_ControlProgram out)) c d)
      | Some (VetoInput sp) \<Rightarrow>
          (\<exists>j v. sp_SpentOutputId sp = Some j \<and> getVoteOutput (v_tx V) j = Inr v \<and> length (vote_Vote v) = 64 \<and>
             passes_on (out_Source (vote_Output v)) (sp_WitnessDestination sp) \<and>
             dest_link (v_tx V) i 0 (sp_WitnessDestination sp) \<and>
             accepts I V (VetoInput sp) (prog_VmVersion (out_ControlProgram (vote_Output v))) c d)
      | _ \<Rightarrow> False)"

definition result_ready :: "val_env \<Rightarrow> hash \<Rightarrow> hash \<Rightarrow> bool" where
  "result_ready V mid r \<longleftrightarrow>
     (\<exists>src. result_source (v_tx V) r = Some src \<and> vl_Ref src = Some mid \<and> src_static (v_tx V) r 0 (Some src) \<and>
        (case tx_Entries (v_tx V) r of
           Some (VoteOutput v) \<Rightarrow>
             length (vote_Vote v) = 64 \<and>
             (\<exists>x. vl_Value src = Some x \<and> aa_AssetId x = Some BTMAssetID \<and> MinVoteOutputAmount (v_P V) \<le> aa_Amount x)
         | _ \<Rightarrow> True))"

definition storage_gas :: "val_env \<Rightarrow> int" where
  "storage_gas V = i64_of_u64 (th_SerializedSize (tx_Header (v_tx V))) * StorageGasRate (v_P V)"

definition initial_gas :: "val_env \<Rightarrow> int \<Rightarrow> int" where
  "initial_gas V fee = min (fee div VMGasRate (v_P V) + DefaultGasCredit (v_P V)) (MaxGasAmount (v_P V))"

text \<open>The gas covers the programs, with their reserve, and the storage, and the programs alone are within the credit.\<close>

definition gas_ready :: "val_env \<Rightarrow> mux_entry \<Rightarrow> (hash \<Rightarrow> int) \<Rightarrow> int \<Rightarrow> int \<Rightarrow> bool" where
  "gas_ready V m cost d fee \<longleftrightarrow>
     0 \<le> d \<and> 0 \<le> fee \<and> is_i64 fee \<and> 0 < VMGasRate (v_P V) \<and> is_i64 (VMGasRate (v_P V)) \<and>
     is_i64 (DefaultGasCredit (v_P V)) \<and> is_i64 (fee div VMGasRate (v_P V) + DefaultGasCredit (v_P V)) \<and>
     is_i64 (MaxGasAmount (v_P V)) \<and> is_i64 (StorageGasRate (v_P V)) \<and> is_i64 (storage_gas V) \<and> 0 \<le> storage_gas V \<and>
     (\<Sum>i \<in> mux_inputs m. cost i) + storage_gas V + d \<le> initial_gas V fee \<and>
     (\<Sum>i \<in> mux_inputs m. cost i) \<le> DefaultGasCredit (v_P V)"

definition tx_ready :: "(heap \<Rightarrow> bool) \<Rightarrow> val_env \<Rightarrow> hash \<Rightarrow> mux_entry \<Rightarrow> (hash \<Rightarrow> int) \<Rightarrow> int \<Rightarrow> int \<Rightarrow> bool" where
  "tx_ready I V mid m cost d fee \<longleftrightarrow>
     tx_Entries (v_tx V) mid = Some (Mux m) \<and> mux_balance m = Inr fee \<and> gas_ready V m cost d fee \<and>
     (\<forall>(j, d) \<in> set (enumerate_from (mux_WitnessDestinations m)). dest_link (v_tx V) mid j (Some d)) \<and>
     (\<forall>(j, src) \<in> set (enumerate_from (mux_Sources m)). src_static (v_tx V) mid j src) \<and>
     (\<forall>i \<in> mux_inputs m. spend_ready I V i (cost i) d) \<and> set (tx_GasInputIDs (v_tx V)) \<subseteq> mux_inputs m \<and>
     th_ResultIds (tx_Header (v_tx V)) \<noteq> [] \<and>
     (\<forall>r \<in> set (th_ResultIds (tx_Header (v_tx V))). result_ready V mid r)"

definition header_ready :: "val_env \<Rightarrow> bool" where
  "header_ready V \<longleftrightarrow>
     (blk_Version (v_block V) = 1 \<longrightarrow> th_Version (tx_Header (v_tx V)) = 1) \<and>
     th_SerializedSize (tx_Header (v_tx V)) \<noteq> 0 \<and> checkTimeRange (v_tx V) (v_block V) = Inr () \<and>
     checkInputID (v_tx V) = Inr ()"

section \<open>Gas\<close>

abbreviation succeeds :: "('s \<Rightarrow> bool) \<Rightarrow> ('s, 'e, 'a) comp \<Rightarrow> ('a \<Rightarrow> 's \<Rightarrow> bool) \<Rightarrow> bool" where
  "succeeds P m Q \<equiv> hoare P m Q (\<lambda>_ _. False)"

lemma succeedsI: "(\<And>s. P s \<Longrightarrow> \<exists>x s'. m s = (Inr x, s') \<and> Q x s') \<Longrightarrow> succeeds P m Q"
  by (fastforce simp: hoare_def split: prod.splits sum.splits)

lemma succeedsD: "succeeds P m Q \<Longrightarrow> P s \<Longrightarrow> \<exists>x s'. m s = (Inr x, s') \<and> Q x s'"
  unfolding hoare_def by (cases "m s"; cases "fst (m s)") force+

definition unspent :: "mux_entry \<Rightarrow> (hash \<Rightarrow> int) \<Rightarrow> cache \<Rightarrow> int" where
  "unspent m cost c = (\<Sum>i \<in> {i \<in> mux_inputs m. \<not> passed c i}. cost i)"

definition clean :: "cache \<Rightarrow> bool" where
  "clean c \<longleftrightarrow> (\<forall>k. c k = None \<or> c k = Some None)"

lemma cleanD: "clean c \<Longrightarrow> c k = Some r \<Longrightarrow> r = None"
  unfolding clean_def by (erule allE [of _ k]) simp

definition gas_settled :: "val_env \<Rightarrow> int \<Rightarrow> gas_state \<Rightarrow> bool" where
  "gas_settled V fee g \<longleftrightarrow> GasValid g \<and> 0 \<le> GasUsed g \<and> 0 \<le> GasLeft g \<and> GasUsed g + GasLeft g = initial_gas V fee"

text \<open>Until the gas is known to be valid, \<open>Some k\<close> says that \<open>k\<close> is set aside for the storage.\<close>

definition gas_inv :: "(heap \<Rightarrow> bool) \<Rightarrow> val_env \<Rightarrow> mux_entry \<Rightarrow> (hash \<Rightarrow> int) \<Rightarrow> int \<Rightarrow> int \<Rightarrow> int option \<Rightarrow> val_state \<Rightarrow> bool" where
  "gas_inv I V m cost d fee K s \<longleftrightarrow>
     0 \<le> d \<and> I (vs_heap s) \<and> clean (vs_cache s) \<and> 0 \<le> GasUsed (vs_gas s) \<and>
     GasUsed (vs_gas s) + GasLeft (vs_gas s) = initial_gas V fee \<and> initial_gas V fee \<le> MaxInt64 \<and>
     (case K of
        None \<Rightarrow> GasValid (vs_gas s) \<and> unspent m cost (vs_cache s) + d \<le> GasLeft (vs_gas s)
      | Some k \<Rightarrow>
          0 \<le> k \<and> StorageGas (vs_gas s) = k \<and> k + unspent m cost (vs_cache s) + d \<le> GasLeft (vs_gas s) \<and>
          GasUsed (vs_gas s) + unspent m cost (vs_cache s) \<le> DefaultGasCredit (v_P V))"

lemma finite_mux_inputs [simp]: "finite (mux_inputs m)"
  by (simp add: mux_inputs_def)

lemma unspent_pass:
  assumes "i \<in> mux_inputs m" "c i = None"
  shows "unspent m cost c = cost i + unspent m cost (c(i \<mapsto> None))"
proof -
  have "{j \<in> mux_inputs m. \<not> passed c j} = insert i {j \<in> mux_inputs m. \<not> passed (c(i \<mapsto> None)) j}"
    using assms by (auto simp: passed_def)
  then show ?thesis by (simp add: unspent_def passed_def)
qed

lemma unspent_other: "i \<notin> mux_inputs m \<Longrightarrow> unspent m cost (c(i \<mapsto> None)) = unspent m cost c"
  unfolding unspent_def by (rule sum.cong) (auto simp: passed_def)

lemma unspent_nonneg: "(\<And>i. i \<in> mux_inputs m \<Longrightarrow> 0 \<le> cost i) \<Longrightarrow> 0 \<le> unspent m cost c"
  unfolding unspent_def by (rule sum_nonneg) simp

lemma updateUsage_ok:
  assumes "0 \<le> c" "c \<le> GasLeft g" "0 \<le> GasUsed g" "GasUsed g + GasLeft g \<le> MaxInt64"
    "GasValid g \<or> StorageGas g \<le> GasLeft g - c \<and> GasUsed g + c \<le> DefaultGasCredit P"
  shows "updateUsage P (GasLeft g - c) g = (Inr (), g\<lparr>GasUsed := GasUsed g + c, GasLeft := GasLeft g - c\<rparr>)"
proof -
  have i64: "is_i64 (GasLeft g)" "is_i64 (GasLeft g - c)" "is_i64 c" "is_i64 (GasUsed g + c)"
    using assms by (simp_all add: is_i64_def)
  have "SubInt64 (GasLeft g) (GasLeft g - c) = (c, True)"
    using SubInt64_checked [OF i64(1,2)] i64(3) by (simp add: checked_def)
  then show ?thesis
    using assms i64(4) by (auto simp: updateUsage_def bindE_apply thenE_apply getsE_def modifyE_def assertE_def
        returnE_def i64_id)
qed

section \<open>Inputs\<close>

lemma same_value_ok: "passes_on src dst \<Longrightarrow> same_value src dst s = (Inr (), s)"
  by (auto simp: passes_on_def same_value_def assertE_def returnE_def)

lemma checkValidDest_ok: "dest_link (v_tx V) i pos dst \<Longrightarrow> checkValidDest V i pos dst s = (Inr (), s)"
  by (auto simp: dest_link_def checkValidDest_def liftV_def bindE_apply returnE_def)

lemma check_spend_ok:
  assumes "passes_on (out_Source out) (sp_WitnessDestination sp)" "dest_link (v_tx V) i 0 (sp_WitnessDestination sp)"
    "accepts I V e (prog_VmVersion (out_ControlProgram out)) c d"
    "I (vs_heap s)" "c + d \<le> GasLeft (vs_gas s)" "0 \<le> GasUsed (vs_gas s)" "GasUsed (vs_gas s) + GasLeft (vs_gas s) \<le> MaxInt64"
    "GasValid (vs_gas s) \<or> StorageGas (vs_gas s) \<le> GasLeft (vs_gas s) - c \<and> GasUsed (vs_gas s) + c \<le> DefaultGasCredit (v_P V)"
  shows "\<exists>h. check_spend V i e out sp s =
    (Inr (), s\<lparr>vs_gas := (vs_gas s)\<lparr>GasUsed := GasUsed (vs_gas s) + c, GasLeft := GasLeft (vs_gas s) - c\<rparr>, vs_heap := h\<rparr>) \<and> I h"
proof -
  have "GasLeft (vs_gas s) \<le> MaxInt64" using assms(6,7) by simp
  with assms(3-5) obtain h where v: "verifyE V e (prog_VmVersion (out_ControlProgram out)) (fst (v_place V e)) (GasLeft (vs_gas s)) s =
      (Inr (GasLeft (vs_gas s) - c), s\<lparr>vs_heap := h\<rparr>)" and "I h" and "0 \<le> c" and "0 \<le> d" unfolding accepts_def by blast
  from assms(5) \<open>0 \<le> d\<close> have "c \<le> GasLeft (vs_gas s)" by simp
  note u = updateUsage_ok [OF \<open>0 \<le> c\<close> this assms(6-8)]
  show ?thesis
    using same_value_ok [OF assms(1)] checkValidDest_ok [OF assms(2)] \<open>I h\<close>
    by (intro exI [of _ h]) (simp add: check_spend_def bindE_apply thenE_apply getsE_def v gasE_def u)
qed

lemma input_body_ok:
  assumes "spend_ready I V i c d" "tx_Entries (v_tx V) i = Some e"
    "I (vs_heap s)" "c + d \<le> GasLeft (vs_gas s)" "0 \<le> GasUsed (vs_gas s)" "GasUsed (vs_gas s) + GasLeft (vs_gas s) \<le> MaxInt64"
    "GasValid (vs_gas s) \<or> StorageGas (vs_gas s) \<le> GasLeft (vs_gas s) - c \<and> GasUsed (vs_gas s) + c \<le> DefaultGasCredit (v_P V)"
  shows "\<exists>h. check_body V check i e s =
    (Inr (), s\<lparr>vs_gas := (vs_gas s)\<lparr>GasUsed := GasUsed (vs_gas s) + c, GasLeft := GasLeft (vs_gas s) - c\<rparr>, vs_heap := h\<rparr>) \<and> I h"
proof (cases e)
  case (Spend sp)
  with assms(1,2) obtain j out where "sp_SpentOutputId sp = Some j" "getIntraChainOutput (v_tx V) j = Inr out"
      and r: "passes_on (out_Source out) (sp_WitnessDestination sp)" "dest_link (v_tx V) i 0 (sp_WitnessDestination sp)"
        "accepts I V e (prog_VmVersion (out_ControlProgram out)) c d" by (auto simp: spend_ready_def)
  then have "check_body V check i e = check_spend V i e out sp" by (simp add: check_body_def Spend)
  with check_spend_ok [OF r assms(3-7)] show ?thesis by simp
next
  case (VetoInput sp)
  with assms(1,2) obtain j v where "sp_SpentOutputId sp = Some j" "getVoteOutput (v_tx V) j = Inr v" "length (vote_Vote v) = 64"
      and r: "passes_on (out_Source (vote_Output v)) (sp_WitnessDestination sp)" "dest_link (v_tx V) i 0 (sp_WitnessDestination sp)"
        "accepts I V e (prog_VmVersion (out_ControlProgram (vote_Output v))) c d" by (auto simp: spend_ready_def)
  then have "check_body V check i e = check_spend V i e (vote_Output v) sp" by (simp add: check_body_def VetoInput)
  with check_spend_ok [OF r assms(3-7)] show ?thesis by simp
qed (use assms(1,2) in \<open>simp_all add: spend_ready_def\<close>)

lemma spend_ready_cost: "spend_ready I V i c d \<Longrightarrow> 0 \<le> c" "spend_ready I V i c d \<Longrightarrow> 0 \<le> d"
  by (auto simp: spend_ready_def accepts_def split: option.splits entry.splits)

text \<open>An input is run once; a second check finds it in the cache.\<close>

lemma input_check_ok:
  assumes "ids_ok (sha3_of V) (v_tx V)" "i \<in> mux_inputs m" "\<forall>i \<in> mux_inputs m. spend_ready I V i (cost i) d"
    "tx_Entries (v_tx V) i = Some e"
  shows "succeeds (gas_inv I V m cost d fee K) (checkValid V (Suc n) i (Some e)) (\<lambda>_. gas_inv I V m cost d fee K)"
proof (rule succeedsI)
  fix s assume inv: "gas_inv I V m cost d fee K s"
  have id: "EntryID (sha3_of V) e = Some i" using assms(1,4) by (simp add: ids_ok_def)
  show "\<exists>x s'. checkValid V (Suc n) i (Some e) s = (Inr x, s') \<and> gas_inv I V m cost d fee K s'"
  proof (cases "vs_cache s i")
    case (Some r)
    with inv have "r = None" by (auto simp: gas_inv_def intro: cleanD)
    with Some inv show ?thesis by (auto simp: id memoE_def)
  next
    case None
    let ?u = "unspent m cost ((vs_cache s)(i \<mapsto> None))"
    have u: "unspent m cost (vs_cache s) = cost i + ?u" using assms(2) None by (rule unspent_pass)
    have nonneg: "0 \<le> ?u" using assms(3) by (intro unspent_nonneg) (auto intro: spend_ready_cost)
    have "0 \<le> cost i" using assms(2,3) by (auto intro: spend_ready_cost)
    have "\<exists>h. check_body V (checkValid V n) i e s = (Inr (), s\<lparr>vs_gas := (vs_gas s)\<lparr>GasUsed := GasUsed (vs_gas s) + cost i,
        GasLeft := GasLeft (vs_gas s) - cost i\<rparr>, vs_heap := h\<rparr>) \<and> I h"
      using inv nonneg u assms(2,3) by (intro input_body_ok [OF _ assms(4)]) (auto simp: gas_inv_def split: option.splits)
    then obtain h where run: "check_body V (checkValid V n) i e s = (Inr (), s\<lparr>vs_gas := (vs_gas s)\<lparr>GasUsed := GasUsed (vs_gas s) + cost i,
        GasLeft := GasLeft (vs_gas s) - cost i\<rparr>, vs_heap := h\<rparr>)" and "I h" by blast
    show ?thesis
      using inv u \<open>0 \<le> cost i\<close> \<open>I h\<close> by (simp add: id memoE_def None run) (auto simp: gas_inv_def clean_def split: option.splits)
  qed
qed

section \<open>The mux\<close>

lemma setGas_ok:
  assumes "gas_ready V m cost d fee"
  shows "setGas (v_P V) fee (i64_of_u64 (th_SerializedSize (tx_Header (v_tx V)))) g =
    (Inr (), g\<lparr>BTMValue := u64_of_i64 fee, GasLeft := initial_gas V fee, StorageGas := storage_gas V\<rparr>)"
proof -
  let ?P = "v_P V" and ?q = "fee div VMGasRate (v_P V)"
  have r: "0 \<le> fee" "is_i64 fee" "0 < VMGasRate ?P" "is_i64 (VMGasRate ?P)" "is_i64 (DefaultGasCredit ?P)"
    "is_i64 (?q + DefaultGasCredit ?P)" "is_i64 (StorageGasRate ?P)" "is_i64 (storage_gas V)"
    using assms by (simp_all add: gas_ready_def)
  have quot: "go_quot fee (VMGasRate ?P) = ?q" using r(1,3) by (cases "fee = 0") (simp_all add: go_quot_def)
  have "?q \<le> fee" "0 \<le> ?q" using r(1,3) zdiv_mono2 [of fee 1 "VMGasRate ?P"] by (simp_all add: pos_imp_zdiv_nonneg_iff)
  then have q: "is_i64 ?q" using r(2) by (auto simp: is_i64_def)
  have "DivInt64 fee (VMGasRate ?P) = (?q, True)"
    using DivInt64_checked [OF r(2,4)] r(3) q by (simp add: checked_def quot)
  moreover have "AddInt64 ?q (DefaultGasCredit ?P) = (?q + DefaultGasCredit ?P, True)"
    using AddInt64_checked [OF q r(5)] r(6) by (simp add: checked_def)
  moreover have "MulInt64 (i64_of_u64 (th_SerializedSize (tx_Header (v_tx V)))) (StorageGasRate ?P) = (storage_gas V, True)"
    using MulInt64_checked [OF _ r(7), of "i64_of_u64 (th_SerializedSize (tx_Header (v_tx V)))"] r(8)
    by (simp add: checked_def storage_gas_def i64_of_u64_def)
  ultimately show ?thesis
    using r(1) by (simp add: setGas_def bindE_apply thenE_apply getsE_def modifyE_def assertE_def returnE_def initial_gas_def min_def)
qed

lemma setGasValid_ok:
  assumes "0 \<le> StorageGas g" "StorageGas g \<le> GasLeft g" "0 \<le> GasUsed g" "GasUsed g + GasLeft g \<le> MaxInt64"
  shows "setGasValid g = (Inr (), g\<lparr>GasLeft := GasLeft g - StorageGas g, GasUsed := GasUsed g + StorageGas g, GasValid := True\<rparr>)"
proof -
  have i64: "is_i64 (GasLeft g)" "is_i64 (StorageGas g)" "is_i64 (GasUsed g)" "is_i64 (GasLeft g - StorageGas g)"
      "is_i64 (GasUsed g + StorageGas g)"
    using assms by (simp_all add: is_i64_def)
  have "SubInt64 (GasLeft g) (StorageGas g) = (GasLeft g - StorageGas g, True)"
    "AddInt64 (GasUsed g) (StorageGas g) = (GasUsed g + StorageGas g, True)"
    using SubInt64_checked [OF i64(1,2)] AddInt64_checked [OF i64(3,2)] i64(4,5) by (simp_all add: checked_def)
  then show ?thesis
    using assms(2) by (simp add: setGasValid_def bindE_apply thenE_apply getsE_def modifyE_def assertE_def returnE_def)
qed

definition fresh :: "(heap \<Rightarrow> bool) \<Rightarrow> val_state \<Rightarrow> bool" where
  "fresh I s \<longleftrightarrow> I (vs_heap s) \<and> vs_cache s = Map.empty \<and> vs_gas s = new_gas"

lemma source_check_ok:
  assumes "ids_ok (sha3_of V) (v_tx V)" "tx_ready I V mid m cost d fee" "(j, src) \<in> set (enumerate_from (mux_Sources m))"
  shows "succeeds (gas_inv I V m cost d fee K) (checkValidSrc V (checkValid V (Suc n)) mid j src) (\<lambda>_. gas_inv I V m cost d fee K)"
proof (rule succeedsI)
  fix s assume inv: "gas_inv I V m cost d fee K s"
  from assms(2,3) obtain r v e dst where r: "link_fields src = Inr (r, v)" "tx_Entries (v_tx V) r = Some e"
      "source_dest e (vl_Position v) = Inr dst" "link_back mid j v dst = Inr ()"
    by (auto simp: tx_ready_def src_static_def)
  have "src \<in> set (mux_Sources m)" using assms(3) by (auto simp: enumerate_from_def dest: set_zip_rightD)
  with link_fieldsD [OF r(1)] have mem: "r \<in> mux_inputs m" by (auto simp: mux_inputs_iff intro!: bexI [of _ src])
  have ready: "\<forall>i \<in> mux_inputs m. spend_ready I V i (cost i) d" using assms(2) by (simp add: tx_ready_def)
  from succeedsD [OF input_check_ok [OF assms(1) mem ready r(2)] inv] obtain s' where
    "checkValid V (Suc n) r (Some e) s = (Inr (), s')" "gas_inv I V m cost d fee K s'" by auto
  then show "\<exists>x s'. checkValidSrc V (checkValid V (Suc n)) mid j src s = (Inr x, s') \<and> gas_inv I V m cost d fee K s'"
    using r by (simp del: checkValid.simps add: checkValidSrc_def liftV_def bindE_apply thenE_apply returnE_def)
qed

lemma mux_body_ok:
  assumes "ids_ok (sha3_of V) (v_tx V)" "tx_ready I V mid m cost d fee"
  shows "succeeds (fresh I) (check_mux_entry V (checkValid V (Suc n)) mid m) 
    (\<lambda>_ s. I (vs_heap s) \<and> clean (vs_cache s) \<and> gas_settled V fee (vs_gas s))"
proof -
  have gas: "gas_ready V m cost d fee" and bal: "mux_balance m = Inr fee"
    and ready: "\<forall>i \<in> mux_inputs m. spend_ready I V i (cost i) d" and gi: "set (tx_GasInputIDs (v_tx V)) \<subseteq> mux_inputs m"
    and ds: "\<forall>(j, d) \<in> set (enumerate_from (mux_WitnessDestinations m)). dest_link (v_tx V) mid j (Some d)"
    using assms(2) by (simp_all add: tx_ready_def)
  let ?J = "gas_inv I V m cost d fee" and ?sg = "storage_gas V"
  have 1: "succeeds (fresh I) (gasE (setGas (v_P V) fee (i64_of_u64 (th_SerializedSize (tx_Header (v_tx V)))))) (\<lambda>_. ?J (Some ?sg))"
  proof (rule succeedsI)
    fix s assume f: "fresh I s"
    then have "unspent m cost (vs_cache s) = (\<Sum>i \<in> mux_inputs m. cost i)"
      by (auto simp: fresh_def unspent_def passed_def intro!: sum.cong)
    then show "\<exists>x s'. gasE (setGas (v_P V) fee (i64_of_u64 (th_SerializedSize (tx_Header (v_tx V))))) s = (Inr x, s') \<and> ?J (Some ?sg) s'"
      using f gas by (simp add: gasE_def setGas_ok [OF gas])
        (auto simp: gas_inv_def clean_def fresh_def new_gas_def gas_ready_def initial_gas_def is_i64_def)
  qed
  have 2: "succeeds (?J (Some ?sg)) (forE (\<lambda>i. case tx_Entries (v_tx V) i of None \<Rightarrow> throwE (V_Bc bc_error.ErrMissingEntry)
      | Some e \<Rightarrow> checkValid V (Suc n) i (Some e)) (tx_GasInputIDs (v_tx V))) (\<lambda>_. ?J (Some ?sg))"
  proof (rule hoare_forE)
    fix i assume "i \<in> set (tx_GasInputIDs (v_tx V))"
    then have i: "i \<in> mux_inputs m" using gi by blast
    with ready obtain e where e: "tx_Entries (v_tx V) i = Some e" by (fastforce simp: spend_ready_def split: option.splits)
    show "succeeds (?J (Some ?sg)) (case tx_Entries (v_tx V) i of None \<Rightarrow> throwE (V_Bc bc_error.ErrMissingEntry)
        | Some e \<Rightarrow> checkValid V (Suc n) i (Some e)) (\<lambda>_. ?J (Some ?sg))"
      using input_check_ok [OF assms(1) i ready e] by (simp del: checkValid.simps add: e)
  qed
  have 3: "succeeds (?J (Some ?sg)) (forE (\<lambda>(j, d). checkValidDest V mid j (Some d)) (enumerate_from (mux_WitnessDestinations m))) (\<lambda>_. ?J (Some ?sg))"
    by (rule hoare_forE) (use ds in \<open>auto intro!: succeedsI simp: checkValidDest_ok\<close>)
  have 4: "succeeds (?J (Some ?sg)) (gasE setGasValid) (\<lambda>_. ?J None)"
  proof (rule succeedsI)
    fix s assume inv: "?J (Some ?sg) s"
    have "0 \<le> unspent m cost (vs_cache s)" using ready by (intro unspent_nonneg) (auto intro: spend_ready_cost)
    then show "\<exists>x s'. gasE setGasValid s = (Inr x, s') \<and> ?J None s'"
      using inv setGasValid_ok [of "vs_gas s"] by (simp add: gasE_def gas_inv_def)
  qed
  have 5: "succeeds (?J None) (forE (\<lambda>(j, src). checkValidSrc V (checkValid V (Suc n)) mid j src) (enumerate_from (mux_Sources m))) (\<lambda>_. ?J None)"
    by (rule hoare_forE) (use source_check_ok [OF assms] in \<open>auto simp del: checkValid.simps\<close>)
  have "succeeds (fresh I) (check_mux_entry V (checkValid V (Suc n)) mid m) (\<lambda>_. ?J None)"
    unfolding check_mux_entry_def bal liftV_def sum.case
    using hoare_thenE [OF 1 hoare_thenE [OF 2 hoare_thenE [OF 3 hoare_thenE [OF 4 5]]]]
    by (simp del: checkValid.simps add: bindE_def returnE_def)
  moreover have "0 \<le> GasLeft (vs_gas s)" if "?J None s" for s
  proof -
    have "0 \<le> unspent m cost (vs_cache s)" using ready by (intro unspent_nonneg) (auto intro: spend_ready_cost)
    with that show ?thesis by (simp add: gas_inv_def)
  qed
  ultimately show ?thesis by (elim hoare_weaken) (auto simp: gas_inv_def gas_settled_def)
qed

section \<open>Results and header\<close>

text \<open>After the first result the mux has passed and the gas is valid; before it, nothing has been checked.\<close>

definition settled :: "(heap \<Rightarrow> bool) \<Rightarrow> val_env \<Rightarrow> int \<Rightarrow> hash \<Rightarrow> val_state \<Rightarrow> bool" where
  "settled I V fee mid s \<longleftrightarrow>
     I (vs_heap s) \<and> clean (vs_cache s) \<and> passed (vs_cache s) mid \<and> gas_settled V fee (vs_gas s)"

lemma memoE_ok:
  assumes "vs_cache s k = None" "m s = (Inr x, s')"
  shows "memoE k m s = (Inr (), s'\<lparr>vs_cache := (vs_cache s')(k \<mapsto> None)\<rparr>)"
  using assms by (simp add: memoE_def)

lemma clean_pass: "clean c \<Longrightarrow> clean (c(k \<mapsto> None))"
  by (simp add: clean_def)

lemma mux_check_ok:
  assumes "ids_ok (sha3_of V) (v_tx V)" "tx_ready I V mid m cost d fee"
  shows "succeeds (\<lambda>s. settled I V fee mid s \<or> fresh I s) (checkValid V (Suc (Suc n)) mid (Some (Mux m))) (\<lambda>_. settled I V fee mid)"
proof (rule succeedsI)
  fix s assume s: "settled I V fee mid s \<or> fresh I s"
  have id: "EntryID (sha3_of V) (Mux m) = Some mid" using assms by (simp add: ids_ok_def tx_ready_def)
  show "\<exists>x s'. checkValid V (Suc (Suc n)) mid (Some (Mux m)) s = (Inr x, s') \<and> settled I V fee mid s'"
  proof (cases "settled I V fee mid s")
    case True
    then show ?thesis by (simp add: id memoE_def settled_def passed_def)
  next
    case False
    with s have f: "fresh I s" by simp
    from succeedsD [OF mux_body_ok [OF assms] f] obtain s' where
      "check_mux_entry V (checkValid V (Suc n)) mid m s = (Inr (), s')" and s': "I (vs_heap s')" "clean (vs_cache s')" "gas_settled V fee (vs_gas s')" by auto
    then have "check_body V (checkValid V (Suc n)) mid (Mux m) s = (Inr (), s')" by (simp add: check_body_def del: checkValid.simps)
    moreover have "vs_cache s mid = None" using f by (simp add: fresh_def)
    ultimately show ?thesis
      using memoE_ok s' by (subst checkValid.simps) (simp add: id settled_def passed_def clean_pass del: checkValid.simps)
  qed
qed

lemma result_body_ok:
  assumes "ids_ok (sha3_of V) (v_tx V)" "tx_ready I V mid m cost d fee" "result_ready V mid r" "tx_Entries (v_tx V) r = Some e"
  shows "succeeds (\<lambda>s. settled I V fee mid s \<or> fresh I s) (check_body V (checkValid V (Suc (Suc n))) r e) (\<lambda>_. settled I V fee mid)"
proof -
  from assms(3) obtain src where src: "result_source (v_tx V) r = Some src" "vl_Ref src = Some mid" "src_static (v_tx V) r 0 (Some src)"
    by (auto simp: result_ready_def)
  have mux: "tx_Entries (v_tx V) mid = Some (Mux m)" using assms(2) by (simp add: tx_ready_def)
  from src(3) obtain k v e' dst where k: "link_fields (Some src) = Inr (k, v)" "tx_Entries (v_tx V) k = Some e'"
      "source_dest e' (vl_Position v) = Inr dst" "link_back r 0 v dst = Inr ()" by (auto simp: src_static_def)
  have "k = mid" "v = src" using link_fieldsD [OF k(1)] src(2) by auto
  with k mux have dst: "link_fields (Some src) = Inr (mid, src)" "source_dest (Mux m) (vl_Position src) = Inr dst"
      "link_back r 0 src dst = Inr ()" by simp_all
  have link: "succeeds (\<lambda>s. settled I V fee mid s \<or> fresh I s) (checkValidSrc V (checkValid V (Suc (Suc n))) r 0 (Some src)) (\<lambda>_. settled I V fee mid)"
  proof (rule succeedsI)
    fix s assume "settled I V fee mid s \<or> fresh I s"
    from succeedsD [OF mux_check_ok [OF assms(1,2)] this] obtain s' where
      "checkValid V (Suc (Suc n)) mid (Some (Mux m)) s = (Inr (), s')" "settled I V fee mid s'" by auto
    then show "\<exists>x s'. checkValidSrc V (checkValid V (Suc (Suc n))) r 0 (Some src) s = (Inr x, s') \<and> settled I V fee mid s'"
      using dst mux by (simp del: checkValid.simps add: checkValidSrc_def liftV_def bindE_apply thenE_apply returnE_def)
  qed
  show ?thesis
  proof (cases e)
    case (VoteOutput v)
    with assms(3,4) src obtain x where v: "length (vote_Vote v) = 64" "vl_Value src = Some x" "aa_AssetId x = Some BTMAssetID"
        "MinVoteOutputAmount (v_P V) \<le> aa_Amount x" "out_Source (vote_Output v) = src"
      by (auto simp: result_ready_def result_source_def)
    have "succeeds (settled I V fee mid) (assertE True ErrVoteOutputAseet) (\<lambda>_. settled I V fee mid)"
      by (auto intro!: succeedsI simp: assertE_def returnE_def)
    from hoare_thenE [OF link this] v show ?thesis
      by (simp del: checkValid.simps add: check_body_def VoteOutput check_vote_output_def)
  qed (use link src assms(4) in \<open>auto simp del: checkValid.simps simp: check_body_def result_source_def\<close>)
qed

lemma result_check_ok:
  assumes "ids_ok (sha3_of V) (v_tx V)" "tx_ready I V mid m cost d fee" "result_ready V mid r"
  shows "succeeds (\<lambda>s. settled I V fee mid s \<or> fresh I s) (checkValid V (Suc (Suc (Suc n))) r (tx_Entries (v_tx V) r)) (\<lambda>_. settled I V fee mid)"
proof (rule succeedsI)
  fix s assume s: "settled I V fee mid s \<or> fresh I s"
  from assms(3) obtain e where e: "tx_Entries (v_tx V) r = Some e"
    by (auto simp: result_ready_def result_source_def split: option.splits)
  have id: "EntryID (sha3_of V) e = Some r" using assms(1) e by (simp add: ids_ok_def)
  show "\<exists>x s'. checkValid V (Suc (Suc (Suc n))) r (tx_Entries (v_tx V) r) s = (Inr x, s') \<and> settled I V fee mid s'"
  proof (cases "vs_cache s r")
    case (Some c)
    with s have "settled I V fee mid s" by (auto simp: fresh_def)
    with Some cleanD [of "vs_cache s" r] show ?thesis by (auto simp: e id memoE_def settled_def)
  next
    case None
    from succeedsD [OF result_body_ok [OF assms e] s] obtain s' where
      body: "check_body V (checkValid V (Suc (Suc n))) r e s = (Inr (), s')" and "settled I V fee mid s'" by auto
    moreover from None body have "memoE r (check_body V (checkValid V (Suc (Suc n))) r e) s =
        (Inr (), s'\<lparr>vs_cache := (vs_cache s')(r \<mapsto> None)\<rparr>)" by (rule memoE_ok)
    ultimately show ?thesis
      unfolding e by (subst checkValid.simps) (auto simp del: checkValid.simps simp: id settled_def passed_def clean_pass)
  qed
qed

lemma ValidateTx_ready:
  assumes "ids_ok (sha3_of V) (v_tx V)" "tx_ready I V mid m cost d fee" "header_ready V" "I h"
  shows "\<exists>g h'. ValidateTx_mem V (4 + n) h = ((g, Inr ()), h') \<and> gas_settled V fee g \<and> I h'"
proof -
  let ?t = "v_tx V"
  let ?rs = "th_ResultIds (tx_Header ?t)"
  let ?check = "checkValid V (Suc (Suc (Suc n)))"
  have ready: "result_ready V mid r" if "r \<in> set ?rs" for r using assms(2) that by (simp add: tx_ready_def)
  obtain r rs where rs: "?rs = r # rs" using assms(2) by (cases ?rs) (auto simp: tx_ready_def)
  note check = result_check_ok [OF assms(1,2) ready]
  have "succeeds (settled I V fee mid) (forE (\<lambda>r. ?check r (tx_Entries ?t r)) rs) (\<lambda>_. settled I V fee mid)"
    by (rule hoare_forE, rule hoare_pre [OF check]) (auto simp: rs)
  with check have "succeeds (\<lambda>s. settled I V fee mid s \<or> fresh I s) (forE (\<lambda>r. ?check r (tx_Entries ?t r)) ?rs) (\<lambda>_. settled I V fee mid)"
    unfolding rs forE.simps by (intro hoare_thenE) (auto simp: rs simp del: checkValid.simps)
  moreover have "fresh I (new_state h)" using assms(4) by (simp add: fresh_def new_state_def)
  ultimately obtain s where loop: "forE (\<lambda>r. ?check r (tx_Entries ?t r)) ?rs (new_state h) = (Inr (), s)" and s: "settled I V fee mid s"
    using succeedsD [of "\<lambda>s. settled I V fee mid s \<or> fresh I s" _ "\<lambda>_. settled I V fee mid" "new_state h"] by fastforce
  have body: "check_body V ?check (tx_ID ?t) (TxHeader (tx_Header ?t)) (new_state h) = (Inr (), s)"
    using loop by (simp del: checkValid.simps forE.simps add: check_body_def thenE_apply assertE_def returnE_def rs [symmetric])
      (simp add: rs)
  have "memoE (tx_ID ?t) (check_body V ?check (tx_ID ?t) (TxHeader (tx_Header ?t))) (new_state h) =
      (Inr (), s\<lparr>vs_cache := (vs_cache s)(tx_ID ?t \<mapsto> None)\<rparr>)"
    by (rule memoE_ok [where m = "check_body V ?check (tx_ID ?t) (TxHeader (tx_Header ?t))"]) (simp_all add: new_state_def body [unfolded new_state_def])
  then have "checkValid V (Suc (Suc (Suc (Suc n)))) (tx_ID ?t) (Some (TxHeader (tx_Header ?t))) (new_state h) =
      (Inr (), s\<lparr>vs_cache := (vs_cache s)(tx_ID ?t \<mapsto> None)\<rparr>)"
    using assms(1) by (subst checkValid.simps) (simp del: checkValid.simps add: ids_ok_def)
  moreover have fuel: "4 + n = Suc (Suc (Suc (Suc n)))" by simp
  ultimately show ?thesis
    using assms(3) s unfolding ValidateTx_mem_def fuel
    by (auto simp del: checkValid.simps simp: header_ready_def Let_def settled_def applySoftFork001_def)
qed


end
