(* ===== verification/Map_Wf.thy ===== *)
theory Map_Wf
  imports Validation_Wf Map_Tx
begin

text \<open>
  The entries of a mapped transaction have the shape that validation relies on, and so the conservation of
  value holds of the wire data: what the outputs of a valid transaction receive is what its inputs bring,
  less the fee.
\<close>

section \<open>Entries without their witnesses\<close>

text \<open>What is hashed of an entry: the fields that \<^verbatim>\<open>mapTx\<close> sets later are left out.\<close>

definition core :: "entry \<Rightarrow> entry" where
  "core e =
     (case e of
        Spend x \<Rightarrow> Spend (x\<lparr>sp_WitnessDestination := None\<rparr>)
      | VetoInput x \<Rightarrow> VetoInput (x\<lparr>sp_WitnessDestination := None\<rparr>)
      | CrossChainInput x \<Rightarrow> CrossChainInput (x\<lparr>cc_WitnessDestination := None\<rparr>)
      | Coinbase x \<Rightarrow> Coinbase (x\<lparr>cb_WitnessDestination := None\<rparr>)
      | Mux m \<Rightarrow> Mux (m\<lparr>mux_WitnessDestinations := []\<rparr>)
      | _ \<Rightarrow> e)"

definition cores :: "map_state \<Rightarrow> entry list" where
  "cores s = map core (ms_objs s)"

lemma EntryID_core [simp]: "EntryID sha3 (core e) = EntryID sha3 e"
  by (cases e) (simp_all add: core_def EntryID_def writeForHash_def entry_typ_def)

lemma entry_typ_core [simp]: "entry_typ (core e) = entry_typ e"
  by (cases e) (simp_all add: core_def entry_typ_def)

lemma length_cores [simp]: "length (cores s) = length (ms_objs s)"
  by (simp add: cores_def)

lemma nth_cores: "a < length (ms_objs s) \<Longrightarrow> cores s ! a = core (ms_objs s ! a)"
  by (simp add: cores_def)

text \<open>Every object has an identifier, under which the map has it or a later object.\<close>

definition well_stored :: "(bytes \<Rightarrow> bytes) \<Rightarrow> map_state \<Rightarrow> bool" where
  "well_stored sha3 s \<longleftrightarrow>
     (\<forall>k a. map_of (ms_ids s) k = Some a \<longrightarrow> a < length (cores s) \<and> EntryID sha3 (cores s ! a) = Some k) \<and>
     (\<forall>a < length (cores s). \<exists>k b. EntryID sha3 (cores s ! a) = Some k \<and> map_of (ms_ids s) k = Some b \<and> a \<le> b)"

lemma well_stored_empty: "well_stored sha3 empty_map"
  by (simp add: well_stored_def empty_map_def cores_def)

lemma addNew_spec:
  assumes "addNew sha3 e s = (Inr (k, a), s')"
  shows "a = length (ms_objs s)" "EntryID sha3 e = Some k" "ms_objs s' = ms_objs s @ [e]" "cores s' = cores s @ [core e]"
    "map_of (ms_ids s') = (map_of (ms_ids s))(k \<mapsto> a)" "well_stored sha3 s \<Longrightarrow> well_stored sha3 s'"
proof -
  have s': "a = length (ms_objs s)" "EntryID sha3 e = Some k"
    "s' = s\<lparr>ms_objs := ms_objs s @ [e], ms_ids := AList.update k a (ms_ids s)\<rparr>"
    using assms by (auto simp: addNew_def newE_def addEntry_def bindE_apply returnE_def nth_append
        split: option.splits prod.splits sum.splits)
  then show "a = length (ms_objs s)" "EntryID sha3 e = Some k" "ms_objs s' = ms_objs s @ [e]"
    and c: "cores s' = cores s @ [core e]" and ids: "map_of (ms_ids s') = (map_of (ms_ids s))(k \<mapsto> a)"
    by (simp_all add: cores_def update_conv')
  show "well_stored sha3 s'" if w: "well_stored sha3 s"
    unfolding well_stored_def
  proof (intro conjI allI impI)
    fix j b assume "map_of (ms_ids s') j = Some b"
    with w s'(1,2) show "b < length (cores s')" "EntryID sha3 (cores s' ! b) = Some j"
      by (auto simp: ids c nth_append well_stored_def intro: less_SucI split: if_splits)
  next
    fix b assume b: "b < length (cores s')"
    show "\<exists>j d. EntryID sha3 (cores s' ! b) = Some j \<and> map_of (ms_ids s') j = Some d \<and> b \<le> d"
    proof (cases "b = a")
      case True
      then show ?thesis using s'(1,2) by (simp add: ids c nth_append)
    next
      case False
      then have "b < length (cores s)" using b s'(1) by (simp add: c)
      then obtain j d where "EntryID sha3 (cores s ! b) = Some j" "map_of (ms_ids s) j = Some d" "b \<le> d"
        using w by (auto simp: well_stored_def)
      then show ?thesis using \<open>b < length (cores s)\<close> s'(1) by (auto simp: ids c nth_append)
    qed
  qed
qed

section \<open>Inputs\<close>

definition input_kind :: "entry \<Rightarrow> bool" where
  "input_kind e \<longleftrightarrow> is_input (Some e)"

text \<open>The value that an input brings, as the mux has it: for the coinbase, the outputs of the transaction.\<close>

definition wire_value :: "tx_data \<Rightarrow> tx_input \<Rightarrow> asset_amount option" where
  "wire_value td inp =
     (case ti_TypedInput inp of
        None \<Rightarrow> None
      | Some (CoinbaseIn _) \<Rightarrow> Some \<lparr>aa_AssetId = Some BTMAssetID, aa_Amount = total_output (td_Outputs td)\<rparr>
      | Some _ \<Rightarrow> Some (input_AssetAmount inp))"

text \<open>The identifier of a spending input depends only on what it spends.\<close>

definition spends :: "tx_input \<Rightarrow> bool" where
  "spends inp = (case ti_TypedInput inp of Some (SpendIn _) \<Rightarrow> True | Some (VetoIn _) \<Rightarrow> True | _ \<Rightarrow> False)"

definition spend_ref :: "(bytes \<Rightarrow> bytes) \<Rightarrow> tx_input \<Rightarrow> hash option" where
  "spend_ref sha3 inp =
     Option.bind (input_SpentOutputID sha3 inp) (\<lambda>p.
       let x = \<lparr>sp_SpentOutputId = Some p, sp_WitnessDestination = None, sp_WitnessArguments = [], sp_Ordinal = 0\<rparr> in
       EntryID sha3 (case ti_TypedInput inp of Some (VetoIn _) \<Rightarrow> VetoInput x | _ \<Rightarrow> Spend x))"

lemma EntryID_spend:
  "EntryID sha3 (Spend x) = entry_hash sha3 ''spend1'' (hash_ptr (sp_SpentOutputId x))"
  "EntryID sha3 (VetoInput x) = entry_hash sha3 ''vetoInput1'' (hash_ptr (sp_SpentOutputId x))"
  by (simp_all add: EntryID_def entry_typ_def writeForHash_def)

definition input_source :: "(bytes \<Rightarrow> bytes) \<Rightarrow> tx_data \<Rightarrow> entry set \<Rightarrow> tx_input \<Rightarrow> value_source option \<Rightarrow> bool" where
  "input_source sha3 td E inp src \<longleftrightarrow>
     (case src of
        None \<Rightarrow> ti_TypedInput inp = None
      | Some l \<Rightarrow>
          vl_Value l = wire_value td inp \<and> wire_value td inp \<noteq> None \<and>
          (spends inp \<longrightarrow> vl_Ref l = spend_ref sha3 inp) \<and> vl_Ref l \<noteq> None \<and> (\<exists>e \<in> E. input_kind e \<and> EntryID sha3 e = vl_Ref l))"

lemma input_source_mono: "input_source sha3 td E inp src \<Longrightarrow> E \<subseteq> E' \<Longrightarrow> input_source sha3 td E' inp src"
  unfolding input_source_def by (cases src) auto

definition plain :: "entry \<Rightarrow> bool" where
  "plain e = (case e of Mux _ \<Rightarrow> False | TxHeader _ \<Rightarrow> False | _ \<Rightarrow> True)"

lemmas map_op_simps = bindE_apply thenE_apply returnE_def throwE_def modifyE_def getsE_def

lemma stored_frame:
  assumes "ms_objs s' = ms_objs s" "ms_ids s' = ms_ids s"
  shows "cores s' = cores s" "well_stored sha3 s' = well_stored sha3 s"
  using assms by (simp_all add: well_stored_def cores_def)

lemma add_one:
  assumes "bindE (addNew sha3 e) (\<lambda>(k, a). thenE (modifyE (g a)) (returnE (r k))) s = (Inr src, s')"
    "well_stored sha3 s" "\<And>a s. ms_objs (g a s) = ms_objs s \<and> ms_ids (g a s) = ms_ids s"
  shows "well_stored sha3 s' \<and> (\<exists>k. EntryID sha3 e = Some k \<and> cores s' = cores s @ [core e] \<and> src = r k)"
proof -
  from assms(1) obtain k a s1 where 1: "addNew sha3 e s = (Inr (k, a), s1)" and s': "s' = g a s1" "src = r k"
    by (auto simp: bindE_Inr_iff thenE_Inr_iff modifyE_def returnE_def)
  have "cores s' = cores s1" "well_stored sha3 s' = well_stored sha3 s1"
    using stored_frame [of s' s1] assms(3) [of a s1] by (simp_all add: s')
  with addNew_spec [OF 1] assms(2) s'(2) show ?thesis by auto
qed

lemma add_two:
  assumes "bindE (addNew sha3 e) (\<lambda>(k, _). bindE (addNew sha3 (f k)) (\<lambda>(k', a).
      thenE (modifyE (g a)) (returnE (r k')))) s = (Inr src, s')"
    "well_stored sha3 s" "\<And>a s. ms_objs (g a s) = ms_objs s \<and> ms_ids (g a s) = ms_ids s"
  shows "well_stored sha3 s' \<and> (\<exists>k k'. EntryID sha3 e = Some k \<and> EntryID sha3 (f k) = Some k' \<and>
    cores s' = cores s @ [core e, core (f k)] \<and> src = r k')"
proof -
  from assms(1) obtain k a s1 where 1: "addNew sha3 e s = (Inr (k, a), s1)"
      and 2: "bindE (addNew sha3 (f k)) (\<lambda>(k', a). thenE (modifyE (g a)) (returnE (r k'))) s1 = (Inr src, s')"
    by (auto simp: bindE_Inr_iff [where m = "addNew sha3 e"])
  from addNew_spec(6) [OF 1 assms(2)] have "well_stored sha3 s1" .
  from add_one [OF 2 this assms(3)] addNew_spec(2,4) [OF 1] show ?thesis by auto
qed

lemma map_input_spec:
  assumes "map_input sha3 td (i, inp) s = (Inr src, s')" "well_stored sha3 s"
  shows "well_stored sha3 s' \<and> (\<exists>es. cores s' = cores s @ es \<and> list_all plain es \<and>
    input_source sha3 td (set es) inp src)"
proof (cases "ti_TypedInput inp")
  case None
  then show ?thesis using assms by (auto simp: map_input_def returnE_def input_source_def)
next
  case (Some x)
  note ok = assms(1) [unfolded map_input_def prod.case Some option.case Let_def]
  note kinds = plain_def core_def input_source_def wire_value_def new_source_def input_kind_def is_input_def
    input_AssetAmount_def spends_def spend_ref_def input_SpentOutputID_def ComputeOutputID_def SpendInputType_def
    VetoInputType_def Some
  show ?thesis
  proof (cases x)
    case (SpendIn y)
    from add_two [OF ok [unfolded SpendIn typed_input.case] assms(2)] show ?thesis
      by (auto simp: kinds EntryID_spend SpendIn)
  next
    case (VetoIn y)
    from add_two [OF ok [unfolded VetoIn typed_input.case] assms(2)] show ?thesis
      by (auto simp: kinds EntryID_spend VetoIn)
  next
    case (CrossChainIn y)
    from add_two [OF ok [unfolded CrossChainIn typed_input.case] assms(2)] show ?thesis
      by (auto simp: kinds CrossChainIn)
  next
    case (CoinbaseIn y)
    from add_one [OF ok [unfolded CoinbaseIn typed_input.case] assms(2)] show ?thesis
      by (auto simp: kinds CoinbaseIn)
  qed
qed

lemma map_inputs_spec:
  "mapE (map_input sha3 td) xs s = (Inr srcs, s') \<Longrightarrow> well_stored sha3 s \<Longrightarrow>
   well_stored sha3 s' \<and> (\<exists>es. cores s' = cores s @ es \<and> list_all plain es \<and>
     list_all2 (\<lambda>x. input_source sha3 td (set es) (snd x)) xs srcs)"
proof (induction xs arbitrary: s srcs)
  case Nil
  then show ?case by (simp add: returnE_def)
next
  case (Cons x xs)
  obtain i inp where x: "x = (i, inp)" by (cases x)
  from Cons.prems(1) obtain src s1 srcs' where 1: "map_input sha3 td (i, inp) s = (Inr src, s1)"
      and 2: "mapE (map_input sha3 td) xs s1 = (Inr srcs', s')" and srcs: "srcs = src # srcs'"
    by (auto simp: bindE_Inr_iff returnE_def x)
  from map_input_spec [OF 1 Cons.prems(2)] obtain es where w: "well_stored sha3 s1" and es: "cores s1 = cores s @ es"
      "list_all plain es" "input_source sha3 td (set es) inp src" by blast
  from Cons.IH [OF 2 w] obtain fs where w': "well_stored sha3 s'" and fs: "cores s' = cores s1 @ fs" "list_all plain fs"
      "list_all2 (\<lambda>x. input_source sha3 td (set fs) (snd x)) xs srcs'" by blast
  have "list_all2 (\<lambda>x. input_source sha3 td (set (es @ fs)) (snd x)) (x # xs) (src # srcs')"
    using input_source_mono [OF es(3)] list_all2_mono [OF fs(3)] input_source_mono by (simp add: x)
  then show ?case using w' es(1,2) fs(1,2) srcs by (intro conjI exI [of _ "es @ fs"]) simp_all
qed

section \<open>Connecting the inputs\<close>

text \<open>Only witnesses change, and not that of the mux.\<close>

definition quiet :: "map_state \<Rightarrow> map_state \<Rightarrow> bool" where
  "quiet s s' \<longleftrightarrow> cores s' = cores s \<and> ms_ids s' = ms_ids s \<and> (\<forall>a m. ms_objs s ! a = Mux m \<longrightarrow> ms_objs s' ! a = Mux m)"

lemma quiet_refl [simp]: "quiet s s"
  by (simp add: quiet_def)

lemma quiet_trans: "quiet a b \<Longrightarrow> quiet b c \<Longrightarrow> quiet a c"
  by (simp add: quiet_def)

lemma quiet_setObj:
  assumes "setObj a e s = (Inr (), s')" "core e = core (ms_objs s ! a)" "\<And>m. ms_objs s ! a \<noteq> Mux m"
  shows "quiet s s'"
proof (cases "a < length (ms_objs s)")
  case False
  then have "(ms_objs s)[a := e] = ms_objs s" by (simp add: list_update_beyond)
  then have "s' = s" using assms(1) by (simp add: setObj_def modifyE_def)
  then show ?thesis by simp
next
  case True
  have s': "s' = s\<lparr>ms_objs := (ms_objs s)[a := e]\<rparr>" using assms(1) by (simp add: setObj_def modifyE_def)
  have "cores s' = (cores s)[a := cores s ! a]"
    using True assms(2) by (simp add: s' cores_def map_update)
  moreover have "ms_objs s' ! b = Mux m" if "ms_objs s ! b = Mux m" for b m
    using that assms(3) by (cases "b = a") (auto simp: s')
  ultimately show ?thesis by (simp add: quiet_def s')
qed

lemma quiet_connect_spend: "connect_spend muxID a s = (Inr (), s') \<Longrightarrow> quiet s s'"
  by (auto simp: connect_spend_def core_def split: entry.splits option.splits elim!: quiet_setObj)

lemma quiet_connect_veto: "connect_veto muxID a s = (Inr (), s') \<Longrightarrow> quiet s s'"
  by (auto simp: connect_veto_def core_def split: entry.splits option.splits elim!: quiet_setObj)

lemma quiet_connect_crossin: "connect_crossin muxID a s = (Inr (), s') \<Longrightarrow> quiet s s'"
  by (auto simp: connect_crossin_def core_def split: entry.splits option.splits elim!: quiet_setObj)

lemma quiet_connect_coinbase: "connect_coinbase muxID srcs s = (Inr (), s') \<Longrightarrow> quiet s s'"
  by (auto simp: connect_coinbase_def core_def split: entry.splits option.splits list.splits
      elim!: quiet_setObj)

lemma quiet_forE:
  assumes "\<And>x s s'. f x s = (Inr (), s') \<Longrightarrow> quiet s s'"
  shows "forE f xs s = (Inr (), s') \<Longrightarrow> quiet s s'"
proof (induction xs arbitrary: s)
  case Nil
  then show ?case by (simp add: returnE_def quiet_def)
next
  case (Cons x xs)
  then show ?case using assms quiet_trans by (fastforce simp: thenE_Inr_iff)
qed

section \<open>Outputs\<close>

definition result_dest :: "hash \<Rightarrow> tx_output \<Rightarrow> value_destination" where
  "result_dest r out = \<lparr>vl_Ref = Some r, vl_Value = Some (output_AssetAmount out), vl_Position = 0\<rparr>"

text \<open>The entries of the results: all of them take their value from the mux.\<close>

definition from_mux :: "hash \<Rightarrow> entry \<Rightarrow> bool" where
  "from_mux mid e =
     (case e of
        IntraChainOutput x \<Rightarrow> vl_Ref (out_Source x) = Some mid
      | CrossChainOutput x \<Rightarrow> vl_Ref (out_Source x) = Some mid
      | VoteOutput x \<Rightarrow> vl_Ref (out_Source (vote_Output x)) = Some mid
      | Retirement x \<Rightarrow> vl_Ref (ret_Source x) = Some mid
      | _ \<Rightarrow> False)"

lemma result_entry_from_mux: "result_entry (new_source mid v i) j out = Some e \<Longrightarrow> from_mux mid e \<and> core e = e"
  by (auto simp: result_entry_def Let_def from_mux_def new_source_def core_def split: if_splits option.splits typed_output.splits)

lemma map_output_spec:
  assumes "map_output sha3 mid a (i, out) s = (Inr r, s')" "well_stored sha3 s" "ms_objs s ! a = Mux m" "a < length (ms_objs s)"
  shows "well_stored sha3 s' \<and> ms_objs s' ! a = Mux (m\<lparr>mux_WitnessDestinations := mux_WitnessDestinations m @ [result_dest r out]\<rparr>) \<and>
    (\<exists>e. cores s' = cores s @ [e] \<and> EntryID sha3 e = Some r \<and> from_mux mid e)"
proof -
  from assms(1) obtain e b s1 where e: "result_entry (new_source mid (output_AssetAmount out) i) i out = Some e"
      and 1: "addNew sha3 e s = (Inr (r, b), s1)" and 2: "add_dest a (result_dest r out) s1 = (Inr (), s')"
    by (auto simp: map_output_def result_dest_def bindE_Inr_iff thenE_Inr_iff returnE_def throwE_def split: option.splits)
  note A = addNew_spec [OF 1]
  have m: "ms_objs s1 ! a = Mux m" "a < length (ms_objs s1)" using A(3) assms(3,4) by (simp_all add: nth_append)
  let ?m = "Mux (m\<lparr>mux_WitnessDestinations := mux_WitnessDestinations m @ [result_dest r out]\<rparr>)"
  have s': "s' = s1\<lparr>ms_objs := (ms_objs s1)[a := ?m]\<rparr>" using 2 m by (simp add: add_dest_def setObj_def modifyE_def)
  have "cores s' = (cores s1)[a := cores s1 ! a]"
    using m by (simp add: s' cores_def map_update core_def)
  then have c: "cores s' = cores s1" by simp
  then have "well_stored sha3 s'" using A(6) [OF assms(2)] by (simp add: well_stored_def s')
  moreover have "from_mux mid e" "core e = e" using result_entry_from_mux [OF e] by simp_all
  ultimately show ?thesis using A(2,4) m c by (simp add: s')
qed

lemma map_outputs_spec:
  "mapE (map_output sha3 mid a) xs s = (Inr rs, s') \<Longrightarrow> well_stored sha3 s \<Longrightarrow> ms_objs s ! a = Mux m \<Longrightarrow>
   a < length (ms_objs s) \<Longrightarrow>
   well_stored sha3 s' \<and> length rs = length xs \<and>
   ms_objs s' ! a = Mux (m\<lparr>mux_WitnessDestinations := mux_WitnessDestinations m @ map2 (\<lambda>r x. result_dest r (snd x)) rs xs\<rparr>) \<and>
   (\<exists>es. cores s' = cores s @ es \<and> map (EntryID sha3) es = map Some rs \<and> list_all (from_mux mid) es)"
proof (induction xs arbitrary: s rs m)
  case Nil
  then show ?case by (simp add: returnE_def)
next
  case (Cons x xs)
  obtain i out where x: "x = (i, out)" by (cases x)
  from Cons.prems(1) obtain r s1 rs' where 1: "map_output sha3 mid a (i, out) s = (Inr r, s1)"
      and 2: "mapE (map_output sha3 mid a) xs s1 = (Inr rs', s')" and rs: "rs = r # rs'"
    by (auto simp: bindE_Inr_iff returnE_def x)
  let ?m = "m\<lparr>mux_WitnessDestinations := mux_WitnessDestinations m @ [result_dest r out]\<rparr>"
  from map_output_spec [OF 1 Cons.prems(2-4)] obtain e where w: "well_stored sha3 s1" and m: "ms_objs s1 ! a = Mux ?m"
      and e: "cores s1 = cores s @ [e]" "EntryID sha3 e = Some r" "from_mux mid e" by blast
  have "a < length (ms_objs s1)" using e(1) Cons.prems(4) by (metis length_cores length_append trans_less_add1)
  from Cons.IH [OF 2 w m this] obtain es where IH: "well_stored sha3 s'" "length rs' = length xs"
      "ms_objs s' ! a = Mux (?m\<lparr>mux_WitnessDestinations := mux_WitnessDestinations ?m @ map2 (\<lambda>r x. result_dest r (snd x)) rs' xs\<rparr>)"
      "cores s' = cores s1 @ es" "map (EntryID sha3) es = map Some rs'" "list_all (from_mux mid) es" by blast
  then show ?case using e by (intro conjI exI [of _ "e # es"]) (simp_all add: rs x)
qed

section \<open>The mapped transaction\<close>

text \<open>
  The state at the end: objects of the inputs, the mux, the results and the header, in this order, and the
  fields of the mux and of the header.
\<close>

definition mapped :: "(bytes \<Rightarrow> bytes) \<Rightarrow> tx_data \<Rightarrow> hash \<Rightarrow> tx_header \<Rightarrow> map_state \<Rightarrow> hash \<Rightarrow> mux_entry \<Rightarrow> entry list \<Rightarrow> entry list \<Rightarrow> bool" where
  "mapped sha3 td txID hdr s muxID m ins outs \<longleftrightarrow>
     well_stored sha3 s \<and>
     cores s = ins @ [core (Mux m)] @ outs @ [TxHeader hdr] \<and> ms_objs s ! length ins = Mux m \<and>
     list_all plain ins \<and> list_all (from_mux muxID) outs \<and>
     EntryID sha3 (Mux m) = Some muxID \<and> EntryID sha3 (TxHeader hdr) = Some txID \<and>
     map_of (ms_ids s) txID = Some (length (ins @ [core (Mux m)] @ outs)) \<and>
     list_all2 (input_source sha3 td (set ins)) (td_Inputs td) (mux_Sources m) \<and>
     mux_WitnessDestinations m = map2 result_dest (th_ResultIds hdr) (td_Outputs td) \<and>
     map (EntryID sha3) outs = map Some (th_ResultIds hdr) \<and> length (th_ResultIds hdr) = length (td_Outputs td) \<and>
     th_Version hdr = td_Version td"

lemma map2_snd_enum: "length rs = length xs \<Longrightarrow> map2 (\<lambda>r x. f r (snd x)) rs (zip [0..<length xs] xs) = map2 f rs xs"
  by (intro nth_equalityI) simp_all

lemma list_all2_snd_enum:
  "list_all2 (\<lambda>x. P (snd x)) (zip [0..<length xs] xs) ys = list_all2 P xs ys"
  by (auto simp: list_all2_conv_all_nth)

lemma mapTx_mapped:
  assumes "mapTx sha3 td empty_map = (Inr (txID, hdr), s)"
  shows "\<exists>muxID m ins outs. mapped sha3 td txID hdr s muxID m ins outs"
proof -
  let ?ins = "zip [0..<length (td_Inputs td)] (td_Inputs td)" and ?outs = "zip [0..<length (td_Outputs td)] (td_Outputs td)"
  from assms obtain srcs s1 muxID a s2 s3 s4 s5 s6 rs s7 b where
      1: "mapE (map_input sha3 td) ?ins empty_map = (Inr srcs, s1)"
      and 2: "addNew sha3 (Mux \<lparr>mux_Sources = srcs, mux_Program = mux_program, mux_WitnessDestinations = [],
              mux_WitnessArguments = []\<rparr>) s1 = (Inr (muxID, a), s2)"
      and 3: "forE (connect_spend muxID) (ms_spends s2) s2 = (Inr (), s3)"
      and 4: "forE (connect_veto muxID) (ms_vetoInputs s3) s3 = (Inr (), s4)"
      and 5: "forE (connect_crossin muxID) (ms_crossIns s4) s4 = (Inr (), s5)"
      and 6: "connect_coinbase muxID srcs s5 = (Inr (), s6)"
      and 7: "mapE (map_output sha3 muxID a) ?outs s6 = (Inr rs, s7)"
      and 8: "addNew sha3 (TxHeader hdr) s7 = (Inr (txID, b), s)"
      and hdr: "th_ResultIds hdr = rs" "th_Version hdr = td_Version td"
    by (auto simp: mapTx_def Let_def bindE_Inr_iff thenE_Inr_iff returnE_def getsE_def)
  let ?m = "\<lparr>mux_Sources = srcs, mux_Program = mux_program, mux_WitnessDestinations = [], mux_WitnessArguments = []\<rparr>"
  from map_inputs_spec [OF 1 well_stored_empty] obtain ins where w1: "well_stored sha3 s1"
      and ins: "cores s1 = ins" "list_all plain ins" "list_all2 (\<lambda>x. input_source sha3 td (set ins) (snd x)) ?ins srcs"
    by (auto simp: empty_map_def cores_def)
  note A = addNew_spec [OF 2]
  have len: "a = length ins" using A(1) ins(1) by (metis length_cores)
  have "quiet s2 s3" by (rule quiet_forE [OF _ 3]) (rule quiet_connect_spend)
  moreover have "quiet s3 s4" by (rule quiet_forE [OF _ 4]) (rule quiet_connect_veto)
  moreover have "quiet s4 s5" by (rule quiet_forE [OF _ 5]) (rule quiet_connect_crossin)
  ultimately have "quiet s2 s6" using quiet_connect_coinbase [OF 6] quiet_trans by blast
  moreover have "ms_objs s2 ! a = Mux ?m" using A(1,3) by simp
  ultimately have m6: "ms_objs s6 ! a = Mux ?m" and c6: "cores s6 = ins @ [core (Mux ?m)]" and w6: "well_stored sha3 s6"
    using A(4) A(6) [OF w1] ins(1) by (auto simp: quiet_def well_stored_def)
  have "a < length (ms_objs s6)" using c6 len by (metis length_cores length_append length_Cons less_add_Suc1 list.size(3) add_Suc_right add_0_right lessI)
  from map_outputs_spec [OF 7 w6 m6 this] obtain outs where w7: "well_stored sha3 s7" and rs: "length rs = length (td_Outputs td)"
      and m7: "ms_objs s7 ! a = Mux (?m\<lparr>mux_WitnessDestinations := map2 result_dest rs (td_Outputs td)\<rparr>)"
      and outs: "cores s7 = cores s6 @ outs" "map (EntryID sha3) outs = map Some rs" "list_all (from_mux muxID) outs"
    by (auto simp: map2_snd_enum)
  let ?m' = "?m\<lparr>mux_WitnessDestinations := map2 result_dest rs (td_Outputs td)\<rparr>"
  note B = addNew_spec [OF 8]
  have eq: "core (Mux ?m') = core (Mux ?m)" by (simp add: core_def)
  have hc: "core (TxHeader hdr) = TxHeader hdr" by (simp add: core_def)
  have len7: "length (ms_objs s7) = length (ins @ [core (Mux ?m')] @ outs)"
    using outs(1) c6 length_cores [of s7] by (simp add: eq)
  have id: "EntryID sha3 (Mux ?m') = Some muxID" using A(2) eq by (metis EntryID_core)
  have "ms_objs s ! length ins = Mux ?m'" using B(3) m7 len len7 by (simp add: nth_append)
  then have "mapped sha3 td txID hdr s muxID ?m' ins outs"
    using B(1,2,4,5) B(6) [OF w7] ins(2,3) outs(2,3) c6 outs(1) hdr rs id len7 eq
    by (simp add: mapped_def hc list_all2_snd_enum)
  then show ?thesis by blast
qed

text \<open>
  No identifier of the transaction is the zero hash, and entries of different types have different identifiers:
  what is used of the collision resistance of SHA3.
\<close>

definition hash_clean :: "(bytes \<Rightarrow> bytes) \<Rightarrow> tx_data \<Rightarrow> bool" where
  "hash_clean sha3 td \<longleftrightarrow>
     (let es = ms_objs (snd (mapTx sha3 td empty_map)) in
      list_all (\<lambda>e. EntryID sha3 e \<noteq> Some zeroHash) es \<and>
      list_all (\<lambda>e. list_all (\<lambda>e'. EntryID sha3 e = EntryID sha3 e' \<longrightarrow>
        EntryID sha3 e = None \<or> entry_typ e = entry_typ e') es) es)"

lemma hash_cleanD:
  assumes "hash_clean sha3 td" "mapTx sha3 td empty_map = (r, s)" "a < length (ms_objs s)" "b < length (ms_objs s)"
  shows "EntryID sha3 (cores s ! a) \<noteq> Some zeroHash"
    "EntryID sha3 (cores s ! a) = Some k \<Longrightarrow> EntryID sha3 (cores s ! b) = Some k \<Longrightarrow>
      entry_typ (cores s ! a) = entry_typ (cores s ! b)"
proof -
  have objs: "ms_objs (snd (mapTx sha3 td empty_map)) = ms_objs s" by (simp add: assms(2))
  have 1: "\<forall>e \<in> set (ms_objs s). EntryID sha3 e \<noteq> Some zeroHash"
    and 2: "\<forall>e \<in> set (ms_objs s). \<forall>e' \<in> set (ms_objs s). EntryID sha3 e = EntryID sha3 e' \<longrightarrow>
      EntryID sha3 e = None \<or> entry_typ e = entry_typ e'"
    using assms(1) unfolding hash_clean_def list_all_iff Let_def objs by (rule conjunct1, rule conjunct2)
  note mem = nth_mem [OF assms(3)] nth_mem [OF assms(4)]
  show "EntryID sha3 (cores s ! a) \<noteq> Some zeroHash"
    using bspec [OF 1 mem(1)] unfolding nth_cores [OF assms(3)] EntryID_core .
  show "entry_typ (cores s ! a) = entry_typ (cores s ! b)" if "EntryID sha3 (cores s ! a) = Some k" "EntryID sha3 (cores s ! b) = Some k"
    using bspec [OF bspec [OF 2 mem(1)] mem(2)] that
    unfolding nth_cores [OF assms(3)] nth_cores [OF assms(4)] EntryID_core entry_typ_core by simp
qed

text \<open>What the map has under the identifier of an object: that object or a later one, of the same type.\<close>

lemma stored_later:
  assumes "hash_clean sha3 td" "mapTx sha3 td empty_map = (r, s)" "well_stored sha3 s"
    "a < length (ms_objs s)" "EntryID sha3 (cores s ! a) = Some k"
  obtains b where "a \<le> b" "b < length (ms_objs s)" "entries_of s k = Some (ms_objs s ! b)"
    "entry_typ (cores s ! b) = entry_typ (cores s ! a)"
proof -
  have "\<exists>k' b. EntryID sha3 (cores s ! a) = Some k' \<and> map_of (ms_ids s) k' = Some b \<and> a \<le> b"
    using assms(3,4) unfolding well_stored_def length_cores by blast
  then obtain b where b: "a \<le> b" "map_of (ms_ids s) k = Some b" using assms(5) by auto
  have B: "b < length (ms_objs s)" "EntryID sha3 (cores s ! b) = Some k"
    using assms(3) b(2) unfolding well_stored_def length_cores by blast+
  have "entry_typ (cores s ! b) = entry_typ (cores s ! a)"
    by (rule hash_cleanD(2) [OF assms(1,2) B(1) assms(4) B(2) assms(5)])
  then show ?thesis using b B(1) by (intro that [of b]) (simp_all add: entries_of_def)
qed

lemma from_mux_core: "from_mux mid (core e) = from_mux mid e"
  by (cases e) (simp_all add: from_mux_def core_def)

lemma from_mux_typ: "from_mux mid e \<Longrightarrow> entry_typ e \<notin> {''mux1'', ''txheader''}"
  by (cases e) (simp_all add: from_mux_def entry_typ_def)

lemma input_kind_typ: "input_kind e \<longleftrightarrow> entry_typ e \<in> {''spend1'', ''vetoInput1'', ''crosschaininput1'', ''coinbase1''}"
  by (cases e) (simp_all add: input_kind_def is_input_def entry_typ_def)

lemma from_mux_source:
  "tx_Entries t r = Some e \<Longrightarrow> from_mux mid e \<Longrightarrow> Option.bind (result_source t r) vl_Ref = Some mid"
  by (cases e) (simp_all add: from_mux_def result_source_def)

lemma MapTx_entries:
  assumes "MapTx sha3 visit td = Some t"
  obtains s where "mapTx sha3 td empty_map = (Inr (tx_ID t, tx_Header t), s)" "tx_Entries t = entries_of s"
  using assms that by (auto simp: MapTx_def split: prod.splits sum.splits option.splits)

lemma MapTx_ids_ok:
  assumes "MapTx sha3 visit td = Some t" "hash_clean sha3 td"
  shows "ids_ok sha3 t"
proof -
  from MapTx_entries [OF assms(1)] obtain s where run: "mapTx sha3 td empty_map = (Inr (tx_ID t, tx_Header t), s)"
      and t: "tx_Entries t = entries_of s" .
  from mapTx_mapped [OF run] obtain muxID m ins outs where M: "mapped sha3 td (tx_ID t) (tx_Header t) s muxID m ins outs"
    by blast
  then have w: "well_stored sha3 s" and hdr: "EntryID sha3 (TxHeader (tx_Header t)) = Some (tx_ID t)"
    and last: "map_of (ms_ids s) (tx_ID t) = Some (length (ins @ [core (Mux m)] @ outs))"
    and c: "cores s = ins @ [core (Mux m)] @ outs @ [TxHeader (tx_Header t)]" by (simp_all add: mapped_def)
  let ?n = "length (ins @ [core (Mux m)] @ outs)"
  have n: "?n < length (ms_objs s)" using c length_cores [of s] by simp
  have hc: "core (ms_objs s ! ?n) = TxHeader (tx_Header t)" using nth_cores [OF n] by (simp add: c nth_append)
  have stored: "a < length (ms_objs s) \<and> EntryID sha3 (ms_objs s ! a) = Some i" if "map_of (ms_ids s) i = Some a" for i a
  proof -
    have "a < length (cores s) \<and> EntryID sha3 (cores s ! a) = Some i" using w that unfolding well_stored_def by blast
    then show ?thesis by (auto simp: nth_cores)
  qed
  have "entries_of s zeroHash = None"
  proof (rule ccontr)
    assume "entries_of s zeroHash \<noteq> None"
    then obtain a where "map_of (ms_ids s) zeroHash = Some a" by (auto simp: entries_of_def)
    with stored [OF this] hash_cleanD(1) [OF assms(2) run, of a a] show False by (simp add: nth_cores)
  qed
  moreover have "tx_ID t \<noteq> zeroHash"
    using hash_cleanD(1) [OF assms(2) run n n] hdr unfolding nth_cores [OF n] hc by auto
  moreover have "e = TxHeader (tx_Header t)" if "tx_Entries t (tx_ID t) = Some e" for e
    using that hc last by (cases "ms_objs s ! ?n") (auto simp: t entries_of_def core_def)
  moreover have "EntryID sha3 e = Some i" if "tx_Entries t i = Some e" for i e
    using that stored by (auto simp: t entries_of_def)
  ultimately show ?thesis using hdr by (simp add: ids_ok_def t)
qed

lemma mapped_positions:
  assumes "mapped sha3 td txID hdr s muxID m ins outs"
  shows "length (ms_objs s) = length ins + length outs + 2"
    and "i < length ins \<Longrightarrow> cores s ! i = ins ! i" "cores s ! length ins = core (Mux m)"
    and "i < length outs \<Longrightarrow> cores s ! (length ins + 1 + i) = outs ! i"
    and "length ins < b \<Longrightarrow> b < length (ms_objs s) \<Longrightarrow> from_mux muxID (cores s ! b) \<or> cores s ! b = TxHeader hdr"
proof -
  have c: "cores s = ins @ [core (Mux m)] @ outs @ [TxHeader hdr]" using assms by (simp add: mapped_def)
  then show len: "length (ms_objs s) = length ins + length outs + 2" using length_cores [of s] by simp
  show "i < length ins \<Longrightarrow> cores s ! i = ins ! i" "cores s ! length ins = core (Mux m)"
    "i < length outs \<Longrightarrow> cores s ! (length ins + 1 + i) = outs ! i" by (simp_all add: c nth_append)
  assume b: "length ins < b" "b < length (ms_objs s)"
  define j where "j = b - length ins - 1"
  have j: "b = length ins + 1 + j" "j \<le> length outs" using b len by (simp_all add: j_def)
  show "from_mux muxID (cores s ! b) \<or> cores s ! b = TxHeader hdr"
  proof (cases "j < length outs")
    case True
    then have "cores s ! b = outs ! j" by (simp add: j c nth_append)
    then show ?thesis using assms True by (simp add: mapped_def list_all_length)
  next
    case False
    then show ?thesis using j by (simp add: c nth_append)
  qed
qed

lemma MapTx_one_mux:
  assumes "MapTx sha3 visit td = Some t" "hash_clean sha3 td" "td_Outputs td \<noteq> []"
  obtains muxID m where "one_mux t muxID m" "list_all2 (\<lambda>inp src. \<exists>E. input_source sha3 td E inp src) (td_Inputs td) (mux_Sources m)"
    "mux_WitnessDestinations m = map2 result_dest (th_ResultIds (tx_Header t)) (td_Outputs td)"
    "length (th_ResultIds (tx_Header t)) = length (td_Outputs td)"
proof -
  from MapTx_entries [OF assms(1)] obtain s where run: "mapTx sha3 td empty_map = (Inr (tx_ID t, tx_Header t), s)"
      and t: "tx_Entries t = entries_of s" .
  from mapTx_mapped [OF run] obtain muxID m ins outs where M: "mapped sha3 td (tx_ID t) (tx_Header t) s muxID m ins outs"
    by blast
  note pos = mapped_positions [OF M]
  have w: "well_stored sha3 s" and mux: "EntryID sha3 (Mux m) = Some muxID" and mobj: "ms_objs s ! length ins = Mux m"
    and srcs: "list_all2 (input_source sha3 td (set ins)) (td_Inputs td) (mux_Sources m)"
    and rs: "map (EntryID sha3) outs = map Some (th_ResultIds (tx_Header t))" "length (th_ResultIds (tx_Header t)) = length (td_Outputs td)"
    and outs: "list_all (from_mux muxID) outs"
    using M by (simp_all add: mapped_def)
  have "entries_of s muxID = Some (Mux m)"
  proof -
    have "length ins < length (ms_objs s)" "EntryID sha3 (cores s ! length ins) = Some muxID" using pos(1) mux by (simp_all add: pos(3))
    from stored_later [OF assms(2) run w this] obtain b where b: "length ins \<le> b" "b < length (ms_objs s)"
        "entries_of s muxID = Some (ms_objs s ! b)" "entry_typ (cores s ! b) = entry_typ (cores s ! length ins)" .
    have "b = length ins"
    proof (rule ccontr)
      assume "b \<noteq> length ins"
      with b(1,2) pos(5) [of b] b(4) from_mux_typ [of muxID "cores s ! b"] show False
        by (auto simp: pos(3) core_def entry_typ_def)
    qed
    with b(3) mobj show ?thesis by simp
  qed
  moreover have "Option.bind (result_source t r) vl_Ref = Some muxID" if "r \<in> set (th_ResultIds (tx_Header t))" for r
  proof -
    from that obtain j where j: "j < length (th_ResultIds (tx_Header t))" "r = th_ResultIds (tx_Header t) ! j"
      by (auto simp: in_set_conv_nth)
    have len: "length outs = length (th_ResultIds (tx_Header t))" using rs(1) by (metis length_map)
    then have "EntryID sha3 (outs ! j) = Some r" using rs(1) j by (metis nth_map)
    then have a: "length ins + 1 + j < length (ms_objs s)" "EntryID sha3 (cores s ! (length ins + 1 + j)) = Some r"
      using pos(1) pos(4) [of j] len j(1) by simp_all
    from stored_later [OF assms(2) run w this] obtain b where b: "length ins + 1 + j \<le> b" "b < length (ms_objs s)"
        "entries_of s r = Some (ms_objs s ! b)" "entry_typ (cores s ! b) = entry_typ (cores s ! (length ins + 1 + j))" .
    have "from_mux muxID (outs ! j)" using outs len j(1) by (simp add: list_all_length)
    with pos(4) [of j] len j(1) b(4) from_mux_typ have "cores s ! b \<noteq> TxHeader (tx_Header t)"
      by (fastforce simp: entry_typ_def)
    with pos(5) [of b] b(1,2) have "from_mux muxID (cores s ! b)" by simp
    with b(2) have "from_mux muxID (ms_objs s ! b)" by (simp add: nth_cores from_mux_core)
    with b(3) show ?thesis by (intro from_mux_source) (simp_all add: t)
  qed
  moreover have "is_input (tx_Entries t i)" if "i \<in> mux_inputs m" for i
  proof -
    from that obtain src where src: "src \<in> set (mux_Sources m)" "Option.bind src vl_Ref = Some i" by (auto simp: mux_inputs_iff)
    with srcs obtain inp where "input_source sha3 td (set ins) inp src" by (auto simp: list_all2_conv_all_nth in_set_conv_nth)
    with src(2) obtain e where "e \<in> set ins" and e: "input_kind e" "EntryID sha3 e = Some i"
      by (cases src) (auto simp: input_source_def)
    then obtain a where a: "a < length ins" "e = ins ! a" by (auto simp: in_set_conv_nth)
    then have A: "a < length (ms_objs s)" "EntryID sha3 (cores s ! a) = Some i" using pos(1) pos(2) [of a] e(2) by simp_all
    from stored_later [OF assms(2) run w this] obtain b where b: "b < length (ms_objs s)"
        "entries_of s i = Some (ms_objs s ! b)" "entry_typ (cores s ! b) = entry_typ (cores s ! a)" .
    then have "input_kind (ms_objs s ! b)" using e(1) pos(2) [OF a(1)] a(2) by (simp add: input_kind_typ nth_cores)
    with b(2) show ?thesis by (simp add: t input_kind_def)
  qed
  ultimately have "one_mux t muxID m" using assms(3) rs(2) by (auto simp: one_mux_def t list_all_iff)
  moreover have "list_all2 (\<lambda>inp src. \<exists>E. input_source sha3 td E inp src) (td_Inputs td) (mux_Sources m)"
    by (rule list_all2_mono [OF srcs]) blast
  ultimately show ?thesis using M by (intro that) (auto simp: mapped_def)
qed

section \<open>Valid transactions\<close>

lemma wire_amounts:
  assumes "list_all2 (\<lambda>inp src. \<exists>E. input_source sha3 td E inp src) inps srcs"
  shows "sum_list (map (link_amount a) srcs) = (\<Sum>inp \<leftarrow> inps. amount_of a (wire_value td inp))"
  using assms
proof (induction inps srcs rule: list_all2_induct)
  case (Cons inp inps src srcs)
  have "link_amount a src = amount_of a (wire_value td inp)"
    using Cons(1) by (cases src) (auto simp: input_source_def link_amount_def amount_of_def wire_value_def)
  with Cons show ?case by simp
qed simp

lemma wire_outputs:
  "length rs = length outs \<Longrightarrow>
   sum_list (map (\<lambda>d. link_amount a (Some d)) (map2 result_dest rs outs)) =
   (\<Sum>out \<leftarrow> outs. amount_of a (Some (output_AssetAmount out)))"
  by (induction rs outs rule: list_induct2) (simp_all add: link_amount_def result_dest_def)

lemma validated_outputs:
  assumes "MapTx (sha3_of V) visit td = Some (v_tx V)" "hash_clean (sha3_of V) td" "blk_Version (v_block V) = 1"
    "ValidateTx V n h = (g, Inr ())"
  shows "td_Outputs td \<noteq> []"
proof -
  from MapTx_entries [OF assms(1)] obtain s
    where "mapTx (sha3_of V) td empty_map = (Inr (tx_ID (v_tx V), tx_Header (v_tx V)), s)" .
  from mapTx_mapped [OF this] have len: "length (th_ResultIds (tx_Header (v_tx V))) = length (td_Outputs td)"
    by (auto simp: mapped_def)
  have "th_Version (tx_Header (v_tx V)) = 1"
    using assms(3,4) by (auto simp: ValidateTx_def ValidateTx_mem_def Let_def split: if_splits)
  with validated [OF MapTx_ids_ok [OF assms(1,2)] assms(4)] have "th_ResultIds (tx_Header (v_tx V)) \<noteq> []" by blast
  with len show ?thesis by auto
qed

text \<open>
  Property C1: for a wire transaction that is valid in a block of version 1, and every asset, what the outputs
  receive is exactly what the inputs bring, except for BTM, where the difference is a fee that is not
  negative.  The amounts are the ones on the wire; they do not wrap.
\<close>

theorem wire_value_conserved:
  assumes "MapTx (sha3_of V) visit td = Some (v_tx V)" "hash_clean (sha3_of V) td" "blk_Version (v_block V) = 1"
    "ValidateTx V n h = (g, Inr ())"
  shows "\<exists>fee \<ge> 0. \<forall>a.
    int (\<Sum>inp \<leftarrow> td_Inputs td. amount_of a (wire_value td inp)) =
    int (\<Sum>out \<leftarrow> td_Outputs td. amount_of a (Some (output_AssetAmount out))) + (if a = BTMAssetID then fee else 0)"
proof -
  note ids = MapTx_ids_ok [OF assms(1,2)]
  from MapTx_one_mux [OF assms(1,2) validated_outputs [OF assms]] obtain mid m where m: "one_mux (v_tx V) mid m"
      and srcs: "list_all2 (\<lambda>inp src. \<exists>E. input_source (sha3_of V) td E inp src) (td_Inputs td) (mux_Sources m)"
      and dests: "mux_WitnessDestinations m = map2 result_dest (th_ResultIds (tx_Header (v_tx V))) (td_Outputs td)"
      and len: "length (th_ResultIds (tx_Header (v_tx V))) = length (td_Outputs td)" .
  from validated_mux [OF ids assms(4) m] obtain c where "entry_ok (v_tx V) mid (Mux m) c" .
  then obtain fee where fee: "fee \<ge> 0" "mux_balance m = Inr fee" by (auto simp: entry_ok_def)
  from mux_balanced [OF fee(2)] have "int (\<Sum>inp \<leftarrow> td_Inputs td. amount_of a (wire_value td inp)) =
      int (\<Sum>out \<leftarrow> td_Outputs td. amount_of a (Some (output_AssetAmount out))) + (if a = BTMAssetID then fee else 0)" for a
    unfolding wire_amounts [OF srcs, symmetric] wire_outputs [OF len, symmetric] dests .
  with fee(1) show ?thesis by blast
qed

text \<open>
  Property C2: no two inputs of a valid wire transaction that are both spends, or both vetoes, unlock the same output.
\<close>

theorem wire_no_double_spend:
  assumes "MapTx (sha3_of V) visit td = Some (v_tx V)" "hash_clean (sha3_of V) td" "blk_Version (v_block V) = 1"
    "ValidateTx V n h = (g, Inr ())" "i < j" "j < length (td_Inputs td)"
    "ti_TypedInput (td_Inputs td ! i) = Some x" "ti_TypedInput (td_Inputs td ! j) = Some y"
    "InputType x = InputType y" "spends (td_Inputs td ! i)"
  shows "input_SpentOutputID (sha3_of V) (td_Inputs td ! i) \<noteq> input_SpentOutputID (sha3_of V) (td_Inputs td ! j)"
proof
  assume same: "input_SpentOutputID (sha3_of V) (td_Inputs td ! i) = input_SpentOutputID (sha3_of V) (td_Inputs td ! j)"
  note ids = MapTx_ids_ok [OF assms(1,2)]
  from MapTx_one_mux [OF assms(1,2) validated_outputs [OF assms(1-4)]] obtain mid m where m: "one_mux (v_tx V) mid m"
      and srcs: "list_all2 (\<lambda>inp src. \<exists>E. input_source (sha3_of V) td E inp src) (td_Inputs td) (mux_Sources m)" .
  from validated_mux [OF ids assms(4) m] obtain c where c: "sound (v_tx V) c" "entry_ok (v_tx V) mid (Mux m) c" .
  have links: "\<forall>(j, src) \<in> set (enumerate_from (mux_Sources m)). src_link (v_tx V) mid j src c"
    using c(2) by (simp add: entry_ok_def)
  have "\<forall>i \<in> mux_inputs m. is_input (tx_Entries (v_tx V) i)" using m by (simp add: one_mux_def)
  note inj = sources_inputs(1) [OF c(1) links this]
  have len: "length (mux_Sources m) = length (td_Inputs td)" using srcs by (simp add: list_all2_lengthD)
  have spends: "spends (td_Inputs td ! j)" using assms(7-10)
    by (auto simp: spends_def InputType_def SpendInputType_def VetoInputType_def CoinbaseInputType_def CrossChainInputType_def
        split: typed_input.splits)
  have ref: "Option.bind (mux_Sources m ! k) vl_Ref = spend_ref (sha3_of V) (td_Inputs td ! k)"
    if "k < length (td_Inputs td)" "spends (td_Inputs td ! k)" for k
    using list_all2_nthD [OF srcs that(1)] that(2)
    by (cases "mux_Sources m ! k") (auto simp: input_source_def spends_def)
  have "spend_ref (sha3_of V) (td_Inputs td ! i) = spend_ref (sha3_of V) (td_Inputs td ! j)"
    using assms(7-10) same
    by (auto simp: spend_ref_def InputType_def SpendInputType_def VetoInputType_def CoinbaseInputType_def
        CrossChainInputType_def spends_def split: typed_input.splits)
  then have "i = j" using assms(5,6) ref assms(10) spends len by (intro inj_onD [OF inj]) auto
  with assms(5) show False by simp
qed

text \<open>
  Property C25: the entries of a mapped transaction are well typed: the identifier of the transaction leads to its
  header, every result of the header to an output or a retirement, all of these to one mux, and every source
  of the mux to an input; there is a result for every output and a source for every input.
\<close>

theorem MapTx_well_typed:
  assumes "MapTx sha3 visit td = Some t" "hash_clean sha3 td" "td_Outputs td \<noteq> []"
  shows "tx_Entries t (tx_ID t) = Some (TxHeader (tx_Header t)) \<and>
    length (th_ResultIds (tx_Header t)) = length (td_Outputs td) \<and>
    (\<exists>mid m. tx_Entries t mid = Some (Mux m) \<and> length (mux_Sources m) = length (td_Inputs td) \<and>
      (\<forall>r \<in> set (th_ResultIds (tx_Header t)). Option.bind (result_source t r) vl_Ref = Some mid) \<and>
      (\<forall>i \<in> mux_inputs m. is_input (tx_Entries t i)))"
proof -
  from MapTx_one_mux [OF assms] obtain mid m where m: "one_mux t mid m"
      "list_all2 (\<lambda>inp src. \<exists>E. input_source sha3 td E inp src) (td_Inputs td) (mux_Sources m)"
      "length (th_ResultIds (tx_Header t)) = length (td_Outputs td)" .
  from MapTx_entries [OF assms(1)] obtain s where run: "mapTx sha3 td empty_map = (Inr (tx_ID t, tx_Header t), s)"
      and t: "tx_Entries t = entries_of s" .
  with mapTx_mapped [OF run] have "tx_Entries t (tx_ID t) \<noteq> None" by (auto simp: mapped_def entries_of_def)
  with MapTx_ids_ok [OF assms(1,2)] have "tx_Entries t (tx_ID t) = Some (TxHeader (tx_Header t))" by (auto simp: ids_ok_def)
  with m show ?thesis by (auto simp: one_mux_def list_all_iff list_all2_lengthD)
qed

text \<open>
  Property C40: \<^verbatim>\<open>MapTx\<close> panics on a transaction with an output that has no typed part, whatever its
  other parts are.
\<close>

theorem MapTx_untyped_output:
  assumes "out \<in> set (td_Outputs td)" "txo_TypedOutput out = None"
  shows "MapTx sha3 visit td = None"
proof (rule ccontr)
  assume "MapTx sha3 visit td \<noteq> None"
  then obtain muxID mux s rs s' where "mapE (map_output sha3 muxID mux) (zip [0..<length (td_Outputs td)] (td_Outputs td)) s = (Inr rs, s')"
    by (auto simp: MapTx_def mapTx_def Let_def bindE_Inr_iff thenE_Inr_iff split: prod.splits sum.splits)
  moreover obtain i where "(i, out) \<in> set (zip [0..<length (td_Outputs td)] (td_Outputs td))"
    using assms(1) by (metis in_set_impl_in_set_zip2 length_map map_nth length_upt diff_zero)
  moreover have "mapE (map_output sha3 muxID mux) xs s \<noteq> (Inr rs, s')" if "(i, out) \<in> set xs" for xs s rs
    using that
  proof (induction xs arbitrary: s rs)
    case (Cons x xs)
    then show ?case
      using assms(2) by (auto simp: bindE_Inr_iff map_output_def result_entry_def IsUnspendable_def
          output_ControlProgram_def throwE_def returnE_def)
  qed simp
  ultimately show False by blast
qed

end
