(* ===== verification/Block_Wf.thy ===== *)
theory Block_Wf
  imports Validation_Live
begin

text \<open>
  Validation of a block: each transaction is validated on the memory that those before it leave, and the block
  is accepted exactly when it meets the rules, with the statuses of its transactions.
\<close>

section \<open>Results of the workers\<close>

text \<open>The memory that transaction \<open>i\<close> finds when the workers validate in the given order.\<close>

primrec memory_at :: "(nat \<Rightarrow> val_env) \<Rightarrow> nat \<Rightarrow> nat list \<Rightarrow> heap \<Rightarrow> nat \<Rightarrow> heap" where
  "memory_at env n [] h i = h"
| "memory_at env n (j # order) h i =
     (if i = j then h else memory_at env n order (snd (ValidateTx_mem (env j) n h)) i)"

lemma workers_eq:
  "distinct order \<Longrightarrow> workers env n order h = map (\<lambda>i. (i, ValidateTx (env i) n (memory_at env n order h i))) order"
  by (induction order arbitrary: h) (auto simp: ValidateTx_def split: prod.splits)

lemma collect_results_nth:
  "length (fold (\<lambda>(i, r) results. results[i := Some r]) (map (\<lambda>i. (i, f i)) order) rs) = length rs"
  "j < length rs \<Longrightarrow> fold (\<lambda>(i, r) results. results[i := Some r]) (map (\<lambda>i. (i, f i)) order) rs ! j =
     (if j \<in> set order then Some (f j) else rs ! j)"
  by (induction order arbitrary: rs) (auto simp: nth_list_update)

lemma ValidateTxs_all:
  assumes "mset order = mset [0..<txSize]"
  shows "ValidateTxs env n h txSize order =
    map (\<lambda>i. Some (ValidateTx (env i) n (memory_at env n order h i))) [0..<txSize]"
proof -
  have order: "set order = {0..<txSize}" "distinct order"
    using mset_eq_setD [OF assms] mset_eq_imp_distinct_iff [OF assms] by simp_all
  then show ?thesis
    unfolding ValidateTxs_def workers_eq [OF order(2)] collect_results_def
    by (intro nth_equalityI) (simp_all add: collect_results_nth)
qed

text \<open>A condition on the memory that every transaction keeps holds at each of them.\<close>

lemma memory_at_inv:
  assumes "\<And>j h. j \<in> set order \<Longrightarrow> I h \<Longrightarrow> I (snd (ValidateTx_mem (env j) n h))" "I h"
  shows "I (memory_at env n order h i)"
  using assms by (induction order arbitrary: h) auto

section \<open>Statuses and gas\<close>

definition gas_sum :: "(nat \<Rightarrow> tx_result) \<Rightarrow> nat \<Rightarrow> nat" where
  "gas_sum res k = u64 (\<Sum>j < k. u64_of_i64 (GasUsed (fst (res j))))"

lemma gas_sum_Suc: "gas_sum res (Suc k) = u64 (gas_sum res k + u64_of_i64 (GasUsed (fst (res k))))"
  by (simp add: gas_sum_def u64_def mod_add_left_eq)

definition within_gas :: "params \<Rightarrow> (nat \<Rightarrow> tx_result) \<Rightarrow> nat \<Rightarrow> bool" where
  "within_gas P res j \<longleftrightarrow> GasValid (fst (res j)) \<and> gas_sum res (Suc j) \<le> MaxBlockGas P"

lemma block_results_Cons:
  assumes "length ts = i"
  shows "block_results P i ts (gas_sum res i) (Some (res i) # rs) = Inr ts' \<longleftrightarrow>
    within_gas P res i \<and> block_results P (Suc i) (ts @ [snd (res i) \<noteq> Inr ()]) (gas_sum res (Suc i)) rs = Inr ts'"
  using assms by (cases "res i") (simp add: within_gas_def SetStatus_def gas_sum_Suc Let_def)

lemma block_results_iff:
  assumes "length ts = i"
  shows "block_results P i ts (gas_sum res i) (map (\<lambda>j. Some (res j)) [i..<i + k]) = Inr ts' \<longleftrightarrow>
    ts' = ts @ map (\<lambda>j. snd (res j) \<noteq> Inr ()) [i..<i + k] \<and> (\<forall>j \<in> {i..<i + k}. within_gas P res j)"
  using assms
proof (induction k arbitrary: i ts)
  case (Suc k)
  have range: "[i..<i + Suc k] = i # [Suc i..<Suc i + k]" "{i..<i + Suc k} = insert i {Suc i..<Suc i + k}"
    by (simp_all add: upt_conv_Cons) auto
  have "length (ts @ [snd (res i) \<noteq> Inr ()]) = Suc i" using Suc(2) by simp
  from Suc.IH [OF this] block_results_Cons [OF Suc(2)] show ?case
    unfolding range list.map ball_simps by (simp del: upt_Suc) blast
qed auto

lemma ValidateBlock_Inr_iff:
  "ValidateBlock P R fuel fed unmarshal place n h order now b parent rewards = Inr ts \<longleftrightarrow>
    ValidateBlockHeader P (sha3_sum R) now b parent = Inr () \<and>
    block_results P 0 [] 0
      (ValidateTxs (block_env P R fuel fed unmarshal place b) n h (length (blk_Transactions b)) order) = Inr ts \<and>
    checkCoinbaseTx b rewards = Inr () \<and>
    TxMerkleRoot (sha3_sum R) (blk_Transactions b) = blk_TransactionsRoot b \<and>
    TxStatusMerkleRoot (sha3_sum R) ts = blk_TransactionStatusHash b"
  unfolding ValidateBlock_def by (auto split: sum.splits if_splits)

section \<open>Properties\<close>



end
