(* ===== verification/Tx_Sample.thy ===== *)
theory Tx_Sample
  imports Validation_Live Map_Wf VM_Wf Block_Wf Block_Wire
begin

text \<open>
  A concrete transaction: two spends of 1000 and 500 units of BTM, a withdrawal of 900 to the main chain and
  a retirement of 100.  It is mapped and validated with a concrete hash function, and the theorems about
  mapped and valid transactions are applied to it.
\<close>

section \<open>A hash function\<close>

text \<open>It keeps the length, the first 19 and the last 12 bytes, which tell the entries below apart.\<close>

definition mix_hash :: "bytes \<Rightarrow> bytes" where
  "mix_hash bs = of_nat (length bs) # take 19 (bs @ replicate 19 0) @ rev (take 12 (rev bs @ replicate 12 0))"

definition eid :: "entry \<Rightarrow> hash" where
  "eid e = NewHash (mix_hash (tagged (entry_typ e) (mix_hash (snd (writeForHash e [])))))"

lemma length_mix_hash [simp]: "length (mix_hash bs) = 32"
  by (simp add: mix_hash_def)

lemma EntryID_mix: "fst (writeForHash e []) = Inr () \<Longrightarrow> EntryID mix_hash e = Some (eid e)"
  by (cases "writeForHash e []") (simp add: EntryID_def entry_hash_def eid_def)

lemma mix_tail: "12 \<le> length bs \<Longrightarrow> drop 20 (mix_hash bs) = drop (length bs - 12) bs"
  by (simp add: mix_hash_def take_rev rev_take)

lemma Byte32_eid: "Byte32 (eid e) = mix_hash (tagged (entry_typ e) (mix_hash (snd (writeForHash e []))))"
  by (simp add: eid_def Byte32_NewHash)

text \<open>The last 12 bytes of an identifier are those of the body.\<close>

lemma eid_tail:
  assumes "12 \<le> length (snd (writeForHash e []))"
  shows "drop 20 (Byte32 (eid e)) = drop (length (snd (writeForHash e [])) - 12) (snd (writeForHash e []))"
proof -
  let ?b = "snd (writeForHash e [])" and ?t = "tagged (entry_typ e) (mix_hash (snd (writeForHash e [])))"
  have "length ?t = length (ascii ''entryid:'' @ ascii (entry_typ e) @ ascii '':'') + 32" by (simp add: tagged_def)
  then have "drop (length ?t - 12) ?t = drop 20 (mix_hash ?b)" by (simp add: tagged_def)
  with mix_tail [of ?t] mix_tail [OF assms] show ?thesis by (simp add: Byte32_eid tagged_def)
qed

text \<open>Bytes 9 to 19 are the beginning of the type, which determines it.\<close>

lemma mix_head: "19 \<le> length bs \<Longrightarrow> take 19 (drop 1 (mix_hash bs)) = take 19 bs"
  by (simp add: mix_hash_def)

lemma eid_head:
  "take 11 (drop 8 (take 19 (drop 1 (Byte32 (eid e))))) =
   take 11 (ascii (entry_typ e) @ ascii '':'' @ mix_hash (snd (writeForHash e [])))"
proof -
  let ?w = "ascii (entry_typ e) @ ascii '':'' @ mix_hash (snd (writeForHash e []))"
  have p: "length (ascii ''entryid:'') = 8" by (simp add: ascii_def)
  then have "19 \<le> length (ascii ''entryid:'' @ ?w)" by simp
  from mix_head [OF this] have "take 19 (drop 1 (Byte32 (eid e))) = take 19 (ascii ''entryid:'' @ ?w)"
    by (simp only: Byte32_eid tagged_def)
  moreover have "take 11 (drop 8 (take 19 (x @ w))) = take 11 w" if "length x = 8" for x w :: bytes
    using that by (simp add: drop_take)
  ultimately show ?thesis using p by (simp only:)
qed

lemma eid_typ:
  assumes "eid e = eid e'"
  shows "entry_typ e = entry_typ e'"
proof -
  have "take 11 (ascii (entry_typ e) @ ascii '':'' @ mix_hash (snd (writeForHash e []))) =
      take 11 (ascii (entry_typ e') @ ascii '':'' @ mix_hash (snd (writeForHash e' [])))"
    unfolding eid_head [symmetric] assms ..
  then show ?thesis
    by (cases e; cases e') (simp_all add: entry_typ_def ascii_def)
qed

lemma eid_nonzero: "eid e \<noteq> zeroHash"
proof
  assume "eid e = zeroHash"
  moreover have "hd (take 11 (drop 8 (take 19 (drop 1 (Byte32 (eid e)))))) = of_char (hd (entry_typ e))"
    unfolding eid_head by (cases e) (simp_all add: entry_typ_def ascii_def)
  moreover have "hd (take 11 (drop 8 (take 19 (drop 1 (Byte32 zeroHash))))) = 0"
    by code_simp
  ultimately have "(of_char (hd (entry_typ e)) :: byte) = 0" by simp
  then show False by (cases e) (simp_all add: entry_typ_def)
qed

text \<open>Two entries whose types or whose last bytes differ have different identifiers.\<close>

lemma hash_clean_mix: "hash_clean mix_hash td"
proof -
  have "EntryID mix_hash e = Some k \<Longrightarrow> k = eid e" for e k
    using EntryID_Some [of mix_hash e k] by (simp add: eid_def)
  then show ?thesis
    using eid_nonzero eid_typ unfolding hash_clean_def Let_def list_all_iff by (metis option.exhaust)
qed

section \<open>The transaction\<close>

definition btm :: "nat \<Rightarrow> asset_amount" where
  "btm n = \<lparr>aa_AssetId = Some BTMAssetID, aa_Amount = n\<rparr>"

text \<open>The outputs that are spent have programs that push a number twice and compare the two.\<close>

definition paid :: "nat \<Rightarrow> byte \<Rightarrow> spend_commitment" where
  "paid n op = \<lparr>sc_AssetAmount = btm n, sc_SourceID = zeroHash, sc_SourcePosition = 0, sc_VMVersion = 1, sc_ControlProgram = [op, op, 0x87]\<rparr>"

definition pay_in :: "nat \<Rightarrow> byte \<Rightarrow> tx_input" where
  "pay_in n op =
     \<lparr>ti_AssetVersion = 1,
      ti_TypedInput = Some (SpendIn \<lparr>si_SpendCommitmentSuffix = [], si_Arguments = [], si_SpendCommitment = paid n op\<rparr>),
      ti_CommitmentSuffix = [], ti_WitnessSuffix = []\<rparr>"

definition pay_out :: "nat \<Rightarrow> byte \<Rightarrow> tx_output" where
  "pay_out n op =
     \<lparr>txo_AssetVersion = 1,
      txo_TypedOutput = Some (CrossChainOut \<lparr>to_OutputCommitment =
        \<lparr>oc_AssetAmount = btm n, oc_VMVersion = 1, oc_ControlProgram = [op]\<rparr>, to_InnerSuffix = []\<rparr>),
      txo_CommitmentSuffix = []\<rparr>"

definition sample_transfer :: tx_data where
  "sample_transfer =
     \<lparr>td_Version = 1, td_SerializedSize = 244, td_TimeRange = 0, td_Inputs = [pay_in 1000 0x51, pay_in 500 0x52],
      td_Outputs = [pay_out 900 0x51, pay_out 100 0x6a]\<rparr>"

section \<open>Its entries\<close>

definition prev :: "nat \<Rightarrow> byte \<Rightarrow> entry" where
  "prev n op = IntraChainOutput (prevout_output (paid n op))"

definition spending :: "nat \<Rightarrow> byte \<Rightarrow> value_destination option \<Rightarrow> nat \<Rightarrow> entry" where
  "spending n op d i =
     Spend \<lparr>sp_SpentOutputId = Some (eid (prev n op)), sp_WitnessDestination = d, sp_WitnessArguments = [], sp_Ordinal = i\<rparr>"

definition sid :: "nat \<Rightarrow> byte \<Rightarrow> hash" where
  "sid n op = eid (spending n op None 0)"

definition sample_sources :: "value_source option list" where
  "sample_sources = [Some (new_source (sid 1000 0x51) (btm 1000) 0), Some (new_source (sid 500 0x52) (btm 500) 0)]"

definition sample_mux :: "value_destination list \<Rightarrow> entry" where
  "sample_mux ds = Mux \<lparr>mux_Sources = sample_sources, mux_Program = mux_program, mux_WitnessDestinations = ds, mux_WitnessArguments = []\<rparr>"

definition mid :: hash where
  "mid = eid (sample_mux [])"

definition withdrawal :: entry where
  "withdrawal = CrossChainOutput
     \<lparr>out_Source = new_source mid (btm 900) 0, out_ControlProgram = \<lparr>prog_VmVersion = 1, prog_Code = [0x51]\<rparr>, out_Ordinal = 0\<rparr>"

definition retired :: entry where
  "retired = Retirement \<lparr>ret_Source = new_source mid (btm 100) 1, ret_Ordinal = 1\<rparr>"

definition sample_header :: tx_header where
  "sample_header = \<lparr>th_Version = 1, th_SerializedSize = 244, th_TimeRange = 0, th_ResultIds = [eid withdrawal, eid retired]\<rparr>"

definition sample_dests :: "value_destination list" where
  "sample_dests = [new_source (eid withdrawal) (btm 900) 0, new_source (eid retired) (btm 100) 0]"

lemmas sample_defs = prev_def spending_def sample_mux_def withdrawal_def retired_def

lemmas body_simps = writeForHash_def hash_output_def hash_source_def hash_program_def hash_ptr_def hash_amount_def hash_u64_def
  hash_slice_def Write_def WriteVarstr31_def WriteVarint31_def comp_simps prevout_output_def paid_def
  sample_sources_def mux_program_def new_source_def sample_header_def btm_def

lemma sample_eid: "eid (spending n op d i) = sid n op" "eid (sample_mux ds) = mid"
  by (simp_all add: sid_def mid_def eid_def sample_defs writeForHash_def entry_typ_def)

lemma sample_ids:
  "EntryID mix_hash (prev n op) = Some (eid (prev n op))"
  "EntryID mix_hash (spending n op d i) = Some (sid n op)"
  "EntryID mix_hash (sample_mux ds) = Some mid"
  "EntryID mix_hash withdrawal = Some (eid withdrawal)"
  "EntryID mix_hash retired = Some (eid retired)"
  "EntryID mix_hash (TxHeader sample_header) = Some (eid (TxHeader sample_header))"
proof -
  have fits: "fst (writeForHash (prev n op) []) = Inr ()" "fst (writeForHash (spending n op d i) []) = Inr ()"
    "fst (writeForHash (sample_mux ds) []) = Inr ()" "fst (writeForHash withdrawal []) = Inr ()"
    "fst (writeForHash retired []) = Inr ()" "fst (writeForHash (TxHeader sample_header) []) = Inr ()"
    by (simp_all add: sample_defs body_simps)
  note ids = fits [THEN EntryID_mix]
  show "EntryID mix_hash (prev n op) = Some (eid (prev n op))" "EntryID mix_hash (spending n op d i) = Some (sid n op)"
    "EntryID mix_hash (sample_mux ds) = Some mid" "EntryID mix_hash withdrawal = Some (eid withdrawal)"
    "EntryID mix_hash retired = Some (eid retired)"
    "EntryID mix_hash (TxHeader sample_header) = Some (eid (TxHeader sample_header))"
    using ids by (simp_all only: sample_eid)
qed

lemma eid_mark:
  assumes "12 \<le> length (snd (writeForHash e []))"
  shows "Byte32 (eid e) ! 30 = snd (writeForHash e []) ! (length (snd (writeForHash e [])) - 2)"
proof -
  have "Byte32 (eid e) ! 30 = drop 20 (Byte32 (eid e)) ! 10" by simp
  also have "\<dots> = snd (writeForHash e []) ! (length (snd (writeForHash e [])) - 2)"
    using assms by (simp add: eid_tail)
  finally show ?thesis .
qed

lemma mark_prev: "Byte32 (eid (prev n op)) ! 30 = op"
  by (subst eid_mark) (simp_all add: sample_defs body_simps nth_append)

lemma mark_sid: "Byte32 (sid n op) ! 30 = op"
  unfolding sid_def by (subst eid_mark) (simp_all add: spending_def writeForHash_def hash_ptr_def Write_def comp_simps mark_prev)

lemma sample_typ:
  "entry_typ (prev n op) = ''intrachainoutput1''" "entry_typ (spending n op d i) = ''spend1''"
  "entry_typ (sample_mux ds) = ''mux1''" "entry_typ withdrawal = ''crosschainoutput1''"
  "entry_typ retired = ''retirement1''" "entry_typ (TxHeader h) = ''txheader''"
  by (simp_all add: sample_defs entry_typ_def)

text \<open>The eight identifiers.\<close>

definition sample_keys :: "hash list" where
  "sample_keys = [eid (prev 1000 0x51), sid 1000 0x51, eid (prev 500 0x52), sid 500 0x52, mid, eid withdrawal, eid retired,
     eid (TxHeader sample_header)]"

lemma sample_distinct: "distinct sample_keys"
proof -
  have "eid (prev 1000 0x51) \<noteq> eid (prev 500 0x52)" "sid 1000 0x51 \<noteq> sid 500 0x52"
    using mark_prev [of 1000 "0x51"] mark_prev [of 500 "0x52"] mark_sid [of 1000 "0x51"] mark_sid [of 500 "0x52"] by auto
  moreover have "entry_typ e \<noteq> entry_typ e' \<Longrightarrow> eid e \<noteq> eid e'" for e e' using eid_typ by blast
  ultimately show ?thesis
    unfolding sample_keys_def sid_def mid_def by (simp add: sample_typ)
qed

section \<open>Mapping\<close>

definition sample_spend :: "nat \<Rightarrow> byte \<Rightarrow> nat \<Rightarrow> entry" where
  "sample_spend n op i = spending n op (Some (new_source mid (btm n) i)) i"

definition sample_entries :: "(hash \<times> entry) list" where
  "sample_entries =
     [(eid (prev 1000 0x51), prev 1000 0x51), (sid 1000 0x51, sample_spend 1000 0x51 0),
      (eid (prev 500 0x52), prev 500 0x52), (sid 500 0x52, sample_spend 500 0x52 1),
      (mid, sample_mux sample_dests), (eid withdrawal, withdrawal), (eid retired, retired),
      (eid (TxHeader sample_header), TxHeader sample_header)]"

lemma addNew_apply:
  "EntryID sha3 e = Some k \<Longrightarrow> addNew sha3 e s =
    (Inr (k, length (ms_objs s)), s\<lparr>ms_objs := ms_objs s @ [e], ms_ids := AList.update k (length (ms_objs s)) (ms_ids s)\<rparr>)"
  by (simp add: addNew_def newE_def addEntry_def bindE_apply returnE_def)

lemma sample_input:
  "map_input mix_hash td (i, pay_in n op) s =
    (Inr (Some (new_source (sid n op) (btm n) 0)),
     s\<lparr>ms_objs := ms_objs s @ [prev n op, spending n op None i],
       ms_ids := AList.update (sid n op) (Suc (length (ms_objs s))) (AList.update (eid (prev n op)) (length (ms_objs s)) (ms_ids s)),
       ms_spends := ms_spends s @ [Suc (length (ms_objs s))]\<rparr>)"
proof -
  have "EntryID mix_hash (IntraChainOutput (prevout_output (paid n op))) = Some (eid (prev n op))"
    "EntryID mix_hash (Spend \<lparr>sp_SpentOutputId = Some (eid (prev n op)), sp_WitnessDestination = None,
       sp_WitnessArguments = [], sp_Ordinal = i\<rparr>) = Some (sid n op)"
    using sample_ids(1) [of n op] sample_ids(2) [of n op None i] by (simp_all add: prev_def spending_def)
  then show ?thesis
    by (simp add: map_input_def pay_in_def Let_def addNew_apply bindE_apply thenE_apply modifyE_def returnE_def)
      (simp add: prev_def spending_def paid_def)
qed

definition state_at :: "entry list \<Rightarrow> hash list \<Rightarrow> map_state" where
  "state_at objs ks =
     \<lparr>ms_objs = objs, ms_ids = zip ks [0..<length ks], ms_spends = [1, 3], ms_vetoInputs = [], ms_crossIns = [], ms_coinbase = None\<rparr>"

lemma sample_inputs:
  "mapE (map_input mix_hash sample_transfer) (zip [0..<length (td_Inputs sample_transfer)] (td_Inputs sample_transfer)) empty_map =
    (Inr sample_sources, state_at [prev 1000 0x51, spending 1000 0x51 None 0, prev 500 0x52, spending 500 0x52 None 1]
      [eid (prev 1000 0x51), sid 1000 0x51, eid (prev 500 0x52), sid 500 0x52])"
  using sample_distinct
  by (simp add: sample_transfer_def bindE_apply returnE_def sample_input empty_map_def state_at_def sample_keys_def sample_sources_def)

lemma add_key:
  assumes "EntryID mix_hash e = Some k" "k \<notin> set ks" "length objs = length ks"
  shows "addNew mix_hash e (state_at objs ks) = (Inr (k, length ks), state_at (objs @ [e]) (ks @ [k]))"
proof -
  have "AList.update k v al = al @ [(k, v)]" if "k \<notin> fst ` set al" for v :: nat and al
    using that by (induction al) auto
  moreover have "fst ` set (zip ks [0..<length ks]) = set ks" by (simp add: set_zip_leftD image_def) (force simp: set_zip in_set_conv_nth)
  ultimately show ?thesis using assms by (simp add: addNew_apply state_at_def)
qed

lemma entries_at: "distinct ks \<Longrightarrow> length objs = length ks \<Longrightarrow> a < length ks \<Longrightarrow> entries_of (state_at objs ks) (ks ! a) = Some (objs ! a)"
  by (simp add: entries_of_def state_at_def map_of_zip_nth)

lemma connect_at:
  assumes "objs ! a = spending n op None i" "entries_of (state_at objs ks) (eid (prev n op)) = Some (prev n op)"
  shows "connect_spend mid a (state_at objs ks) = (Inr (), state_at (objs[a := sample_spend n op i]) ks)"
proof -
  have "ms_objs (state_at objs ks) = objs" by (simp add: state_at_def)
  with assms show ?thesis
    by (simp add: connect_spend_def spending_def prev_def setObj_def modifyE_def sample_spend_def new_source_def)
      (simp add: state_at_def prevout_output_def paid_def)
qed

lemma output_at:
  assumes "result_entry (new_source mid (output_AssetAmount out) i) i out = Some e" "EntryID mix_hash e = Some k"
    "k \<notin> set ks" "length objs = length ks" "a < length objs" "objs ! a = sample_mux ds"
  shows "map_output mix_hash mid a (i, out) (state_at objs ks) =
    (Inr k, state_at (objs[a := sample_mux (ds @ [result_dest k out])] @ [e]) (ks @ [k]))"
proof -
  note add = add_key [OF assms(2-4)]
  have "add_dest a (result_dest k out) (state_at (objs @ [e]) (ks @ [k])) =
      (Inr (), state_at (objs[a := sample_mux (ds @ [result_dest k out])] @ [e]) (ks @ [k]))"
    using assms(5,6) by (simp add: add_dest_def state_at_def nth_append setObj_def modifyE_def sample_mux_def list_update_append)
  then show ?thesis
    by (simp add: map_output_def assms(1) bindE_apply thenE_apply add returnE_def result_dest_def)
qed

lemma sample_results:
  "result_entry (new_source mid (output_AssetAmount (pay_out 900 0x51)) 0) 0 (pay_out 900 0x51) = Some withdrawal"
  "result_entry (new_source mid (output_AssetAmount (pay_out 100 0x6a)) 1) 1 (pay_out 100 0x6a) = Some retired"
  "[result_dest (eid withdrawal) (pay_out 900 0x51), result_dest (eid retired) (pay_out 100 0x6a)] = sample_dests"
  by (simp_all add: result_entry_def pay_out_def output_AssetAmount_def output_ControlProgram_def output_VMVersion_def
      IsUnspendable_def withdrawal_def retired_def result_dest_def sample_dests_def new_source_def btm_def)

lemma sample_mapTx:
  "mapTx mix_hash sample_transfer empty_map =
    (Inr (eid (TxHeader sample_header), sample_header), state_at (map snd sample_entries) sample_keys)"
proof -
  note d = sample_distinct [unfolded sample_keys_def]
  let ?k4 = "[eid (prev 1000 0x51), sid 1000 0x51, eid (prev 500 0x52), sid 500 0x52]"
  let ?objs = "\<lambda>m. [prev 1000 0x51, sample_spend 1000 0x51 0, prev 500 0x52, sample_spend 500 0x52 1, sample_mux m]"
  let ?dest = "result_dest (eid withdrawal) (pay_out 900 0x51)"
  define s4 where "s4 = state_at [prev 1000 0x51, spending 1000 0x51 None 0, prev 500 0x52, spending 500 0x52 None 1] ?k4"
  define s5 where "s5 = state_at [prev 1000 0x51, spending 1000 0x51 None 0, prev 500 0x52, spending 500 0x52 None 1, sample_mux []] (?k4 @ [mid])"
  define s6 where "s6 = state_at [prev 1000 0x51, sample_spend 1000 0x51 0, prev 500 0x52, spending 500 0x52 None 1, sample_mux []] (?k4 @ [mid])"
  define s7 where "s7 = state_at (?objs []) (?k4 @ [mid])"
  define s8 where "s8 = state_at (?objs [?dest] @ [withdrawal]) (?k4 @ [mid, eid withdrawal])"
  define s9 where "s9 = state_at (?objs sample_dests @ [withdrawal, retired]) (?k4 @ [mid, eid withdrawal, eid retired])"
  note S = s4_def s5_def s6_def s7_def s8_def s9_def
  have 1: "mapE (map_input mix_hash sample_transfer) (zip [0..<length (td_Inputs sample_transfer)] (td_Inputs sample_transfer)) empty_map =
      (Inr sample_sources, s4)" unfolding S by (rule sample_inputs)
  have 2: "addNew mix_hash (sample_mux []) s4 = (Inr (mid, 4), s5)"
    unfolding S by (subst add_key [OF sample_ids(3)]) (use d in \<open>auto\<close>)
  have 3: "connect_spend mid 1 s5 = (Inr (), s6)"
    unfolding S by (subst connect_at) (use d entries_at [of "?k4 @ [mid]" _ 0] in \<open>auto\<close>)
  have 4: "connect_spend mid 3 s6 = (Inr (), s7)"
    unfolding S by (subst connect_at) (use d entries_at [of "?k4 @ [mid]" _ 2] in \<open>auto\<close>)
  have 5: "map_output mix_hash mid 4 (0, pay_out 900 0x51) s7 = (Inr (eid withdrawal), s8)"
    unfolding S by (subst output_at [OF sample_results(1) sample_ids(4)]) (use d in \<open>auto\<close>)
  have 6: "map_output mix_hash mid 4 (1, pay_out 100 0x6a) s8 = (Inr (eid retired), s9)"
    unfolding S by (subst output_at [OF sample_results(2) sample_ids(5)]) (use d sample_results(3) in \<open>auto\<close>)
  have 7: "addNew mix_hash (TxHeader sample_header) s9 = (Inr (eid (TxHeader sample_header), 7), state_at (map snd sample_entries) sample_keys)"
    unfolding S by (subst add_key [OF sample_ids(6)]) (use d in \<open>auto simp: sample_entries_def sample_keys_def\<close>)
  have lists: "ms_spends s5 = [1, 3]" "ms_vetoInputs s7 = []" "ms_crossIns s7 = []" "ms_coinbase s7 = None"
    by (simp_all add: S state_at_def)
  have outs: "zip [0..<length (td_Outputs sample_transfer)] (td_Outputs sample_transfer) = [(0, pay_out 900 0x51), (1, pay_out 100 0x6a)]"
    by (simp add: sample_transfer_def)
  have hdr: "\<lparr>th_Version = td_Version sample_transfer, th_SerializedSize = td_SerializedSize sample_transfer,
      th_TimeRange = td_TimeRange sample_transfer, th_ResultIds = [eid withdrawal, eid retired]\<rparr> = sample_header"
    by (simp add: sample_transfer_def sample_header_def)
  show ?thesis
    unfolding mapTx_def bindE_apply [of _ _ empty_map] 1 outs
    by (simp add: sample_mux_def [symmetric] bindE_apply thenE_apply getsE_def returnE_def connect_coinbase_def 2 3 [simplified]
        4 5 6 [simplified] 7 lists [simplified] hdr)
qed

definition sample_tx :: tx where
  "sample_tx =
     \<lparr>tx_Header = sample_header, tx_ID = eid (TxHeader sample_header),
      tx_Entries = entries_of (state_at (map snd sample_entries) sample_keys),
      tx_InputIDs = [sid 1000 0x51, sid 500 0x52], tx_SpentOutputIDs = [eid (prev 1000 0x51), eid (prev 500 0x52)],
      tx_MainchainOutputIDs = [], tx_GasInputIDs = [sid 1000 0x51, sid 500 0x52]\<rparr>"

lemma sample_lookup:
  "tx_Entries sample_tx (eid (prev 1000 0x51)) = Some (prev 1000 0x51)"
  "tx_Entries sample_tx (sid 1000 0x51) = Some (sample_spend 1000 0x51 0)"
  "tx_Entries sample_tx (eid (prev 500 0x52)) = Some (prev 500 0x52)"
  "tx_Entries sample_tx (sid 500 0x52) = Some (sample_spend 500 0x52 1)"
  "tx_Entries sample_tx mid = Some (sample_mux sample_dests)"
  "tx_Entries sample_tx (eid withdrawal) = Some withdrawal"
  "tx_Entries sample_tx (eid retired) = Some retired"
  "tx_Entries sample_tx (eid (TxHeader sample_header)) = Some (TxHeader sample_header)"
proof -
  have "tx_Entries sample_tx (sample_keys ! a) = Some (map snd sample_entries ! a)" if "a < 8" for a
    unfolding sample_tx_def tx.simps
    by (rule entries_at [OF sample_distinct]) (use that in \<open>simp_all add: sample_keys_def sample_entries_def\<close>)
  from this [of 0] this [of 1] this [of 2] this [of 3] this [of 4] this [of 5] this [of 6] this [of 7]
  show "tx_Entries sample_tx (eid (prev 1000 0x51)) = Some (prev 1000 0x51)"
    "tx_Entries sample_tx (sid 1000 0x51) = Some (sample_spend 1000 0x51 0)"
    "tx_Entries sample_tx (eid (prev 500 0x52)) = Some (prev 500 0x52)"
    "tx_Entries sample_tx (sid 500 0x52) = Some (sample_spend 500 0x52 1)"
    "tx_Entries sample_tx mid = Some (sample_mux sample_dests)"
    "tx_Entries sample_tx (eid withdrawal) = Some withdrawal"
    "tx_Entries sample_tx (eid retired) = Some retired"
    "tx_Entries sample_tx (eid (TxHeader sample_header)) = Some (TxHeader sample_header)"
    by (simp_all add: sample_keys_def sample_entries_def)
qed

lemma sample_map_entry:
  "map_entry k (prev n op) m = Some m" "map_entry k (sample_mux ds) m = Some m" "map_entry k withdrawal m = Some m"
  "map_entry k retired m = Some m" "map_entry k (TxHeader h) m = Some m"
  "map_entry k (sample_spend n op i) m = Some (m\<lparr>mi_InputIDs := (mi_InputIDs m)[i := k],
     mi_SpentOutputIDs := note_id (eid (prev n op)) (mi_SpentOutputIDs m), mi_GasInputIDs := mi_GasInputIDs m @ [k]\<rparr>)"
  by (simp_all add: map_entry_def prev_def sample_mux_def withdrawal_def retired_def sample_spend_def spending_def is_btm_def
      new_source_def btm_def note_input_def note_gas_def)

lemma sample_MapTx: "MapTx mix_hash (\<lambda>_ ks. ks) sample_transfer = Some sample_tx"
proof -
  let ?E = "tx_Entries sample_tx"
  have E: "entries_of (state_at (map snd sample_entries) sample_keys) = ?E" by (simp add: sample_tx_def)
  have keys: "map fst (ms_ids (state_at objs sample_keys)) = sample_keys" for objs by (simp add: state_at_def)
  have ne: "eid (prev 1000 0x51) \<noteq> eid (prev 500 0x52)" using sample_distinct by (simp add: sample_keys_def)
  have "map_entries ?E sample_keys \<lparr>mi_InputIDs = [zeroHash, zeroHash], mi_SpentOutputIDs = [], mi_MainchainOutputIDs = [], mi_GasInputIDs = []\<rparr> =
      Some \<lparr>mi_InputIDs = [sid 1000 0x51, sid 500 0x52], mi_SpentOutputIDs = [eid (prev 1000 0x51), eid (prev 500 0x52)],
        mi_MainchainOutputIDs = [], mi_GasInputIDs = [sid 1000 0x51, sid 500 0x52]\<rparr>"
    unfolding sample_keys_def
    using ne by (simp add: sample_lookup sample_map_entry note_id_def)
  moreover have "replicate (length (td_Inputs sample_transfer)) zeroHash = [zeroHash, zeroHash]"
    by (simp add: sample_transfer_def)
  ultimately show ?thesis
    unfolding MapTx_def sample_mapTx by (simp add: keys E) (simp add: sample_tx_def)
qed

section \<open>A program that accepts\<close>

text \<open>
  \<^verbatim>\<open>n n EQUAL\<close>, with a number \<open>n\<close>: it ends with the constant that all programs share, so it accepts as long as that constant is
  intact.  It costs 13 units of gas and holds 9 more while it runs.
\<close>

definition eq_vm ::
    "vm_context \<Rightarrow> bool \<Rightarrow> nat \<Rightarrow> nat \<Rightarrow> int \<Rightarrow> int \<Rightarrow> bytes \<Rightarrow> slice list \<Rightarrow> heap \<Rightarrow> virtualMachine" where
  "eq_vm cx er i nx r df da ds h =
     \<lparr>ctxt = cx, program = Code cx, pc = i, nextPC = nx, runLimit = r, deferredCost = df, expansionReserved = er,
      data = da, depth = 0, dataStack = ds, altStack = [], heap = h\<rparr>"

definition eq_env :: "vm_context \<Rightarrow> heap \<Rightarrow> byte \<Rightarrow> bool" where
  "eq_env cx h op \<longleftrightarrow> (op = 0x51 \<or> op = 0x52) \<and> rd h (Code cx) = [op, op, 0x87] \<and> s_len (Code cx) = 3 \<and>
     s_arr (Code cx) < length h \<and> 0 < length h \<and> h ! 0 = [1]"

definition number_of :: "byte \<Rightarrow> bytes" where
  "number_of op = [op - 0x50]"

abbreviation pushed :: "nat \<Rightarrow> slice" where
  "pushed a \<equiv> \<lparr>s_arr = a, s_off = 0, s_len = 1, s_cap = 1\<rparr>"

lemma eq_parse:
  "ParseOp [0x51, 0x51, 0x87] 0 = Inr \<lparr>Op = 0x51, Len = 1, Data = [1]\<rparr>"
  "ParseOp [0x51, 0x51, 0x87] (Suc 0) = Inr \<lparr>Op = 0x51, Len = 1, Data = [1]\<rparr>"
  "ParseOp [0x51, 0x51, 0x87] 2 = Inr \<lparr>Op = 0x87, Len = 1, Data = []\<rparr>"
  "ParseOp [0x52, 0x52, 0x87] 0 = Inr \<lparr>Op = 0x52, Len = 1, Data = [2]\<rparr>"
  "ParseOp [0x52, 0x52, 0x87] (Suc 0) = Inr \<lparr>Op = 0x52, Len = 1, Data = [2]\<rparr>"
  "ParseOp [0x52, 0x52, 0x87] 2 = Inr \<lparr>Op = 0x87, Len = 1, Data = []\<rparr>"
  "op_fn 0x51 = PushdataFn OpPushdata" "op_fn 0x52 = PushdataFn OpPushdata" "op_fn 0x87 = BitwiseFn OpEqual"
  "\<not> isExpansion 0x51" "\<not> isExpansion 0x52" "\<not> isExpansion 0x87"
  by code_simp+

lemma cost_ok:
  "n \<le> runLimit vm \<Longrightarrow> - 100 \<le> n \<Longrightarrow> 0 \<le> runLimit vm - n \<Longrightarrow> runLimit vm - n \<le> MaxInt64 \<Longrightarrow>
   applyCost n vm = (Inr (), vm\<lparr>runLimit := runLimit vm - n\<rparr>)"
  by (simp add: applyCost_def i64_idI)

lemma eq_env_append: "eq_env cx h op \<Longrightarrow> eq_env cx (h @ hs) op"
  by (auto simp: eq_env_def rd_def nth_append)

lemma eq_push:
  assumes "eq_env cx h op" "i = 0 \<or> i = 1" "10 \<le> r" "r \<le> MaxInt64"
  shows "step R child (eq_vm cx er i nx r df da ds h) =
    (Inr (), eq_vm cx er (Suc i) (Suc i) (r - 10) 0 (number_of op) (ds @ [pushed (length h)]) (h @ [number_of op]))"
  using assms
  by (auto simp: eq_env_def eq_vm_def step_def execute_def comp_simps eq_parse cost_ok u32_def len64_def i64_idI
      Let_def opPushdata_def new_bytes_def alloc_def push_def number_of_def)

lemma eq_equal:
  assumes "eq_env cx h op" "h ! a = bs" "h ! b = bs" "length bs = 1" "2 \<le> r" "r \<le> MaxInt64 - 20"
  shows "step R child (eq_vm cx er 2 nx r df da [pushed a, pushed b] h) =
    (Inr (), eq_vm cx er 3 3 (r + 7) (- 9) [] [trueBytes] h)"
proof -
  have "rd h (pushed a) = bs" "rd h (pushed b) = bs" using assms(2-4) by (simp_all add: rd_def)
  then show ?thesis
    using assms
    by (auto simp: eq_env_def eq_vm_def step_def execute_def comp_simps eq_parse cost_ok u32_def len64_def i64_idI
        Let_def opEqual_def doEqual_def pop_def load_def pushBool_def push_def deferCost_def BoolBytes_def trueBytes_def)
qed

lemma eq_loop:
  assumes "eq_env cx h op" "i < 3"
    "step R (\<lambda>child. run_loop R n (child\<lparr>pc := 0\<rparr>)) (eq_vm cx er i nx r df da ds h) = (Inr (), vm)"
  shows "run_loop R (Suc n) (eq_vm cx er i nx r df da ds h) = run_loop R n vm"
  using assms by (simp add: thenE_apply at_end_def eq_vm_def eq_env_def u32_def)

lemma eq_run:
  assumes "eq_env cx h op" "22 \<le> r" "r \<le> MaxInt64"
  shows "run_loop R (3 + n) (eq_vm cx er 0 nx r df da [] h) =
    (Inr (), eq_vm cx er 3 3 (r - 13) (- 9) [] [trueBytes] (h @ [number_of op, number_of op]))"
proof -
  let ?h1 = "h @ [number_of op]" and ?h2 = "h @ [number_of op, number_of op]"
  note env = eq_env_append [OF assms(1), of "[number_of op]"] eq_env_append [OF assms(1), of "[number_of op, number_of op]"]
  have "run_loop R (3 + n) (eq_vm cx er 0 nx r df da [] h) =
      run_loop R (Suc (Suc n)) (eq_vm cx er 1 1 (r - 10) 0 (number_of op) [pushed (length h)] ?h1)"
    using eq_loop [OF assms(1) _ eq_push [OF assms(1), of 0 r], of R "Suc (Suc n)" er nx df da "[]"] assms(2,3)
    by (simp add: numeral_3_eq_3 del: run_loop.simps)
  also have "\<dots> = run_loop R (Suc n) (eq_vm cx er 2 2 (r - 20) 0 (number_of op) [pushed (length h), pushed (Suc (length h))] ?h2)"
    using eq_loop [OF env(1) _ eq_push [OF env(1), of 1 "r - 10"], of R "Suc n" er 1 0 "number_of op" "[pushed (length h)]"] assms(2,3)
    by (simp add: numeral_2_eq_2 del: run_loop.simps)
  also have "\<dots> = run_loop R n (eq_vm cx er 3 3 (r - 13) (- 9) [] [trueBytes] ?h2)"
    using eq_loop [OF env(2) _ eq_equal [OF env(2), of "length h" "number_of op" "Suc (length h)" "r - 20"], of R n er 2 0 "number_of op"] assms(2,3)
    by (simp add: nth_append number_of_def del: run_loop.simps)
  also have "\<dots> = (Inr (), eq_vm cx er 3 3 (r - 13) (- 9) [] [trueBytes] ?h2)"
    using assms(1) by (cases n) (simp_all add: at_end_def eq_vm_def eq_env_def u32_def)
  finally show ?thesis .
qed

lemma Verify_equal:
  assumes "eq_env cx h op" "VMVersion cx = 1" "Arguments cx = []" "22 \<le> limit" "limit \<le> MaxInt64"
  shows "\<exists>vm. Verify R (3 + f) cx h limit = (limit - 13, None, vm) \<and> heap vm = h @ [number_of op, number_of op]"
proof -
  define vm where "vm = eq_vm cx (TxVersion cx = Some 1) 3 3 (limit - 13) (- 9) [] [trueBytes] (h @ [number_of op, number_of op])"
  have "new_vm cx h limit = eq_vm cx (TxVersion cx = Some 1) 0 0 limit 0 [] [] h" by (simp add: new_vm_def eq_vm_def)
  then have "run R (3 + f) (new_vm cx h limit) = (Inr (), vm)"
    using eq_run [OF assms(1,4,5), of R f "TxVersion cx = Some 1" 0 0 "[]"]
    by (simp add: run_def vm_def del: run_loop.simps) (simp add: eq_vm_def)
  moreover have "\<not> falseResult vm" "runLimit vm = limit - 13" "heap vm = h @ [number_of op, number_of op]"
    using assms(1) by (simp_all add: vm_def eq_vm_def falseResult_def trueBytes_def eq_env_def rd_def nth_append AsBool_def)
  ultimately show ?thesis using assms(2,3) by (simp add: Verify_def thenE_apply returnE_def)
qed

section \<open>A block\<close>

text \<open>
  A coinbase transaction that pays a reward of 600, and the block of it and the transaction above.  The roots
  in the header are those of the transactions, the second of which the workers validate first.
\<close>

definition reward_in :: "value_destination option \<Rightarrow> entry" where
  "reward_in d = Coinbase \<lparr>cb_WitnessDestination = d, cb_Arbitrary = [7]\<rparr>"

definition rid :: hash where
  "rid = eid (reward_in None)"

definition reward_mux :: "value_destination list \<Rightarrow> entry" where
  "reward_mux ds = Mux \<lparr>mux_Sources = [Some (new_source rid (btm 600) 0)], mux_Program = mux_program,
     mux_WitnessDestinations = ds, mux_WitnessArguments = []\<rparr>"

definition rmid :: hash where
  "rmid = eid (reward_mux [])"

definition reward_out :: entry where
  "reward_out = IntraChainOutput \<lparr>out_Source = new_source rmid (btm 600) 0,
     out_ControlProgram = \<lparr>prog_VmVersion = 1, prog_Code = [0x51]\<rparr>, out_Ordinal = 0\<rparr>"

definition reward_header :: tx_header where
  "reward_header = \<lparr>th_Version = 1, th_SerializedSize = 100, th_TimeRange = 0, th_ResultIds = [eid reward_out]\<rparr>"

definition coinbase_tx :: tx where
  "coinbase_tx =
     \<lparr>tx_Header = reward_header, tx_ID = eid (TxHeader reward_header),
      tx_Entries = map_of [(rid, reward_in (Some (new_source rmid (btm 600) 0))),
        (rmid, reward_mux [new_source (eid reward_out) (btm 600) 0]), (eid reward_out, reward_out),
        (eid (TxHeader reward_header), TxHeader reward_header)],
      tx_InputIDs = [rid], tx_SpentOutputIDs = [], tx_MainchainOutputIDs = [], tx_GasInputIDs = [rid]\<rparr>"

lemma reward_typ:
  "entry_typ (reward_in d) = ''coinbase1''" "entry_typ (reward_mux ds) = ''mux1''"
  "entry_typ reward_out = ''intrachainoutput1''"
  by (simp_all add: reward_in_def reward_mux_def reward_out_def entry_typ_def)

lemma reward_ids:
  "EntryID mix_hash (reward_in d) = Some rid" "EntryID mix_hash (reward_mux ds) = Some rmid"
  "EntryID mix_hash reward_out = Some (eid reward_out)"
  "EntryID mix_hash (TxHeader reward_header) = Some (eid (TxHeader reward_header))"
proof -
  note defs = reward_in_def reward_mux_def reward_out_def reward_header_def
  have "eid (reward_in d) = rid" "eid (reward_mux ds) = rmid"
    by (simp_all add: rid_def rmid_def eid_def defs writeForHash_def entry_typ_def)
  moreover have "fst (writeForHash (reward_in d) []) = Inr ()" "fst (writeForHash (reward_mux ds) []) = Inr ()"
    "fst (writeForHash reward_out []) = Inr ()" "fst (writeForHash (TxHeader reward_header) []) = Inr ()"
    by (simp_all add: defs body_simps)
  ultimately show "EntryID mix_hash (reward_in d) = Some rid" "EntryID mix_hash (reward_mux ds) = Some rmid"
    "EntryID mix_hash reward_out = Some (eid reward_out)"
    "EntryID mix_hash (TxHeader reward_header) = Some (eid (TxHeader reward_header))"
    using EntryID_mix by metis+
qed

lemma reward_distinct: "distinct [rid, rmid, eid reward_out, eid (TxHeader reward_header)]"
proof -
  have "entry_typ e \<noteq> entry_typ e' \<Longrightarrow> eid e \<noteq> eid e'" for e e' using eid_typ by blast
  then show ?thesis unfolding rid_def rmid_def by (simp add: reward_typ sample_typ)
qed

lemma coinbase_lookup:
  "tx_Entries coinbase_tx rid = Some (reward_in (Some (new_source rmid (btm 600) 0)))"
  "tx_Entries coinbase_tx rmid = Some (reward_mux [new_source (eid reward_out) (btm 600) 0])"
  "tx_Entries coinbase_tx (eid reward_out) = Some reward_out"
  using reward_distinct by (auto simp: coinbase_tx_def)

lemma coinbase_fields:
  "tx_Header coinbase_tx = reward_header" "tx_ID coinbase_tx = eid (TxHeader reward_header)"
  "tx_InputIDs coinbase_tx = [rid]" "tx_GasInputIDs coinbase_tx = [rid]"
  by (simp_all add: coinbase_tx_def)

lemma btm_checks:
  "link_fields (Some (new_source r (btm n) i)) = Inr (r, new_source r (btm n) i)"
  "link_back e i (new_source r (btm n) p) (Some (new_source e (btm n) i)) = Inr ()"
  "vl_Position (new_source r v i) = i" "vl_Value (new_source r v i) = Some v" "aa_AssetId (btm n) = Some BTMAssetID"
  by (simp_all add: link_fields_def link_back_def new_source_def btm_def AssetAmount_Equal_def)

lemma reward_ends:
  "source_dest (reward_in d) 0 = Inr d" "source_dest (reward_mux [w]) 0 = Inr (Some w)"
  "dest_source (reward_mux ds) 0 = Inr (Some (new_source rid (btm 600) 0))"
  "dest_source reward_out 0 = Inr (Some (new_source rmid (btm 600) 0))"
  by (simp_all add: source_dest_def dest_source_def reward_in_def reward_mux_def reward_out_def)

lemma reward_bodies:
  "check_body V c i (reward_in d) = check_coinbase V i \<lparr>cb_WitnessDestination = d, cb_Arbitrary = [7]\<rparr>"
  "check_body V c i (reward_mux ds) = check_mux_entry V c i \<lparr>mux_Sources = [Some (new_source rid (btm 600) 0)],
     mux_Program = mux_program, mux_WitnessDestinations = ds, mux_WitnessArguments = []\<rparr>"
  "check_body V c i reward_out = checkValidSrc V c i 0 (Some (new_source rmid (btm 600) 0))"
  by (simp_all add: check_body_def reward_in_def reward_mux_def reward_out_def)

lemma reward_balance:
  "mux_balance \<lparr>mux_Sources = [Some (new_source rid (btm 600) 0)], mux_Program = mux_program,
     mux_WitnessDestinations = [new_source r (btm 600) 0], mux_WitnessArguments = []\<rparr> = Inr 0"
  by (simp add: mux_balance_def new_source_def btm_def parity_get_def parity_btm_def AddInt64_def SubInt64_def i64_of_u64_def
      i64_id is_i64_def)

definition reward_gas :: gas_state where
  "reward_gas = \<lparr>BTMValue = 0, GasLeft = 160000, GasUsed = 0, GasValid = True, StorageGas = 0\<rparr>"

lemma reward_setGas:
  "setGas MainNetParams 0 (i64_of_u64 100) new_gas =
    (Inr (), \<lparr>BTMValue = 0, GasLeft = 160000, GasUsed = 0, GasValid = False, StorageGas = 100\<rparr>)"
  "setGasValid \<lparr>BTMValue = 0, GasLeft = 160000, GasUsed = 0, GasValid = False, StorageGas = 0\<rparr> = (Inr (), reward_gas)"
  by code_simp+

lemma coinbase_valid:
  assumes "v_tx V = coinbase_tx" "sha3_of V = mix_hash" "v_P V = MainNetParams" "v_first V"
  shows "ValidateTx_mem V 4 h = ((reward_gas, Inr ()), h)"
proof -
  note V = assms coinbase_lookup coinbase_fields reward_ids btm_checks reward_ends reward_bodies reward_balance
  note run = bindE_apply thenE_apply returnE_def liftV_def memoE_def getsE_def modifyE_def assertE_def gasE_def
  have input: "checkValid V (Suc n) rid (Some (reward_in (Some (new_source rmid (btm 600) 0)))) s =
      (Inr (), s\<lparr>vs_gas := (vs_gas s)\<lparr>StorageGas := 0\<rparr>, vs_cache := (vs_cache s)(rid \<mapsto> None)\<rparr>)"
    if "vs_cache s rid = None" for s n
    using that by (simp add: V run check_coinbase_def checkValidDest_def MainNetParams_def)
  have again: "checkValid V (Suc n) rid (Some (reward_in d)) s = (Inr (), s)" if "vs_cache s rid = Some None" for s n d
    using that by (simp add: V run)
  let ?mux = "reward_mux [new_source (eid reward_out) (btm 600) 0]"
  let ?c = "[rid \<mapsto> None, rmid \<mapsto> None]"
  have mux: "checkValid V (Suc (Suc n)) rmid (Some ?mux) (new_state h) =
      (Inr (), \<lparr>vs_gas = reward_gas, vs_cache = ?c, vs_heap = h\<rparr>)" for n
    using reward_distinct
    by (subst checkValid.simps) (simp add: V run check_mux_entry_def new_state_def reward_setGas input again checkValidDest_def
        checkValidSrc_def enumerate_from_def reward_header_def del: checkValid.simps)
  have out: "checkValid V (Suc (Suc (Suc n))) (eid reward_out) (Some reward_out) (new_state h) =
      (Inr (), \<lparr>vs_gas = reward_gas, vs_cache = ?c(eid reward_out \<mapsto> None), vs_heap = h\<rparr>)" for n
    using mux [of n] by (subst checkValid.simps) (simp add: V run checkValidSrc_def new_state_def del: checkValid.simps)
  have head: "check_body V (checkValid V (Suc (Suc (Suc 0)))) (eid (TxHeader reward_header)) (TxHeader reward_header) (new_state h) =
      (Inr (), \<lparr>vs_gas = reward_gas, vs_cache = ?c(eid reward_out \<mapsto> None), vs_heap = h\<rparr>)"
    using out [of 0] by (simp add: check_body_def V run reward_header_def del: checkValid.simps)
  have fuel: "4 = Suc (Suc (Suc (Suc 0)))" by simp
  have "checkValid V 4 (eid (TxHeader reward_header)) (Some (TxHeader reward_header)) (new_state h) =
      (Inr (), \<lparr>vs_gas = reward_gas, vs_cache = ?c(eid reward_out \<mapsto> None, eid (TxHeader reward_header) \<mapsto> None), vs_heap = h\<rparr>)"
    unfolding fuel using head by (subst checkValid.simps) (simp add: V memoE_def new_state_def del: checkValid.simps)
  moreover have "th_Version reward_header = 1" "th_SerializedSize reward_header = 100" "th_TimeRange reward_header = 0"
    by (simp_all add: reward_header_def)
  ultimately show ?thesis
    unfolding ValidateTx_mem_def
    by (simp add: V Let_def checkTimeRange_def checkInputID_def IsZero_def applySoftFork001_def) (simp add: rid_def eid_nonzero)
qed

definition sample_parent :: block_header where
  "sample_parent =
     \<lparr>bh_Version = 1, bh_Height = 4, bh_PreviousBlockHash = zeroHash, bh_Timestamp = 1000,
      bh_TransactionsMerkleRoot = zeroHash, bh_TransactionStatusHash = zeroHash, bh_Witness = []\<rparr>"

definition sample_block :: block where
  "sample_block =
     \<lparr>blk_Version = 1, blk_Height = 5, blk_PreviousBlockId = header_Hash mix_hash sample_parent, blk_Timestamp = 1500,
      blk_TransactionsRoot = TxMerkleRoot mix_hash [coinbase_tx, sample_tx],
      blk_TransactionStatusHash = TxStatusMerkleRoot mix_hash [False, False], blk_TransactionStatus = [],
      blk_WitnessArguments = [], blk_ID = zeroHash, blk_Transactions = [coinbase_tx, sample_tx]\<rparr>"

section \<open>Validation\<close>

text \<open>
  The memory has the shared constant and the buffer that both programs lie in, one behind the other; the first has
  the second as its spare capacity.
\<close>

definition sample_memory :: heap where
  "sample_memory = [[1], [0x51, 0x51, 0x87, 0x52, 0x52, 0x87]]"

definition sample_place :: "entry \<Rightarrow> slice \<times> slice list" where
  "sample_place e =
     (case e of
        Spend sp \<Rightarrow> (\<lparr>s_arr = 1, s_off = 3 * sp_Ordinal sp, s_len = 3, s_cap = 6 - 3 * sp_Ordinal sp\<rparr>, [])
      | _ \<Rightarrow> (nil_slice, []))"

definition kept :: "heap \<Rightarrow> bool" where
  "kept h \<longleftrightarrow> take 2 h = sample_memory"

lemma kept_append: "kept h \<Longrightarrow> kept (h @ hs)"
proof -
  assume "kept h"
  then have "length (take 2 h) = 2" by (simp add: kept_def sample_memory_def)
  then have "2 \<le> length h" by simp
  with \<open>kept h\<close> show ?thesis by (simp add: kept_def)
qed

lemma keptD: "kept h \<Longrightarrow> 2 \<le> length h \<and> h ! 0 = [1] \<and> h ! 1 = [0x51, 0x51, 0x87, 0x52, 0x52, 0x87]"
  by (cases h; cases "tl h") (auto simp: kept_def sample_memory_def)

definition sample_envs :: "nat \<Rightarrow> val_env" where
  "sample_envs = block_env MainNetParams (sample_runtime\<lparr>sha3_sum := mix_hash\<rparr>) 3 \<lparr>fed_Keys = [], fed_Quorum = 0, single_Keys = []\<rparr>
     (\<lambda>_. None) (\<lambda>_. sample_place) sample_block"

definition sample_env :: val_env where
  "sample_env = sample_envs 1"

lemma sample_env_simps [simp]:
  "v_tx sample_env = sample_tx" "sha3_of sample_env = mix_hash" "v_P sample_env = MainNetParams" "v_fuel sample_env = 3"
  "blk_Version (v_block sample_env) = 1" "v_place sample_env = sample_place"
  by (simp_all add: sample_env_def sample_envs_def block_env_def sample_block_def)

lemma sample_accepts:
  assumes "(op, i) = (0x51, 0) \<or> (op, i) = (0x52, 1)" "tx_Entries sample_tx (eid (prev n op)) = Some (prev n op)"
  shows "accepts kept sample_env (sample_spend n op i) 1 13 9"
  unfolding accepts_def
proof (intro conjI allI impI)
  fix s :: val_state and limit assume inv: "kept (vs_heap s)" and limit: "13 + 9 \<le> limit" "limit \<le> MaxInt64"
  let ?e = "sample_spend n op i"
  have spent: "spent_of sample_tx ?e = Some (eid (prev n op), Some (btm n), Some (new_source mid (btm n) i))"
    using assms(2) by (simp add: spent_of_def sample_spend_def spending_def prev_def prevout_output_def paid_def)
  have id: "EntryID mix_hash ?e = Some (sid n op)" by (simp add: sample_spend_def sample_ids)
  have place: "sample_place ?e = (\<lparr>s_arr = 1, s_off = 3 * i, s_len = 3, s_cap = 6 - 3 * i\<rparr>, [])"
    by (simp add: sample_place_def sample_spend_def spending_def)
  have code: "rd (vs_heap s) (fst (sample_place ?e)) = [op, op, 0x87]" "op = 0x51 \<or> op = 0x52"
    using keptD [OF inv] assms(1) by (auto simp: place rd_def)
  have prog: "witnessProgram [0x51, 0x51, 0x87] = [0x51, 0x51, 0x87]" "witnessProgram [0x52, 0x52, 0x87] = [0x52, 0x52, 0x87]"
    by code_simp+
  then have wit: "witness_code (fst (sample_place ?e)) (vs_heap s) = (fst (sample_place ?e), vs_heap s)"
    using code by (auto simp: witness_code_def)
  have "\<exists>cx hs. NewTxVMContext mix_hash (v_block sample_env) sample_tx ?e 1 (fst (sample_place ?e))
      (snd (sample_place ?e)) (vs_heap s) = Some (cx, vs_heap s @ hs) \<and>
      VMVersion cx = 1 \<and> Arguments cx = snd (sample_place ?e) \<and> Code cx = fst (sample_place ?e)"
    unfolding NewTxVMContext_def id spent by (simp add: btm_def Let_def wit alloc_def)
  then obtain cx hs where cx: "NewTxVMContext mix_hash (v_block sample_env) sample_tx ?e 1 (fst (sample_place ?e))
      (snd (sample_place ?e)) (vs_heap s) = Some (cx, vs_heap s @ hs)"
      "VMVersion cx = 1" "Arguments cx = []" "Code cx = fst (sample_place ?e)" unfolding place snd_conv by blast
  have "eq_env cx (vs_heap s) op"
    using code keptD [OF inv] unfolding eq_env_def cx(4) place by auto
  from Verify_equal [OF eq_env_append [OF this, of hs] cx(2,3) _ limit(2), of "v_R sample_env" 0] limit obtain vm
    where "Verify (v_R sample_env) 3 cx (vs_heap s @ hs) limit = (limit - 13, None, vm)"
      "heap vm = (vs_heap s @ hs) @ [number_of op, number_of op]" by auto
  then show "\<exists>h. verifyE sample_env ?e 1 (fst (v_place sample_env ?e)) limit s = (Inr (limit - 13), s\<lparr>vs_heap := h\<rparr>) \<and> kept h"
    using kept_append [OF inv] unfolding verifyE_def sample_env_simps cx(1) by auto
qed simp_all

definition the_mux :: mux_entry where
  "the_mux = \<lparr>mux_Sources = sample_sources, mux_Program = mux_program, mux_WitnessDestinations = sample_dests, mux_WitnessArguments = []\<rparr>"

lemma sample_mux_inputs: "mux_inputs the_mux = {sid 1000 0x51, sid 500 0x52}"
  by (simp add: mux_inputs_def the_mux_def sample_sources_def List.map_filter_def new_source_def)

lemma sample_balance: "mux_balance the_mux = Inr 500"
  by (simp add: mux_balance_def the_mux_def sample_sources_def sample_dests_def new_source_def btm_def parity_get_def
      parity_btm_def AddInt64_def SubInt64_def i64_of_u64_def i64_id is_i64_def)

lemma sample_ends:
  "dest_source withdrawal 0 = Inr (Some (new_source mid (btm 900) 0))"
  "dest_source retired 0 = Inr (Some (new_source mid (btm 100) 1))"
  "dest_source (sample_mux ds) 0 = Inr (Some (new_source (sid 1000 0x51) (btm 1000) 0))"
  "dest_source (sample_mux ds) 1 = Inr (Some (new_source (sid 500 0x52) (btm 500) 0))"
  "source_dest (sample_spend n op i) 0 = Inr (Some (new_source mid (btm n) i))"
  "source_dest (sample_mux sample_dests) 0 = Inr (Some (new_source (eid withdrawal) (btm 900) 0))"
  "source_dest (sample_mux sample_dests) 1 = Inr (Some (new_source (eid retired) (btm 100) 0))"
  by (simp_all add: dest_source_def source_dest_def sample_mux_def sample_spend_def spending_def sample_sources_def
      sample_dests_def) (simp_all add: withdrawal_def retired_def)

lemma sample_links:
  "dest_link sample_tx (sid 1000 0x51) 0 (Some (new_source mid (btm 1000) 0))"
  "dest_link sample_tx (sid 500 0x52) 0 (Some (new_source mid (btm 500) 1))"
  "dest_link sample_tx mid 0 (Some (new_source (eid withdrawal) (btm 900) 0))"
  "dest_link sample_tx mid 1 (Some (new_source (eid retired) (btm 100) 0))"
  "src_static sample_tx mid 0 (Some (new_source (sid 1000 0x51) (btm 1000) 0))"
  "src_static sample_tx mid 1 (Some (new_source (sid 500 0x52) (btm 500) 0))"
  "src_static sample_tx (eid withdrawal) 0 (Some (new_source mid (btm 900) 0))"
  "src_static sample_tx (eid retired) 0 (Some (new_source mid (btm 100) 1))"
  unfolding dest_link_def src_static_def by (simp_all add: btm_checks sample_lookup sample_ends [simplified])

lemma sample_spend_ready:
  assumes "(op, i) = (0x51, 0) \<or> (op, i) = (0x52, 1)" "tx_Entries sample_tx (eid (prev n op)) = Some (prev n op)"
    "tx_Entries sample_tx (sid n op) = Some (sample_spend n op i)" "dest_link sample_tx (sid n op) 0 (Some (new_source mid (btm n) i))"
  shows "spend_ready kept sample_env (sid n op) 13 9"
proof -
  have "getIntraChainOutput sample_tx (eid (prev n op)) = Inr (prevout_output (paid n op))"
    using assms(2) by (simp add: getIntraChainOutput_iff prev_def)
  moreover have "passes_on (out_Source (prevout_output (paid n op))) (Some (new_source mid (btm n) i))"
    by (simp add: passes_on_def prevout_output_def paid_def new_source_def btm_def AssetAmount_Equal_def)
  moreover have "out_ControlProgram (prevout_output (paid n op)) = \<lparr>prog_VmVersion = 1, prog_Code = [op, op, 0x87]\<rparr>"
    by (simp add: prevout_output_def paid_def)
  ultimately show ?thesis
    using assms(3,4) sample_accepts [OF assms(1,2)] by (simp add: spend_ready_def) (simp add: sample_spend_def spending_def)
qed

lemma sample_ready:
  "ids_ok (sha3_of sample_env) (v_tx sample_env)" "tx_ready kept sample_env mid the_mux (\<lambda>_. 13) 9 500" "header_ready sample_env"
proof -
  show "ids_ok (sha3_of sample_env) (v_tx sample_env)"
    using MapTx_ids_ok [OF sample_MapTx hash_clean_mix] by simp
  have "spend_ready kept sample_env (sid 1000 0x51) 13 9" "spend_ready kept sample_env (sid 500 0x52) 13 9"
    using sample_spend_ready [of "0x51" 0 1000] sample_spend_ready [of "0x52" 1 500] sample_lookup sample_links by simp_all
  moreover have "gas_ready sample_env the_mux (\<lambda>_. 13) 9 500"
    using sample_distinct
    by (simp add: gas_ready_def sample_mux_inputs sample_keys_def MainNetParams_def is_i64_def storage_gas_def initial_gas_def
        sample_tx_def sample_header_def i64_of_u64_def i64_id)
  moreover have "result_ready sample_env mid (eid withdrawal)" "result_ready sample_env mid (eid retired)"
    using sample_links(7,8) unfolding result_ready_def result_source_def sample_env_simps sample_lookup
    by (simp_all add: withdrawal_def [THEN arg_cong, of "case_entry a1 a2 a3 a4 a5 a6 a7 a8 a9 a10" for a1 a2 a3 a4 a5 a6 a7 a8 a9 a10]
        retired_def [THEN arg_cong, of "case_entry a1 a2 a3 a4 a5 a6 a7 a8 a9 a10" for a1 a2 a3 a4 a5 a6 a7 a8 a9 a10] new_source_def)
  ultimately show "tx_ready kept sample_env mid the_mux (\<lambda>_. 13) 9 500"
    using sample_links sample_lookup(5) sample_balance
    by (simp add: tx_ready_def sample_mux_inputs) (simp add: the_mux_def sample_mux_def enumerate_from_def sample_sources_def
        sample_dests_def sample_tx_def sample_header_def)
  show "header_ready sample_env"
    by (simp add: header_ready_def checkTimeRange_def checkInputID_def sample_tx_def IsZero_def sid_def eid_nonzero)
      (simp add: sample_header_def)
qed

section \<open>Witnesses\<close>

lemma sample_kept: "kept sample_memory"
  by (simp add: kept_def sample_memory_def)

lemma sample_valid: "\<exists>g. ValidateTx sample_env 4 sample_memory = (g, Inr ())"
  using ValidateTx_ready [OF sample_ready sample_kept, of 0] by (auto simp: ValidateTx_def)

lemma sample_mapped: "MapTx (sha3_of sample_env) (\<lambda>_ ks. ks) sample_transfer = Some (v_tx sample_env)" "hash_clean (sha3_of sample_env) sample_transfer"
  by (simp_all add: sample_MapTx hash_clean_mix)


theorem wire_value_conserved_witness:
  "\<exists>fee \<ge> 0. \<forall>a.
    int (\<Sum>inp \<leftarrow> td_Inputs sample_transfer. amount_of a (wire_value sample_transfer inp)) =
    int (\<Sum>out \<leftarrow> td_Outputs sample_transfer. amount_of a (Some (output_AssetAmount out))) + (if a = BTMAssetID then fee else 0)"
proof -
  obtain g where "ValidateTx sample_env 4 sample_memory = (g, Inr ())" using sample_valid by blast
  from wire_value_conserved [OF sample_mapped _ this] show ?thesis by simp
qed

theorem wire_no_double_spend_witness:
  "input_SpentOutputID mix_hash (td_Inputs sample_transfer ! 0) \<noteq> input_SpentOutputID mix_hash (td_Inputs sample_transfer ! 1)"
proof -
  obtain g where "ValidateTx sample_env 4 sample_memory = (g, Inr ())" using sample_valid by blast
  from wire_no_double_spend [OF sample_mapped _ this, of 0 1] show ?thesis
    by (simp add: sample_transfer_def pay_in_def InputType_def spends_def)
qed

theorem value_conserved_witness:
  "\<exists>mid m. one_mux sample_tx mid m \<and>
    (\<exists>fee \<ge> 0. mux_balance m = Inr fee \<and>
      (\<forall>a. int (\<Sum>r \<in> set (th_ResultIds (tx_Header sample_tx)). amount_of a (result_value sample_tx r)) +
        (if a = BTMAssetID then fee else 0) \<le> int (\<Sum>i \<in> mux_inputs m. amount_of a (input_value sample_tx i))))"
proof -
  obtain g where v: "ValidateTx sample_env 4 sample_memory = (g, Inr ())" using sample_valid by blast
  have "td_Outputs sample_transfer \<noteq> []" by (simp add: sample_transfer_def)
  from MapTx_one_mux [OF sample_mapped this] obtain mid m where "one_mux (v_tx sample_env) mid m" .
  with value_conserved [OF sample_ready(1) v this] show ?thesis unfolding sample_env_simps by blast
qed

theorem MapTx_well_typed_witness:
  "\<exists>mid m. tx_Entries sample_tx mid = Some (Mux m) \<and> length (mux_Sources m) = 2 \<and>
    (\<forall>r \<in> set (th_ResultIds (tx_Header sample_tx)). Option.bind (result_source sample_tx r) vl_Ref = Some mid)"
proof -
  have "td_Outputs sample_transfer \<noteq> []" "length (td_Inputs sample_transfer) = 2" by (simp_all add: sample_transfer_def)
  with MapTx_well_typed [OF sample_mapped this(1)] show ?thesis unfolding sample_env_simps by auto
qed

lemma coinbase_first: "ValidateTx_mem (sample_envs 0) 4 h = ((reward_gas, Inr ()), h)"
  by (rule coinbase_valid) (simp_all add: sample_envs_def block_env_def sample_block_def)

lemma initial_sample: "initial_gas sample_env 500 = 160002"
  by (simp add: initial_gas_def MainNetParams_def)

lemma small_gas: "0 \<le> x \<Longrightarrow> x \<le> 160002 \<Longrightarrow> u64_of_i64 x = nat x \<and> u64 (nat x) = nat x"
  by (simp add: u64_of_i64_def u64_def nat_mod_distrib [symmetric] flip: nat_less_iff)



text \<open>A block with the transaction, in its wire format.\<close>

definition sample_wire_block :: wire_block where
  "sample_wire_block = \<lparr>wb_Header = sample_parent, wb_Transactions = [sample_transfer]\<rparr>"

definition empty_wire_block :: wire_block where
  "empty_wire_block = \<lparr>wb_Header = sample_parent\<lparr>bh_Height := 77\<rparr>, wb_Transactions = []\<rparr>"

theorem block_text_roundtrip_witness:
  "Block_UnmarshalText mix_hash (\<lambda>_ _ ks. ks) empty_wire_block (hex_encode (snd (Block_writeTo sample_wire_block SerBlockFull []))) =
     Inr (sample_wire_block, [sample_tx])"
proof -
  have "header_ok (wb_Header sample_wire_block)" by code_simp
  moreover have "\<forall>t \<in> set (wb_Transactions sample_wire_block). tx_data_ok t" by code_simp
  moreover have "Block_marshalText sample_wire_block SerBlockFull =
      Inr (hex_encode (snd (Block_writeTo sample_wire_block SerBlockFull [])))" by code_simp
  moreover have "relay_tx sample_transfer = sample_transfer" by code_simp
  ultimately show ?thesis
    using block_text_roundtrip [of sample_wire_block _ mix_hash "\<lambda>_ _ ks. ks" empty_wire_block]
    by (simp add: sample_wire_block_def empty_wire_block_def sample_MapTx)
qed

text \<open>A transaction that decodes from its text and has an output of asset version 2, which the decoder leaves without a typed part.\<close>

definition versioned_text :: string where
  "versioned_text = ''0701000001020000''"

definition versioned_output :: tx_output where
  "versioned_output = \<lparr>txo_AssetVersion = 2, txo_TypedOutput = None, txo_CommitmentSuffix = []\<rparr>"

theorem MapTx_untyped_output_witness:
  "\<exists>td. TxData_UnmarshalText zero_tx_data versioned_text = Inr td \<and> MapTx mix_hash (\<lambda>_ ks. ks) td = None"
proof -
  let ?td = "\<lparr>td_Version = 1, td_SerializedSize = 8, td_TimeRange = 0, td_Inputs = [], td_Outputs = [versioned_output]\<rparr>"
  have "TxData_UnmarshalText zero_tx_data versioned_text = Inr ?td" by code_simp
  moreover have "MapTx mix_hash (\<lambda>_ ks. ks) ?td = None"
    by (rule MapTx_untyped_output [of versioned_output]) (simp_all add: versioned_output_def)
  ultimately show ?thesis by blast
qed

end
