(* ===== verification/Utxo_Store.thy ===== *)
theory Utxo_Store
  imports Utxo_Wf
begin

text \<open>
  The stored outputs (\<^verbatim>\<open>database/utxo_view.go\<close>) and the chain that is built on them.  A block is connected by
  loading the outputs that its transactions consume into a view, applying the block to the view, and saving the
  view.  A stored output is the protobuf text of an entry, which is read back as it was written, so the store
  is a map to entries.  Spent local outputs without a lock are deleted; of outputs of the main chain only
  the spent ones are kept.
\<close>

section \<open>Loading and saving\<close>

definition load_spent :: "utxo_view \<Rightarrow> hash \<Rightarrow> utxo_view \<Rightarrow> utxo_view" where
  "load_spent db prevout view =
     (if HasUtxo view prevout then view
      else case db prevout of None \<Rightarrow> view | Some e \<Rightarrow> view(prevout \<mapsto> e))"

definition load_main :: "utxo_view \<Rightarrow> hash \<Rightarrow> utxo_view \<Rightarrow> utxo_view" where
  "load_main db prevout view =
     (if HasUtxo view prevout then view
      else case db prevout of
        None \<Rightarrow> view(prevout \<mapsto> NewUtxoEntry CrosschainUTXOType 0 False)
      | Some e \<Rightarrow> view(prevout \<mapsto> e))"

definition getTransactionsUtxo :: "utxo_view \<Rightarrow> tx list \<Rightarrow> utxo_view \<Rightarrow> utxo_view" where
  "getTransactionsUtxo db txs view =
     fold (\<lambda>t v. fold (load_main db) (tx_MainchainOutputIDs t) (fold (load_spent db) (tx_SpentOutputIDs t) v)) txs view"

definition saveUtxoView :: "utxo_view \<Rightarrow> utxo_view \<Rightarrow> utxo_view" where
  "saveUtxoView view db = (\<lambda>key.
     case view key of
       None \<Rightarrow> db key
     | Some entry \<Rightarrow>
         if ue_Type entry = CrosschainUTXOType \<and> \<not> ue_Spent entry then None
         else if ue_Type entry = NormalUTXOType \<and> ue_Spent entry then None
         else Some entry)"

text \<open>The outputs when \<^verbatim>\<open>connectBlock\<close> connects a block, and when it has connected several.\<close>

definition connect_utxo :: "params \<Rightarrow> block \<Rightarrow> tx_status \<Rightarrow> utxo_view \<Rightarrow> utxo_error + utxo_view" where
  "connect_utxo P blk ts db =
     (case ApplyBlock P blk ts (getTransactionsUtxo db (blk_Transactions blk) Map.empty) of
        (Inl e, _) \<Rightarrow> Inl e
      | (Inr _, view) \<Rightarrow> Inr (saveUtxoView view db))"

primrec connect_all :: "params \<Rightarrow> (block \<times> tx_status) list \<Rightarrow> utxo_view \<Rightarrow> utxo_error + utxo_view" where
  "connect_all P [] db = Inr db"
| "connect_all P (b # bs) db =
     (case connect_utxo P (fst b) (snd b) db of Inl e \<Rightarrow> Inl e | Inr db' \<Rightarrow> connect_all P bs db')"

section \<open>What is stored\<close>

definition db_ok :: "utxo_view \<Rightarrow> bool" where
  "db_ok db \<longleftrightarrow> (\<forall>h e. db h = Some e \<longrightarrow>
     (ue_Type e = CrosschainUTXOType \<longrightarrow> ue_Spent e) \<and> (ue_Type e = NormalUTXOType \<longrightarrow> \<not> ue_Spent e))"

text \<open>In a store that is ok the spendable outputs are local ones.\<close>

lemma db_ok_save: "db_ok db \<Longrightarrow> db_ok (saveUtxoView view db)"
  by (auto simp: db_ok_def saveUtxoView_def split: option.splits if_splits)

definition mains :: "tx list \<Rightarrow> hash list" where
  "mains txs = concat (map tx_MainchainOutputIDs txs)"

text \<open>A loaded entry is the stored one, or a new one for an output of the main chain that is not stored.\<close>

definition loaded :: "utxo_view \<Rightarrow> hash set \<Rightarrow> utxo_view \<Rightarrow> bool" where
  "loaded db M v \<longleftrightarrow> (\<forall>h e. v h = Some e \<longrightarrow>
     db h = Some e \<or> db h = None \<and> h \<in> M \<and> e = NewUtxoEntry CrosschainUTXOType 0 False)"

lemma loaded_mono: "loaded db M v \<Longrightarrow> M \<subseteq> N \<Longrightarrow> loaded db N v"
  unfolding loaded_def by blast

lemma loaded_load:
  "loaded db M v \<Longrightarrow> loaded db M (load_spent db i v)"
  "loaded db M v \<Longrightarrow> i \<in> M \<Longrightarrow> loaded db M (load_main db i v)"
  by (auto simp: loaded_def load_spent_def load_main_def split: option.splits)

lemma loaded_spent: "loaded db M v \<Longrightarrow> loaded db M (fold (load_spent db) is v)"
  by (induction "is" arbitrary: v) (simp_all add: loaded_load)

lemma loaded_main: "loaded db M v \<Longrightarrow> set is \<subseteq> M \<Longrightarrow> loaded db M (fold (load_main db) is v)"
  by (induction "is" arbitrary: v) (simp_all add: loaded_load)

lemma loaded_all:
  "loaded db M v \<Longrightarrow> set (mains txs) \<subseteq> M \<Longrightarrow> loaded db M (getTransactionsUtxo db txs v)"
  by (induction txs arbitrary: v) (auto simp: getTransactionsUtxo_def mains_def intro!: loaded_spent loaded_main)

lemma loaded_view: "loaded db (set (mains txs)) (getTransactionsUtxo db txs Map.empty)"
  by (rule loaded_all) (simp_all add: loaded_def)

section \<open>Types of entries\<close>

text \<open>
  Outside the outputs that a block creates, entries keep their types, and no entry becomes one of the main chain.
\<close>

definition types_kept :: "hash set \<Rightarrow> utxo_view \<Rightarrow> utxo_view \<Rightarrow> bool" where
  "types_kept C v v' \<longleftrightarrow>
     (\<forall>h. h \<notin> C \<longrightarrow> map_option ue_Type (v' h) = map_option ue_Type (v h)) \<and>
     (\<forall>h. map_option ue_Type (v' h) = Some CrosschainUTXOType \<longrightarrow> map_option ue_Type (v h) = Some CrosschainUTXOType)"

lemma types_kept_refl: "types_kept C v v"
  by (simp add: types_kept_def)

lemma types_kept_trans: "types_kept C v v' \<Longrightarrow> types_kept D v' v'' \<Longrightarrow> types_kept (C \<union> D) v v''"
  by (simp add: types_kept_def)

lemma types_kept_mono: "types_kept C v v' \<Longrightarrow> C \<subseteq> D \<Longrightarrow> types_kept D v v'"
  unfolding types_kept_def by blast

lemma result_res_type: "result_res t f i \<noteq> Inr (Some CrosschainUTXOType)"
  by (auto simp: result_res_def result_kind_def view_op_simps
      split: sum.splits prod.splits option.splits entry.splits if_splits)

lemma output_types:
  "forE (applyOutputUtxo_step blk t f) is v = (Inr (), v') \<Longrightarrow>
   types_kept (set (filter (\<lambda>i. relevant (result_res t f i)) is)) v v'"
proof (induction "is" arbitrary: v)
  case (Cons i "is")
  then obtain w where w: "applyOutputUtxo_step blk t f i v = (Inr (), w)"
      and rest: "forE (applyOutputUtxo_step blk t f) is w = (Inr (), v')" by (auto simp: thenE_Inr_iff)
  have "types_kept (if relevant (result_res t f i) then {i} else {}) v w"
    using w unfolding record_out.step_records
    by (auto simp: types_kept_def relevant_def NewUtxoEntry_def coinbase_type_def
        result_res_type split: sum.splits option.splits if_splits)
  from types_kept_trans [OF this Cons.IH [OF rest]] show ?case by (rule types_kept_mono) auto
qed (simp add: returnE_def types_kept_refl)

lemma apply_tx_types:
  assumes "ApplyTransaction P blk t f v = (Inr (), v')"
  shows "types_kept (set (created t f)) v v'"
proof -
  from assms obtain v1 v2 where
      l1: "forE (applyCrossChainUtxo_step blk) (tx_MainchainOutputIDs t) v = (Inr (), v1)"
    and l2: "forE (applySpendUtxo_step P blk t f) (tx_SpentOutputIDs t) v1 = (Inr (), v2)"
    and l3: "forE (applyOutputUtxo_step blk t f) (th_ResultIds (tx_Header t)) v2 = (Inr (), v')"
    by (auto simp: ApplyTransaction_def applyCrossChainUtxo_def applySpendUtxo_def
        applyOutputUtxo_def thenE_Inr_iff)
  have "types_kept {} v v1"
    unfolding cross.loop_consumes(3) [OF l1] by (auto simp: types_kept_def SpendOutput_def option.map_comp comp_def)
  moreover have "types_kept {} v1 v2"
    unfolding spend.loop_consumes(3) [OF l2] by (auto simp: types_kept_def SpendOutput_def option.map_comp comp_def)
  ultimately have "types_kept {} v v2" using types_kept_trans by fastforce
  from types_kept_trans [OF this output_types [OF l3]] show ?thesis by (simp add: created_def)
qed

lemma apply_loop_types:
  "forE (\<lambda>(t, f). ApplyTransaction P blk t f) xs v = (Inr (), v') \<Longrightarrow> types_kept (set (all_created xs)) v v'"
proof (induction xs arbitrary: v)
  case (Cons x xs)
  obtain t f where x: "x = (t, f)" by (cases x)
  from Cons.prems obtain w where w: "ApplyTransaction P blk t f v = (Inr (), w)"
      and rest: "forE (\<lambda>(t, f). ApplyTransaction P blk t f) xs w = (Inr (), v')"
    by (auto simp: x thenE_Inr_iff)
  from types_kept_trans [OF apply_tx_types [OF w] Cons.IH [OF rest]] show ?case by (simp add: x)
qed (simp add: returnE_def types_kept_refl)

lemma spec_block_result:
  "spec_block xs S = Some S' \<Longrightarrow> fresh_outputs xs S \<Longrightarrow> S' = (S \<union> set (all_created xs)) - set (all_consumed xs)"
proof (induction xs arbitrary: S)
  case (Cons x xs)
  obtain t f where x: "x = (t, f)" by (cases x)
  from Cons.prems(1) have ok: "set (consumed t f) \<subseteq> S"
    and rest: "spec_block xs (S - set (consumed t f) \<union> set (created t f)) = Some S'"
    by (auto simp: x spec_tx_def split: if_splits)
  note fresh = fresh_outputs_step [OF Cons.prems(2) [unfolded x]]
  from Cons.IH [OF rest fresh(1)] ok fresh(2,3) show ?case by (auto simp: x)
qed (simp add: all_consumed_def all_created_def)

section \<open>One block\<close>

definition block_mains :: "block \<times> tx_status \<Rightarrow> hash list" where
  "block_mains b = mains (blk_Transactions (fst b))"

definition consumes :: "block \<times> tx_status \<Rightarrow> hash list" where
  "consumes b = all_consumed (block_txs (fst b) (snd b))"

definition creates :: "block \<times> tx_status \<Rightarrow> hash list" where
  "creates b = all_created (block_txs (fst b) (snd b))"

text \<open>Outputs that blocks create are new, and are not outputs of the main chain.\<close>

definition fresh_block :: "block \<times> tx_status \<Rightarrow> utxo_view \<Rightarrow> bool" where
  "fresh_block b db \<longleftrightarrow>
     distinct (creates b) \<and> list_all (\<lambda>h. db h = None) (creates b) \<and>
     list_all (\<lambda>h. h \<notin> set (creates b) \<and> \<not> CanSpend db h) (block_mains b)"

text \<open>The outputs of the main chain that have been consumed.\<close>

definition crossed :: "utxo_view \<Rightarrow> hash \<Rightarrow> bool" where
  "crossed db h \<longleftrightarrow> map_option ue_Type (db h) = Some CrosschainUTXOType"

lemma mains_consumed:
  "length txs \<le> length ts \<Longrightarrow> set (mains txs) \<subseteq> set (all_consumed (zip txs ts))"
  by (induction txs ts rule: list_induct2') (auto simp: mains_def consumed_def)

lemma connect_utxo_effect:
  assumes "connect_utxo P (fst b) (snd b) db = Inr db'" "db_ok db" "fresh_block b db"
  shows "distinct (consumes b)"
    "set (consumes b) \<subseteq> spendable db \<union> set (creates b) \<union> {h \<in> set (block_mains b). db h = None}"
    "h \<in> set (consumes b) \<Longrightarrow> \<not> CanSpend db' h"
    "h \<in> set (block_mains b) \<or> crossed db h \<Longrightarrow> crossed db' h"
    "spendable db' \<subseteq> spendable db \<union> set (creates b)"
    "dom db' \<subseteq> dom db \<union> set (creates b) \<union> set (block_mains b)"
    "db_ok db'"
proof -
  let ?v = "getTransactionsUtxo db (blk_Transactions (fst b)) Map.empty" and ?xs = "block_txs (fst b) (snd b)"
  from assms(1) obtain v' where run: "ApplyBlock P (fst b) (snd b) ?v = (Inr (), v')" and db': "db' = saveUtxoView v' db"
    by (auto simp: connect_utxo_def split: prod.splits sum.splits)
  note loop = ApplyBlock_loop [OF run]
  have L: "?v h = Some e \<Longrightarrow> db h = Some e \<or> db h = None \<and> h \<in> set (block_mains b) \<and> e = NewUtxoEntry CrosschainUTXOType 0 False" for h e
    using loaded_view [of db] by (auto simp: loaded_def block_mains_def)
  have sub: "spendable ?v \<subseteq> spendable db \<union> {h \<in> set (block_mains b). db h = None}"
    using L by (fastforce simp: spendable_def CanSpend_iff)
  have fresh: "fresh_outputs ?xs (spendable ?v)"
    using assms(3) sub by (fastforce simp: fresh_block_def fresh_outputs_def creates_def list_all_iff spendable_def CanSpend_iff)
  note spec = apply_loop_spec [OF loop]
  note C = spec_block_consumed [OF spec fresh, folded consumes_def creates_def]
  note R = spec_block_result [OF spec fresh, folded consumes_def creates_def]
  note K = apply_loop_types [OF loop, folded creates_def]
  have kept: "(v' h = None \<longleftrightarrow> ?v h = None) \<and> (\<forall>e e'. ?v h = Some e \<longrightarrow> v' h = Some e' \<longrightarrow> ue_Type e' = ue_Type e)"
    if "h \<notin> set (creates b)" for h
  proof -
    have "map_option ue_Type (v' h) = map_option ue_Type (?v h)" using K that by (simp add: types_kept_def)
    then show ?thesis by (cases "?v h"; cases "v' h") simp_all
  qed
  show "distinct (consumes b)" using C by blast
  show con: "set (consumes b) \<subseteq> spendable db \<union> set (creates b) \<union> {h \<in> set (block_mains b). db h = None}"
    using C sub by blast
  show "db_ok db'" using assms(2) by (simp add: db' db_ok_save)
  have gone: "\<not> CanSpend v' h" if "h \<in> set (consumes b)" for h using that R by (auto simp: spendable_def)
  show "\<not> CanSpend db' h" if h: "h \<in> set (consumes b)"
  proof (cases "v' h")
    case None
    then have "h \<notin> set (creates b) \<Longrightarrow> h \<notin> spendable ?v" using kept [of h] by (simp add: spendable_def CanSpend_def)
    then have "h \<in> set (creates b)" using h C by blast
    then have "db h = None" using assms(3) by (simp add: fresh_block_def list_all_iff)
    then show ?thesis using None by (simp add: db' saveUtxoView_def CanSpend_def)
  next
    case (Some e)
    then show ?thesis using gone [OF h] by (simp add: db' saveUtxoView_def CanSpend_def)
  qed
  have still: "crossed db' h" if A: "\<not> CanSpend v' h" "h \<notin> set (creates b)" "?v h = Some e" "ue_Type e = CrosschainUTXOType" for h e
  proof -
    obtain e' where e': "v' h = Some e'" using conjunct1 [OF kept [OF A(2)]] A(3) by (metis not_None_eq)
    then have "ue_Type e' = CrosschainUTXOType" using conjunct2 [OF kept [OF A(2)]] A(3,4) by metis
    with e' A(1) show ?thesis by (simp add: db' saveUtxoView_def CanSpend_def crossed_def)
  qed
  show "crossed db' h" if h: "h \<in> set (block_mains b) \<or> crossed db h"
  proof (cases "h \<in> set (block_mains b)")
    case True
    then have "h \<in> set (consumes b)"
      using mains_consumed [OF ApplyBlock_status [OF run]] by (auto simp: block_mains_def consumes_def block_txs_def)
    moreover have h': "h \<notin> set (creates b)" "\<not> CanSpend db h" using True assms(3) by (simp_all add: fresh_block_def list_all_iff)
    ultimately have "h \<in> spendable ?v" using C by blast
    then obtain e where "?v h = Some e" "ue_Type e = CrosschainUTXOType"
      using L h'(2) by (fastforce simp: spendable_def CanSpend_iff NewUtxoEntry_def)
    with still gone [OF \<open>h \<in> set (consumes b)\<close>] h'(1) show ?thesis by blast
  next
    case False
    then obtain e where e: "db h = Some e" "ue_Type e = CrosschainUTXOType" using h by (auto simp: crossed_def)
    then have h': "h \<notin> set (creates b)" "h \<notin> spendable db"
      using assms(2,3) by (auto simp: fresh_block_def list_all_iff db_ok_def spendable_def CanSpend_iff)
    have "h \<notin> spendable ?v" using sub h'(2) e(1) by auto
    then have "h \<notin> spendable v'" using R h'(1) by blast
    then have "\<not> CanSpend v' h" by (simp add: spendable_def)
    show ?thesis
    proof (cases "?v h")
      case None
      then have "v' h = None" using kept [OF h'(1)] by blast
      then show ?thesis using e by (simp add: db' saveUtxoView_def crossed_def)
    next
      case (Some e')
      then have "e' = e" using L [OF Some] e(1) by simp
      with still [OF \<open>\<not> CanSpend v' h\<close> h'(1) Some] e(2) show ?thesis by simp
    qed
  qed
  show "spendable db' \<subseteq> spendable db \<union> set (creates b)"
  proof
    fix h assume h: "h \<in> spendable db'"
    show "h \<in> spendable db \<union> set (creates b)"
    proof (rule ccontr)
      assume no: "h \<notin> spendable db \<union> set (creates b)"
      obtain e where e: "db' h = Some e" "\<not> ue_Spent e" using h by (auto simp: spendable_def CanSpend_iff)
      then have v': "v' h = Some e" "ue_Type e \<noteq> CrosschainUTXOType"
        using no by (auto simp: db' saveUtxoView_def spendable_def CanSpend_iff split: option.splits if_splits)
      then have "h \<in> spendable v'" using e(2) by (auto simp: spendable_def CanSpend_iff)
      then have "h \<in> spendable ?v" using R no by blast
      then obtain e0 where "?v h = Some e0" "ue_Type e0 = CrosschainUTXOType"
        using L no by (fastforce simp: spendable_def CanSpend_iff NewUtxoEntry_def)
      with kept [of h] no v' show False by simp
    qed
  qed
  show "dom db' \<subseteq> dom db \<union> set (creates b) \<union> set (block_mains b)"
  proof
    fix h assume "h \<in> dom db'"
    then have "v' h \<noteq> None \<or> h \<in> dom db" by (auto simp: db' saveUtxoView_def split: option.splits)
    then have "?v h \<noteq> None \<or> h \<in> dom db \<or> h \<in> set (creates b)" using conjunct1 [OF kept [of h]] by metis
    moreover have "h \<in> dom db \<union> set (block_mains b)" if "?v h = Some e" for e using L [OF that] by auto
    ultimately show "h \<in> dom db \<union> set (creates b) \<union> set (block_mains b)" by blast
  qed
qed

section \<open>The chain\<close>

primrec fresh_chain :: "(block \<times> tx_status) list \<Rightarrow> utxo_view \<Rightarrow> bool" where
  "fresh_chain [] db \<longleftrightarrow> True"
| "fresh_chain (b # bs) db \<longleftrightarrow>
     fresh_block b db \<and> fresh_chain bs db \<and>
     list_all (\<lambda>c. set (creates c) \<inter> set (creates b) = {} \<and> set (creates c) \<inter> set (block_mains b) = {} \<and>
       set (block_mains c) \<inter> set (creates b) = {}) bs"

lemma fresh_chain_step:
  assumes "fresh_chain bs db"
    and "spendable db' \<subseteq> spendable db \<union> C" "dom db' \<subseteq> dom db \<union> C \<union> M"
    and "list_all (\<lambda>c. set (creates c) \<inter> C = {} \<and> set (creates c) \<inter> M = {} \<and> set (block_mains c) \<inter> C = {}) bs"
  shows "fresh_chain bs db'"
  using assms(1,4)
proof (induction bs)
  case (Cons b bs)
  have "fresh_block b db'" unfolding fresh_block_def list_all_iff
  proof (intro conjI ballI)
    show "distinct (creates b)" using Cons.prems(1) by (simp add: fresh_block_def)
    fix h
    show "db' h = None" if "h \<in> set (creates b)"
      using that Cons.prems assms(3) by (fastforce simp: fresh_block_def list_all_iff)
    show "h \<notin> set (creates b)" if "h \<in> set (block_mains b)"
      using that Cons.prems(1) by (auto simp: fresh_block_def list_all_iff)
    show "\<not> CanSpend db' h" if "h \<in> set (block_mains b)"
      using that Cons.prems assms(2) by (fastforce simp: fresh_block_def list_all_iff spendable_def)
  qed
  with Cons show ?case by simp
qed simp

lemma fresh_chain_mem: "fresh_chain bs db \<Longrightarrow> b \<in> set bs \<Longrightarrow> fresh_block b db"
  by (induction bs) auto

lemma chain_consumes:
  "connect_all P bs db = Inr db' \<Longrightarrow> db_ok db \<Longrightarrow> fresh_chain bs db \<Longrightarrow>
   distinct (concat (map consumes bs)) \<and>
   (\<forall>h \<in> set (concat (map consumes bs)). CanSpend db h \<or> (\<exists>b \<in> set bs. h \<in> set (creates b)) \<or>
      \<not> crossed db h \<and> (\<exists>b \<in> set bs. h \<in> set (block_mains b)))"
proof (induction bs arbitrary: db)
  case (Cons b bs)
  from Cons.prems(1) obtain db1 where one: "connect_utxo P (fst b) (snd b) db = Inr db1"
      and rest: "connect_all P bs db1 = Inr db'" by (auto split: sum.splits)
  have fb: "fresh_block b db" and fc: "fresh_chain bs db"
    and apart: "c \<in> set bs \<Longrightarrow> set (creates c) \<inter> set (creates b) = {} \<and> set (creates c) \<inter> set (block_mains b) = {} \<and>
       set (block_mains c) \<inter> set (creates b) = {}" for c
    using Cons.prems(3) by (auto simp: list_all_iff)
  note E = connect_utxo_effect [OF one Cons.prems(2) fb]
  have "fresh_chain bs db1"
    by (rule fresh_chain_step [OF fc E(5,6)]) (use Cons.prems(3) in simp)
  note IH = Cons.IH [OF rest E(7) this]
  have new: "db h = None" if "c \<in> set bs" "h \<in> set (creates c)" for c h
    using fresh_chain_mem [OF fc that(1)] that(2) by (simp add: fresh_block_def list_all_iff)
  have main: "\<not> CanSpend db h" if "c \<in> set bs" "h \<in> set (block_mains c)" for c h
    using fresh_chain_mem [OF fc that(1)] that(2) by (simp add: fresh_block_def list_all_iff)
  have "set (consumes b) \<inter> set (concat (map consumes bs)) = {}"
  proof (rule ccontr)
    assume "set (consumes b) \<inter> set (concat (map consumes bs)) \<noteq> {}"
    then obtain h where h: "h \<in> set (consumes b)" "h \<in> set (concat (map consumes bs))" by blast
    have cases: "CanSpend db h \<or> h \<in> set (creates b) \<or> h \<in> set (block_mains b)"
      using h(1) E(2) by (auto simp: spendable_def)
    from h(2) IH consider "CanSpend db1 h" | c where "c \<in> set bs" "h \<in> set (creates c)"
      | c where "\<not> crossed db1 h" "c \<in> set bs" "h \<in> set (block_mains c)" by blast
    then show False
    proof cases
      case 1
      then show False using E(3) [OF h(1)] by simp
    next
      case 2
      then show False using cases new [OF 2] apart [OF 2(1)] by (auto simp: CanSpend_def)
    next
      case 3
      then show False using cases main [OF 3(2,3)] apart [OF 3(2)] E(4) [of h] by blast
    qed
  qed
  moreover have "CanSpend db h \<or> (\<exists>c \<in> set (b # bs). h \<in> set (creates c)) \<or> \<not> crossed db h \<and> (\<exists>c \<in> set (b # bs). h \<in> set (block_mains c))"
    if "h \<in> set (consumes b)" for h
    using that E(2) by (auto simp: spendable_def crossed_def)
  moreover have "CanSpend db h \<or> (\<exists>c \<in> set (b # bs). h \<in> set (creates c)) \<or> \<not> crossed db h \<and> (\<exists>c \<in> set (b # bs). h \<in> set (block_mains c))"
    if h: "h \<in> set (concat (map consumes bs))" for h
  proof -
    from h IH consider "CanSpend db1 h" | c where "c \<in> set bs" "h \<in> set (creates c)"
      | c where "\<not> crossed db1 h" "c \<in> set bs" "h \<in> set (block_mains c)" by blast
    then show ?thesis
    proof cases
      case 1
      then show ?thesis using E(5) by (auto simp: spendable_def)
    qed (use E(4) [of h] in auto)
  qed
  ultimately show ?case using IH E(1) by auto
qed simp

section \<open>A sample chain\<close>

definition chain_block :: "nat \<Rightarrow> tx list \<Rightarrow> block \<times> tx_status" where
  "chain_block height txs =
     (sample_block\<lparr>blk_Height := height, blk_Transactions := txs\<rparr>, replicate (length txs) False)"

text \<open>The second block spends output 11 of the first, and each takes an output of the main chain.\<close>

definition sample_chain :: "(block \<times> tx_status) list" where
  "sample_chain =
     [chain_block 9
        [sample_tx 100 [] [] [(10, IntraChainOutput (sample_output 3))],
         sample_tx 101 [5] [1] [(11, IntraChainOutput (sample_output 7))]],
      chain_block 10
        [sample_tx 110 [] [] [(20, IntraChainOutput (sample_output 3))],
         sample_tx 111 [6] [11] [(21, IntraChainOutput (sample_output 7))]]]"

definition sample_db :: utxo_view where
  "sample_db = [sample_id 1 \<mapsto> NewUtxoEntry NormalUTXOType 3 False]"

lemma sample_chain_fresh: "fresh_chain sample_chain sample_db" "db_ok sample_db"
proof -
  show "fresh_chain sample_chain sample_db" by code_simp
  show "db_ok sample_db" by (simp add: db_ok_def sample_db_def NewUtxoEntry_def)
qed

lemma sample_chain_connects: "\<not> isl (connect_all MainNetParams sample_chain sample_db)"
  by code_simp

section \<open>Property\<close>

text \<open>
  Property C3: no output is consumed twice on the chain.  When blocks are connected one after the other, each by
  loading its outputs from the store, applying it and saving the view, the outputs that all transactions of
  all blocks consume are pairwise distinct, main-chain outputs included, and each of them was spendable in the store, was
  created by one of the blocks, or is an output of the main chain that had not been consumed.
\<close>

theorem chain_no_double_spend:
  assumes "connect_all P bs db = Inr db'" "db_ok db" "fresh_chain bs db"
  shows "distinct (concat (map consumes bs)) \<and>
    (\<forall>h \<in> set (concat (map consumes bs)). CanSpend db h \<or> (\<exists>b \<in> set bs. h \<in> set (creates b)) \<or>
       \<not> crossed db h \<and> (\<exists>b \<in> set bs. h \<in> set (block_mains b)))"
  by (rule chain_consumes [OF assms])

theorem chain_no_double_spend_witness: "distinct (concat (map consumes sample_chain))"
proof -
  obtain db' where "connect_all MainNetParams sample_chain sample_db = Inr db'"
    using sample_chain_connects by (cases "connect_all MainNetParams sample_chain sample_db") auto
  from chain_no_double_spend [OF this sample_chain_fresh(2,1)] show ?thesis by blast
qed

end
