(* ===== verification/Lru.thy ===== *)
theory Lru
  imports Prelude
begin

text \<open>
  The cache of \<^verbatim>\<open>common/concurrent_lru.go\<close>, which locks a cache of the package \<^verbatim>\<open>groupcache/lru\<close>: a list of entries, the one
  used last in front.  A full cache drops the entry at the end.  Limit 0 means none.
\<close>

type_synonym ('k, 'v) lru = "('k \<times> 'v) list"

definition lru_Remove :: "'k \<Rightarrow> ('k, 'v) lru \<Rightarrow> ('k, 'v) lru" where
  "lru_Remove k c = filter (\<lambda>e. fst e \<noteq> k) c"

definition lru_Get :: "'k \<Rightarrow> ('k, 'v) lru \<Rightarrow> 'v option \<times> ('k, 'v) lru" where
  "lru_Get k c = (case map_of c k of None \<Rightarrow> (None, c) | Some v \<Rightarrow> (Some v, (k, v) # lru_Remove k c))"

definition lru_RemoveOldest :: "('k, 'v) lru \<Rightarrow> ('k, 'v) lru" where
  "lru_RemoveOldest c = butlast c"

definition lru_Add :: "nat \<Rightarrow> 'k \<Rightarrow> 'v \<Rightarrow> ('k, 'v) lru \<Rightarrow> ('k, 'v) lru" where
  "lru_Add maxEntries k v c =
     (if map_of c k \<noteq> None then (k, v) # lru_Remove k c
      else if maxEntries \<noteq> 0 \<and> length ((k, v) # c) > maxEntries then lru_RemoveOldest ((k, v) # c)
      else (k, v) # c)"

definition lru_Len :: "('k, 'v) lru \<Rightarrow> nat" where
  "lru_Len c = length c"

definition lru_Clear :: "('k, 'v) lru \<Rightarrow> ('k, 'v) lru" where
  "lru_Clear c = []"

section \<open>What a cache promises\<close>

text \<open>
  A cache may forget, but what it returns was put in under that key: a relation between keys and values that holds for
  what is added holds for what is found.
\<close>

locale memory =
  fixes get :: "'k \<Rightarrow> 'c \<Rightarrow> 'v option \<times> 'c" and add :: "'k \<Rightarrow> 'v \<Rightarrow> 'c \<Rightarrow> 'c" and keeps :: "('k \<Rightarrow> 'v \<Rightarrow> bool) \<Rightarrow> 'c \<Rightarrow> bool"
  assumes get_keeps: "keeps Q c \<Longrightarrow> keeps Q (snd (get k c))"
    and get_found: "keeps Q c \<Longrightarrow> fst (get k c) = Some v \<Longrightarrow> Q k v"
    and add_keeps: "keeps Q c \<Longrightarrow> Q k v \<Longrightarrow> keeps Q (add k v c)"
begin

lemma found: "keeps Q c \<Longrightarrow> get k c = (r, c') \<Longrightarrow> keeps Q c' \<and> (\<forall>v. r = Some v \<longrightarrow> Q k v)"
  using get_keeps [of Q c k] get_found [of Q c k] by auto

end

definition lru_keeps :: "('k \<Rightarrow> 'v \<Rightarrow> bool) \<Rightarrow> ('k, 'v) lru \<Rightarrow> bool" where
  "lru_keeps Q c \<longleftrightarrow> (\<forall>(k, v) \<in> set c. Q k v)"

lemma set_lru_Remove: "set (lru_Remove k c) \<subseteq> set c"
  by (auto simp: lru_Remove_def)

lemma set_lru_Add: "set (lru_Add n k v c) \<subseteq> insert (k, v) (set c)"
  using set_lru_Remove [of k c] in_set_butlastD [of _ "(k, v) # c"] by (auto simp: lru_Add_def lru_RemoveOldest_def simp del: butlast.simps)

interpretation lru: memory lru_Get "lru_Add n" lru_keeps
proof unfold_locales
  fix Q :: "'a \<Rightarrow> 'b \<Rightarrow> bool" and c k v
  assume keeps: "lru_keeps Q c"
  show "lru_keeps Q (snd (lru_Get k c))"
    using keeps set_lru_Remove [of k c] by (fastforce simp: lru_keeps_def lru_Get_def dest: map_of_SomeD split: option.split)
  show "fst (lru_Get k c) = Some v \<Longrightarrow> Q k v"
    using keeps by (auto simp: lru_keeps_def lru_Get_def dest: map_of_SomeD split: option.splits)
  show "Q k v \<Longrightarrow> lru_keeps Q (lru_Add n k v c)"
    using keeps set_lru_Add [of n k v c] by (fastforce simp: lru_keeps_def)
qed

lemma lru_keeps_Nil [simp]: "lru_keeps Q []"
  by (simp add: lru_keeps_def)

lemma lru_keeps_Remove: "lru_keeps Q c \<Longrightarrow> lru_keeps Q (lru_Remove k c)"
  using set_lru_Remove [of k c] by (auto simp: lru_keeps_def)

text \<open>A cache stays within its limit, and what was added last is found.\<close>

lemma length_lru_Remove: "map_of c k \<noteq> None \<Longrightarrow> length (lru_Remove k c) < length c"
  by (auto simp: lru_Remove_def map_of_eq_None_iff intro: length_filter_less)

lemma lru_Add_bounded: "n \<noteq> 0 \<Longrightarrow> lru_Len c \<le> n \<Longrightarrow> lru_Len (lru_Add n k v c) \<le> n"
  using length_lru_Remove [of c k] by (auto simp: lru_Len_def lru_Add_def lru_RemoveOldest_def)

lemma lru_Get_Add: "n \<noteq> 0 \<Longrightarrow> lru_Len c \<le> n \<Longrightarrow> fst (lru_Get k (lru_Add n k v c)) = Some v"
  by (cases c) (auto simp: lru_Len_def lru_Add_def lru_Get_def lru_RemoveOldest_def)

end
