(* ===== verification/Chain_Nodes.thy ===== *)
theory Chain_Nodes
  imports Consensus_Result Lru
begin

text \<open>
  Headers, reorganisation and signatures of the chain (\<^verbatim>\<open>protocol/block.go\<close>, \<^verbatim>\<open>protocol/protocol.go\<close>,
  \<^verbatim>\<open>protocol/consensus_node_manager.go\<close>, \<^verbatim>\<open>protocol/bbft.go\<close>).  What these methods read of the store and of the chain is a
  record; the store is an interface in the code, too.  The caches are those of \<^verbatim>\<open>Lru\<close>.
  Verifying a signature is elliptic curve code and an argument, and so is the order in which Go ranges over a map.
  Loops that follow parents in the store take fuel, since an arbitrary store may be cyclic.
\<close>

datatype chain_error =
    ErrNotFoundBlockNode
  | ErrNotFoundConsensusNode
  | StoreError
  | NoSuchBlocker
  | ErrDoubleSignBlock
  | ErrInvalidSignature
  | NoBlockerSign
  | ResultError cr_error
  | Chain_Panic
  | Chain_OutOfFuel

record chain =
  c_P :: params
  c_sha3 :: "bytes \<Rightarrow> bytes"
  c_header :: "hash \<rightharpoonup> block_header"
  c_txs :: "hash \<rightharpoonup> tx_data list"
  c_hashes :: "nat \<rightharpoonup> hash list"
  c_main :: "nat \<rightharpoonup> hash"
  c_result :: "nat \<rightharpoonup> consensus_result"
  c_best :: block_header
  c_derive :: "bytes \<Rightarrow> bytes list \<Rightarrow> bytes"
  c_xpubs :: "bytes list"
  c_vote_keys :: "consensus_result \<Rightarrow> string list"
  c_node_keys :: "(string \<rightharpoonup> consensus_node) \<Rightarrow> string list"
  c_verify :: "bytes \<Rightarrow> bytes \<Rightarrow> bytes \<Rightarrow> bool"

abbreviation bhash :: "chain \<Rightarrow> block_header \<Rightarrow> hash" where
  "bhash C bh \<equiv> header_Hash (c_sha3 C) bh"

text \<open>A look-up in the store, with the error that the caller returns.\<close>

definition need :: "'e \<Rightarrow> 'a option \<Rightarrow> ('s, 'e, 'a) comp" where
  "need e v = (case v of None \<Rightarrow> throwE e | Some x \<Rightarrow> returnE x)"

definition GetBlock :: "chain \<Rightarrow> hash \<Rightarrow> wire_block option" where
  "GetBlock C h =
     (case c_header C h of
        None \<Rightarrow> None
      | Some bh \<Rightarrow> map_option (\<lambda>txs. \<lparr>wb_Header = bh, wb_Transactions = txs\<rparr>) (c_txs C h))"

section \<open>Finding the fork (block.go)\<close>

text \<open>The headers to attach, oldest first, and to detach, newest first.\<close>

primrec calcReorganizeChain ::
    "nat \<Rightarrow> chain \<Rightarrow> block_header \<Rightarrow> block_header \<Rightarrow> block_header list \<Rightarrow> block_header list \<Rightarrow>
     chain_error + (block_header list \<times> block_header list)" where
  "calcReorganizeChain 0 C attach detach attaches detaches = Inl Chain_OutOfFuel"
| "calcReorganizeChain (Suc n) C attach detach attaches detaches =
     (if bhash C detach = bhash C attach then Inr (attaches, detaches)
      else
        let attachRollback = (bh_Height attach \<ge> bh_Height detach);
            detachRollback = (bh_Height attach \<le> bh_Height detach);
            attaches' = (if attachRollback then attach # attaches else attaches);
            detaches' = (if detachRollback then detaches @ [detach] else detaches)
        in case (if attachRollback then c_header C (bh_PreviousBlockHash attach) else Some attach) of
             None \<Rightarrow> Inl StoreError
           | Some attach' \<Rightarrow>
               (case (if detachRollback then c_header C (bh_PreviousBlockHash detach) else Some detach) of
                  None \<Rightarrow> Inl StoreError
                | Some detach' \<Rightarrow> calcReorganizeChain n C attach' detach' attaches' detaches'))"

section \<open>The last block of the previous round (protocol.go)\<close>

primrec walk_back :: "nat \<Rightarrow> chain \<Rightarrow> block_header \<Rightarrow> chain_error + block_header" where
  "walk_back 0 C header = Inl Chain_OutOfFuel"
| "walk_back (Suc n) C header =
     (if bh_Height header mod RoundVoteBlockNums (c_P C) = 0 then Inr header
      else case c_header C (bh_PreviousBlockHash header) of
        None \<Rightarrow> Inl StoreError
      | Some header' \<Rightarrow> walk_back n C header')"

type_synonym rounds = "(hash, hash) lru"

definition maxPrevRoundVoteBlockHashCacheSize :: nat where
  "maxPrevRoundVoteBlockHashCacheSize = 32768"

definition cached :: "hash \<Rightarrow> (rounds, chain_error, hash option) comp" where
  "cached h = (\<lambda>c. case lru_Get h c of (v, c') \<Rightarrow> (Inr v, c'))"

definition remember :: "hash \<Rightarrow> hash \<Rightarrow> (rounds, chain_error, hash) comp" where
  "remember h d = thenE (modifyE (lru_Add maxPrevRoundVoteBlockHashCacheSize h d)) (returnE d)"

definition liftC :: "'e + 'a \<Rightarrow> ('s, 'e, 'a) comp" where
  "liftC r = (case r of Inl e \<Rightarrow> throwE e | Inr x \<Rightarrow> returnE x)"

definition getPrevRoundVoteBlockHash :: "nat \<Rightarrow> chain \<Rightarrow> hash \<Rightarrow> (rounds, chain_error, hash) comp" where
  "getPrevRoundVoteBlockHash n C h =
     bindE (cached h) (\<lambda>hit. case hit of
       Some d \<Rightarrow> returnE d
     | None \<Rightarrow>
         bindE (need ErrNotFoundBlockNode (c_header C h)) (\<lambda>header.
         if bh_Height header mod RoundVoteBlockNums (c_P C) = 0 then remember h h
         else
           bindE (cached (bh_PreviousBlockHash header)) (\<lambda>parent. case parent of
             Some d \<Rightarrow> remember h d
           | None \<Rightarrow> bindE (liftC (walk_back n C header)) (\<lambda>header'. remember h (bhash C header')))))"

definition getPrevRoundLastBlock :: "nat \<Rightarrow> chain \<Rightarrow> hash \<Rightarrow> (rounds, chain_error, block_header) comp" where
  "getPrevRoundLastBlock n C prev = bindE (getPrevRoundVoteBlockHash n C prev) (\<lambda>h. need StoreError (c_header C h))"

definition InMainChain :: "chain \<Rightarrow> hash \<Rightarrow> bool" where
  "InMainChain C h =
     (case c_header C h of None \<Rightarrow> False | Some bh \<Rightarrow> c_main C (bh_Height bh) = Some h)"

section \<open>Results of votes (consensus\_node\_manager.go)\<close>

definition with_block :: "chain \<Rightarrow> (wire_block \<Rightarrow> unit cr_op) \<Rightarrow> block_header \<Rightarrow> (consensus_result, chain_error, unit) comp" where
  "with_block C f bh =
     bindE (need StoreError (GetBlock C (bhash C bh))) (\<lambda>b r.
       case f b r of (Inl e, r') \<Rightarrow> (Inl (ResultError e), r') | (Inr u, r') \<Rightarrow> (Inr u, r'))"

definition reorganizeConsensusResult :: "nat \<Rightarrow> chain \<Rightarrow> block_header \<Rightarrow> (consensus_result, chain_error, unit) comp" where
  "reorganizeConsensusResult n C bh =
     bindE (getsE cr_BlockHash) (\<lambda>h.
     bindE (need StoreError (c_header C h)) (\<lambda>mainChainBlockHeader.
     bindE (liftC (calcReorganizeChain n C bh mainChainBlockHeader [] [])) (\<lambda>(attaches, detaches).
     thenE (forE (with_block C (CR_DetachBlock (c_P C) (c_sha3 C))) detaches)
       (forE (with_block C (CR_ApplyBlock (c_P C) (c_sha3 C))) attaches))))"

definition getConsensusResult :: "nat \<Rightarrow> chain \<Rightarrow> nat \<Rightarrow> block_header \<Rightarrow> chain_error + consensus_result" where
  "getConsensusResult n C seq bh =
     (case c_result C seq of
        None \<Rightarrow> Inl StoreError
      | Some r \<Rightarrow>
          (case reorganizeConsensusResult n C bh r of (Inl e, _) \<Rightarrow> Inl e | (Inr _, r') \<Rightarrow> Inr r'))"

definition getBestConsensusResult :: "nat \<Rightarrow> chain \<Rightarrow> chain_error + consensus_result" where
  "getBestConsensusResult n C = getConsensusResult n C (CalcVoteSeq (c_P C) (bh_Height (c_best C))) (c_best C)"

definition GetConsensusResultByHash :: "nat \<Rightarrow> chain \<Rightarrow> hash \<Rightarrow> chain_error + consensus_result" where
  "GetConsensusResultByHash n C h =
     (case c_header C h of
        None \<Rightarrow> Inl StoreError
      | Some bh \<Rightarrow> getConsensusResult n C (CalcVoteSeq (c_P C) (bh_Height bh)) bh)"

section \<open>Consensus nodes and the turn of a block producer\<close>

definition getConsensusNodes :: "nat \<Rightarrow> chain \<Rightarrow> hash \<Rightarrow> (rounds, chain_error, string \<rightharpoonup> consensus_node) comp" where
  "getConsensusNodes n C prev =
     bindE (need ErrNotFoundBlockNode (c_header C prev)) (\<lambda>prevBlockHeader.
     let preSeq = sub_u64 (CalcVoteSeq (c_P C) (u64 (bh_Height prevBlockHeader + 1))) 1;
         bestSeq = CalcVoteSeq (c_P C) (bh_Height (c_best C))
     in
     bindE (getPrevRoundLastBlock n C prev) (\<lambda>lastBlockHeader.
     bindE (liftC (getConsensusResult n C (if preSeq > bestSeq then bestSeq else preSeq) lastBlockHeader)) (\<lambda>r.
     case ConsensusNodes (c_P C) (c_derive C) (c_xpubs C) (c_vote_keys C r) r of
       Inl e \<Rightarrow> throwE (ResultError e)
     | Inr nodes \<Rightarrow> returnE nodes)))"

definition getConsensusNode :: "nat \<Rightarrow> chain \<Rightarrow> hash \<Rightarrow> string \<Rightarrow> (rounds, chain_error, consensus_node) comp" where
  "getConsensusNode n C prev pubkey =
     bindE (getConsensusNodes n C prev) (\<lambda>nodes. need ErrNotFoundConsensusNode (nodes pubkey))"

text \<open>Division by zero, without consensus nodes, panics.\<close>

definition getBlockerOrder :: "params \<Rightarrow> nat \<Rightarrow> nat \<Rightarrow> nat \<Rightarrow> nat option" where
  "getBlockerOrder P startTimestamp blockTimestamp numOfConsensusNode =
     (let roundBlockTime = u64 (u64 (BlockNumEachNode P * numOfConsensusNode) * BlockTimeInterval P);
          slotTime = u64 (BlockNumEachNode P * BlockTimeInterval P)
      in if roundBlockTime = 0 \<or> slotTime = 0 then None
         else
           let lastRoundStartTime =
             u64 (startTimestamp + u64 (sub_u64 blockTimestamp startTimestamp div roundBlockTime * roundBlockTime))
           in Some (sub_u64 blockTimestamp lastRoundStartTime div slotTime))"

definition GetBlocker :: "nat \<Rightarrow> chain \<Rightarrow> hash \<Rightarrow> nat \<Rightarrow> (rounds, chain_error, string) comp" where
  "GetBlocker n C prev timeStamp =
     bindE (getConsensusNodes n C prev) (\<lambda>nodes.
     bindE (getPrevRoundLastBlock n C prev) (\<lambda>lastBlock.
     let keys = c_node_keys C nodes in
     bindE (need Chain_Panic
       (getBlockerOrder (c_P C) (u64 (bh_Timestamp lastBlock + BlockTimeInterval (c_P C))) timeStamp (length keys))) (\<lambda>order.
     need NoSuchBlocker (List.find (\<lambda>k. map_option cn_Order (nodes k) = Some order) keys))))"

section \<open>Signatures (bbft.go)\<close>

text \<open>
  A slot without signature is nil.  A signature that is empty and not nil does not occur: the wire format reads an empty
  string as nil, and other signatures enter a slot only after they have been verified.
\<close>

definition signCacheKey :: "string \<Rightarrow> string \<Rightarrow> string" where
  "signCacheKey blockHash pubkey = blockHash @ '':'' @ pubkey"

text \<open>\<open>Inl\<close> of the missing node is caught by the caller.\<close>

definition other_block_signed :: "nat \<Rightarrow> chain \<Rightarrow> block_header \<Rightarrow> string \<Rightarrow> (rounds, chain_error, unit) comp" where
  "other_block_signed n C bh xPub = (\<lambda>c.
     case getConsensusNode n C (bh_PreviousBlockHash bh) xPub c of
       (Inl e, c') \<Rightarrow> if e = ErrNotFoundConsensusNode then (Inr (), c') else (Inl e, c')
     | (Inr node, c') \<Rightarrow>
         if Witness_Get (bh_Witness bh) (cn_Order node) \<noteq> [] then (Inl ErrDoubleSignBlock, c') else (Inr (), c'))"

definition checkDoubleSign :: "nat \<Rightarrow> chain \<Rightarrow> block_header \<Rightarrow> string \<Rightarrow> (rounds, chain_error, unit) comp" where
  "checkDoubleSign n C bh xPub =
     bindE (need StoreError (c_hashes C (bh_Height bh))) (\<lambda>blockHashes.
     forE (\<lambda>h. if h = bhash C bh then returnE ()
                else bindE (need StoreError (c_header C h)) (\<lambda>blockHeader. other_block_signed n C blockHeader xPub))
       blockHashes)"

definition checkNodeSign :: "nat \<Rightarrow> chain \<Rightarrow> block_header \<Rightarrow> consensus_node \<Rightarrow> bytes \<Rightarrow> (rounds, chain_error, unit) comp" where
  "checkNodeSign n C bh node signature =
     thenE (assertE (c_verify C (cn_XPub node) (Byte32 (bhash C bh)) signature) ErrInvalidSignature)
       (checkDoubleSign n C bh (hex_encode (cn_XPub node)))"

definition isIrreversible :: "nat \<Rightarrow> chain \<Rightarrow> block_header \<Rightarrow> rounds \<Rightarrow> bool \<times> rounds" where
  "isIrreversible n C bh c =
     (case getConsensusNodes n C (bh_PreviousBlockHash bh) c of
        (Inl _, c') \<Rightarrow> (False, c')
      | (Inr nodes, c') \<Rightarrow>
          let size = length (c_node_keys C nodes);
              signCount = length (filter (\<lambda>i. Witness_Get (bh_Witness bh) i \<noteq> []) [0..<size])
          in (signCount > size * 2 div 3, c'))"

text \<open>The state of \<^verbatim>\<open>validateSign\<close>: the witness of the block, the two caches, and its flag.\<close>

record sign_state =
  ss_witness :: "bytes list"
  ss_signatures :: "(string, bytes) lru"
  ss_rounds :: rounds
  ss_blocker_signed :: bool

definition on_rounds :: "(rounds, chain_error, 'a) comp \<Rightarrow> (sign_state, chain_error, 'a) comp" where
  "on_rounds f = (\<lambda>s. case f (ss_rounds s) of (r, c) \<Rightarrow> (r, s\<lparr>ss_rounds := c\<rparr>))"

text \<open>A signature that came before the block moves from the cache into its slot; the result says whether there is one.\<close>

definition fetch_signature :: "hash \<Rightarrow> string \<Rightarrow> nat \<Rightarrow> (sign_state, chain_error, bool) comp" where
  "fetch_signature h pubKey order = (\<lambda>s.
     if Witness_Get (ss_witness s) order \<noteq> [] then (Inr True, s)
     else
       let key = signCacheKey (MarshalText h) pubKey in
       (case lru_Get key (ss_signatures s) of
          (None, c) \<Rightarrow> (Inr False, s\<lparr>ss_signatures := c\<rparr>)
        | (Some signature, c) \<Rightarrow>
            (case Witness_Set (ss_witness s) order signature of
               None \<Rightarrow> (Inl Chain_Panic, s\<lparr>ss_signatures := c\<rparr>)
             | Some w \<Rightarrow> (Inr True, s\<lparr>ss_witness := w, ss_signatures := lru_Remove key c\<rparr>))))"

definition check_slot :: "nat \<Rightarrow> chain \<Rightarrow> block_header \<Rightarrow> string \<Rightarrow> string \<Rightarrow> consensus_node \<Rightarrow> (sign_state, chain_error, unit) comp" where
  "check_slot n C bh blocker pubKey node = (\<lambda>s.
     case on_rounds (checkNodeSign n C bh node (Witness_Get (ss_witness s) (cn_Order node))) s of
       (Inl e, s') \<Rightarrow>
         if e = ErrDoubleSignBlock \<and> blocker \<noteq> pubKey
         then (Inr (), s'\<lparr>ss_witness := Witness_Delete (ss_witness s') (cn_Order node)\<rparr>)
         else (Inl e, s')
     | (Inr _, s') \<Rightarrow> (Inr (), if blocker = pubKey then s'\<lparr>ss_blocker_signed := True\<rparr> else s'))"

definition sign_step ::
    "nat \<Rightarrow> chain \<Rightarrow> block_header \<Rightarrow> string \<Rightarrow> (string \<rightharpoonup> consensus_node) \<Rightarrow> string \<Rightarrow> (sign_state, chain_error, unit) comp" where
  "sign_step n C bh blocker nodes pubKey =
     (case nodes pubKey of
        None \<Rightarrow> returnE ()
      | Some node \<Rightarrow>
          bindE (fetch_signature (bhash C bh) pubKey (cn_Order node)) (\<lambda>signed.
          if signed then check_slot n C bh blocker pubKey node else returnE ()))"

definition validateSign :: "nat \<Rightarrow> chain \<Rightarrow> block_header \<Rightarrow> (sign_state, chain_error, unit) comp" where
  "validateSign n C bh =
     bindE (on_rounds (getConsensusNodes n C (bh_PreviousBlockHash bh))) (\<lambda>nodes.
     bindE (on_rounds (GetBlocker n C (bh_PreviousBlockHash bh) (bh_Timestamp bh))) (\<lambda>blocker.
     thenE (forE (sign_step n C bh blocker nodes) (c_node_keys C nodes))
       (bindE (getsE ss_blocker_signed) (\<lambda>has. assertE has NoBlockerSign))))"

definition new_sign_state :: "block_header \<Rightarrow> (string, bytes) lru \<Rightarrow> rounds \<Rightarrow> sign_state" where
  "new_sign_state bh signatures rounds =
     \<lparr>ss_witness = bh_Witness bh, ss_signatures = signatures, ss_rounds = rounds, ss_blocker_signed = False\<rparr>"

text \<open>
  Signing with the key of the node; \<open>sign\<close> is \<^verbatim>\<open>xprv.Sign\<close>.  No signature is the empty string, and a header without one
  is returned as it was.
\<close>

definition signBlockHeader ::
    "nat \<Rightarrow> chain \<Rightarrow> bytes \<Rightarrow> (bytes \<Rightarrow> bytes) \<Rightarrow> block_header \<Rightarrow> (rounds, chain_error, bytes \<times> block_header) comp" where
  "signBlockHeader n C xpub sign bh = (\<lambda>c.
     case getConsensusNode n C (bh_PreviousBlockHash bh) (hex_encode xpub) c of
       (Inl e, c1) \<Rightarrow> if e = ErrNotFoundConsensusNode then (Inr ([], bh), c1) else (Inl e, c1)
     | (Inr node, c1) \<Rightarrow>
         if Witness_Get (bh_Witness bh) (cn_Order node) \<noteq> [] then (Inr ([], bh), c1)
         else
           (case checkDoubleSign n C bh (hex_encode (cn_XPub node)) c1 of
              (Inl e, c2) \<Rightarrow> if e = ErrDoubleSignBlock then (Inr ([], bh), c2) else (Inl e, c2)
            | (Inr _, c2) \<Rightarrow>
                let signature = sign (Byte32 (bhash C bh)) in
                (case Witness_Set (bh_Witness bh) (cn_Order node) signature of
                   None \<Rightarrow> (Inl Chain_Panic, c2)
                 | Some w \<Rightarrow> (Inr (signature, bh\<lparr>bh_Witness := w\<rparr>), c2))))"

end
