(* ===== verification/Chain_Sign.thy ===== *)
theory Chain_Sign
  imports Chain_Wf
begin

text \<open>
  Rounds, producers and signatures: the cache of rounds does not change any answer, every time slot has exactly one
  producer, two irreversible blocks of a height share more than a third of the signers, and what \<^verbatim>\<open>validateSign\<close>
  leaves in the witness of a block.
\<close>

section \<open>Rounds\<close>

text \<open>The fuel \<open>n\<close> is above every height in the store.\<close>

definition store_ok :: "nat \<Rightarrow> chain \<Rightarrow> bool" where
  "store_ok n C \<longleftrightarrow> linked C \<and> (\<forall>h bh. c_header C h = Some bh \<longrightarrow> bh_Height bh < n)"

lemma walk_back_mono: "walk_back n C bh = Inr e \<Longrightarrow> n \<le> m \<Longrightarrow> walk_back m C bh = Inr e"
proof (induction n arbitrary: m bh)
  case (Suc n)
  then show ?case by (cases m) (auto split: if_splits option.splits)
qed simp

lemma walk_back_total:
  assumes "linked C"
  shows "stored C bh \<Longrightarrow> bh_Height bh < n \<Longrightarrow> \<exists>e. walk_back n C bh = Inr e \<and> stored C e"
proof (induction n arbitrary: bh)
  case (Suc n)
  show ?case
  proof (cases "bh_Height bh mod RoundVoteBlockNums (c_P C) = 0")
    case False
    then have "bh_Height bh \<noteq> 0" by (metis mod_0)
    from linked_parent [OF assms Suc.prems(1) this] obtain p where p: "c_header C (bh_PreviousBlockHash bh) = Some p" "stored C p"
      "bh_Height bh = bh_Height p + 1" by blast
    with Suc.IH [OF p(2)] Suc.prems(2) False show ?thesis by simp
  qed (use Suc.prems in simp)
qed simp

text \<open>The block that ended the round before \<open>h\<close>.\<close>

definition round_hash :: "chain \<Rightarrow> hash \<Rightarrow> hash \<Rightarrow> bool" where
  "round_hash C h d \<longleftrightarrow> (\<exists>bh e n. c_header C h = Some bh \<and> walk_back n C bh = Inr e \<and> stored C e \<and> bhash C e = d)"

lemma round_hash_unique: "round_hash C h d \<Longrightarrow> round_hash C h d' \<Longrightarrow> d = d'"
  unfolding round_hash_def by (metis nle_le option.inject sum.inject(2) walk_back_mono)

lemma round_hash_self:
  assumes "linked C" "c_header C h = Some bh" "bh_Height bh mod RoundVoteBlockNums (c_P C) = 0"
  shows "round_hash C h h"
  unfolding round_hash_def using assms linked_stored [OF assms(1,2)] by (intro exI [of _ bh] exI [of _ "Suc 0"]) simp

lemma round_hash_parent:
  assumes "c_header C h = Some bh" "bh_Height bh mod RoundVoteBlockNums (c_P C) \<noteq> 0" "round_hash C (bh_PreviousBlockHash bh) d"
  shows "round_hash C h d"
proof -
  obtain p e n where "c_header C (bh_PreviousBlockHash bh) = Some p" "walk_back n C p = Inr e" "stored C e" "bhash C e = d"
    using assms(3) by (auto simp: round_hash_def)
  then show ?thesis unfolding round_hash_def using assms(1,2) by (intro exI [of _ bh] exI [of _ e] exI [of _ "Suc n"]) simp
qed

abbreviation rounds_ok :: "chain \<Rightarrow> rounds \<Rightarrow> bool" where
  "rounds_ok C c \<equiv> lru_keeps (round_hash C) c"

lemma remember_ok: "rounds_ok C c \<Longrightarrow> round_hash C h d \<Longrightarrow>
    \<exists>d' c'. remember h d c = (Inr d', c') \<and> round_hash C h d' \<and> rounds_ok C c'"
  by (simp add: remember_def thenE_apply modifyE_def returnE_def lru.add_keeps)

lemma cached_ok: "rounds_ok C c \<Longrightarrow> \<exists>v c'. cached h c = (Inr v, c') \<and> rounds_ok C c' \<and> (\<forall>d. v = Some d \<longrightarrow> round_hash C h d)"
  using lru.found [of "round_hash C" c h] by (cases "lru_Get h c") (auto simp: cached_def)

lemma getPrevRoundVoteBlockHash_found:
  assumes "store_ok n C" "rounds_ok C c" "c_header C h = Some bh"
  shows "\<exists>d c'. getPrevRoundVoteBlockHash n C h c = (Inr d, c') \<and> round_hash C h d \<and> rounds_ok C c'"
proof -
  have L: "linked C" and n: "bh_Height bh < n" using assms(1,3) by (auto simp: store_ok_def)
  obtain v c1 where v: "cached h c = (Inr v, c1)" "rounds_ok C c1" "\<And>d. v = Some d \<Longrightarrow> round_hash C h d"
    using cached_ok [OF assms(2)] by metis
  obtain v' c2 where v': "cached (bh_PreviousBlockHash bh) c1 = (Inr v', c2)" "rounds_ok C c2"
      "\<And>d. v' = Some d \<Longrightarrow> round_hash C (bh_PreviousBlockHash bh) d" using cached_ok [OF v(2)] by metis
  obtain e where e: "walk_back n C bh = Inr e" "stored C e" using walk_back_total [OF L _ n] linked_stored [OF L assms(3)] by blast
  have far: "round_hash C h (bhash C e)" using assms(3) e by (auto simp: round_hash_def)
  note run = getPrevRoundVoteBlockHash_def bindE_apply need_def assms(3) liftC_def v(1) v'(1) e(1)
  consider d where "v = Some d" | "v = None" "bh_Height bh mod RoundVoteBlockNums (c_P C) = 0"
    | d where "v = None" "bh_Height bh mod RoundVoteBlockNums (c_P C) \<noteq> 0" "v' = Some d"
    | "v = None" "bh_Height bh mod RoundVoteBlockNums (c_P C) \<noteq> 0" "v' = None" by (metis not_Some_eq)
  then show ?thesis
  proof cases
    case 1
    then show ?thesis using v(2,3) by (simp add: run returnE_def)
  next
    case 2
    then show ?thesis using remember_ok [OF v(2) round_hash_self [OF L assms(3)]] by (simp add: run returnE_def)
  next
    case 3
    then show ?thesis using remember_ok [OF v'(2) round_hash_parent [OF assms(3) _ v'(3)]] by (simp add: run returnE_def)
  next
    case 4
    then show ?thesis using remember_ok [OF v'(2) far] by (simp add: run returnE_def)
  qed
qed

lemma getPrevRoundLastBlock_found:
  assumes "store_ok n C" "rounds_ok C c" "c_header C h = Some bh"
  shows "\<exists>e c'. getPrevRoundLastBlock n C h c = (Inr e, c') \<and> stored C e \<and> round_hash C h (bhash C e) \<and> rounds_ok C c'"
proof -
  obtain d c' where d: "getPrevRoundVoteBlockHash n C h c = (Inr d, c')" "round_hash C h d" "rounds_ok C c'"
    using getPrevRoundVoteBlockHash_found [OF assms] by blast
  then obtain e where "stored C e" "bhash C e = d" by (auto simp: round_hash_def)
  with d show ?thesis by (auto simp: getPrevRoundLastBlock_def bindE_apply need_def returnE_def stored_def)
qed

text \<open>With caches that are right, the nodes do not depend on them.\<close>

definition nodes_of :: "nat \<Rightarrow> chain \<Rightarrow> hash \<Rightarrow> chain_error + (string \<rightharpoonup> consensus_node)" where
  "nodes_of n C prev = fst (getConsensusNodes n C prev [])"

lemma getConsensusNodes_eq:
  assumes "store_ok n C" "rounds_ok C c" "c_header C prev = Some bh" "stored C e" "round_hash C prev (bhash C e)"
  shows "\<exists>c'. getConsensusNodes n C prev c =
    (bindE (liftC (getConsensusResult n C
       (min (sub_u64 (CalcVoteSeq (c_P C) (u64 (bh_Height bh + 1))) 1) (CalcVoteSeq (c_P C) (bh_Height (c_best C)))) e))
     (\<lambda>r. case ConsensusNodes (c_P C) (c_derive C) (c_xpubs C) (c_vote_keys C r) r of
        Inl e \<Rightarrow> throwE (ResultError e) | Inr nodes \<Rightarrow> returnE nodes)) c' \<and> rounds_ok C c'"
proof -
  obtain e' c' where "getPrevRoundLastBlock n C prev c = (Inr e', c')" "stored C e'" "round_hash C prev (bhash C e')" "rounds_ok C c'"
    using getPrevRoundLastBlock_found [OF assms(1-3)] by blast
  moreover from this have "e' = e" using round_hash_unique assms(4,5) stored_inj by metis
  ultimately show ?thesis
    by (auto simp: getConsensusNodes_def bindE_apply need_def assms(3) returnE_def min_def)
qed

lemma comp_pure:
  "(bindE (liftC r) (\<lambda>x. case f x of Inl e \<Rightarrow> throwE (g e) | Inr y \<Rightarrow> returnE y)) c =
   ((case r of Inl e \<Rightarrow> Inl e | Inr x \<Rightarrow> (case f x of Inl e \<Rightarrow> Inl (g e) | Inr y \<Rightarrow> Inr y)), c)"
  by (simp add: bindE_apply liftC_def throwE_def returnE_def split: sum.split)

lemma getConsensusNodes_pure:
  assumes "store_ok n C" "rounds_ok C c"
  shows "\<exists>c'. getConsensusNodes n C prev c = (nodes_of n C prev, c') \<and> rounds_ok C c'"
proof (cases "c_header C prev")
  case None
  then show ?thesis using assms(2) by (simp add: nodes_of_def getConsensusNodes_def bindE_apply need_def throwE_def)
next
  case (Some bh)
  obtain e where "stored C e" "round_hash C prev (bhash C e)"
    using getPrevRoundLastBlock_found [OF assms(1) lru_keeps_Nil Some] by blast
  from getConsensusNodes_eq [OF assms Some this] getConsensusNodes_eq [OF assms(1) lru_keeps_Nil Some this]
  show ?thesis unfolding comp_pure nodes_of_def by auto
qed

text \<open>Blocks of one height that follow the same round have the same nodes.\<close>

lemma nodes_of_same:
  assumes "store_ok n C" "c_header C p = Some a" "c_header C q = Some b" "bh_Height a = bh_Height b"
    and "round_hash C p d" "round_hash C q d"
  shows "nodes_of n C p = nodes_of n C q"
proof -
  obtain e where e: "stored C e" "bhash C e = d" using assms(5) by (auto simp: round_hash_def)
  from getConsensusNodes_eq [OF assms(1) lru_keeps_Nil assms(2) e(1)] getConsensusNodes_eq [OF assms(1) lru_keeps_Nil assms(3) e(1)] assms(4-6) e(2)
  show ?thesis unfolding comp_pure nodes_of_def by auto
qed

section \<open>Quorums\<close>

definition signers :: "bytes list \<Rightarrow> nat \<Rightarrow> nat set" where
  "signers w N = {i. i < N \<and> Witness_Get w i \<noteq> []}"

lemma isIrreversible_True:
  assumes "store_ok n C" "rounds_ok C c" "fst (isIrreversible n C bh c)"
  obtains nodes where "nodes_of n C (bh_PreviousBlockHash bh) = Inr nodes"
    "length (c_node_keys C nodes) * 2 div 3 < card (signers (bh_Witness bh) (length (c_node_keys C nodes)))"
proof -
  obtain c' where c': "getConsensusNodes n C (bh_PreviousBlockHash bh) c = (nodes_of n C (bh_PreviousBlockHash bh), c')"
    using getConsensusNodes_pure [OF assms(1,2)] by blast
  have count: "length (filter P [0..<N]) = card {i. i < N \<and> P i}" for P and N :: nat
    using distinct_card [of "filter P [0..<N]"] by (auto intro!: arg_cong [where f = card])
  show thesis
    using that assms(3) by (cases "nodes_of n C (bh_PreviousBlockHash bh)") (auto simp: isIrreversible_def c' Let_def count signers_def)
qed

lemma quorum_overlap:
  assumes "A \<subseteq> {..<N}" "B \<subseteq> {..<N}" "N * 2 div 3 < card A" "N * 2 div 3 < card B"
  shows "N < 3 * card (A \<inter> B)"
proof -
  have fin: "finite A" "finite B" using assms(1,2) finite_subset by auto
  have "card (A \<union> B) \<le> N" using card_mono [of "{..<N}" "A \<union> B"] assms(1,2) by simp
  with card_Un_Int [OF fin] assms(3,4) show ?thesis by linarith
qed

section \<open>Numbers of the nodes\<close>

lemma number_nodes_nth:
  "(k, x) \<in> set (number_nodes i ns) \<Longrightarrow>
   i \<le> cn_Order x \<and> cn_Order x < i + length ns \<and> number_nodes i ns ! (cn_Order x - i) = (k, x) \<and> k = hex_encode (cn_XPub x)"
proof (induction ns arbitrary: i)
  case (Cons a ns)
  show ?case
  proof (cases "(k, x) = (hex_encode (cn_XPub a), a\<lparr>cn_Order := i\<rparr>)")
    case False
    with Cons.prems have "(k, x) \<in> set (number_nodes (Suc i) ns)" by auto
    from Cons.IH [OF this] show ?thesis by (auto simp: nth_Cons')
  qed simp
qed simp

lemma length_number_nodes [simp]: "length (number_nodes i ns) = length ns"
  by (induction ns arbitrary: i) simp_all

lemma number_nodes_order: "j < length ns \<Longrightarrow> cn_Order (snd (number_nodes i ns ! j)) = i + j"
  by (induction ns arbitrary: i j) (auto simp: nth_Cons')

definition numbered :: "(string \<rightharpoonup> consensus_node) \<Rightarrow> consensus_node list \<Rightarrow> bool" where
  "numbered m ns \<longleftrightarrow> m = map_of (rev (number_nodes 0 ns))"

lemma numbered_key: "numbered m ns \<Longrightarrow> m k = Some x \<Longrightarrow> k = hex_encode (cn_XPub x)"
  using number_nodes_nth [of k x 0 ns] by (auto simp: numbered_def dest: map_of_SomeD)

lemma numbered_inj:
  assumes "numbered m ns" "m k = Some x" "m j = Some y" "cn_Order x = cn_Order y"
  shows "k = j"
proof -
  have "(k, x) \<in> set (number_nodes 0 ns)" "(j, y) \<in> set (number_nodes 0 ns)"
    using assms(1-3) map_of_SomeD unfolding numbered_def by fastforce+
  with assms(4) show ?thesis using number_nodes_nth [of k x 0 ns] number_nodes_nth [of j y 0 ns] by simp
qed

lemma numbered_finite: "numbered m ns \<Longrightarrow> finite (dom m)"
  by (simp add: numbered_def finite_dom_map_of)

definition distinct_nodes :: "consensus_node list \<Rightarrow> bool" where
  "distinct_nodes ns \<longleftrightarrow> distinct (map (\<lambda>x. hex_encode (cn_XPub x)) ns)"

lemma numbered_surj:
  assumes "numbered m ns" "distinct_nodes ns"
  shows "card (dom m) = length ns" and "i < length ns \<Longrightarrow> \<exists>k x. m k = Some x \<and> cn_Order x = i"
proof -
  have d: "distinct (map fst (number_nodes 0 ns))" using assms(2) by (simp add: number_nodes_fst distinct_nodes_def)
  have "distinct (map fst (rev (number_nodes 0 ns)))" using d by (simp only: rev_map [symmetric] distinct_rev)
  then have m: "m = map_of (number_nodes 0 ns)" using assms(1) d map_of_inject_set unfolding numbered_def by (metis set_rev)
  have "dom m = set (map fst (number_nodes 0 ns))" by (simp add: m dom_map_of_conv_image_fst)
  then show "card (dom m) = length ns" using distinct_card [OF d] by simp
  show "\<exists>k x. m k = Some x \<and> cn_Order x = i" if "i < length ns"
  proof -
    obtain k x where kx: "number_nodes 0 ns ! i = (k, x)" by fastforce
    then have "(k, x) \<in> set (number_nodes 0 ns)" using that by (metis length_number_nodes nth_mem)
    then have "m k = Some x" using d m by simp
    with number_nodes_order [OF that, of 0] kx show ?thesis by auto
  qed
qed

lemma ConsensusNodes_numbered:
  assumes "ConsensusNodes P derive xpubs keys r = Inr m"
  obtains ns where "numbered m ns"
  using assms by (auto simp: ConsensusNodes_def federationNodes_def numbered_def Let_def split: sum.splits if_splits)

lemma ConsensusNodes_distinct:
  assumes "ConsensusNodes P derive xpubs keys r = Inr m" "hex_keys r" "distinct keys" "set keys = dom (cr_NumOfVote r)"
    and "distinct (map (\<lambda>x. derive x fedConsensusPath) xpubs)"
  obtains ns where "numbered m ns" "distinct_nodes ns"
proof -
  let ?v = "cr_NumOfVote r" and ?h = "\<lambda>x. hex_encode (cn_XPub x)"
  let ?ks = "filter (qualifies P ?v) keys"
  let ?T = "take (nat (NumOfConsensusNode P)) (sort_by byVote_Less (map (node_of ?v) ?ks))"
    and ?F = "map (\<lambda>x. \<lparr>cn_XPub = derive x fedConsensusPath, cn_VoteNum = 0, cn_Order = 0\<rparr>) xpubs"
  have inj: "inj hex_encode" using hex_encode_inj by (blast intro: injI)
  have ok: "\<not> (\<exists>k \<in> set keys. qualifies P ?v k \<and> XPub_UnmarshalText k = None)"
  proof
    assume "\<exists>k \<in> set keys. qualifies P ?v k \<and> XPub_UnmarshalText k = None"
    then have "ConsensusNodes P derive xpubs keys r = Inl BadXPub" by (simp only: ConsensusNodes_def collect_nodes_eq if_True sum.case)
    with assms(1) show False by simp
  qed
  have ks: "distinct ?ks" "\<And>k. k \<in> set ?ks \<Longrightarrow> \<exists>bs. k = hex_encode bs" "\<And>k. k \<in> set ?ks \<Longrightarrow> XPub_UnmarshalText k \<noteq> None"
    using assms(2-4) ok by (simp_all add: hex_keys_def)
  have "mset (map ?h (sort_by byVote_Less (map (node_of ?v) ?ks))) = mset (map (\<lambda>k. ?h (node_of ?v k)) ?ks)"
    by (simp only: mset_map mset_sort_by image_mset.compositionality comp_def)
  also have "map (\<lambda>k. ?h (node_of ?v k)) ?ks = ?ks" using nodes_distinct(2) [OF ks] by (intro map_idI) simp
  finally have "distinct (map ?h (sort_by byVote_Less (map (node_of ?v) ?ks)))" using ks(1) by (metis mset_eq_imp_distinct_iff)
  then have chosen: "distinct_nodes ?T"
    by (metis distinct_nodes_def distinct_take take_map)
  have "map ?h ?F = map hex_encode (map (\<lambda>x. derive x fedConsensusPath) xpubs)" by simp
  moreover have "distinct (map hex_encode (map (\<lambda>x. derive x fedConsensusPath) xpubs))"
    unfolding distinct_map [of hex_encode] using assms(5) inj_on_subset [OF inj] by blast
  ultimately have fed: "distinct_nodes ?F" by (simp only: distinct_nodes_def)
  have "ConsensusNodes P derive xpubs keys r = (let chosen = number_nodes 0 ?T in
      if chosen \<noteq> [] then Inr (map_of (rev chosen)) else Inr (federationNodes derive xpubs))"
    by (simp only: ConsensusNodes_def collect_nodes_eq if_not_P [OF ok] sum.case)
  then have "numbered m ?T \<or> numbered m ?F"
    using assms(1) by (simp only: Let_def numbered_def federationNodes_def split: if_splits) simp_all
  with that chosen fed show thesis by blast
qed

section \<open>Results keep their keys\<close>

definition keys_ok :: "consensus_result \<Rightarrow> bool" where
  "keys_ok r \<longleftrightarrow> hex_keys r \<and> finite (dom (cr_NumOfVote r))"

abbreviation (input) keeps_finite :: "unit cr_op \<Rightarrow> bool" where
  "keeps_finite m \<equiv> hoare (\<lambda>r. finite (dom (cr_NumOfVote r))) m (\<lambda>_ r. finite (dom (cr_NumOfVote r))) (\<lambda>_ r. finite (dom (cr_NumOfVote r)))"

lemma finite_count: "keeps_finite (credit_votes k a)" "keeps_finite (debit_votes k a)"
  by (auto simp: hoare_def credit_votes_def credit_map_def debit_votes_def debit_map_def split: prod.splits if_splits)

lemma finite_each:
  assumes "\<And>k a. keeps_finite (opr k a)"
  shows "keeps_finite (each f opr x)"
proof (cases "f x")
  case (Some p)
  then show ?thesis using assms [of "fst p" "snd p"] by (simp add: each_def case_prod_beta)
qed (simp add: each_def hoare_def returnE_def)

lemma finite_apply_tx: "keeps_finite (CR_ApplyTransaction t)"
  unfolding CR_ApplyTransaction_def by (rule hoare_thenE; rule hoare_forE; rule finite_each; rule finite_count)

lemma finite_detach_tx: "keeps_finite (CR_DetachTransaction t)"
  unfolding CR_DetachTransaction_def by (rule hoare_thenE; rule hoare_forE; rule finite_each; rule finite_count)

lemma keeps_detach_tx: "keeps_keys (CR_DetachTransaction t)"
  unfolding CR_DetachTransaction_def
proof (rule hoare_thenE [where R = "\<lambda>_. hex_keys"])
  show "keeps_keys (forE (each veto_of credit_votes) (td_Inputs t))"
    by (intro hoare_forE keeps_each keeps_credit) (auto simp: veto_of_def split: option.splits typed_input.splits)
  show "keeps_keys (forE (each vote_of debit_votes) (td_Outputs t))"
    by (intro hoare_forE keeps_each keeps_debit) (auto simp: vote_of_def split: option.splits typed_output.splits)
qed

lemma keys_ok_apply_txs:
  assumes "keys_ok c" "forE CR_ApplyTransaction ts c = (Inr (), c')"
  shows "keys_ok c'"
  using hoareD_Inr [OF hoare_forE [OF keeps_tx] _ assms(2)] hoareD_Inr [OF hoare_forE [OF finite_apply_tx] _ assms(2)] assms(1)
  by (simp add: keys_ok_def)

lemma keys_ok_detach_txs:
  assumes "keys_ok c" "forE CR_DetachTransaction ts c = (Inr (), c')"
  shows "keys_ok c'"
  using hoareD_Inr [OF hoare_forE [OF keeps_detach_tx] _ assms(2)] hoareD_Inr [OF hoare_forE [OF finite_detach_tx] _ assms(2)] assms(1)
  by (simp add: keys_ok_def)

lemma keys_ok_cong: "cr_NumOfVote c = cr_NumOfVote c' \<Longrightarrow> keys_ok c = keys_ok c'"
  by (simp add: keys_ok_def hex_keys_def)

lemma keys_ok_apply:
  assumes "keys_ok c" "CR_ApplyBlock P sha3 b c = (Inr (), c')"
  shows "keys_ok c'"
proof -
  from assms(2) obtain c1 c2 where steps: "AttachCoinbaseReward P b c = (Inr (), c1)"
      "forE CR_ApplyTransaction (wb_Transactions b) c1 = (Inr (), c2)" "cr_NumOfVote c' = cr_NumOfVote c2"
    by (auto simp: CR_ApplyBlock_def bindE_Inr_iff thenE_Inr_iff getsE_def modifyE_def throwE_def split: if_splits)
  have "keys_ok c1" using assms(1) keys_ok_cong [OF reward_keeps_votes(1) [OF steps(1)]] by simp
  then show ?thesis using keys_ok_apply_txs [OF _ steps(2)] keys_ok_cong [OF steps(3)] by simp
qed

lemma keys_ok_detach:
  assumes "keys_ok c" "CR_DetachBlock P sha3 b c = (Inr (), c')"
  shows "keys_ok c'"
proof -
  from assms(2) obtain c1 c2 where steps: "DetachCoinbaseReward P b c = (Inr (), c1)"
      "forE CR_DetachTransaction (rev (wb_Transactions b)) c1 = (Inr (), c2)" "cr_NumOfVote c' = cr_NumOfVote c2"
    by (auto simp: CR_DetachBlock_def bindE_Inr_iff thenE_Inr_iff getsE_def modifyE_def throwE_def split: if_splits)
  have "keys_ok c1" using assms(1) keys_ok_cong [OF reward_keeps_votes(2) [OF steps(1)]] by simp
  then show ?thesis using keys_ok_detach_txs [OF _ steps(2)] keys_ok_cong [OF steps(3)] by simp
qed

lemma keys_ok_blocks:
  assumes "\<And>b c c'. keys_ok c \<Longrightarrow> f b c = (Inr (), c') \<Longrightarrow> keys_ok c'"
  shows "keys_ok c \<Longrightarrow> forE (with_block C f) bhs c = (Inr (), c') \<Longrightarrow> keys_ok c'"
proof (induction bhs arbitrary: c)
  case (Cons x xs)
  then obtain c1 where run: "with_block C f x c = (Inr (), c1)" "forE (with_block C f) xs c1 = (Inr (), c')"
    by (auto simp: thenE_Inr_iff)
  then obtain b where "f b c = (Inr (), c1)"
    by (auto simp: with_block_def bindE_Inr_iff need_def throwE_def returnE_def split: option.splits prod.splits sum.splits)
  from Cons.IH [OF assms [OF Cons.prems(1) this] run(2)] show ?case .
qed (simp add: returnE_def)

lemma getConsensusResult_keys:
  assumes "getConsensusResult n C seq bh = Inr r'" "\<And>r. c_result C seq = Some r \<Longrightarrow> keys_ok r"
  shows "keys_ok r'"
proof -
  obtain r where r: "c_result C seq = Some r" "reorganizeConsensusResult n C bh r = (Inr (), r')"
    using assms(1) by (auto simp: getConsensusResult_def split: option.splits prod.splits sum.splits)
  then obtain bhs bhs' c1 where "forE (with_block C (CR_DetachBlock (c_P C) (c_sha3 C))) bhs r = (Inr (), c1)"
      "forE (with_block C (CR_ApplyBlock (c_P C) (c_sha3 C))) bhs' c1 = (Inr (), r')"
    by (auto simp: reorganizeConsensusResult_def bindE_Inr_iff thenE_Inr_iff getsE_def need_def liftC_def throwE_def returnE_def
        split: option.splits sum.splits)
  with assms(2) [OF r(1)] show ?thesis using keys_ok_blocks keys_ok_apply keys_ok_detach by metis
qed

section \<open>Producers\<close>

text \<open>What Go's range loops over maps and the configured keys of the federation give.\<close>

definition ranges_ok :: "chain \<Rightarrow> bool" where
  "ranges_ok C \<longleftrightarrow>
     (\<forall>r. finite (dom (cr_NumOfVote r)) \<longrightarrow> distinct (c_vote_keys C r) \<and> set (c_vote_keys C r) = dom (cr_NumOfVote r)) \<and>
     (\<forall>m. finite (dom m) \<longrightarrow> distinct (c_node_keys C m) \<and> set (c_node_keys C m) = dom m)"

definition results_ok :: "chain \<Rightarrow> bool" where
  "results_ok C \<longleftrightarrow>
     (\<forall>seq r. c_result C seq = Some r \<longrightarrow> keys_ok r) \<and> distinct (map (\<lambda>x. c_derive C x fedConsensusPath) (c_xpubs C))"

lemma nodes_of_Inr:
  assumes "store_ok n C" "nodes_of n C prev = Inr m"
  obtains seq e r where "getConsensusResult n C seq e = Inr r"
    "ConsensusNodes (c_P C) (c_derive C) (c_xpubs C) (c_vote_keys C r) r = Inr m" "c_header C prev \<noteq> None"
proof (cases "c_header C prev")
  case None
  then show ?thesis using assms(2) by (simp add: nodes_of_def getConsensusNodes_def bindE_apply need_def throwE_def)
next
  case (Some bh)
  obtain e where "stored C e" "round_hash C prev (bhash C e)"
    using getPrevRoundLastBlock_found [OF assms(1) lru_keeps_Nil Some] by blast
  from getConsensusNodes_eq [OF assms(1) lru_keeps_Nil Some this] that assms(2) Some
  show ?thesis unfolding comp_pure nodes_of_def by (auto split: sum.splits)
qed

lemma nodes_numbered:
  assumes "store_ok n C" "nodes_of n C prev = Inr m"
  obtains ns where "numbered m ns"
proof -
  obtain seq e r where "ConsensusNodes (c_P C) (c_derive C) (c_xpubs C) (c_vote_keys C r) r = Inr m" by (rule nodes_of_Inr [OF assms])
  then show thesis by (rule ConsensusNodes_numbered) (rule that)
qed

lemma nodes_distinct_numbered:
  assumes "store_ok n C" "ranges_ok C" "results_ok C" "nodes_of n C prev = Inr m"
  obtains ns where "numbered m ns" "distinct_nodes ns"
proof -
  obtain seq e r where r: "getConsensusResult n C seq e = Inr r"
      "ConsensusNodes (c_P C) (c_derive C) (c_xpubs C) (c_vote_keys C r) r = Inr m" by (rule nodes_of_Inr [OF assms(1,4)])
  have "keys_ok r" by (rule getConsensusResult_keys [OF r(1)]) (use assms(3) in \<open>simp add: results_ok_def\<close>)
  then have "hex_keys r" "distinct (c_vote_keys C r)" "set (c_vote_keys C r) = dom (cr_NumOfVote r)"
    using assms(2) by (simp_all add: keys_ok_def ranges_ok_def)
  moreover have "distinct (map (\<lambda>x. c_derive C x fedConsensusPath) (c_xpubs C))" using assms(3) by (simp only: results_ok_def)
  ultimately show thesis by (rule ConsensusNodes_distinct [OF r(2)]) (rule that)
qed

lemma getBlockerOrder_closed:
  assumes "0 < N" "0 < BlockNumEachNode P" "0 < BlockTimeInterval P" "start \<le> t" "is_u64 t"
    and "is_u64 (BlockNumEachNode P * N * BlockTimeInterval P)"
  shows "getBlockerOrder P start t N = Some ((t - start) div (BlockNumEachNode P * BlockTimeInterval P) mod N)"
proof -
  let ?k = "BlockNumEachNode P" and ?i = "BlockTimeInterval P"
  define slot x where "slot = ?k * ?i" and "x = t - start"
  have slot: "0 < slot" "?k * N * ?i = slot * N" using assms(2,3) by (simp_all add: slot_def ac_simps)
  have "?k * N \<le> ?k * N * ?i" "slot \<le> slot * N" using assms(1,3) by simp_all
  then have "is_u64 (?k * N)" "is_u64 (slot * N)" "is_u64 slot"
    using assms(6) unfolding slot(2) is_u64_def by linarith+
  then have fits: "u64 (?k * N) = ?k * N" "u64 (?k * N * ?i) = slot * N" "u64 slot = slot"
    unfolding slot(2) by (blast intro: u64_id)+
  have "x div (slot * N) * (slot * N) \<le> x" by (simp add: div_times_less_eq_dividend)
  then have le: "start + x div (slot * N) * (slot * N) \<le> t" using assms(4) x_def by linarith
  then have nowrap: "u64 (start + u64 (x div (slot * N) * (slot * N))) = start + x div (slot * N) * (slot * N)"
    using assms(5) by (simp add: u64_id is_u64_def)
  have x: "sub_u64 t start = x" using assms(4,5) by (simp add: x_def sub_u64_id)
  have "t - (start + x div (slot * N) * (slot * N)) = x mod (slot * N)"
    using assms(4) by (simp add: x_def minus_div_mult_eq_mod [symmetric])
  then have "sub_u64 t (start + x div (slot * N) * (slot * N)) = x mod (slot * N)" using le assms(5) by (simp add: sub_u64_id)
  moreover have "x mod (slot * N) div slot = x div slot mod N" using slot(1) by (simp add: mod_mult2_eq)
  ultimately show ?thesis
    using assms(1) slot(1) unfolding getBlockerOrder_def fits(1) slot_def [symmetric] x_def [symmetric]
    by (simp add: fits x nowrap Let_def)
qed

lemma GetBlocker_slot:
  assumes S: "store_ok n C" and c: "rounds_ok C c" and R: "ranges_ok C" and U: "results_ok C"
    and nodes: "nodes_of n C prev = Inr nodes" "dom nodes \<noteq> {}"
    and last: "fst (getPrevRoundLastBlock n C prev c) = Inr e"
    and P: "0 < BlockNumEachNode (c_P C)" "0 < BlockTimeInterval (c_P C)"
    and t: "bh_Timestamp e + BlockTimeInterval (c_P C) \<le> t" "is_u64 t"
    and fits: "is_u64 (BlockNumEachNode (c_P C) * card (dom nodes) * BlockTimeInterval (c_P C))"
  shows "\<exists>k x. fst (GetBlocker n C prev t c) = Inr k \<and> nodes k = Some x \<and>
    cn_Order x = (t - (bh_Timestamp e + BlockTimeInterval (c_P C))) div
      (BlockNumEachNode (c_P C) * BlockTimeInterval (c_P C)) mod card (dom nodes)"
proof -
  obtain bh where bh: "c_header C prev = Some bh" using nodes_of_Inr [OF S nodes(1)] by auto
  obtain ns where ns: "numbered nodes ns" "distinct_nodes ns" using nodes_distinct_numbered [OF S R U nodes(1)] .
  obtain c1 where c1: "getConsensusNodes n C prev c = (Inr nodes, c1)" "rounds_ok C c1"
    using getConsensusNodes_pure [OF S c] nodes(1) by metis
  obtain e' c2 where e': "getPrevRoundLastBlock n C prev c1 = (Inr e', c2)" "stored C e'" "round_hash C prev (bhash C e')"
    using getPrevRoundLastBlock_found [OF S c1(2) bh] by blast
  have "e' = e" using getPrevRoundLastBlock_found [OF S c bh] e'(2,3) last round_hash_unique stored_inj by fastforce
  let ?N = "card (dom nodes)" and ?s = "bh_Timestamp e + BlockTimeInterval (c_P C)"
  let ?o = "(t - ?s) div (BlockNumEachNode (c_P C) * BlockTimeInterval (c_P C)) mod ?N"
  have keys: "distinct (c_node_keys C nodes)" "set (c_node_keys C nodes) = dom nodes"
    using R numbered_finite [OF ns(1)] by (auto simp: ranges_ok_def)
  have N: "length (c_node_keys C nodes) = ?N" using distinct_card [OF keys(1)] keys(2) by simp
  have pos: "0 < ?N" using nodes(2) numbered_finite [OF ns(1)] by (simp only: card_gt_0_iff simp_thms)
  have order: "getBlockerOrder (c_P C) (u64 ?s) t ?N = Some ?o"
    using getBlockerOrder_closed [OF pos P t fits] t by (simp add: u64_id is_u64_def)
  have "?o < length ns" using pos numbered_surj(1) [OF ns] by simp
  then obtain k x where kx: "nodes k = Some x" "cn_Order x = ?o" using numbered_surj(2) [OF ns] by blast
  then have "List.find (\<lambda>k. map_option cn_Order (nodes k) = Some ?o) (c_node_keys C nodes) \<noteq> None"
    using keys(2) by (auto simp: find_None_iff)
  then obtain k' where k': "List.find (\<lambda>k. map_option cn_Order (nodes k) = Some ?o) (c_node_keys C nodes) = Some k'" by blast
  then obtain x' where "nodes k' = Some x'" "cn_Order x' = ?o" by (auto simp: find_Some_iff)
  then show ?thesis
    using k' by (auto simp: GetBlocker_def bindE_apply c1(1) e'(1) \<open>e' = e\<close> need_def N order returnE_def Let_def)
qed

section \<open>Signatures of a block\<close>

lemma Witness_Get_Set: "Witness_Set w i d = Some w' \<Longrightarrow> Witness_Get w' j = (if j = i then d else Witness_Get w j)"
  by (auto simp: Witness_Set_def Witness_Get_def Let_def nth_append u64_def split: if_splits)

lemma Witness_Get_Delete: "Witness_Get (Witness_Delete w i) j = (if j = i then [] else Witness_Get w j)"
  by (simp add: Witness_Delete_def Witness_Get_def)

definition double_signed :: "nat \<Rightarrow> chain \<Rightarrow> block_header \<Rightarrow> string \<Rightarrow> bool" where
  "double_signed n C bh xPub \<longleftrightarrow>
     (\<exists>hs h x m node. c_hashes C (bh_Height bh) = Some hs \<and> h \<in> set hs \<and> h \<noteq> bhash C bh \<and> c_header C h = Some x \<and>
        nodes_of n C (bh_PreviousBlockHash x) = Inr m \<and> m xPub = Some node \<and> Witness_Get (bh_Witness x) (cn_Order node) \<noteq> [])"

lemma forE_rounds:
  assumes "\<And>x c. x \<in> set xs \<Longrightarrow> rounds_ok C c \<Longrightarrow> rounds_ok C (snd (f x c)) \<and> (fst (f x c) = Inr () \<longrightarrow> Q x)"
  shows "rounds_ok C c \<Longrightarrow> rounds_ok C (snd (forE f xs c)) \<and> (fst (forE f xs c) = Inr () \<longrightarrow> (\<forall>x \<in> set xs. Q x))"
  using assms
proof (induction xs arbitrary: c)
  case (Cons x xs)
  have one: "rounds_ok C (snd (f x c))" "fst (f x c) = Inr () \<Longrightarrow> Q x" using Cons.prems by auto
  have rest: "rounds_ok C (snd (forE f xs (snd (f x c)))) \<and> (fst (forE f xs (snd (f x c))) = Inr () \<longrightarrow> (\<forall>x \<in> set xs. Q x))"
    by (rule Cons.IH [OF one(1)]) (simp add: Cons.prems(2))
  obtain r c1 where "f x c = (r, c1)" by fastforce
  then show ?case using one rest by (cases r) (simp_all add: thenE_apply)
qed (simp add: returnE_def)

lemma getConsensusNode_pure:
  assumes "store_ok n C" "rounds_ok C c"
  shows "\<exists>c'. getConsensusNode n C prev k c =
    (case nodes_of n C prev of Inl e \<Rightarrow> Inl e | Inr m \<Rightarrow> (case m k of None \<Rightarrow> Inl ErrNotFoundConsensusNode | Some x \<Rightarrow> Inr x), c') \<and>
    rounds_ok C c'"
proof -
  obtain c' where "getConsensusNodes n C prev c = (nodes_of n C prev, c')" "rounds_ok C c'"
    using getConsensusNodes_pure [OF assms] by blast
  then show ?thesis
    by (auto simp: getConsensusNode_def bindE_apply need_def throwE_def returnE_def split: sum.split option.split)
qed

lemma other_block_signed_spec:
  assumes "store_ok n C" "rounds_ok C c"
  shows "rounds_ok C (snd (other_block_signed n C x k c)) \<and>
    (fst (other_block_signed n C x k c) = Inr () \<longrightarrow>
     (\<forall>m node. nodes_of n C (bh_PreviousBlockHash x) = Inr m \<and> m k = Some node \<longrightarrow> Witness_Get (bh_Witness x) (cn_Order node) = []))"
proof -
  obtain c' where "getConsensusNode n C (bh_PreviousBlockHash x) k c =
      (case nodes_of n C (bh_PreviousBlockHash x) of Inl e \<Rightarrow> Inl e
       | Inr m \<Rightarrow> (case m k of None \<Rightarrow> Inl ErrNotFoundConsensusNode | Some x \<Rightarrow> Inr x), c')" "rounds_ok C c'"
    using getConsensusNode_pure [OF assms] by blast
  then show ?thesis by (auto simp: other_block_signed_def split: sum.splits option.splits)
qed

lemma checkDoubleSign_spec:
  assumes "store_ok n C" "rounds_ok C c"
  shows "rounds_ok C (snd (checkDoubleSign n C bh k c)) \<and> (fst (checkDoubleSign n C bh k c) = Inr () \<longrightarrow> \<not> double_signed n C bh k)"
proof (cases "c_hashes C (bh_Height bh)")
  case (Some hs)
  let ?f = "\<lambda>h. if h = bhash C bh then returnE ()
    else bindE (need StoreError (c_header C h)) (\<lambda>x. other_block_signed n C x k)"
  let ?Q = "\<lambda>h. h \<noteq> bhash C bh \<longrightarrow> (\<forall>x m node. c_header C h = Some x \<and> nodes_of n C (bh_PreviousBlockHash x) = Inr m \<and> m k = Some node \<longrightarrow>
    Witness_Get (bh_Witness x) (cn_Order node) = [])"
  have "rounds_ok C (snd (?f h c1)) \<and> (fst (?f h c1) = Inr () \<longrightarrow> ?Q h)" if "rounds_ok C c1" for h c1
  proof (cases "c_header C h")
    case None
    then show ?thesis using that by (simp add: returnE_def need_def bindE_apply throwE_def)
  next
    case (Some x)
    then show ?thesis using that other_block_signed_spec [OF assms(1) that, of x k] by (auto simp: returnE_def need_def bindE_apply)
  qed
  then have "rounds_ok C (snd (forE ?f hs c)) \<and> (fst (forE ?f hs c) = Inr () \<longrightarrow> (\<forall>h \<in> set hs. ?Q h))"
    by (intro forE_rounds assms(2))
  moreover have "checkDoubleSign n C bh k c = forE ?f hs c" by (simp add: checkDoubleSign_def need_def Some bindE_apply returnE_def)
  ultimately show ?thesis by (auto simp: double_signed_def Some)
qed (use assms(2) in \<open>simp add: checkDoubleSign_def need_def bindE_apply throwE_def\<close>)

text \<open>A signature that is valid, by a node whose signature no other stored block of the height has.\<close>

definition good :: "nat \<Rightarrow> chain \<Rightarrow> block_header \<Rightarrow> consensus_node \<Rightarrow> bytes \<Rightarrow> bool" where
  "good n C bh node sig \<longleftrightarrow>
     c_verify C (cn_XPub node) (Byte32 (bhash C bh)) sig \<and> \<not> double_signed n C bh (hex_encode (cn_XPub node))"

lemma checkNodeSign_spec:
  assumes "store_ok n C" "rounds_ok C c"
  shows "rounds_ok C (snd (checkNodeSign n C bh node sig c)) \<and> (fst (checkNodeSign n C bh node sig c) = Inr () \<longrightarrow> good n C bh node sig)"
  using checkDoubleSign_spec [OF assms, of bh "hex_encode (cn_XPub node)"] assms(2)
  by (simp add: checkNodeSign_def thenE_apply assertE_def returnE_def throwE_def good_def)

definition slot_ok :: "nat \<Rightarrow> chain \<Rightarrow> block_header \<Rightarrow> (string \<rightharpoonup> consensus_node) \<Rightarrow> bytes list \<Rightarrow> string \<Rightarrow> bool" where
  "slot_ok n C bh m w k \<longleftrightarrow>
     (\<forall>node. m k = Some node \<longrightarrow> Witness_Get w (cn_Order node) = [] \<or> good n C bh node (Witness_Get w (cn_Order node)))"

definition same_slots :: "(string \<rightharpoonup> consensus_node) \<Rightarrow> string set \<Rightarrow> bytes list \<Rightarrow> bytes list \<Rightarrow> bool" where
  "same_slots m K w w' \<longleftrightarrow> (\<forall>j node. m j = Some node \<and> j \<notin> K \<longrightarrow> Witness_Get w' (cn_Order node) = Witness_Get w (cn_Order node))"

definition blocker_good :: "nat \<Rightarrow> chain \<Rightarrow> block_header \<Rightarrow> (string \<rightharpoonup> consensus_node) \<Rightarrow> string \<Rightarrow> bytes list \<Rightarrow> bool" where
  "blocker_good n C bh m blocker w \<longleftrightarrow> (\<exists>node. m blocker = Some node \<and> good n C bh node (Witness_Get w (cn_Order node)))"

text \<open>What the loop of \<^verbatim>\<open>validateSign\<close> has done to the slots of the nodes \<open>K\<close>.\<close>

definition slots_checked ::
    "nat \<Rightarrow> chain \<Rightarrow> block_header \<Rightarrow> (string \<rightharpoonup> consensus_node) \<Rightarrow> string \<Rightarrow> string set \<Rightarrow> sign_state \<Rightarrow> sign_state \<Rightarrow> bool" where
  "slots_checked n C bh m blocker K s s' \<longleftrightarrow>
     rounds_ok C (ss_rounds s') \<and> (\<forall>k \<in> K. slot_ok n C bh m (ss_witness s') k) \<and> same_slots m K (ss_witness s) (ss_witness s') \<and>
     (ss_blocker_signed s' \<longrightarrow> ss_blocker_signed s \<or> blocker \<in> K \<and> blocker_good n C bh m blocker (ss_witness s'))"

lemma GetBlocker_pure:
  assumes S: "store_ok n C" and c: "rounds_ok C c"
  shows "\<exists>c'. GetBlocker n C prev t c = (fst (GetBlocker n C prev t []), c') \<and> rounds_ok C c'"
proof -
  obtain c1 where c1: "getConsensusNodes n C prev c = (nodes_of n C prev, c1)" "rounds_ok C c1"
    using getConsensusNodes_pure [OF S c] by blast
  obtain d1 where d1: "getConsensusNodes n C prev [] = (nodes_of n C prev, d1)" "rounds_ok C d1"
    using getConsensusNodes_pure [OF S lru_keeps_Nil] by blast
  show ?thesis
  proof (cases "nodes_of n C prev")
    case (Inl e)
    then show ?thesis using c1 d1 by (simp add: GetBlocker_def bindE_apply)
  next
    case (Inr m)
    obtain bh where bh: "c_header C prev = Some bh" by (rule nodes_of_Inr [OF S Inr]) auto
    from getPrevRoundLastBlock_found [OF S c1(2) bh] obtain e c2 where
      e: "getPrevRoundLastBlock n C prev c1 = (Inr e, c2)" "stored C e" "round_hash C prev (bhash C e)" "rounds_ok C c2" by blast
    from getPrevRoundLastBlock_found [OF S d1(2) bh] obtain f d2 where
      f: "getPrevRoundLastBlock n C prev d1 = (Inr f, d2)" "stored C f" "round_hash C prev (bhash C f)" by blast
    have "f = e" using round_hash_unique [OF e(3) f(3)] stored_inj [OF f(2) e(2)] by simp
    with c1 d1 e f Inr show ?thesis
      by (simp add: GetBlocker_def bindE_apply need_def Let_def throwE_def returnE_def split: option.split)
  qed
qed

lemma fetch_signature_spec:
  assumes "fetch_signature h k i s = (Inr r, s')"
  shows "ss_rounds s' = ss_rounds s \<and> ss_blocker_signed s' = ss_blocker_signed s \<and>
    (\<forall>j. j \<noteq> i \<longrightarrow> Witness_Get (ss_witness s') j = Witness_Get (ss_witness s) j) \<and> (r \<or> Witness_Get (ss_witness s') i = [])"
  using assms by (auto simp: fetch_signature_def Let_def Witness_Get_Set split: if_splits option.splits prod.splits)

lemma check_slot_spec:
  assumes S: "store_ok n C" and c: "rounds_ok C (ss_rounds s)" and run: "check_slot n C bh blocker k node s = (Inr (), s')"
  shows "rounds_ok C (ss_rounds s') \<and>
    (\<forall>j. j \<noteq> cn_Order node \<longrightarrow> Witness_Get (ss_witness s') j = Witness_Get (ss_witness s) j) \<and>
    (Witness_Get (ss_witness s') (cn_Order node) = [] \<and> ss_blocker_signed s' = ss_blocker_signed s \<or>
     good n C bh node (Witness_Get (ss_witness s') (cn_Order node)) \<and> (ss_blocker_signed s' \<longrightarrow> ss_blocker_signed s \<or> k = blocker))"
proof -
  let ?r = "checkNodeSign n C bh node (Witness_Get (ss_witness s) (cn_Order node)) (ss_rounds s)"
  have spec: "rounds_ok C (snd ?r)" "fst ?r = Inr () \<Longrightarrow> good n C bh node (Witness_Get (ss_witness s) (cn_Order node))"
    using checkNodeSign_spec [OF S c] by auto
  obtain a c' where r: "?r = (a, c')" by fastforce
  show ?thesis
  proof (cases a)
    case (Inl e)
    then show ?thesis using run spec r by (auto simp: check_slot_def on_rounds_def Witness_Get_Delete split: if_splits)
  next
    case (Inr u)
    then show ?thesis using run spec r by (auto simp: check_slot_def on_rounds_def split: if_splits)
  qed
qed

lemma sign_step_spec:
  assumes S: "store_ok n C" and m: "numbered m ns" and c: "rounds_ok C (ss_rounds s)"
    and run: "sign_step n C bh blocker m k s = (Inr (), s')"
  shows "slots_checked n C bh m blocker {k} s s'"
proof (cases "m k")
  case None
  then show ?thesis using run c
    by (auto simp: sign_step_def returnE_def slots_checked_def slot_ok_def same_slots_def)
next
  case (Some node)
  obtain r s1 where s1: "fetch_signature (bhash C bh) k (cn_Order node) s = (Inr r, s1)"
      "(if r then check_slot n C bh blocker k node else returnE ()) s1 = (Inr (), s')"
    using run by (auto simp: sign_step_def Some bindE_Inr_iff)
  note F = fetch_signature_spec [OF s1(1)]
  have order: "cn_Order x \<noteq> cn_Order node" if "m j = Some x" "j \<noteq> k" for j x using numbered_inj [OF m that(1) Some] that(2) by blast
  have out: "rounds_ok C (ss_rounds s') \<and>
      (\<forall>j. j \<noteq> cn_Order node \<longrightarrow> Witness_Get (ss_witness s') j = Witness_Get (ss_witness s1) j) \<and>
      (Witness_Get (ss_witness s') (cn_Order node) = [] \<and> ss_blocker_signed s' = ss_blocker_signed s1 \<or>
       good n C bh node (Witness_Get (ss_witness s') (cn_Order node)) \<and> (ss_blocker_signed s' \<longrightarrow> ss_blocker_signed s1 \<or> k = blocker))"
    using F c s1(2) check_slot_spec [OF S, of s1 bh blocker k node s'] by (cases r) (auto simp: returnE_def)
  have "same_slots m {k} (ss_witness s) (ss_witness s')" using F out order by (auto simp: same_slots_def)
  moreover have "slot_ok n C bh m (ss_witness s') k" using out Some by (auto simp: slot_ok_def)
  moreover have "ss_blocker_signed s' \<Longrightarrow> ss_blocker_signed s \<or> blocker \<in> {k} \<and> blocker_good n C bh m blocker (ss_witness s')"
    using out F Some by (auto simp: blocker_good_def)
  ultimately show ?thesis using out by (simp add: slots_checked_def)
qed

lemma same_slotsD:
  assumes "same_slots m K w w'" "k \<notin> K"
  shows "slot_ok n C bh m w' k = slot_ok n C bh m w k" "blocker_good n C bh m k w' = blocker_good n C bh m k w"
  using assms by (auto simp: same_slots_def slot_ok_def blocker_good_def)

lemma sign_loop_spec:
  assumes S: "store_ok n C" and m: "numbered m ns"
  shows "distinct ks \<Longrightarrow> rounds_ok C (ss_rounds s) \<Longrightarrow> forE (sign_step n C bh blocker m) ks s = (Inr (), s') \<Longrightarrow>
    slots_checked n C bh m blocker (set ks) s s'"
proof (induction ks arbitrary: s)
  case (Cons k ks)
  then obtain s1 where run: "sign_step n C bh blocker m k s = (Inr (), s1)" "forE (sign_step n C bh blocker m) ks s1 = (Inr (), s')"
    by (auto simp: thenE_Inr_iff)
  have one: "slots_checked n C bh m blocker {k} s s1" by (rule sign_step_spec [OF S m Cons.prems(2) run(1)])
  then have "rounds_ok C (ss_rounds s1)" by (simp only: slots_checked_def)
  then have rest: "slots_checked n C bh m blocker (set ks) s1 s'" using Cons.IH run(2) Cons.prems(1) by simp
  have k: "k \<notin> set ks" using Cons.prems(1) by simp
  have same: "same_slots m (set ks) (ss_witness s1) (ss_witness s')" using rest by (simp only: slots_checked_def)
  have "slot_ok n C bh m (ss_witness s') k" using one same_slotsD(1) [OF same k] by (simp add: slots_checked_def)
  moreover have "same_slots m (insert k (set ks)) (ss_witness s) (ss_witness s')"
    using one same by (auto simp: slots_checked_def same_slots_def)
  moreover have "ss_blocker_signed s' \<Longrightarrow>
      ss_blocker_signed s \<or> blocker \<in> insert k (set ks) \<and> blocker_good n C bh m blocker (ss_witness s')"
    using one rest same_slotsD(2) [OF same k] by (auto simp: slots_checked_def)
  ultimately show ?case using rest by (simp add: slots_checked_def)
qed (simp add: returnE_def slots_checked_def same_slots_def)

lemma validateSign_spec:
  assumes S: "store_ok n C" and c: "rounds_ok C rounds" and R: "ranges_ok C"
    and run: "validateSign n C bh (new_sign_state bh sigs rounds) = (Inr (), s')"
  shows "\<exists>m blocker. nodes_of n C (bh_PreviousBlockHash bh) = Inr m \<and>
    fst (GetBlocker n C (bh_PreviousBlockHash bh) (bh_Timestamp bh) rounds) = Inr blocker \<and>
    blocker_good n C bh m blocker (ss_witness s') \<and> (\<forall>k. slot_ok n C bh m (ss_witness s') k)"
proof -
  let ?p = "bh_PreviousBlockHash bh"
  obtain c1 where c1: "getConsensusNodes n C ?p rounds = (nodes_of n C ?p, c1)" "rounds_ok C c1"
    using getConsensusNodes_pure [OF S c] by blast
  from run c1 obtain m blocker c2 where m: "nodes_of n C ?p = Inr m" "GetBlocker n C ?p (bh_Timestamp bh) c1 = (Inr blocker, c2)"
      "forE (sign_step n C bh blocker m) (c_node_keys C m) ((new_sign_state bh sigs rounds)\<lparr>ss_rounds := c2\<rparr>) = (Inr (), s')"
      "ss_blocker_signed s'"
    by (auto simp: validateSign_def bindE_Inr_iff thenE_Inr_iff on_rounds_def new_sign_state_def getsE_def assertE_def returnE_def throwE_def
        split: if_splits prod.splits)
  obtain ns where ns: "numbered m ns" by (rule nodes_numbered [OF S m(1)])
  have keys: "distinct (c_node_keys C m)" "set (c_node_keys C m) = dom m" using R numbered_finite [OF ns] by (simp_all add: ranges_ok_def)
  have c2: "rounds_ok C c2" "fst (GetBlocker n C ?p (bh_Timestamp bh) rounds) = Inr blocker"
    using GetBlocker_pure [OF S c1(2), of ?p "bh_Timestamp bh"] GetBlocker_pure [OF S c, of ?p "bh_Timestamp bh"] m(2) by auto
  have "slots_checked n C bh m blocker (dom m) ((new_sign_state bh sigs rounds)\<lparr>ss_rounds := c2\<rparr>) s'"
    using sign_loop_spec [OF S ns keys(1) _ m(3)] c2(1) keys(2) by simp
  then have "\<forall>k \<in> dom m. slot_ok n C bh m (ss_witness s') k" "blocker_good n C bh m blocker (ss_witness s')"
    using m(4) by (simp_all add: slots_checked_def new_sign_state_def)
  then have "\<forall>k. slot_ok n C bh m (ss_witness s') k" by (auto simp: slot_ok_def)
  with \<open>blocker_good n C bh m blocker (ss_witness s')\<close> m(1) c2(2) show ?thesis by blast
qed

section \<open>Properties\<close>

text \<open>
  Property C17: every moment after the last round has its producer.  \<^verbatim>\<open>GetBlocker\<close> returns the one node whose number is
  the number of the time slot, counted from the end of the last round, modulo the number of nodes; so the nodes
  take turns, and the error at the end of \<^verbatim>\<open>GetBlocker\<close> does not occur.
\<close>

theorem GetBlocker_in_turn:
  assumes "store_ok n C" "rounds_ok C c" "ranges_ok C" "results_ok C"
    and "fst (getConsensusNodes n C prev c) = Inr nodes" "dom nodes \<noteq> {}"
    and "fst (getPrevRoundLastBlock n C prev c) = Inr e"
    and "0 < BlockNumEachNode (c_P C)" "0 < BlockTimeInterval (c_P C)"
    and "bh_Timestamp e + BlockTimeInterval (c_P C) \<le> t" "is_u64 t"
    and "is_u64 (BlockNumEachNode (c_P C) * card (dom nodes) * BlockTimeInterval (c_P C))"
  shows "\<exists>k x. fst (GetBlocker n C prev t c) = Inr k \<and> nodes k = Some x \<and>
    cn_Order x = (t - (bh_Timestamp e + BlockTimeInterval (c_P C))) div
      (BlockNumEachNode (c_P C) * BlockTimeInterval (c_P C)) mod card (dom nodes) \<and>
    (\<forall>j y. nodes j = Some y \<and> cn_Order y = cn_Order x \<longrightarrow> j = k)"
proof -
  have nodes: "nodes_of n C prev = Inr nodes" using getConsensusNodes_pure [OF assms(1,2), of prev] assms(5) by auto
  obtain ns where ns: "numbered nodes ns" by (rule nodes_numbered [OF assms(1) nodes])
  from GetBlocker_slot [OF assms(1-4) nodes assms(6-12)] show ?thesis using numbered_inj [OF ns] by metis
qed

text \<open>
  Property C18: two irreversible blocks share signers.  If \<^verbatim>\<open>isIrreversible\<close> accepts two blocks of one height that follow
  the same round, more than a third of the consensus nodes have signed both.
\<close>

theorem irreversible_overlap:
  assumes "store_ok n C" "rounds_ok C c" "rounds_ok C c'"
    and "fst (isIrreversible n C a c)" "fst (isIrreversible n C b c')"
    and "c_header C (bh_PreviousBlockHash a) = Some p" "c_header C (bh_PreviousBlockHash b) = Some q" "bh_Height p = bh_Height q"
    and "round_hash C (bh_PreviousBlockHash a) d" "round_hash C (bh_PreviousBlockHash b) d"
  shows "\<exists>nodes. fst (getConsensusNodes n C (bh_PreviousBlockHash a) c) = Inr nodes \<and>
    (let N = length (c_node_keys C nodes) in
     N < 3 * card {i. i < N \<and> Witness_Get (bh_Witness a) i \<noteq> [] \<and> Witness_Get (bh_Witness b) i \<noteq> []})"
proof -
  obtain m where m: "nodes_of n C (bh_PreviousBlockHash a) = Inr m"
      "length (c_node_keys C m) * 2 div 3 < card (signers (bh_Witness a) (length (c_node_keys C m)))"
    by (rule isIrreversible_True [OF assms(1,2,4)])
  obtain m' where m': "nodes_of n C (bh_PreviousBlockHash b) = Inr m'"
      "length (c_node_keys C m') * 2 div 3 < card (signers (bh_Witness b) (length (c_node_keys C m')))"
    by (rule isIrreversible_True [OF assms(1,3,5)])
  have "m' = m" using nodes_of_same [OF assms(1,6-10)] m(1) m'(1) by simp
  then have "length (c_node_keys C m) <
      3 * card (signers (bh_Witness a) (length (c_node_keys C m)) \<inter> signers (bh_Witness b) (length (c_node_keys C m)))"
    using m(2) m'(2) by (intro quorum_overlap) (auto simp: signers_def)
  moreover have "signers v N \<inter> signers w N = {i. i < N \<and> Witness_Get v i \<noteq> [] \<and> Witness_Get w i \<noteq> []}" for v w N
    by (auto simp: signers_def)
  moreover have "fst (getConsensusNodes n C (bh_PreviousBlockHash a) c) = Inr m"
    using getConsensusNodes_pure [OF assms(1,2), of "bh_PreviousBlockHash a"] m(1) by auto
  ultimately show ?thesis by (simp add: Let_def)
qed

text \<open>
  Property C6: when \<^verbatim>\<open>validateSign\<close> accepts a block, its producer has signed it, and every signature that it leaves in the
  slot of a consensus node is a valid signature of that node, which has signed no other stored block of the height.
\<close>

theorem validateSign_keeps_good:
  assumes "store_ok n C" "rounds_ok C rounds" "ranges_ok C"
    and "validateSign n C bh (new_sign_state bh sigs rounds) = (Inr (), s')"
  shows "\<exists>nodes blocker x. fst (getConsensusNodes n C (bh_PreviousBlockHash bh) rounds) = Inr nodes \<and>
    fst (GetBlocker n C (bh_PreviousBlockHash bh) (bh_Timestamp bh) rounds) = Inr blocker \<and>
    nodes blocker = Some x \<and> good n C bh x (Witness_Get (ss_witness s') (cn_Order x)) \<and>
    (\<forall>k y. nodes k = Some y \<and> Witness_Get (ss_witness s') (cn_Order y) \<noteq> [] \<longrightarrow>
       good n C bh y (Witness_Get (ss_witness s') (cn_Order y)))"
proof -
  obtain m blocker where m: "nodes_of n C (bh_PreviousBlockHash bh) = Inr m"
      "fst (GetBlocker n C (bh_PreviousBlockHash bh) (bh_Timestamp bh) rounds) = Inr blocker"
      "blocker_good n C bh m blocker (ss_witness s')" "\<forall>k. slot_ok n C bh m (ss_witness s') k"
    using validateSign_spec [OF assms] by blast
  have "fst (getConsensusNodes n C (bh_PreviousBlockHash bh) rounds) = Inr m"
    using getConsensusNodes_pure [OF assms(1,2), of "bh_PreviousBlockHash bh"] m(1) by auto
  with m(2-4) show ?thesis unfolding blocker_good_def slot_ok_def by blast
qed

end
