(* ===== verification/Orphan_Manage.thy ===== *)
theory Orphan_Manage
  imports Consensus_Result "HOL-Library.AList"
begin

text \<open>
  Blocks whose parent is not known (\<^verbatim>\<open>protocol/orphan_manage.go\<close>), and how they are taken up when it arrives
  (\<^verbatim>\<open>saveSubBlock\<close> of \<^verbatim>\<open>protocol/block.go\<close>).  The index from a parent to its orphans has Go slices as values.  Removing an
  element moves the later ones inside the backing array, which a loop over the old slice sees; so
  the model has an explicit heap of arrays.  A cell beyond the length of every slice holds a nil pointer in
  Go and an arbitrary hash here.  The order in which Go ranges over a map, the clock and the capacity of a
  new array are arguments.
\<close>

section \<open>Slices of hashes\<close>

record hash_slice =
  hs_array :: nat
  hs_len :: nat

definition slice_hashes :: "hash list list \<Rightarrow> hash_slice \<Rightarrow> hash list" where
  "slice_hashes heap s = take (hs_len s) (heap ! hs_array s)"

text \<open>\<^verbatim>\<open>append(s, h)\<close>: in place while there is room, otherwise in a new array.\<close>

definition append_hash :: "(nat \<Rightarrow> nat) \<Rightarrow> hash_slice option \<Rightarrow> hash \<Rightarrow> hash list list \<Rightarrow> hash_slice \<times> hash list list" where
  "append_hash grow s h heap =
     (let old = (case s of None \<Rightarrow> [] | Some x \<Rightarrow> slice_hashes heap x);
          fresh = (\<lparr>hs_array = length heap, hs_len = Suc (length old)\<rparr>,
                   heap @ [old @ [h] @ replicate (grow (length old) - Suc (length old)) zeroHash])
      in case s of
        None \<Rightarrow> fresh
      | Some x \<Rightarrow>
          if hs_len x < length (heap ! hs_array x)
          then (x\<lparr>hs_len := Suc (hs_len x)\<rparr>, heap[hs_array x := (heap ! hs_array x)[hs_len x := h]])
          else fresh)"

text \<open>\<^verbatim>\<open>append(s[:i], s[i+1:]...)\<close>: the later elements move down; the last cell keeps its value.\<close>

definition remove_at :: "nat \<Rightarrow> hash_slice \<Rightarrow> hash list list \<Rightarrow> hash_slice \<times> hash list list" where
  "remove_at i s heap =
     (let a = heap ! hs_array s in
      (s\<lparr>hs_len := hs_len s - 1\<rparr>,
       heap[hs_array s := take i a @ drop (Suc i) (take (hs_len s) a) @ drop (hs_len s - 1) a]))"

fun index_of :: "'a \<Rightarrow> 'a list \<Rightarrow> nat option" where
  "index_of x [] = None"
| "index_of x (y # ys) = (if y = x then Some 0 else map_option Suc (index_of x ys))"

section \<open>Orphans\<close>

record orphan_block =
  ob_Block :: wire_block
  ob_expiration :: int

record orphan_manage =
  om_orphan :: "(hash \<times> orphan_block) list"
  om_prev :: "hash \<rightharpoonup> hash_slice"
  om_heap :: "hash list list"

definition NewOrphanManage :: orphan_manage where
  "NewOrphanManage = \<lparr>om_orphan = [], om_prev = Map.empty, om_heap = []\<rparr>"

definition orphanBlockTTL :: int where
  "orphanBlockTTL = 3 * 60 * 1000000000"

definition numOrphanBlockLimit :: nat where
  "numOrphanBlockLimit = 256"

definition block_Hash :: "(bytes \<Rightarrow> bytes) \<Rightarrow> wire_block \<Rightarrow> hash" where
  "block_Hash sha3 b = header_Hash sha3 (wb_Header b)"

abbreviation parent_of :: "wire_block \<Rightarrow> hash" where
  "parent_of b \<equiv> bh_PreviousBlockHash (wb_Header b)"

definition om_BlockExist :: "hash \<Rightarrow> orphan_manage \<Rightarrow> bool" where
  "om_BlockExist h o' \<longleftrightarrow> map_of (om_orphan o') h \<noteq> None"

definition om_Get :: "hash \<Rightarrow> orphan_manage \<Rightarrow> wire_block option" where
  "om_Get h o' = map_option ob_Block (map_of (om_orphan o') h)"

definition GetPrevOrphans :: "hash \<Rightarrow> orphan_manage \<Rightarrow> hash_slice option" where
  "GetPrevOrphans h o' = om_prev o' h"

definition om_delete :: "hash \<Rightarrow> orphan_manage \<Rightarrow> orphan_manage" where
  "om_delete h o' =
     (case map_of (om_orphan o') h of
        None \<Rightarrow> o'
      | Some ob \<Rightarrow>
          let o1 = o'\<lparr>om_orphan := AList.delete h (om_orphan o')\<rparr>; p = parent_of (ob_Block ob) in
          (case om_prev o1 p of
             None \<Rightarrow> o1
           | Some s \<Rightarrow>
               if hs_len s = 1 then o1\<lparr>om_prev := (om_prev o1)(p := None)\<rparr>
               else
                 (case index_of h (slice_hashes (om_heap o1) s) of
                    None \<Rightarrow> o1
                  | Some i \<Rightarrow>
                      (case remove_at i s (om_heap o1) of (s', heap) \<Rightarrow>
                         o1\<lparr>om_prev := (om_prev o1)(p \<mapsto> s'), om_heap := heap\<rparr>))))"

text \<open>The oldest block; \<open>keys\<close> is the order of the range loop.\<close>

definition older :: "orphan_block option \<Rightarrow> orphan_block option \<Rightarrow> orphan_block option" where
  "older best new =
     (case (best, new) of
        (Some b, Some n) \<Rightarrow> if ob_expiration n < ob_expiration b then new else best
      | (None, _) \<Rightarrow> new
      | (_, None) \<Rightarrow> best)"

definition deleteLRU :: "(bytes \<Rightarrow> bytes) \<Rightarrow> hash list \<Rightarrow> orphan_manage \<Rightarrow> orphan_manage" where
  "deleteLRU sha3 keys o' =
     (case fold (\<lambda>k best. older best (map_of (om_orphan o') k)) keys None of
        None \<Rightarrow> o'
      | Some b \<Rightarrow> om_delete (block_Hash sha3 (ob_Block b)) o')"

definition om_Add :: "(bytes \<Rightarrow> bytes) \<Rightarrow> (nat \<Rightarrow> nat) \<Rightarrow> hash list \<Rightarrow> int \<Rightarrow> wire_block \<Rightarrow> orphan_manage \<Rightarrow> orphan_manage" where
  "om_Add sha3 grow keys now b o' =
     (let h = block_Hash sha3 b in
      if map_of (om_orphan o') h \<noteq> None then o'
      else
        let o1 = (if length (om_orphan o') \<ge> numOrphanBlockLimit then deleteLRU sha3 keys o' else o') in
        case append_hash grow (om_prev o1 (parent_of b)) h (om_heap o1) of (s, heap) \<Rightarrow>
          o1\<lparr>om_orphan := AList.update h \<lparr>ob_Block = b, ob_expiration = now + orphanBlockTTL\<rparr> (om_orphan o1),
             om_prev := (om_prev o1)(parent_of b \<mapsto> s), om_heap := heap\<rparr>)"

definition orphanExpire :: "hash list \<Rightarrow> int \<Rightarrow> orphan_manage \<Rightarrow> orphan_manage" where
  "orphanExpire keys now o' =
     fold (\<lambda>k o1. case map_of (om_orphan o1) k of
                     None \<Rightarrow> o1
                   | Some b \<Rightarrow> if ob_expiration b < now then om_delete k o1 else o1) keys o'"

section \<open>Taking up orphans (block.go)\<close>

text \<open>
  \<open>accepts\<close> stands for the checks of \<^verbatim>\<open>saveBlock\<close>, which look at the block and at the store; the store is the list of
  saved blocks.  A saved block leaves the orphans.
\<close>

record chain_blocks =
  cb_orphans :: orphan_manage
  cb_saved :: "wire_block list"

definition save_checked :: "(bytes \<Rightarrow> bytes) \<Rightarrow> (wire_block list \<Rightarrow> wire_block \<Rightarrow> bool) \<Rightarrow> wire_block \<Rightarrow> chain_blocks \<Rightarrow> bool \<times> chain_blocks" where
  "save_checked sha3 accepts b c =
     (if accepts (cb_saved c) b
      then (True, c\<lparr>cb_orphans := om_delete (block_Hash sha3 b) (cb_orphans c), cb_saved := cb_saved c @ [b]\<rparr>)
      else (False, c))"

text \<open>
  The loop of \<^verbatim>\<open>saveSubBlock\<close> over the old slice \<open>s\<close>, from index \<open>i\<close>: it reads the cells as they are when it comes
  to them.  \<open>n\<close> bounds the depth of the recursion.
\<close>

definition higher :: "wire_block \<Rightarrow> wire_block \<Rightarrow> wire_block" where
  "higher best sub = (if bh_Height (wb_Header sub) > bh_Height (wb_Header best) then sub else best)"

definition take_up ::
    "(bytes \<Rightarrow> bytes) \<Rightarrow> (wire_block list \<Rightarrow> wire_block \<Rightarrow> bool) \<Rightarrow> (wire_block \<Rightarrow> chain_blocks \<Rightarrow> wire_block \<times> chain_blocks) \<Rightarrow>
     hash_slice \<Rightarrow> nat \<Rightarrow> wire_block \<times> chain_blocks \<Rightarrow> wire_block \<times> chain_blocks" where
  "take_up sha3 accepts rec s i = (\<lambda>(best, c).
     case om_Get (om_heap (cb_orphans c) ! hs_array s ! i) (cb_orphans c) of
       None \<Rightarrow> (best, c)
     | Some b \<Rightarrow>
         (case save_checked sha3 accepts b c of
            (False, c1) \<Rightarrow> (best, c1)
          | (True, c1) \<Rightarrow> (case rec b c1 of (sub, c2) \<Rightarrow> (higher best sub, c2))))"

primrec saveSubBlock ::
    "(bytes \<Rightarrow> bytes) \<Rightarrow> (wire_block list \<Rightarrow> wire_block \<Rightarrow> bool) \<Rightarrow> nat \<Rightarrow> wire_block \<Rightarrow> chain_blocks \<Rightarrow> wire_block \<times> chain_blocks" where
  "saveSubBlock sha3 accepts 0 b c = (b, c)"
| "saveSubBlock sha3 accepts (Suc n) b c =
     (case GetPrevOrphans (block_Hash sha3 b) (cb_orphans c) of
        None \<Rightarrow> (b, c)
      | Some s \<Rightarrow> fold (take_up sha3 accepts (saveSubBlock sha3 accepts n) s) [0..<hs_len s] (b, c))"

end
