(* ===== verification/Orphan_Wf.thy ===== *)
theory Orphan_Wf
  imports Orphan_Manage
begin

text \<open>
  The index of orphans by parent is exact after every sequence of operations, and there are never more than the
  limit.  When a parent arrives that has three orphans, the second of them is passed over.
\<close>

section \<open>Slices\<close>

lemma index_of_Some: "index_of x xs = Some i \<Longrightarrow> i < length xs \<and> xs ! i = x \<and> x \<notin> set (take i xs)"
  by (induction xs arbitrary: i) (auto split: if_splits simp: less_Suc_eq_0_disj)

lemma index_of_None: "index_of x xs = None \<longleftrightarrow> x \<notin> set xs"
  by (induction xs) auto

text \<open>A slice lies in its array.\<close>

definition slice_in :: "hash list list \<Rightarrow> hash_slice \<Rightarrow> bool" where
  "slice_in heap s \<longleftrightarrow> hs_array s < length heap \<and> hs_len s \<le> length (heap ! hs_array s)"

lemma append_hash_spec:
  assumes "append_hash grow s h heap = (s', heap')" "pred_option (slice_in heap) s"
  shows "slice_in heap' s'"
    "slice_hashes heap' s' = (case s of None \<Rightarrow> [] | Some x \<Rightarrow> slice_hashes heap x) @ [h]"
    "hs_array s' = length heap \<or> (\<exists>x. s = Some x \<and> hs_array s' = hs_array x)"
    "j < length heap \<Longrightarrow> j \<noteq> hs_array s' \<Longrightarrow> heap' ! j = heap ! j"
    "length heap \<le> length heap'"
  using assms
  by (auto simp: append_hash_def slice_hashes_def slice_in_def Let_def nth_append take_Suc_conv_app_nth
      split: option.splits if_splits)

lemma remove_at_spec:
  assumes "remove_at i s heap = (s', heap')" "slice_in heap s" "i < hs_len s"
  shows "slice_in heap' s'" "hs_array s' = hs_array s" "hs_len s' = hs_len s - 1"
    "slice_hashes heap' s' = take i (slice_hashes heap s) @ drop (Suc i) (slice_hashes heap s)"
    "j \<noteq> hs_array s \<Longrightarrow> heap' ! j = heap ! j" "length heap' = length heap"
    "heap' ! hs_array s = take i (heap ! hs_array s) @ drop (Suc i) (slice_hashes heap s) @ drop (hs_len s - 1) (heap ! hs_array s)"
  using assms
  by (auto simp: remove_at_def slice_in_def slice_hashes_def Let_def)

section \<open>The index\<close>

definition kids :: "orphan_manage \<Rightarrow> hash \<Rightarrow> hash list" where
  "kids o' p = (case om_prev o' p of None \<Rightarrow> [] | Some s \<Rightarrow> slice_hashes (om_heap o') s)"

definition orphans_of :: "orphan_manage \<Rightarrow> hash \<Rightarrow> hash set" where
  "orphans_of o' p = {h. \<exists>ob. map_of (om_orphan o') h = Some ob \<and> parent_of (ob_Block ob) = p}"

definition om_ok :: "(bytes \<Rightarrow> bytes) \<Rightarrow> orphan_manage \<Rightarrow> bool" where
  "om_ok sha3 o' \<longleftrightarrow>
     distinct (map fst (om_orphan o')) \<and>
     (\<forall>h ob. map_of (om_orphan o') h = Some ob \<longrightarrow> block_Hash sha3 (ob_Block ob) = h) \<and>
     (\<forall>p s. om_prev o' p = Some s \<longrightarrow> slice_in (om_heap o') s \<and> kids o' p \<noteq> []) \<and>
     (\<forall>p q s t. om_prev o' p = Some s \<longrightarrow> om_prev o' q = Some t \<longrightarrow> hs_array s = hs_array t \<longrightarrow> p = q) \<and>
     (\<forall>p. distinct (kids o' p) \<and> set (kids o' p) = orphans_of o' p)"

lemma om_ok_new: "om_ok sha3 NewOrphanManage"
  by (simp add: om_ok_def NewOrphanManage_def kids_def orphans_of_def)

lemma remove_nth: "distinct xs \<Longrightarrow> i < length xs \<Longrightarrow>
    distinct (take i xs @ drop (Suc i) xs) \<and> set (take i xs @ drop (Suc i) xs) = set xs - {xs ! i}"
proof -
  assume d: "distinct xs" and i: "i < length xs"
  have xs: "xs = take i xs @ xs ! i # drop (Suc i) xs" using i by (rule id_take_nth_drop)
  have "distinct (take i xs @ xs ! i # drop (Suc i) xs)" using d xs by simp
  moreover have "set xs = set (take i xs @ xs ! i # drop (Suc i) xs)" using xs by simp
  ultimately show ?thesis by auto
qed

lemma om_okD:
  assumes "om_ok sha3 o'"
  shows "distinct (map fst (om_orphan o'))"
    "map_of (om_orphan o') h = Some ob \<Longrightarrow> block_Hash sha3 (ob_Block ob) = h"
    "om_prev o' p = Some s \<Longrightarrow> slice_in (om_heap o') s" "om_prev o' p = Some s \<Longrightarrow> kids o' p \<noteq> []"
    "om_prev o' p = Some s \<Longrightarrow> om_prev o' q = Some t \<Longrightarrow> hs_array s = hs_array t \<Longrightarrow> p = q"
    "distinct (kids o' p)" "set (kids o' p) = orphans_of o' p"
  using assms unfolding om_ok_def by blast+

text \<open>Replacing the slice of one parent.\<close>

lemma om_ok_replace:
  assumes "om_ok sha3 o'" "om_prev o1 = (om_prev o')(p := sl)"
    and "\<And>q t. q \<noteq> p \<Longrightarrow> om_prev o' q = Some t \<Longrightarrow> hs_array t < length (om_heap o1) \<and> om_heap o1 ! hs_array t = om_heap o' ! hs_array t"
    and "\<And>t q x. sl = Some t \<Longrightarrow> slice_in (om_heap o1) t \<and> kids o1 p \<noteq> [] \<and> (q \<noteq> p \<longrightarrow> om_prev o' q = Some x \<longrightarrow> hs_array x \<noteq> hs_array t)"
    and "distinct (map fst (om_orphan o1))"
    and "\<And>h ob. map_of (om_orphan o1) h = Some ob \<Longrightarrow> block_Hash sha3 (ob_Block ob) = h"
    and "\<And>q. q \<noteq> p \<Longrightarrow> orphans_of o1 q = orphans_of o' q"
    and "distinct (kids o1 p)" "set (kids o1 p) = orphans_of o1 p"
  shows "om_ok sha3 o1"
proof -
  note ok = om_okD [OF assms(1)]
  have same: "kids o1 q = kids o' q" if "q \<noteq> p" for q
    using that assms(2,3) by (auto simp: kids_def slice_hashes_def split: option.splits)
  have "slice_in (om_heap o1) t \<and> kids o1 q \<noteq> []" if t: "om_prev o1 q = Some t" for q t
  proof (cases "q = p")
    case True
    then show ?thesis using assms(2) assms(4) [of t p] t by simp
  next
    case False
    then have "om_prev o' q = Some t" using assms(2) t by simp
    then show ?thesis using ok(3,4) assms(3) [OF False] same [OF False] by (auto simp: slice_in_def)
  qed
  moreover have "q = r" if "om_prev o1 q = Some t" "om_prev o1 r = Some u" "hs_array t = hs_array u" for q r t u
    using that assms(2) assms(4) ok(5) by (metis fun_upd_apply)
  moreover have "distinct (kids o1 q) \<and> set (kids o1 q) = orphans_of o1 q" for q
    using assms(7-9) ok(6,7) same by (cases "q = p") simp_all
  ultimately show ?thesis using assms(5,6) unfolding om_ok_def by blast
qed

lemma om_ok_delete:
  assumes "om_ok sha3 o'"
  shows "om_ok sha3 (om_delete h o')" "map_of (om_orphan (om_delete h o')) = (map_of (om_orphan o'))(h := None)"
proof -
  note ok = om_okD [OF assms]
  have "om_ok sha3 (om_delete h o') \<and> map_of (om_orphan (om_delete h o')) = (map_of (om_orphan o'))(h := None)"
  proof (cases "map_of (om_orphan o') h")
    case None
    then show ?thesis using assms by (auto simp: om_delete_def fun_eq_iff)
  next
    case (Some ob)
    let ?p = "parent_of (ob_Block ob)" and ?o1 = "o'\<lparr>om_orphan := AList.delete h (om_orphan o')\<rparr>"
    have h: "h \<in> set (kids o' ?p)" using Some by (auto simp: ok(7) orphans_of_def)
    then obtain s where s: "om_prev o' ?p = Some s" "kids o' ?p = slice_hashes (om_heap o') s"
      by (cases "om_prev o' ?p") (simp_all add: kids_def)
    note sin = ok(3) [OF s(1)]
    then have len: "length (kids o' ?p) = hs_len s" by (simp add: s(2) slice_hashes_def slice_in_def)
    have m: "map_of (AList.delete h (om_orphan o')) = (map_of (om_orphan o'))(h := None)" by (simp add: delete_conv')
    have d: "distinct (map fst (AList.delete h (om_orphan o')))" using ok(1) by (rule distinct_delete)
    have other: "orphans_of o1 q = orphans_of o' q - (if q = ?p then {h} else {})"
      if "map_of (om_orphan o1) = (map_of (om_orphan o'))(h := None)" for o1 q
      using that Some by (auto simp: orphans_of_def split: if_splits)
    show ?thesis
    proof (cases "hs_len s = 1")
      case True
      let ?o2 = "?o1\<lparr>om_prev := (om_prev o')(?p := None)\<rparr>"
      have eq: "om_delete h o' = ?o2" using Some s(1) True by (simp add: om_delete_def Let_def)
      have "kids o' ?p = [h]" using len True h by (cases "kids o' ?p") (auto simp: length_Suc_conv)
      then have "orphans_of o' ?p = {h}" using ok(7) by (metis empty_set list.simps(15))
      then have "om_ok sha3 ?o2"
        using ok(2,3) d other [of ?o2] m by (intro om_ok_replace [OF assms, of _ ?p None]) (auto simp: slice_in_def kids_def split: if_splits)
      then show ?thesis by (simp add: eq m)
    next
      case False
      obtain i where i: "index_of h (slice_hashes (om_heap o') s) = Some i"
        using h s(2) by (metis index_of_None option.exhaust)
      obtain s' heap where r: "remove_at i s (om_heap o') = (s', heap)" by fastforce
      let ?o2 = "?o1\<lparr>om_prev := (om_prev o')(?p \<mapsto> s'), om_heap := heap\<rparr>"
      have eq: "om_delete h o' = ?o2" using Some s(1) False i r by (simp add: om_delete_def Let_def)
      note I = index_of_Some [OF i]
      have "i < hs_len s" using I len s(2) by simp
      note R = remove_at_spec [OF r sin this]
      have k: "kids ?o2 ?p = take i (kids o' ?p) @ drop (Suc i) (kids o' ?p)" by (simp add: kids_def s R(4))
      have ki: "i < length (kids o' ?p)" "kids o' ?p ! i = h" using I s(2) by simp_all
      have dk: "distinct (kids ?o2 ?p) \<and> set (kids ?o2 ?p) = set (kids o' ?p) - {h}"
        unfolding k using remove_nth [OF ok(6) ki(1)] ki(2) by simp
      have "length (kids ?o2 ?p) = hs_len s - 1" using ki(1) len by (simp add: k)
      then have "kids ?o2 ?p \<noteq> []" using False ki(1) len by (cases "hs_len s") auto
      moreover have "orphans_of ?o2 q = orphans_of o' q - (if q = ?p then {h} else {})" for q
        using m by (intro other) simp
      moreover have "hs_array x \<noteq> hs_array s'" if "q \<noteq> ?p" "om_prev o' q = Some x" for q x
        using ok(5) [OF that(2) s(1)] that(1) R(2) by auto
      moreover have "hs_array t < length heap \<and> heap ! hs_array t = om_heap o' ! hs_array t" if "q \<noteq> ?p" "om_prev o' q = Some t" for q t
        using ok(3) [OF that(2)] ok(5) [OF that(2) s(1)] that(1) R(5,6) by (auto simp: slice_in_def)
      ultimately have "om_ok sha3 ?o2"
        using ok(2,7) d m R(1) dk by (intro om_ok_replace [OF assms, of _ ?p "Some s'"]) (auto split: if_splits)
      then show ?thesis by (simp add: eq m)
    qed
  qed
  then show "om_ok sha3 (om_delete h o')" "map_of (om_orphan (om_delete h o')) = (map_of (om_orphan o'))(h := None)" by blast+
qed

lemma om_size: "om_ok sha3 o' \<Longrightarrow> length (om_orphan o') = card (dom (map_of (om_orphan o')))"
  using distinct_card [OF om_okD(1)] by (metis dom_map_of_conv_image_fst length_map list.set_map)

lemma delete_size:
  assumes "om_ok sha3 o'"
  shows "length (om_orphan (om_delete h o')) \<le> length (om_orphan o')"
    "om_BlockExist h o' \<Longrightarrow> length (om_orphan (om_delete h o')) < length (om_orphan o')"
proof -
  have d: "dom (map_of (om_orphan (om_delete h o'))) = dom (map_of (om_orphan o')) - {h}" by (auto simp: om_ok_delete(2) [OF assms])
  note size = om_size [OF assms] om_size [OF om_ok_delete(1) [OF assms]]
  show "length (om_orphan (om_delete h o')) \<le> length (om_orphan o')"
    unfolding size d by (intro card_mono) (auto simp: finite_dom_map_of)
  show "length (om_orphan (om_delete h o')) < length (om_orphan o')" if "om_BlockExist h o'"
    using that unfolding size d by (intro card_Diff1_less) (auto simp: finite_dom_map_of om_BlockExist_def)
qed

lemma older_cases: "older a b = a \<or> older a b = b" "older a b = None \<longleftrightarrow> a = None \<and> b = None"
  by (cases a; cases b; simp add: older_def)+

lemma oldest_mem:
  "fold (\<lambda>k best. older best (map_of xs k)) keys best = Some b \<Longrightarrow> best = Some b \<or> (\<exists>k \<in> set keys. map_of xs k = Some b)"
proof (induction keys arbitrary: best)
  case (Cons j keys)
  then have "older best (map_of xs j) = Some b \<or> (\<exists>k \<in> set keys. map_of xs k = Some b)" by simp
  then show ?case using older_cases(1) [of best "map_of xs j"] by auto
qed simp

lemma oldest_none:
  "fold (\<lambda>k best. older best (map_of xs k)) keys best = None \<longleftrightarrow> best = None \<and> (\<forall>k \<in> set keys. map_of xs k = None)"
  by (induction keys arbitrary: best) (auto simp: older_cases(2))

lemma deleteLRU_spec:
  assumes "om_ok sha3 o'"
  shows "om_ok sha3 (deleteLRU sha3 keys o')" "map_of (om_orphan o') h = None \<Longrightarrow> map_of (om_orphan (deleteLRU sha3 keys o')) h = None"
    "mset keys = mset (map fst (om_orphan o')) \<Longrightarrow> om_orphan o' \<noteq> [] \<Longrightarrow> length (om_orphan (deleteLRU sha3 keys o')) < length (om_orphan o')"
proof -
  let ?f = "fold (\<lambda>k best. older best (map_of (om_orphan o') k)) keys None"
  show "om_ok sha3 (deleteLRU sha3 keys o')" "map_of (om_orphan o') h = None \<Longrightarrow> map_of (om_orphan (deleteLRU sha3 keys o')) h = None"
    using assms om_ok_delete [OF assms] by (simp_all add: deleteLRU_def split: option.split)
  assume keys: "mset keys = mset (map fst (om_orphan o'))" and "om_orphan o' \<noteq> []"
  then obtain k b where "(k, b) \<in> set (om_orphan o')" by (cases "om_orphan o'") auto
  then have "k \<in> fst ` set (om_orphan o')" by force
  then have "map_of (om_orphan o') k \<noteq> None" "k \<in> set keys" using mset_eq_setD [OF keys] by (simp_all add: map_of_eq_None_iff)
  then obtain b where b: "?f = Some b" using oldest_none [of "om_orphan o'" keys None] by (cases ?f) auto
  with oldest_mem [of "om_orphan o'" keys None b] obtain k where "map_of (om_orphan o') k = Some b" by auto
  then have "om_BlockExist (block_Hash sha3 (ob_Block b)) o'" using om_okD(2) [OF assms] by (simp add: om_BlockExist_def)
  from delete_size(2) [OF assms this] b show "length (om_orphan (deleteLRU sha3 keys o')) < length (om_orphan o')"
    by (simp add: deleteLRU_def)
qed

lemma om_ok_insert:
  assumes "om_ok sha3 o'" "map_of (om_orphan o') h = None" "block_Hash sha3 (ob_Block ob) = h"
    and "append_hash grow (om_prev o' (parent_of (ob_Block ob))) h (om_heap o') = (s, heap)"
  shows "om_ok sha3 (o'\<lparr>om_orphan := AList.update h ob (om_orphan o'),
    om_prev := (om_prev o')(parent_of (ob_Block ob) \<mapsto> s), om_heap := heap\<rparr>)"
    (is "om_ok sha3 ?o1")
proof -
  let ?p = "parent_of (ob_Block ob)"
  note ok = om_okD [OF assms(1)]
  have "pred_option (slice_in (om_heap o')) (om_prev o' ?p)" using ok(3) by (cases "om_prev o' ?p") auto
  note A = append_hash_spec [OF assms(4) this]
  have m: "map_of (AList.update h ob (om_orphan o')) = (map_of (om_orphan o'))(h \<mapsto> ob)" by (simp add: update_conv')
  have k: "kids ?o1 ?p = kids o' ?p @ [h]" by (simp add: kids_def A(2))
  have or: "orphans_of ?o1 q = orphans_of o' q \<union> (if q = ?p then {h} else {})" for q
    using assms(2) by (auto simp: orphans_of_def m split: if_splits)
  have "h \<notin> orphans_of o' ?p" using assms(2) by (simp add: orphans_of_def)
  then have "distinct (kids ?o1 ?p)" "set (kids ?o1 ?p) = orphans_of ?o1 ?p" unfolding k or using ok(6,7) by auto
  moreover have "hs_array x \<noteq> hs_array s" if "q \<noteq> ?p" "om_prev o' q = Some x" for q x
    using A(3) ok(3) [OF that(2)] ok(5) [OF that(2)] that(1) by (auto simp: slice_in_def)
  moreover from this have "hs_array t < length heap \<and> heap ! hs_array t = om_heap o' ! hs_array t" if "q \<noteq> ?p" "om_prev o' q = Some t" for q t
    using ok(3) [OF that(2)] A(4,5) that by (auto simp: slice_in_def)
  ultimately show ?thesis
    using A(1) ok(1,2) assms(3) or k m
    by (intro om_ok_replace [OF assms(1), of _ ?p "Some s"]) (auto simp: distinct_update split: if_splits)
qed

lemma om_ok_add:
  assumes "om_ok sha3 o'"
  shows "om_ok sha3 (om_Add sha3 grow keys now b o')"
    "mset keys = mset (map fst (om_orphan o')) \<Longrightarrow> length (om_orphan o') \<le> numOrphanBlockLimit \<Longrightarrow>
       length (om_orphan (om_Add sha3 grow keys now b o')) \<le> numOrphanBlockLimit"
proof -
  let ?h = "block_Hash sha3 b" and ?ob = "\<lparr>ob_Block = b, ob_expiration = now + orphanBlockTTL\<rparr>"
  define o1 where "o1 = (if length (om_orphan o') \<ge> numOrphanBlockLimit then deleteLRU sha3 keys o' else o')"
  obtain s heap where a: "append_hash grow (om_prev o1 (parent_of b)) ?h (om_heap o1) = (s, heap)" by fastforce
  let ?o2 = "o1\<lparr>om_orphan := AList.update ?h ?ob (om_orphan o1), om_prev := (om_prev o1)(parent_of b \<mapsto> s), om_heap := heap\<rparr>"
  have eq: "om_Add sha3 grow keys now b o' = (if map_of (om_orphan o') ?h \<noteq> None then o' else ?o2)"
    using a by (auto simp: om_Add_def Let_def o1_def)
  have ok1: "om_ok sha3 o1" using assms deleteLRU_spec(1) [OF assms] by (simp add: o1_def)
  have new: "map_of (om_orphan o1) ?h = None" if "map_of (om_orphan o') ?h = None"
    using that deleteLRU_spec(2) [OF assms] by (simp add: o1_def)
  have ok2: "om_ok sha3 ?o2" if "map_of (om_orphan o') ?h = None"
    using om_ok_insert [OF ok1 new [OF that], of ?ob] a by simp
  show "om_ok sha3 (om_Add sha3 grow keys now b o')" using assms ok2 by (simp add: eq)
  show "length (om_orphan (om_Add sha3 grow keys now b o')) \<le> numOrphanBlockLimit"
    if "mset keys = mset (map fst (om_orphan o'))" "length (om_orphan o') \<le> numOrphanBlockLimit"
  proof (cases "map_of (om_orphan o') ?h")
    case None
    have "length (om_orphan o1) < numOrphanBlockLimit"
      using that deleteLRU_spec(3) [OF assms that(1)] by (cases "om_orphan o' = []") (auto simp: o1_def numOrphanBlockLimit_def)
    moreover have "dom (map_of (om_orphan ?o2)) = insert ?h (dom (map_of (om_orphan o1)))" by (simp add: update_conv')
    then have "length (om_orphan ?o2) \<le> Suc (length (om_orphan o1))"
      unfolding om_size [OF ok2 [OF None]] om_size [OF ok1] by (simp add: card_insert_if finite_dom_map_of)
    ultimately show ?thesis using None by (simp add: eq)
  qed (use that in \<open>simp add: eq\<close>)
qed

lemma om_ok_expire:
  "om_ok sha3 o' \<Longrightarrow> om_ok sha3 (orphanExpire keys now o') \<and> length (om_orphan (orphanExpire keys now o')) \<le> length (om_orphan o')"
proof (induction keys arbitrary: o')
  case (Cons k keys)
  define o1 where "o1 = (case map_of (om_orphan o') k of None \<Rightarrow> o' | Some b \<Rightarrow> if ob_expiration b < now then om_delete k o' else o')"
  have "om_ok sha3 o1 \<and> length (om_orphan o1) \<le> length (om_orphan o')"
    using Cons.prems om_ok_delete(1) delete_size(1) by (auto simp: o1_def split: option.split)
  with Cons.IH [of o1] show ?case by (auto simp: orphanExpire_def o1_def [symmetric])
qed (simp add: orphanExpire_def)

section \<open>Reachable states\<close>

text \<open>The operations of the component, in any order; a range loop visits every key once.\<close>

inductive om_reach :: "(bytes \<Rightarrow> bytes) \<Rightarrow> orphan_manage \<Rightarrow> bool" for sha3 where
  reach_new: "om_reach sha3 NewOrphanManage"
| reach_add: "om_reach sha3 o' \<Longrightarrow> mset keys = mset (map fst (om_orphan o')) \<Longrightarrow> om_reach sha3 (om_Add sha3 grow keys now b o')"
| reach_delete: "om_reach sha3 o' \<Longrightarrow> om_reach sha3 (om_delete h o')"
| reach_expire: "om_reach sha3 o' \<Longrightarrow> om_reach sha3 (orphanExpire keys now o')"

lemma om_reach_ok: "om_reach sha3 o' \<Longrightarrow> om_ok sha3 o' \<and> length (om_orphan o') \<le> numOrphanBlockLimit"
proof (induction rule: om_reach.induct)
  case reach_new
  show ?case using om_ok_new by (simp add: NewOrphanManage_def)
next
  case (reach_add o' keys grow now b)
  then show ?case using om_ok_add by blast
next
  case (reach_delete o' h)
  then show ?case using om_ok_delete(1) delete_size(1) le_trans by blast
next
  case (reach_expire o' keys now)
  then show ?case using om_ok_expire le_trans by blast
qed

section \<open>Removal during a loop\<close>

lemma index_of_append: "h \<notin> set xs \<Longrightarrow> index_of h (xs @ h # ys) = Some (length xs)"
  by (induction xs) auto

lemma om_delete_shift:
  assumes "map_of (om_orphan o') h = Some ob" "om_prev o' (parent_of (ob_Block ob)) = Some s" "slice_in (om_heap o') s"
    and "om_heap o' ! hs_array s = xs @ h # ys @ zs" "hs_len s = length (xs @ h # ys)" "h \<notin> set xs" "xs @ ys \<noteq> []"
  shows "om_prev (om_delete h o') = (om_prev o')(parent_of (ob_Block ob) \<mapsto> s\<lparr>hs_len := length (xs @ ys)\<rparr>)"
    "om_heap (om_delete h o') ! hs_array s = xs @ ys @ last (h # ys) # zs"
    "om_orphan (om_delete h o') = AList.delete h (om_orphan o')"
    "slice_in (om_heap (om_delete h o')) (s\<lparr>hs_len := length (xs @ ys)\<rparr>)"
proof -
  have slice: "slice_hashes (om_heap o') s = xs @ h # ys" using assms(4,5) by (simp add: slice_hashes_def)
  have one: "hs_len s \<noteq> 1" using assms(5,7) by (cases xs) auto
  have last: "drop (length ys) (h # ys) = [last (h # ys)]"
    by (metis append_butlast_last_id append_eq_conv_conj length_butlast length_Cons diff_Suc_1 list.distinct(1))
  have drop: "drop (length (xs @ ys)) (xs @ h # ys @ zs) = last (h # ys) # zs"
    using last drop_append [of "length ys" "h # ys" zs] by simp
  let ?heap = "(om_heap o')[hs_array s := xs @ ys @ last (h # ys) # zs]"
  have r: "remove_at (length xs) s (om_heap o') = (s\<lparr>hs_len := length (xs @ ys)\<rparr>, ?heap)"
    unfolding remove_at_def Let_def assms(4,5) using drop by simp
  then have eq: "om_delete h o' = o'\<lparr>om_orphan := AList.delete h (om_orphan o'),
      om_prev := (om_prev o')(parent_of (ob_Block ob) \<mapsto> s\<lparr>hs_len := length (xs @ ys)\<rparr>), om_heap := ?heap\<rparr>"
    using assms(1,2) one by (simp add: om_delete_def Let_def slice index_of_append [OF assms(6)])
  show "om_prev (om_delete h o') = (om_prev o')(parent_of (ob_Block ob) \<mapsto> s\<lparr>hs_len := length (xs @ ys)\<rparr>)"
    "om_heap (om_delete h o') ! hs_array s = xs @ ys @ last (h # ys) # zs"
    "om_orphan (om_delete h o') = AList.delete h (om_orphan o')"
    "slice_in (om_heap (om_delete h o')) (s\<lparr>hs_len := length (xs @ ys)\<rparr>)"
    using assms(3) by (simp_all add: eq slice_in_def)
qed

lemma take_up_leaf:
  assumes "om_heap (cb_orphans c) ! hs_array s ! i = h" "map_of (om_orphan (cb_orphans c)) h = Some ob" "accepts (cb_saved c) (ob_Block ob)"
    and "block_Hash sha3 (ob_Block ob) = h" "om_prev (om_delete h (cb_orphans c)) h = None"
  shows "snd (take_up sha3 accepts (saveSubBlock sha3 accepts n) s i (best, c)) =
    c\<lparr>cb_orphans := om_delete h (cb_orphans c), cb_saved := cb_saved c @ [ob_Block ob]\<rparr>"
  using assms by (cases n) (simp_all add: take_up_def om_Get_def save_checked_def GetPrevOrphans_def)

lemma three_orphans:
  assumes "om_ok sha3 (cb_orphans c)" "om_prev (cb_orphans c) p = Some s"
    and "slice_hashes (om_heap (cb_orphans c)) s = [x, y, z]" "\<And>h. h \<in> {x, z} \<Longrightarrow> om_prev (cb_orphans c) h = None"
    and "map_of (om_orphan (cb_orphans c)) x = Some bx" "map_of (om_orphan (cb_orphans c)) z = Some bz"
    and "\<And>saved b'. accepts saved b'"
  shows "\<exists>o'. snd (fold (take_up sha3 accepts (saveSubBlock sha3 accepts n) s) [0..<hs_len s] (b, c)) =
      c\<lparr>cb_orphans := o', cb_saved := cb_saved c @ [ob_Block bx, ob_Block bz]\<rparr> \<and>
    map_of (om_orphan o') = (map_of (om_orphan (cb_orphans c)))(x := None, z := None)"
proof -
  let ?o = "cb_orphans c" and ?f = "take_up sha3 accepts (saveSubBlock sha3 accepts n) s"
  note ok = om_okD [OF assms(1)]
  have kids: "kids ?o p = [x, y, z]" using assms(2,3) by (simp add: kids_def)
  then have ne: "x \<noteq> y" "x \<noteq> z" "y \<noteq> z" using ok(6) [of p] by auto
  have "{x, z} \<subseteq> orphans_of ?o p" using ok(7) [of p] kids by auto
  then have par: "parent_of (ob_Block bx) = p" "parent_of (ob_Block bz) = p" using assms(5,6) by (auto simp: orphans_of_def)
  have px: "p \<noteq> x" "p \<noteq> z" using assms(2,4) by auto
  note sin = ok(3) [OF assms(2)]
  have three: "hs_len s = 3" using arg_cong [OF assms(3), of length] sin by (simp add: slice_hashes_def slice_in_def)
  have "om_heap ?o ! hs_array s = [x, y, z] @ drop 3 (om_heap ?o ! hs_array s)"
    using assms(3) three by (metis append_take_drop_id slice_hashes_def)
  then obtain zs where A: "om_heap ?o ! hs_array s = [] @ x # [y, z] @ zs" by auto
  let ?o1 = "om_delete x ?o" and ?s1 = "s\<lparr>hs_len := length ([] @ [y, z])\<rparr>"
  have p1: "om_prev ?o (parent_of (ob_Block bx)) = Some s" using par assms(2) by simp
  have l1: "hs_len s = length ([] @ x # [y, z])" by (simp add: three)
  note D = om_delete_shift [OF assms(5) p1 sin A l1, unfolded par, simplified]
  let ?c1 = "c\<lparr>cb_orphans := ?o1, cb_saved := cb_saved c @ [ob_Block bx]\<rparr>"
  have 1: "snd (?f 0 (b, c)) = ?c1"
    using assms(4-7) ok(2) A D(1) px by (intro take_up_leaf) auto
  have m1: "map_of (om_orphan ?o1) = (map_of (om_orphan ?o))(x := None)" by (rule om_ok_delete(2) [OF assms(1)])
  let ?o2 = "om_delete z ?o1"
  have z1: "map_of (om_orphan ?o1) z = Some bz" using assms(6) ne by (simp add: m1)
  have p2: "om_prev ?o1 (parent_of (ob_Block bz)) = Some (s\<lparr>hs_len := 2\<rparr>)" using D(1) par by (simp add: numeral_2_eq_2)
  have B: "om_heap ?o1 ! hs_array s = [y, z, z] @ zs" using D(2) by simp
  have sin2: "slice_in (om_heap ?o1) (s\<lparr>hs_len := 2\<rparr>)" using D(4) by (simp add: numeral_2_eq_2)
  have E: "om_prev ?o2 = (om_prev ?o1)(p \<mapsto> s\<lparr>hs_len := 1\<rparr>)" "om_heap ?o2 ! hs_array s = [y, z, z] @ zs"
    using om_delete_shift [OF z1 p2 sin2, of "[y]" "[]" "z # zs"] B ne par by simp_all
  let ?c2 = "c\<lparr>cb_orphans := ?o2, cb_saved := cb_saved c @ [ob_Block bx, ob_Block bz]\<rparr>"
  have 2: "snd (?f 1 (best, ?c1)) = ?c2" for best
    using take_up_leaf [of ?c1 s 1 z bz accepts sha3 n best] B z1 assms(7) ok(2) [OF assms(6)] E(1) D(1) px assms(4) by simp
  have m2: "map_of (om_orphan ?o2) = (map_of (om_orphan ?o))(x := None, z := None)"
    using om_ok_delete [OF assms(1), of x] om_ok_delete(2) [of sha3 ?o1 z] by simp
  have 3: "snd (?f 2 (best, ?c2)) = ?c2" for best
    using E(2) m2 by (simp add: take_up_def om_Get_def numeral_2_eq_2)
  have "snd (fold ?f [0..<hs_len s] (b, c)) = snd (?f 2 (?f 1 (?f 0 (b, c))))"
    by (simp add: three numeral_3_eq_3 upt_rec numeral_2_eq_2)
  also have "\<dots> = ?c2" using 1 2 3 by (metis prod.collapse)
  finally show ?thesis using m2 by blast
qed

section \<open>Sample orphans\<close>

text \<open>With a hash function that keeps the last 32 bytes, the hash of a block is its status hash.\<close>

definition tail_hash :: "bytes \<Rightarrow> bytes" where
  "tail_hash bs = rev (take 32 (rev bs @ replicate 32 0))"

lemma tail_hash_append: "length b = 32 \<Longrightarrow> tail_hash (a @ b) = b"
  by (simp add: tail_hash_def)

lemma block_Hash_tail: "hash_ok (bh_TransactionStatusHash (wb_Header b)) \<Longrightarrow> block_Hash tail_hash b = bh_TransactionStatusHash (wb_Header b)"
  by (simp add: block_Hash_def header_Hash_def BlockHeaderID_def entry_hash_def header_writeForHash_def hash_u64_def hash_ptr_def
      Write_def modifyE_def thenE_apply mapBlockHeader_def tagged_def tail_hash_append NewHash_Byte32 flip: append_assoc)

definition oid :: "nat \<Rightarrow> hash" where
  "oid n = \<lparr>V0 = n, V1 = 0, V2 = 0, V3 = 0\<rparr>"

definition orphan :: "nat \<Rightarrow> nat \<Rightarrow> wire_block" where
  "orphan prev n =
     \<lparr>wb_Header = \<lparr>bh_Version = 1, bh_Height = 8, bh_PreviousBlockHash = oid prev, bh_Timestamp = 0,
        bh_TransactionsMerkleRoot = zeroHash, bh_TransactionStatusHash = oid n, bh_Witness = []\<rparr>,
      wb_Transactions = []\<rparr>"

text \<open>Three children of block 1, received before it.\<close>

definition sample_orphans :: orphan_manage where
  "sample_orphans =
     (let grow = (\<lambda>n. 2 * n) in
      om_Add tail_hash grow [oid 2, oid 3] 0 (orphan 1 4)
        (om_Add tail_hash grow [oid 2] 0 (orphan 1 3)
          (om_Add tail_hash grow [] 0 (orphan 1 2) NewOrphanManage)))"

lemma orphan_hash: "n < 10 \<Longrightarrow> block_Hash tail_hash (orphan p n) = oid n"
  by (subst block_Hash_tail) (simp_all add: orphan_def oid_def hash_ok_def is_u64_def)

lemma sample_orphans_eq:
  "om_orphan sample_orphans = map (\<lambda>n. (oid n, \<lparr>ob_Block = orphan 1 n, ob_expiration = orphanBlockTTL\<rparr>)) [2, 3, 4]"
  "om_prev sample_orphans = [oid 1 \<mapsto> \<lparr>hs_array = 2, hs_len = 3\<rparr>]"
  "om_heap sample_orphans = [[oid 2], [oid 2, oid 3], [oid 2, oid 3, oid 4, zeroHash]]"
proof -
  have par: "parent_of (orphan p n) = oid p" for p n by (simp add: orphan_def)
  have ne: "oid m = oid n \<longleftrightarrow> m = n" for m n by (simp add: oid_def)
  show "om_orphan sample_orphans = map (\<lambda>n. (oid n, \<lparr>ob_Block = orphan 1 n, ob_expiration = orphanBlockTTL\<rparr>)) [2, 3, 4]"
    "om_prev sample_orphans = [oid 1 \<mapsto> \<lparr>hs_array = 2, hs_len = 3\<rparr>]"
    "om_heap sample_orphans = [[oid 2], [oid 2, oid 3], [oid 2, oid 3, oid 4, zeroHash]]"
    by (simp_all add: sample_orphans_def om_Add_def NewOrphanManage_def orphan_hash par ne numOrphanBlockLimit_def append_hash_def
        slice_hashes_def Let_def numeral_2_eq_2 numeral_3_eq_3)
qed

lemma sample_orphans_reach: "om_reach tail_hash sample_orphans"
proof -
  have ne: "oid m = oid n \<longleftrightarrow> m = n" for m n by (simp add: oid_def)
  show ?thesis unfolding sample_orphans_def Let_def
    by (intro reach_add reach_new) (simp_all add: om_Add_def NewOrphanManage_def orphan_hash ne numOrphanBlockLimit_def Let_def split: prod.split)
qed

section \<open>Properties\<close>

text \<open>
  Property C34: after every sequence of additions, deletions and expiries there are at most 256 orphans, and the index
  gives for every hash exactly the orphans that have it as their parent, each once; it has no entry for a hash without
  orphans.
\<close>

theorem orphan_index_exact:
  assumes "om_reach sha3 o'"
  shows "length (om_orphan o') \<le> 256 \<and>
    (case GetPrevOrphans p o' of
       None \<Rightarrow> orphans_of o' p = {}
     | Some s \<Rightarrow> distinct (slice_hashes (om_heap o') s) \<and> set (slice_hashes (om_heap o') s) = orphans_of o' p \<and> orphans_of o' p \<noteq> {})"
proof -
  have ok: "om_ok sha3 o'" and "length (om_orphan o') \<le> 256" using om_reach_ok [OF assms] by (simp_all add: numOrphanBlockLimit_def)
  with om_okD(4,6,7) [OF ok, where p = p] show ?thesis
    by (auto simp: GetPrevOrphans_def kids_def split: option.splits)
qed

theorem orphan_index_exact_witness: "orphans_of sample_orphans (oid 1) = {oid 2, oid 3, oid 4}"
  using orphan_index_exact [OF sample_orphans_reach, of "oid 1"]
  by (simp add: GetPrevOrphans_def sample_orphans_eq slice_hashes_def numeral_2_eq_2 numeral_3_eq_3)

text \<open>
  Property C37: when the parent of three orphans arrives, \<^verbatim>\<open>saveSubBlock\<close> saves the first and the third and passes over
  the second, although all are valid: removing the first moves the others down in the array over which the loop runs.  The
  second stays an orphan.
\<close>

theorem saveSubBlock_passes_over:
  assumes "om_reach sha3 (cb_orphans c)" "GetPrevOrphans (block_Hash sha3 b) (cb_orphans c) = Some s"
    and "slice_hashes (om_heap (cb_orphans c)) s = [x, y, z]" "\<And>h. h \<in> {x, z} \<Longrightarrow> GetPrevOrphans h (cb_orphans c) = None"
    and "\<And>saved b'. accepts saved b'"
  shows "\<exists>bx bz c'. om_Get x (cb_orphans c) = Some bx \<and> om_Get z (cb_orphans c) = Some bz \<and>
    snd (saveSubBlock sha3 accepts (Suc n) b c) = c' \<and> cb_saved c' = cb_saved c @ [bx, bz] \<and> om_BlockExist y (cb_orphans c')"
proof -
  let ?o = "cb_orphans c" and ?p = "block_Hash sha3 b"
  have ok: "om_ok sha3 ?o" using om_reach_ok [OF assms(1)] by blast
  have kids: "kids ?o ?p = [x, y, z]" using assms(2,3) by (simp add: kids_def GetPrevOrphans_def)
  have "{x, y, z} \<subseteq> orphans_of ?o ?p" "distinct [x, y, z]" using om_okD(6,7) [OF ok, of ?p] kids by auto
  then obtain bx by' bz where m: "map_of (om_orphan ?o) x = Some bx" "map_of (om_orphan ?o) y = Some by'" "map_of (om_orphan ?o) z = Some bz"
    by (auto simp: orphans_of_def)
  from three_orphans [OF ok assms(2) [unfolded GetPrevOrphans_def] assms(3) assms(4) [unfolded GetPrevOrphans_def] m(1,3), of accepts n b] assms(5)
  obtain o' where "snd (saveSubBlock sha3 accepts (Suc n) b c) = c\<lparr>cb_orphans := o', cb_saved := cb_saved c @ [ob_Block bx, ob_Block bz]\<rparr>"
      "map_of (om_orphan o') = (map_of (om_orphan ?o))(x := None, z := None)"
    using assms(2) by auto
  with m \<open>distinct [x, y, z]\<close> show ?thesis by (auto simp: om_Get_def om_BlockExist_def)
qed

theorem saveSubBlock_passes_over_witness:
  "cb_saved (snd (saveSubBlock tail_hash (\<lambda>_ _. True) 1 (orphan 0 1) \<lparr>cb_orphans = sample_orphans, cb_saved = []\<rparr>)) = [orphan 1 2, orphan 1 4]"
proof -
  let ?c = "\<lparr>cb_orphans = sample_orphans, cb_saved = []\<rparr>"
  have ne: "oid m = oid n \<longleftrightarrow> m = n" for m n by (simp add: oid_def)
  have s: "GetPrevOrphans (block_Hash tail_hash (orphan 0 1)) sample_orphans = Some \<lparr>hs_array = 2, hs_len = 3\<rparr>"
    by (simp add: orphan_hash GetPrevOrphans_def sample_orphans_eq)
  have k: "slice_hashes (om_heap sample_orphans) \<lparr>hs_array = 2, hs_len = 3\<rparr> = [oid 2, oid 3, oid 4]"
    by (simp add: sample_orphans_eq slice_hashes_def numeral_2_eq_2 numeral_3_eq_3)
  have "GetPrevOrphans h sample_orphans = None" if "h \<in> {oid 2, oid 4}" for h
    using that by (auto simp: GetPrevOrphans_def sample_orphans_eq ne)
  with saveSubBlock_passes_over [of tail_hash ?c "orphan 0 1" _ "oid 2" "oid 3" "oid 4" "\<lambda>_ _. True" 0] sample_orphans_reach s k
  show ?thesis by (auto simp: om_Get_def sample_orphans_eq ne)
qed

end
