(* ===== verification/Chain_Sample.thy ===== *)
theory Chain_Sample
  imports Chain_Sign Orphan_Wf "HOL-Library.List_Lexorder" "HOL-Library.Char_ord"
begin

text \<open>
  A small fork, on which the results on the chain are applied: a genesis block with two children.  The stored result of votes
  belongs to the first child; the federation has one key.
\<close>

section \<open>The fork\<close>

definition fork_header :: "nat \<Rightarrow> nat \<Rightarrow> nat \<Rightarrow> bytes list \<Rightarrow> block_header" where
  "fork_header height prev n w =
     \<lparr>bh_Version = 1, bh_Height = height, bh_PreviousBlockHash = oid prev, bh_Timestamp = 1000 * n,
      bh_TransactionsMerkleRoot = zeroHash, bh_TransactionStatusHash = oid n, bh_Witness = w\<rparr>"

definition root :: block_header where
  "root = fork_header 0 0 10 []"

definition left_child :: "bytes list \<Rightarrow> block_header" where
  "left_child w = fork_header 1 10 20 w"

definition right_child :: "bytes list \<Rightarrow> block_header" where
  "right_child w = fork_header 1 10 30 w"

definition fork_vote :: "bytes \<Rightarrow> tx_data" where
  "fork_vote node =
     \<lparr>td_Version = 1, td_SerializedSize = 1, td_TimeRange = 0,
      td_Inputs = [\<lparr>ti_AssetVersion = 1, ti_TypedInput = Some (CoinbaseIn []), ti_CommitmentSuffix = [], ti_WitnessSuffix = []\<rparr>],
      td_Outputs = [\<lparr>txo_AssetVersion = 1,
        txo_TypedOutput = Some (VoteOut
          \<lparr>to_OutputCommitment =
             \<lparr>oc_AssetAmount = \<lparr>aa_AssetId = Some BTMAssetID, aa_Amount = 200\<rparr>, oc_VMVersion = 1, oc_ControlProgram = [81]\<rparr>,
           to_InnerSuffix = []\<rparr> node),
        txo_CommitmentSuffix = []\<rparr>]\<rparr>"

definition fork_chain ::
    "bytes list \<Rightarrow> (consensus_result \<Rightarrow> string list) \<Rightarrow> ((string \<rightharpoonup> consensus_node) \<Rightarrow> string list) \<Rightarrow> chain" where
  "fork_chain w vote_keys node_keys =
     \<lparr>c_P = MainNetParams, c_sha3 = tail_hash,
      c_header = map_of [(oid 10, root), (oid 20, left_child w), (oid 30, right_child w)],
      c_txs = map_of [(oid 10, []), (oid 20, [fork_vote [1]]), (oid 30, [fork_vote [2]])],
      c_hashes = (\<lambda>h. Some (if h = 0 then [oid 10] else if h = 1 then [oid 20, oid 30] else [])),
      c_main = map_of [(0, oid 10), (1, oid 20)],
      c_result = map_of
        [(0, \<lparr>cr_Seq = 0, cr_NumOfVote = Map.empty, cr_CoinbaseReward = Map.empty, cr_BlockHash = oid 10, cr_BlockHeight = 0\<rparr>),
         (1, \<lparr>cr_Seq = 1, cr_NumOfVote = [hex_encode [1] \<mapsto> 300], cr_CoinbaseReward = [hex_encode [81] \<mapsto> 1000000000000000000],
              cr_BlockHash = oid 20, cr_BlockHeight = 1\<rparr>)],
      c_best = left_child w, c_derive = (\<lambda>x _. x), c_xpubs = [[7]], c_vote_keys = vote_keys, c_node_keys = node_keys,
      c_verify = (\<lambda>xpub msg sig. sig = [1])\<rparr>"

lemma fork_hash: "k < 100 \<Longrightarrow> header_Hash tail_hash (fork_header h p k v) = oid k"
  using block_Hash_tail [of "\<lparr>wb_Header = fork_header h p k v, wb_Transactions = []\<rparr>"]
  by (simp add: block_Hash_def fork_header_def oid_def hash_ok_def is_u64_def)

lemma oid_eq [simp]: "oid m = oid n \<longleftrightarrow> m = n"
  by (simp add: oid_def)

lemma fork_config:
  "c_sha3 (fork_chain w f g) = tail_hash" "c_P (fork_chain w f g) = MainNetParams" "c_best (fork_chain w f g) = left_child w"
  "c_vote_keys (fork_chain w f g) = f" "c_node_keys (fork_chain w f g) = g" "c_derive (fork_chain w f g) = (\<lambda>x _. x)"
  "c_xpubs (fork_chain w f g) = [[7]]" "c_verify (fork_chain w f g) = (\<lambda>xpub msg sig. sig = [1])"
  by (simp_all add: fork_chain_def)

lemma fork_fields:
  "bh_Height root = 0" "bh_Height (left_child v) = 1" "bh_Height (right_child v) = 1"
  "bh_PreviousBlockHash (left_child v) = oid 10" "bh_PreviousBlockHash (right_child v) = oid 10"
  "bh_Timestamp root = 10000" "bh_Timestamp (left_child v) = 20000" "bh_Timestamp (right_child v) = 30000"
  "bh_Witness (left_child v) = v" "bh_Witness (right_child v) = v"
  "header_Hash tail_hash root = oid 10" "header_Hash tail_hash (left_child v) = oid 20" "header_Hash tail_hash (right_child v) = oid 30"
  by (simp_all add: root_def left_child_def right_child_def fork_hash) (simp_all add: fork_header_def)

lemma fork_headers:
  "c_header (fork_chain w f g) (oid 10) = Some root" "c_header (fork_chain w f g) (oid 20) = Some (left_child w)"
  "c_header (fork_chain w f g) (oid 30) = Some (right_child w)"
  by (simp_all add: fork_chain_def)

lemma fork_header_iff: "c_header (fork_chain w f g) h = Some x \<longleftrightarrow>
    h = oid 10 \<and> x = root \<or> h = oid 20 \<and> x = left_child w \<or> h = oid 30 \<and> x = right_child w"
  by (auto simp: fork_chain_def)

lemmas fork_simps = fork_config fork_fields fork_headers

lemma fork_stored: "stored (fork_chain w f g) x \<longleftrightarrow> x \<in> {root, left_child w, right_child w}"
  by (auto simp: stored_def fork_header_iff fork_simps)

lemma fork_linked: "linked (fork_chain w f g)"
  unfolding linked_def fork_header_iff fork_stored by (auto simp: fork_simps)

lemma fork_store_ok: "store_ok 5 (fork_chain w f g)"
  unfolding store_ok_def fork_header_iff using fork_linked by (auto simp: fork_fields)

section \<open>Votes on the other branch\<close>

definition fork_block :: "nat \<Rightarrow> bytes \<Rightarrow> wire_block" where
  "fork_block n node = \<lparr>wb_Header = fork_header 1 10 n [], wb_Transactions = [fork_vote node]\<rparr>"

definition fork_votes :: consensus_result where
  "fork_votes = \<lparr>cr_Seq = 1, cr_NumOfVote = [hex_encode [1] \<mapsto> 300], cr_CoinbaseReward = [hex_encode [81] \<mapsto> 1000000000000000000],
     cr_BlockHash = oid 20, cr_BlockHeight = 1\<rparr>"

lemma fork_moves:
  "fst (thenE (CR_DetachBlock MainNetParams tail_hash (fork_block 20 [1]))
     (CR_ApplyBlock MainNetParams tail_hash (fork_block 30 [2])) fork_votes) = Inr ()"
  by code_simp

abbreviation fork0 :: chain where
  "fork0 \<equiv> fork_chain [] (\<lambda>_. []) (\<lambda>_. [])"

lemma fork_data:
  "GetBlock fork0 (oid 20) = Some (fork_block 20 [1])" "GetBlock fork0 (oid 30) = Some (fork_block 30 [2])"
  "c_result fork0 1 = Some fork_votes" "cr_BlockHash fork_votes = oid 20"
  by (simp_all add: GetBlock_def fork_chain_def fork_block_def fork_votes_def left_child_def right_child_def)

lemma fork_lists: "calcReorganizeChain 5 fork0 (right_child []) (left_child []) [] [] = Inr ([right_child []], [left_child []])"
proof -
  have "calcReorganizeChain (Suc (Suc n)) fork0 (right_child []) (left_child []) [] [] = Inr ([right_child []], [left_child []])" for n
    by (simp add: fork_simps)
  from this [of 3] show ?thesis by simp
qed

lemma fork_result: "\<exists>r. getConsensusResult 5 fork0 1 (right_child []) = Inr r"
proof -
  obtain c1 c2 where run: "CR_DetachBlock MainNetParams tail_hash (fork_block 20 [1]) fork_votes = (Inr (), c1)"
      "CR_ApplyBlock MainNetParams tail_hash (fork_block 30 [2]) c1 = (Inr (), c2)"
    using runs_ok [OF fork_moves] by (auto simp: thenE_Inr_iff)
  then have "reorganizeConsensusResult 5 fork0 (right_child []) fork_votes = (Inr (), c2)"
    by (simp add: reorganizeConsensusResult_def bindE_apply getsE_def need_def returnE_def liftC_def fork_lists fork_data fork_simps
        thenE_apply with_block_def)
  then show ?thesis by (simp only: getConsensusResult_def fork_data option.case prod.case sum.case sum.inject ex_simps simp_thms)
qed

theorem reorganize_finds_fork_witness:
  "\<exists>f. climbs fork0 f [right_child []] = Some (oid 30) \<and> climbs fork0 f (rev [left_child []]) = Some (oid 20)"
  using reorganize_finds_fork [OF fork_linked, of "[]" "\<lambda>_. []" "\<lambda>_. []" "right_child []" "left_child []" 5]
  by (auto simp: fork_lists fork_stored fork_simps)

theorem getConsensusResult_accounts_witness:
  "\<exists>r. getConsensusResult 5 fork0 1 (right_child []) = Inr r \<and> cr_BlockHash r = oid 30"
proof -
  obtain r where r: "getConsensusResult 5 fork0 1 (right_child []) = Inr r" using fork_result by blast
  have "votes_fit fork_votes" by (simp add: votes_fit_def votes_def fork_votes_def lookup0_def is_u64_def)
  then have "cr_BlockHash r = bhash fork0 (right_child [])"
    using getConsensusResult_accounts [OF fork_linked _ fork_data(3) _ _ _ r, of "left_child []"]
    by (simp add: fork_stored fork_simps fork_data)
  with r show ?thesis by (simp add: fork_simps)
qed

section \<open>One node\<close>

abbreviation fork1 :: "bytes list \<Rightarrow> chain" where
  "fork1 w \<equiv> fork_chain w (\<lambda>r. sorted_list_of_set (dom (cr_NumOfVote r))) (\<lambda>m. sorted_list_of_set (dom m))"

definition one_node :: "string \<rightharpoonup> consensus_node" where
  "one_node = [hex_encode [7] \<mapsto> \<lparr>cn_XPub = [7], cn_VoteNum = 0, cn_Order = 0\<rparr>]"

lemma dom_one_node: "dom one_node = {hex_encode [7]}"
  by (simp add: one_node_def)

lemma fork_ranges: "ranges_ok (fork1 w)"
  by (simp add: ranges_ok_def fork_config)

lemma fork_results: "results_ok (fork1 w)"
proof -
  have "keys_ok r" if "c_result (fork1 w) seq = Some r" for seq r
    using that by (auto simp: fork_chain_def keys_ok_def hex_keys_def split: if_splits)
  then show ?thesis by (auto simp: results_ok_def fork_config)
qed

lemma root_result:
  "getConsensusResult 5 (fork1 w) 0 root =
   Inr \<lparr>cr_Seq = 0, cr_NumOfVote = Map.empty, cr_CoinbaseReward = Map.empty, cr_BlockHash = oid 10, cr_BlockHeight = 0\<rparr>"
proof -
  have r: "c_result (fork1 w) 0 =
      Some \<lparr>cr_Seq = 0, cr_NumOfVote = Map.empty, cr_CoinbaseReward = Map.empty, cr_BlockHash = oid 10, cr_BlockHeight = 0\<rparr>"
    by (simp add: fork_chain_def)
  have "calcReorganizeChain (Suc n) (fork1 w) root root [] [] = Inr ([], [])" for n by simp
  from this [of 4] have "calcReorganizeChain 5 (fork1 w) root root [] [] = Inr ([], [])" by simp
  then show ?thesis
    by (simp add: getConsensusResult_def r reorganizeConsensusResult_def bindE_apply getsE_def need_def fork_simps returnE_def liftC_def
        thenE_apply)
qed

lemma round_cached: "getPrevRoundLastBlock 5 (fork1 w) (oid 10) c = (Inr root, [(oid 10, oid 10)])"
  if "c = [] \<or> c = [(oid 10, oid 10)]"
  using that
  by (auto simp: getPrevRoundLastBlock_def getPrevRoundVoteBlockHash_def bindE_apply cached_def lru_Get_def lru_Add_def lru_Remove_def
      need_def fork_simps returnE_def remember_def thenE_apply modifyE_def maxPrevRoundVoteBlockHashCacheSize_def)

lemma fork_nodes: "getConsensusNodes 5 (fork1 w) (oid 10) c = (Inr one_node, [(oid 10, oid 10)])"
  if "c = [] \<or> c = [(oid 10, oid 10)]"
proof -
  have "CalcVoteSeq MainNetParams (u64 (0 + 1)) = 1" "sub_u64 1 1 = 0" by code_simp+
  then show ?thesis
    by (simp add: getConsensusNodes_def bindE_apply need_def returnE_def round_cached [OF that] fork_simps Let_def root_result liftC_def
        ConsensusNodes_def sort_by_def federationNodes_def one_node_def)
qed

theorem GetBlocker_in_turn_witness:
  "fst (GetBlocker 5 (fork1 []) (oid 10) 50000 []) = Inr (hex_encode [7])"
proof -
  have P: "BlockNumEachNode MainNetParams = 12" "BlockTimeInterval MainNetParams = 500" by (simp_all add: MainNetParams_def)
  show ?thesis
    using GetBlocker_in_turn [OF fork_store_ok lru_keeps_Nil fork_ranges fork_results, of "[]" "oid 10" one_node root 50000]
    by (auto simp: fork_nodes round_cached dom_one_node fork_simps P is_u64_def one_node_def split: if_splits)
qed

theorem irreversible_overlap_witness:
  "\<exists>nodes. fst (getConsensusNodes 5 (fork1 [[1]]) (oid 10) []) = Inr nodes \<and>
    (let N = length (c_node_keys (fork1 [[1]]) nodes) in N < 3 * card {i. i < N \<and> Witness_Get [[1]] i \<noteq> []})"
proof -
  have irr: "fst (isIrreversible 5 (fork1 [[1]]) (left_child [[1]]) [])" "fst (isIrreversible 5 (fork1 [[1]]) (right_child [[1]]) [])"
    by (simp_all add: isIrreversible_def fork_nodes fork_simps dom_one_node Let_def Witness_Get_def)
  have "round_hash (fork1 [[1]]) (oid 10) (oid 10)"
    by (rule round_hash_self [OF fork_linked fork_headers(1)]) (simp add: fork_fields)
  with irreversible_overlap [OF fork_store_ok lru_keeps_Nil lru_keeps_Nil irr, of root root "oid 10"] show ?thesis
    by (simp add: fork_simps)
qed

text \<open>A third child of the root, in the turn of the only node, which has signed it.\<close>

definition new_child :: block_header where
  "new_child = fork_header 1 10 50 [[1]]"

lemma new_child_fields:
  "bh_Height new_child = 1" "bh_PreviousBlockHash new_child = oid 10" "bh_Timestamp new_child = 50000" "bh_Witness new_child = [[1]]"
  "header_Hash tail_hash new_child = oid 50"
  by (simp_all add: new_child_def fork_hash) (simp_all add: fork_header_def)

lemma fork_blocker: "GetBlocker 5 (fork1 []) (oid 10) 50000 [(oid 10, oid 10)] = (Inr (hex_encode [7]), [(oid 10, oid 10)])"
proof -
  have "getBlockerOrder MainNetParams (u64 (10000 + BlockTimeInterval MainNetParams)) 50000 1 = Some 0" by code_simp
  then show ?thesis
    by (simp add: GetBlocker_def bindE_apply fork_nodes round_cached fork_simps dom_one_node need_def returnE_def Let_def)
      (simp add: one_node_def)
qed

lemma new_child_accepted:
  "\<exists>s. validateSign 5 (fork1 []) new_child (new_sign_state new_child [] []) = (Inr (), s) \<and> ss_witness s = [[1]]"
proof -
  have hashes: "c_hashes (fork1 []) 1 = Some [oid 20, oid 30]" by (simp add: fork_chain_def)
  have node: "one_node (hex_encode [7]) = Some \<lparr>cn_XPub = [7], cn_VoteNum = 0, cn_Order = 0\<rparr>" by (simp add: one_node_def)
  have "checkDoubleSign 5 (fork1 []) new_child (hex_encode [7]) [(oid 10, oid 10)] = (Inr (), [(oid 10, oid 10)])"
    by (simp add: checkDoubleSign_def new_child_fields hashes [unfolded One_nat_def] need_def bindE_apply returnE_def thenE_apply fork_simps
        other_block_signed_def getConsensusNode_def fork_nodes node Witness_Get_def)
  then show ?thesis
    by (simp add: validateSign_def bindE_apply on_rounds_def new_sign_state_def new_child_fields fork_nodes fork_blocker fork_simps
        dom_one_node thenE_apply sign_step_def node fetch_signature_def Witness_Get_def check_slot_def checkNodeSign_def assertE_def
        returnE_def getsE_def)
qed

theorem validateSign_keeps_good_witness:
  "\<exists>x. one_node (hex_encode [7]) = Some x \<and> good 5 (fork1 []) new_child x [1]"
proof -
  obtain s where s: "validateSign 5 (fork1 []) new_child (new_sign_state new_child [] []) = (Inr (), s)" "ss_witness s = [[1]]"
    using new_child_accepted by blast
  from validateSign_keeps_good [OF fork_store_ok lru_keeps_Nil fork_ranges s(1)] s(2) show ?thesis
    by (auto simp: new_child_fields fork_nodes one_node_def Witness_Get_def split: if_splits)
qed

end
